(* ===== verification/Prelude.thy ===== *)
theory Prelude
  imports Main "HOL-Library.Word" "HOL-Library.Monad_Syntax"
begin

text \<open>
  The vocabulary the component theories share.  The C sources of the repository compute with
  fixed-width unsigned integers, signed integers, error codes and calls that stop the process;
  this theory fixes how each of them appears in the model and collects the generic lemmas the
  component proofs use.

  \<^item> An unsigned C integer of width \<open>w\<close> is a \<open>w word\<close>, so additions and subtractions wrap
    as they do in C.  \<open>unsigned long\<close>, \<open>size_t\<close> and \<open>uint64_t\<close> are \<open>u64\<close>.
  \<^item> A signed C integer (\<open>int\<close>, \<open>long\<close>) is a HOL \<open>int\<close>.  Signed overflow is undefined
    behaviour in C, so nothing is claimed beyond the range of the C type.  Converting a signed
    value to an unsigned one is \<open>word_of_int\<close>, which reduces modulo \<open>2 ^ w\<close> as C does.
  \<^item> A call to \<open>panic\<close>, \<open>exit\<close> or a failing \<open>assert\<close> ends the process: such an operation
    returns an \<open>option\<close>, and \<open>None\<close> means that the process has stopped.
  \<^item> A pointer into a pool of objects is a \<open>nat\<close> that indexes a heap function; the C null
    pointer, where the code tests for it, is the \<open>None\<close> of an option.
\<close>

type_synonym u8 = "8 word"
type_synonym u16 = "16 word"
type_synonym u32 = "32 word"
type_synonym u64 = "64 word"
type_synonym ptr = nat

section \<open>Error codes\<close>

text \<open>The error codes of \<open>inc/ix/errno.h\<close> and \<open>inc/ix/syscall.h\<close> that the modelled code returns.\<close>

definition ENOENT :: int where "ENOENT = 2"
definition EIO :: int where "EIO = 5"
definition E2BIG :: int where "E2BIG = 7"
definition ENOMEM :: int where "ENOMEM = 12"
definition EEXIST :: int where "EEXIST = 17"
definition ENODEV :: int where "ENODEV = 19"
definition EINVAL :: int where "EINVAL = 22"
definition ENOSPC :: int where "ENOSPC = 28"
definition EAGAIN :: int where "EAGAIN = 35"
definition ENOBUFS :: int where "ENOBUFS = 55"
definition ENAMETOOLONG :: int where "ENAMETOOLONG = 63"
definition ENOSYS :: int where "ENOSYS = 78"

definition RET_OK :: int where "RET_OK = 0"
definition RET_NOMEM :: int where "RET_NOMEM = 1"
definition RET_NOBUFS :: int where "RET_NOBUFS = 2"
definition RET_INVAL :: int where "RET_INVAL = 3"
definition RET_NOSYS :: int where "RET_NOSYS = 6"
definition RET_NOTSUP :: int where "RET_NOTSUP = 7"
definition RET_BADH :: int where "RET_BADH = 8"
definition RET_CLOSED :: int where "RET_CLOSED = 9"
definition RET_CANTMEETSLO :: int where "RET_CANTMEETSLO = 11"

lemmas errno_defs = EEXIST_def ENODEV_def ENOSPC_def ENOBUFS_def ENAMETOOLONG_def ENOSYS_def
  ENOENT_def EIO_def E2BIG_def ENOMEM_def EINVAL_def EAGAIN_def
  RET_OK_def RET_NOMEM_def RET_NOBUFS_def RET_INVAL_def RET_NOSYS_def RET_NOTSUP_def
  RET_BADH_def RET_CLOSED_def RET_CANTMEETSLO_def

section \<open>Machine words\<close>

lemma unat_succ_less: "x < y \<Longrightarrow> unat (x + 1) = Suc (unat x)" for x y :: "'a::len word"
proof -
  assume "x < y"
  then have "x + 1 \<noteq> 0" by (metis word_not_simps(3) add.commute add_eq_0_iff2 word_order.extremum_strict)
  then show ?thesis using unatSuc [of x] by (simp add: add.commute)
qed

lemma unat_lt64 [simp]: "unat (x :: u64) < 18446744073709551616"
  using unsigned_less [of x, where ?'a = nat] by simp

lemma unat_lt32 [simp]: "unat (x :: u32) < 4294967296"
  using unsigned_less [of x, where ?'a = nat] by simp

lemma unat_lt16 [simp]: "unat (x :: u16) < 65536"
  using unsigned_less [of x, where ?'a = nat] by simp

lemma unat_lt8 [simp]: "unat (x :: u8) < 256"
  using unsigned_less [of x, where ?'a = nat] by simp

lemma unat_add_small: "unat x + unat y < 2 ^ LENGTH('a) \<Longrightarrow> unat (x + y) = unat x + unat y"
  for x y :: "'a::len word"
  by (simp add: unat_word_ariths)

lemma unat_ucast_up32 [simp]: "unat (ucast (x :: u32) :: u64) = unat x"
  unfolding unsigned_ucast_eq by (rule take_bit_nat_eq_self) (simp add: order.strict_trans [OF unat_lt32])

lemma sint_nonneg_unat: "0 \<le> sint x \<Longrightarrow> sint x = int (unat x)" for x :: u32
proof -
  have s: "sint x = (uint x + 2147483648) mod 4294967296 - 2147483648"
    using int_word_sint [of "uint x", where ?'a = 32] by simp
  have u: "uint x < 4294967296" "0 \<le> uint x" using unsigned_less [of x, where ?'a = int] by simp_all
  have "(uint x + 2147483648) mod 4294967296 =
      (if uint x < 2147483648 then uint x + 2147483648 else uint x - 2147483648)"
    using u by (auto simp: mod_pos_pos_trivial mod_pos_geq)
  then have "0 \<le> sint x \<Longrightarrow> sint x = uint x" unfolding s using u by (auto split: if_splits)
  then show "0 \<le> sint x \<Longrightarrow> sint x = int (unat x)" by simp
qed

lemma sint_eq_0: "sint w = 0 \<longleftrightarrow> w = 0" for w :: "'a::len word"
proof
  assume "sint w = 0"
  then have "word_of_int (sint w) = (0 :: 'a word)" by simp
  then show "w = 0" by simp
qed simp

end
