(* ===== verification/CDouble.thy ===== *)
theory CDouble
  imports Complex_Main "HOL-Library.Log_Nat" Prelude
begin

text \<open>
  The C type \<open>double\<close>.  The scheduler and the admission control compute token rates in
  \<open>double\<close>; the model keeps the value of a \<open>double\<close> as a rational and rounds after every
  operation to 53 significant bits, ties to even, as IEEE 754 binary64 does.  The exponent is
  not bounded: the values the code computes stay far from the overflow and subnormal ranges.
\<close>

section \<open>Rounding to an integer, ties to even\<close>

definition rne :: "rat \<Rightarrow> int" where
  "rne x = (let f = \<lfloor>x\<rfloor>; d = x - of_int f
            in if d < 1 / 2 then f
               else if 1 / 2 < d then f + 1
               else if even f then f else f + 1)"

lemma rne_of_int [simp]: "rne (of_int n) = n"
  by (simp add: rne_def)

lemma rne_floor_bounds: "\<lfloor>x\<rfloor> \<le> rne x" "rne x \<le> \<lfloor>x\<rfloor> + 1"
  by (auto simp: rne_def Let_def)

lemma rne_mono: "x \<le> y \<Longrightarrow> rne x \<le> rne y"
proof (cases "\<lfloor>x\<rfloor> = \<lfloor>y\<rfloor>")
  case True
  assume "x \<le> y"
  with True show ?thesis by (auto simp: rne_def Let_def)
next
  case False
  assume "x \<le> y"
  then have "\<lfloor>x\<rfloor> \<le> \<lfloor>y\<rfloor>" by (rule floor_mono)
  with False have "\<lfloor>x\<rfloor> + 1 \<le> \<lfloor>y\<rfloor>" by simp
  then show ?thesis using rne_floor_bounds(2) [of x] rne_floor_bounds(1) [of y] by linarith
qed

lemma rne_le_of_int: "x \<le> of_int n \<Longrightarrow> rne x \<le> n"
  using rne_mono [of x "of_int n"] by simp

lemma rne_ge_of_int: "of_int n \<le> x \<Longrightarrow> n \<le> rne x"
  using rne_mono [of "of_int n" x] by simp

lemma rne_minus: "rne (- x) = - rne x"
proof (cases "x = of_int \<lfloor>x\<rfloor>")
  case True
  then have "- x = of_int (- \<lfloor>x\<rfloor>)" by simp
  then show ?thesis by (metis True rne_of_int)
next
  case False
  have f: "\<lfloor>- x\<rfloor> = - \<lfloor>x\<rfloor> - 1"
  proof (rule floor_unique)
    show "of_int (- \<lfloor>x\<rfloor> - 1) \<le> - x" by (simp, linarith)
    have "of_int \<lfloor>x\<rfloor> < x" using False of_int_floor_le [of x] by linarith
    then show "- x < of_int (- \<lfloor>x\<rfloor> - 1) + 1" by simp
  qed
  have d: "- x - of_int \<lfloor>- x\<rfloor> = 1 - (x - of_int \<lfloor>x\<rfloor>)" unfolding f by simp
  define g where "g = x - of_int \<lfloor>x\<rfloor>"
  have *: "rne x = (if g < 1 / 2 then \<lfloor>x\<rfloor> else if 1 / 2 < g then \<lfloor>x\<rfloor> + 1
                    else if even \<lfloor>x\<rfloor> then \<lfloor>x\<rfloor> else \<lfloor>x\<rfloor> + 1)"
    by (simp add: rne_def g_def)
  have "rne (- x) = (if 1 - g < 1 / 2 then - \<lfloor>x\<rfloor> - 1 else if 1 / 2 < 1 - g then - \<lfloor>x\<rfloor>
                    else if even (- \<lfloor>x\<rfloor> - 1) then - \<lfloor>x\<rfloor> - 1 else - \<lfloor>x\<rfloor>)"
    unfolding rne_def Let_def d unfolding g_def f by simp
  then show ?thesis unfolding * by auto
qed

section \<open>The binary exponent of a positive rational\<close>

definition ilog2 :: "rat \<Rightarrow> int" where
  "ilog2 x = (let (p, q) = quotient_of x;
                  e = int (floorlog 2 (nat p)) - int (floorlog 2 (nat q))
              in if 2 powi e \<le> x then e else e - 1)"

lemma floorlog2_bounds:
  assumes "0 < n"
  shows "(2::rat) ^ (floorlog 2 n - 1) \<le> of_nat n" "of_nat n < (2::rat) ^ floorlog 2 n"
proof -
  have "2 ^ (floorlog 2 n - 1) \<le> n" "n < 2 ^ floorlog 2 n"
    using floorlog_bounds [of n 2] assms by auto
  then show "(2::rat) ^ (floorlog 2 n - 1) \<le> of_nat n" "of_nat n < (2::rat) ^ floorlog 2 n"
    by (metis of_nat_le_iff of_nat_numeral of_nat_power,
        metis of_nat_less_iff of_nat_numeral of_nat_power)
qed


lemma powi_diff_nat: "(2::rat) powi (int a - int b) = 2 ^ a / 2 ^ b"
  by (simp add: power_int_diff)

lemma ilog2_bounds:
  assumes "0 < x"
  shows "2 powi (ilog2 x) \<le> x" "x < 2 powi (ilog2 x + 1)"
proof -
  obtain p q where pq: "quotient_of x = (p, q)" by (cases "quotient_of x")
  have q: "0 < q" using pq by (rule quotient_of_denom_pos)
  have x: "x = of_int p / of_int q" using pq by (rule quotient_of_div)
  have p: "0 < p" using assms x q by (simp add: zero_less_divide_iff)
  define a b where "a = floorlog 2 (nat p)" and "b = floorlog 2 (nat q)"
  have a1: "(2::rat) ^ (a - 1) \<le> of_int p" and a2: "of_int p < (2::rat) ^ a"
    using floorlog2_bounds [of "nat p"] p unfolding a_def by simp_all
  have b1: "(2::rat) ^ (b - 1) \<le> of_int q" and b2: "of_int q < (2::rat) ^ b"
    using floorlog2_bounds [of "nat q"] q unfolding b_def by simp_all
  have a0: "0 < a" and b0: "0 < b" using p q by (simp_all add: a_def b_def floorlog_def)
  have up: "x < 2 powi (int a - int b + 1)"
  proof -
    have "x < 2 ^ a / 2 ^ (b - 1)" unfolding x
      using a2 b1 q p by (intro frac_less) auto
    also have "\<dots> = 2 powi (int a - int (b - 1))" by (rule powi_diff_nat [symmetric])
    also have "int a - int (b - 1) = int a - int b + 1" using b0 by (simp add: of_nat_diff)
    finally show ?thesis .
  qed
  have lo: "2 powi (int a - int b - 1) \<le> x"
  proof -
    have "(2::rat) powi (int a - int b - 1) = 2 powi (int (a - 1) - int b)"
      using a0 by (simp add: of_nat_diff algebra_simps)
    also have "\<dots> = 2 ^ (a - 1) / 2 ^ b" by (rule powi_diff_nat)
    also have "\<dots> \<le> x" unfolding x using a1 b2 q p by (intro frac_le) auto
    finally show ?thesis .
  qed
  have il: "ilog2 x = (if 2 powi (int a - int b) \<le> x then int a - int b else int a - int b - 1)"
    by (simp add: ilog2_def pq a_def b_def)
  show "2 powi (ilog2 x) \<le> x" using lo by (simp add: il)
  show "x < 2 powi (ilog2 x + 1)" using up by (simp add: il)
qed

lemma powi_two_mono: "i \<le> j \<Longrightarrow> (2::rat) powi i \<le> 2 powi j"
  by (rule power_int_increasing) auto

lemma powi_two_less_cancel: "(2::rat) powi i < 2 powi j \<Longrightarrow> i < j"
  using powi_two_mono [of j i] by linarith

lemma ilog2_mono:
  assumes "0 < x" "x \<le> y"
  shows "ilog2 x \<le> ilog2 y"
proof -
  have "2 powi (ilog2 x) < (2::rat) powi (ilog2 y + 1)"
    using ilog2_bounds(1) [of x] ilog2_bounds(2) [of y] assms by linarith
  then show ?thesis using powi_two_less_cancel by fastforce
qed

section \<open>Rounding to 53 significant bits\<close>

definition ulp :: "rat \<Rightarrow> rat" where
  "ulp x = 2 powi (ilog2 \<bar>x\<bar> - 52)"

definition rnd :: "rat \<Rightarrow> rat" where
  "rnd x = (if x = 0 then 0 else of_int (rne (x / ulp x)) * ulp x)"

text \<open>The arithmetic of \<open>double\<close>: the exact result, rounded.\<close>

definition dadd :: "rat \<Rightarrow> rat \<Rightarrow> rat" where "dadd a b = rnd (a + b)"
definition dsub :: "rat \<Rightarrow> rat \<Rightarrow> rat" where "dsub a b = rnd (a - b)"
definition dmul :: "rat \<Rightarrow> rat \<Rightarrow> rat" where "dmul a b = rnd (a * b)"
definition ddiv :: "rat \<Rightarrow> rat \<Rightarrow> rat" where "ddiv a b = rnd (a / b)"

text \<open>Conversion of an integer to \<open>double\<close>, and the truncating conversion back.\<close>

definition d_of_int :: "int \<Rightarrow> rat" where "d_of_int n = rnd (of_int n)"

definition d_trunc :: "rat \<Rightarrow> int" where
  "d_trunc x = (if 0 \<le> x then \<lfloor>x\<rfloor> else \<lceil>x\<rceil>)"

lemmas double_defs = dadd_def dsub_def dmul_def ddiv_def d_of_int_def

lemma ulp_pos [simp]: "0 < ulp x"
  by (simp add: ulp_def)

lemma ulp_minus [simp]: "ulp (- x) = ulp x"
  by (simp add: ulp_def)

lemma rnd_0 [simp]: "rnd 0 = 0"
  by (simp add: rnd_def)

lemma rnd_minus: "rnd (- x) = - rnd x"
  by (simp add: rnd_def rne_minus)

lemma div_ulp_bounds:
  assumes "0 < x"
  shows "2 ^ 52 \<le> x / ulp x" "x / ulp x < 2 ^ 53"
proof -
  have e: "(2::rat) powi (ilog2 x) = 2 ^ 52 * ulp x" "(2::rat) powi (ilog2 x + 1) = 2 ^ 53 * ulp x"
    using assms power_int_add [of "2::rat" 52 "ilog2 x - 52"]
      power_int_add [of "2::rat" 53 "ilog2 x - 52"]
    by (simp_all add: ulp_def algebra_simps)
  show "2 ^ 52 \<le> x / ulp x" "x / ulp x < 2 ^ 53"
    using ilog2_bounds [OF assms] unfolding e by (simp_all add: field_simps)
qed

lemma rnd_pos_bounds:
  assumes "0 < x"
  shows "2 powi (ilog2 x) \<le> rnd x" "rnd x \<le> 2 powi (ilog2 x + 1)"
proof -
  have e: "(2::rat) powi (ilog2 x) = of_int (2 ^ 52) * ulp x"
    "(2::rat) powi (ilog2 x + 1) = of_int (2 ^ 53) * ulp x"
    using assms power_int_add [of "2::rat" 52 "ilog2 x - 52"]
      power_int_add [of "2::rat" 53 "ilog2 x - 52"]
    by (simp_all add: ulp_def algebra_simps)
  have "2 ^ 52 \<le> rne (x / ulp x)" "rne (x / ulp x) \<le> 2 ^ 53"
    using rne_ge_of_int [of "2 ^ 52" "x / ulp x"] rne_le_of_int [of "x / ulp x" "2 ^ 53"]
      div_ulp_bounds [OF assms] by simp_all
  then have "of_int (2 ^ 52) * ulp x \<le> of_int (rne (x / ulp x)) * ulp x"
    "of_int (rne (x / ulp x)) * ulp x \<le> of_int (2 ^ 53) * ulp x"
    by (simp_all only: mult_le_cancel_right_pos [OF ulp_pos] of_int_le_iff)
  then show "2 powi (ilog2 x) \<le> rnd x" "rnd x \<le> 2 powi (ilog2 x + 1)"
    using assms by (simp_all add: rnd_def e)
qed

lemma rnd_mono_pos:
  assumes "0 < x" "x \<le> y"
  shows "rnd x \<le> rnd y"
proof (cases "ilog2 x = ilog2 y")
  case True
  have "ulp x = ulp y" using True assms by (simp add: ulp_def)
  moreover have "rne (x / ulp y) \<le> rne (y / ulp y)"
    using assms by (intro rne_mono divide_right_mono) (auto intro: less_imp_le)
  ultimately show ?thesis using assms by (simp add: rnd_def)
next
  case False
  then have "ilog2 x + 1 \<le> ilog2 y" using ilog2_mono [OF assms] by simp
  then have "(2::rat) powi (ilog2 x + 1) \<le> 2 powi (ilog2 y)" by (rule powi_two_mono)
  then show ?thesis
    using rnd_pos_bounds(2) [of x] rnd_pos_bounds(1) [of y] assms by linarith
qed

lemma rnd_nonneg: "0 \<le> x \<Longrightarrow> 0 \<le> rnd x"
proof (cases "x = 0")
  case False
  assume "0 \<le> x"
  with False have x: "0 < x" by simp
  have "(0::rat) < 2 powi (ilog2 x)" by simp
  with rnd_pos_bounds(1) [OF x] show ?thesis by linarith
qed simp

lemma rnd_mono: "x \<le> y \<Longrightarrow> rnd x \<le> rnd y"
proof -
  assume xy: "x \<le> y"
  consider "0 < x" | "x \<le> 0" "0 \<le> y" | "y < 0" by linarith
  then show ?thesis
  proof cases
    case 1
    then show ?thesis using xy by (rule rnd_mono_pos)
  next
    case 2
    then show ?thesis using rnd_nonneg [of y] rnd_nonneg [of "- x"] by (simp add: rnd_minus)
  next
    case 3
    then have "rnd (- y) \<le> rnd (- x)" using xy by (intro rnd_mono_pos) auto
    then show ?thesis by (simp add: rnd_minus)
  qed
qed

text \<open>A number with at most 53 significant bits is not changed by rounding.\<close>

lemma rnd_exact_pos:
  assumes m: "0 < m" "m < 2 ^ 53" and x: "x = of_int m * 2 powi k"
  shows "rnd x = x"
proof -
  have x0: "0 < x" using m by (simp add: x)
  have "2 powi (ilog2 x) < (2::rat) powi (53 + k)"
  proof -
    have "x < of_int (2 ^ 53) * 2 powi k"
      unfolding x using m(2) by (intro mult_strict_right_mono) (simp_all only: of_int_less_iff, simp)
    also have "\<dots> = 2 powi (53 + k)" by (simp add: power_int_add)
    finally show ?thesis using ilog2_bounds(1) [OF x0] by linarith
  qed
  then have e: "ilog2 x - 52 \<le> k" using powi_two_less_cancel by fastforce
  have "x / ulp x = of_int m * 2 powi (k - (ilog2 x - 52))"
    using x0 by (simp add: ulp_def x power_int_diff)
  also have "\<dots> = of_int (m * 2 ^ nat (k - (ilog2 x - 52)))"
    using e by (simp add: power_int_def)
  finally have q: "x / ulp x = of_int (m * 2 ^ nat (k - (ilog2 x - 52)))" .
  have "rnd x = x / ulp x * ulp x" using x0 unfolding rnd_def q rne_of_int by simp
  then show ?thesis using ulp_pos [of x] by simp
qed

lemma rnd_exact:
  assumes "\<bar>m\<bar> < 2 ^ 53"
  shows "rnd (of_int m * 2 powi k) = of_int m * 2 powi k"
proof -
  consider "0 < m" | "m = 0" | "m < 0" by linarith
  then show ?thesis
  proof cases
    case 1
    then show ?thesis using assms rnd_exact_pos [of m _ k] by simp
  next
    case 2
    then show ?thesis by simp
  next
    case 3
    then have "rnd (of_int (- m) * 2 powi k) = of_int (- m) * 2 powi k"
      using assms by (intro rnd_exact_pos) auto
    then show ?thesis by (simp add: rnd_minus)
  qed
qed

lemma rnd_of_int: "\<bar>m\<bar> < 2 ^ 53 \<Longrightarrow> rnd (of_int m) = of_int m"
  using rnd_exact [of m 0] by simp

lemma rnd_half: "\<bar>m\<bar> < 2 ^ 53 \<Longrightarrow> rnd (of_int m / 2) = of_int m / 2"
  using rnd_exact [of m "- 1"] unfolding power_int_minus power_int_1_right divide_inverse .

lemma d_of_int_exact [simp]: "\<bar>m\<bar> < 2 ^ 53 \<Longrightarrow> d_of_int m = of_int m"
  by (simp add: d_of_int_def rnd_of_int)

lemma d_of_int_mono: "a \<le> b \<Longrightarrow> d_of_int a \<le> d_of_int b"
  by (simp add: d_of_int_def rnd_mono)

lemma d_of_int_nonneg: "0 \<le> a \<Longrightarrow> 0 \<le> d_of_int a"
  by (simp add: d_of_int_def rnd_nonneg)

lemma d_trunc_mono: "x \<le> y \<Longrightarrow> d_trunc x \<le> d_trunc y"
  unfolding d_trunc_def by (auto intro: floor_mono ceiling_mono) (meson ceiling_le_zero dual_order.trans less_le_not_le linorder_le_cases zero_le_floor)

lemma d_trunc_of_int [simp]: "d_trunc (of_int n) = n"
  by (simp add: d_trunc_def)

lemma d_trunc_nonneg: "0 \<le> x \<Longrightarrow> 0 \<le> d_trunc x"
  by (simp add: d_trunc_def)

lemma d_trunc_le: "x \<le> of_int n \<Longrightarrow> d_trunc x \<le> n"
  using d_trunc_mono [of x "of_int n"] by simp

lemma d_trunc_ge: "of_int n \<le> x \<Longrightarrow> n \<le> d_trunc x"
  using d_trunc_mono [of "of_int n" x] by simp

end
