(* ===== verification/Bitmap.thy ===== *)
theory Bitmap
  imports Prelude
begin

text \<open>
  The bit arrays of \<open>inc/ix/bitmap.h\<close>.  A bitmap is an array of \<open>unsigned long\<close>; the model
  indexes the array by \<open>nat\<close>.  The interface below is what the NVMe code relies on: the bits
  are independent of each other.
\<close>

unbundle bit_operations_syntax

locale bitset =
  fixes test :: "'b \<Rightarrow> nat \<Rightarrow> bool"
    and set_bit' :: "'b \<Rightarrow> nat \<Rightarrow> 'b"
    and clear :: "'b \<Rightarrow> nat \<Rightarrow> 'b"
  assumes test_set [simp]: "test (set_bit' b i) j \<longleftrightarrow> i = j \<or> test b j"
    and test_clear [simp]: "test (clear b i) j \<longleftrightarrow> i \<noteq> j \<and> test b j"
begin

text \<open>The positions below a bound that are set.\<close>

lemma set_below:
  "i < n \<Longrightarrow> {j. j < n \<and> test (set_bit' b i) j} = insert i {j. j < n \<and> test b j}"
  by auto

lemma clear_below: "{j. j < n \<and> test (clear b i) j} = {j. j < n \<and> test b j} - {i}"
  by auto

lemma card_set_below:
  assumes "i < n" "\<not> test b i"
  shows "card {j. j < n \<and> test (set_bit' b i) j} = Suc (card {j. j < n \<and> test b j})"
  unfolding set_below [OF assms(1)] using assms(2) by simp

lemma card_clear_below:
  assumes "i < n" "test b i"
  shows "Suc (card {j. j < n \<and> test (clear b i) j}) = card {j. j < n \<and> test b j}"
  unfolding clear_below using assms by (intro card_Suc_Diff1) auto

lemma set_clear_test: "\<not> test b i \<Longrightarrow> test (clear (set_bit' b i) i) = test b"
  by (rule ext) auto

end

type_synonym bitmap = "nat \<Rightarrow> u64"

definition BITS_PER_LONG :: nat where "BITS_PER_LONG = 64"

definition BITMAP_LONG_SIZE :: "nat \<Rightarrow> nat" where
  "BITMAP_LONG_SIZE nbits = (nbits + BITS_PER_LONG - 1) div BITS_PER_LONG"

definition BITMAP_POS_IDX :: "nat \<Rightarrow> nat" where
  "BITMAP_POS_IDX pos = pos div BITS_PER_LONG"

definition BITMAP_POS_SHIFT :: "nat \<Rightarrow> nat" where
  "BITMAP_POS_SHIFT pos = pos AND (BITS_PER_LONG - 1)"

definition bitmap_set :: "bitmap \<Rightarrow> nat \<Rightarrow> bitmap" where
  "bitmap_set bits pos =
     bits(BITMAP_POS_IDX pos := bits (BITMAP_POS_IDX pos) OR push_bit (BITMAP_POS_SHIFT pos) 1)"

definition bitmap_clear :: "bitmap \<Rightarrow> nat \<Rightarrow> bitmap" where
  "bitmap_clear bits pos =
     bits(BITMAP_POS_IDX pos := bits (BITMAP_POS_IDX pos) AND NOT (push_bit (BITMAP_POS_SHIFT pos) 1))"

definition bitmap_test :: "bitmap \<Rightarrow> nat \<Rightarrow> bool" where
  "bitmap_test bits pos \<longleftrightarrow>
     bits (BITMAP_POS_IDX pos) AND push_bit (BITMAP_POS_SHIFT pos) 1 \<noteq> 0"

definition bitmap_init :: "bitmap \<Rightarrow> nat \<Rightarrow> bool \<Rightarrow> bitmap" where
  "bitmap_init bits nbits state =
     (\<lambda>i. if i < BITMAP_LONG_SIZE nbits then (if state then - 1 else 0) else bits i)"

lemma BITMAP_POS_SHIFT_mod: "BITMAP_POS_SHIFT pos = pos mod 64"
proof -
  have "pos AND mask 6 = pos mod 2 ^ 6" by (simp add: take_bit_eq_mask [symmetric] take_bit_eq_mod)
  then show ?thesis by (simp add: BITMAP_POS_SHIFT_def BITS_PER_LONG_def mask_eq_exp_minus_1)
qed

lemma BITMAP_POS_SHIFT_lt [simp]: "BITMAP_POS_SHIFT pos < 64"
  by (simp add: BITMAP_POS_SHIFT_mod)

lemma bitmap_pos_eq: "BITMAP_POS_IDX i = BITMAP_POS_IDX j \<Longrightarrow> BITMAP_POS_SHIFT i = BITMAP_POS_SHIFT j \<Longrightarrow> i = j"
  by (metis BITMAP_POS_IDX_def BITMAP_POS_SHIFT_mod BITS_PER_LONG_def div_mult_mod_eq)

lemma bitmap_test_bit: "bitmap_test bits pos \<longleftrightarrow> bit (bits (BITMAP_POS_IDX pos)) (BITMAP_POS_SHIFT pos)"
  by (simp add: bitmap_test_def and_exp_eq_0_iff_not_bit)

lemma bitmap_pos_cases:
  obtains "i = j" | "i \<noteq> j" "BITMAP_POS_IDX i \<noteq> BITMAP_POS_IDX j"
  | "i \<noteq> j" "BITMAP_POS_IDX i = BITMAP_POS_IDX j" "BITMAP_POS_SHIFT i \<noteq> BITMAP_POS_SHIFT j"
  using bitmap_pos_eq by blast

lemma bit_two_power_u64: "bit ((2::u64) ^ m) n \<longleftrightarrow> m = n \<and> m < 64"
  by (auto simp: bit_exp_iff)

lemmas bitmap_bit_simps = bitmap_test_bit bit_or_iff bit_and_iff bit_not_iff bit_two_power_u64

lemma bitmap_test_set: "bitmap_test (bitmap_set bits i) j \<longleftrightarrow> i = j \<or> bitmap_test bits j"
  by (rule bitmap_pos_cases [of i j]) (simp_all add: bitmap_bit_simps bitmap_set_def)

lemma bitmap_test_clear: "bitmap_test (bitmap_clear bits i) j \<longleftrightarrow> i \<noteq> j \<and> bitmap_test bits j"
  by (rule bitmap_pos_cases [of i j]) (simp_all add: bitmap_bit_simps bitmap_clear_def)

lemma bitmap_test_init:
  "pos < nbits \<Longrightarrow> bitmap_test (bitmap_init bits nbits state) pos = state"
proof -
  assume "pos < nbits"
  then have "BITMAP_POS_IDX pos < BITMAP_LONG_SIZE nbits"
    by (simp add: BITMAP_POS_IDX_def BITMAP_LONG_SIZE_def BITS_PER_LONG_def)
  then show ?thesis by (simp add: bitmap_test_bit bitmap_init_def bit_minus_1_iff)
qed

interpretation bm: bitset bitmap_test bitmap_set bitmap_clear
  by unfold_locales (rule bitmap_test_set bitmap_test_clear)+

end
