(* ===== verification/IxList.thy ===== *)
theory IxList
  imports Prelude
begin

text \<open>
  The intrusive linked lists of \<open>inc/ix/list.h\<close>: the cyclic doubly linked \<open>list\<close> and the
  null-terminated \<open>hlist\<close>.  The model keeps the pointer fields in a heap and runs the
  assignments of the C code one by one; the lemmas show that every operation refines the
  corresponding operation on sequences of nodes.  The scheduler's tenant list, the timer wheel
  and the ARP table are such lists, and the component theories use them through this contract.
\<close>

section \<open>The interface of an intrusive list\<close>

text \<open>
  What a client relies on: \<open>rep s h xs\<close> says that in the heap \<open>s\<close> the list headed by \<open>h\<close>
  holds the nodes \<open>xs\<close> in this order; \<open>footprint\<close> is the part of the heap the list owns.
\<close>

locale intrusive_list =
  fixes rep :: "'s \<Rightarrow> ptr \<Rightarrow> ptr list \<Rightarrow> bool"
    and empty_head :: "ptr \<Rightarrow> 's \<Rightarrow> 's"
    and add :: "ptr \<Rightarrow> ptr \<Rightarrow> 's \<Rightarrow> 's"
    and del :: "ptr \<Rightarrow> 's \<Rightarrow> 's"
    and is_empty :: "ptr \<Rightarrow> 's \<Rightarrow> bool"
  assumes rep_distinct: "rep s h xs \<Longrightarrow> distinct (h # xs)"
    and rep_empty: "rep (empty_head h s) h []"
    and rep_is_empty: "rep s h xs \<Longrightarrow> is_empty h s = (xs = [])"
    and rep_add: "rep s h xs \<Longrightarrow> n \<notin> set (h # xs) \<Longrightarrow> rep (add h n s) h (n # xs)"
    and rep_del: "rep s h xs \<Longrightarrow> n \<in> set xs \<Longrightarrow> rep (del n s) h (remove1 n xs)"
    and frame_add: "rep s g ys \<Longrightarrow> rep s h xs \<Longrightarrow> set (g # ys) \<inter> set (h # xs) = {} \<Longrightarrow>
        n \<notin> set (g # ys) \<Longrightarrow> rep (add h n s) g ys"
    and frame_del: "rep s g ys \<Longrightarrow> rep s h xs \<Longrightarrow> set (g # ys) \<inter> set (h # xs) = {} \<Longrightarrow>
        n \<in> set xs \<Longrightarrow> rep (del n s) g ys"
begin

lemma add_del: "rep s h xs \<Longrightarrow> n \<notin> set (h # xs) \<Longrightarrow> rep (del n (add h n s)) h xs"
  using rep_del [OF rep_add, of s h xs n n] by simp

lemma del_notin: "rep s h xs \<Longrightarrow> n \<in> set xs \<Longrightarrow> \<exists>ys. rep (del n s) h ys \<and> n \<notin> set ys"
  using rep_del [of s h xs n] rep_distinct [of s h xs] by (intro exI [of _ "remove1 n xs"]) simp

lemma rep_fold_add:
  "rep s h xs \<Longrightarrow> distinct ns \<Longrightarrow> set ns \<inter> set (h # xs) = {} \<Longrightarrow>
   rep (fold (add h) ns s) h (rev ns @ xs)"
proof (induction ns arbitrary: s xs)
  case (Cons n ns)
  have "rep (add h n s) h (n # xs)" using Cons.prems by (intro rep_add) auto
  then have "rep (fold (add h) ns (add h n s)) h (rev ns @ n # xs)"
    using Cons.prems by (intro Cons.IH) auto
  then show ?case by simp
qed simp

text \<open>Moving a node between two lists of the same heap.\<close>

lemma rep_move:
  assumes "rep s h xs" "rep s g ys" "set (g # ys) \<inter> set (h # xs) = {}" "n \<in> set xs"
  shows "rep (add g n (del n s)) g (n # ys)" "rep (add g n (del n s)) h (remove1 n xs)"
proof -
  have h: "rep (del n s) h (remove1 n xs)" using assms by (intro rep_del) auto
  have g: "rep (del n s) g ys" using assms by (intro frame_del [of s g ys h xs]) auto
  have n: "n \<notin> set (g # ys)" using assms by auto
  have d: "n \<notin> set (h # remove1 n xs)"
    using rep_distinct [OF assms(1)] assms(4) by auto
  show "rep (add g n (del n s)) g (n # ys)" using g n by (rule rep_add)
  have "set (h # remove1 n xs) \<inter> set (g # ys) = {}"
    using assms(3) set_remove1_subset [of n xs] by auto
  then show "rep (add g n (del n s)) h (remove1 n xs)" using h g d by (intro frame_add) auto
qed

end

section \<open>The cyclic doubly linked list\<close>

record lheap =
  nxt :: "ptr \<Rightarrow> ptr"
  prv :: "ptr \<Rightarrow> ptr"

definition set_nxt :: "ptr \<Rightarrow> ptr \<Rightarrow> lheap \<Rightarrow> lheap" where
  "set_nxt p v s = s\<lparr>nxt := (nxt s)(p := v)\<rparr>"

definition set_prv :: "ptr \<Rightarrow> ptr \<Rightarrow> lheap \<Rightarrow> lheap" where
  "set_prv p v s = s\<lparr>prv := (prv s)(p := v)\<rparr>"

lemma set_nxt_sel [simp]: "nxt (set_nxt p v s) = (nxt s)(p := v)" "prv (set_nxt p v s) = prv s"
  by (simp_all add: set_nxt_def)

lemma set_prv_sel [simp]: "prv (set_prv p v s) = (prv s)(p := v)" "nxt (set_prv p v s) = nxt s"
  by (simp_all add: set_prv_def)

definition list_head_init :: "ptr \<Rightarrow> lheap \<Rightarrow> lheap" where
  "list_head_init h s = set_nxt h h (set_prv h h s)"

definition list_add :: "ptr \<Rightarrow> ptr \<Rightarrow> lheap \<Rightarrow> lheap" where
  "list_add h n s =
     (let s = set_nxt n (nxt s h) s;
          s = set_prv n h s;
          s = set_prv (nxt s h) n s
      in set_nxt h n s)"

definition list_add_tail :: "ptr \<Rightarrow> ptr \<Rightarrow> lheap \<Rightarrow> lheap" where
  "list_add_tail h n s =
     (let s = set_nxt n h s;
          s = set_prv n (prv s h) s;
          s = set_nxt (prv s h) n s
      in set_prv h n s)"

definition list_empty :: "ptr \<Rightarrow> lheap \<Rightarrow> bool" where
  "list_empty h s \<longleftrightarrow> nxt s h = h"

definition list_del :: "ptr \<Rightarrow> lheap \<Rightarrow> lheap" where
  "list_del n s =
     (let s = set_prv (nxt s n) (prv s n) s
      in set_nxt (prv s n) (nxt s n) s)"

definition list_top :: "ptr \<Rightarrow> lheap \<Rightarrow> ptr option" where
  "list_top h s = (if list_empty h s then None else Some (nxt s h))"

definition list_pop :: "ptr \<Rightarrow> lheap \<Rightarrow> ptr option \<times> lheap" where
  "list_pop h s = (if list_empty h s then (None, s) else (Some (nxt s h), list_del (nxt s h) s))"

definition list_tail :: "ptr \<Rightarrow> lheap \<Rightarrow> ptr option" where
  "list_tail h s = (if list_empty h s then None else Some (prv s h))"

definition list_append_list :: "ptr \<Rightarrow> ptr \<Rightarrow> lheap \<Rightarrow> lheap" where
  "list_append_list to from s =
     (let from_tail = prv s from;
          to_tail = prv s to;
          s = set_prv to from_tail s;
          s = set_nxt from_tail to s;
          s = set_nxt to_tail from s;
          s = set_prv from to_tail s;
          s = list_del from s
      in list_head_init from s)"

definition list_prepend_list :: "ptr \<Rightarrow> ptr \<Rightarrow> lheap \<Rightarrow> lheap" where
  "list_prepend_list to from s =
     (let from_tail = prv s from;
          to_head = nxt s to;
          s = set_nxt to from s;
          s = set_prv from to s;
          s = set_prv to_head from_tail s;
          s = set_nxt from_tail to_head s;
          s = list_del from s
      in list_head_init from s)"

text \<open>
  \<open>list_for_each\<close>: the nodes the loop visits, starting from the node \<open>i\<close>, until it is back at
  the head.  The fuel bounds the number of nodes visited; \<open>None\<close> means that the head was not
  reached.
\<close>

fun list_for_each_off :: "nat \<Rightarrow> ptr \<Rightarrow> ptr \<Rightarrow> lheap \<Rightarrow> ptr list option" where
  "list_for_each_off fuel h i s =
     (if i = h then Some []
      else case fuel of 0 \<Rightarrow> None
           | Suc fuel' \<Rightarrow> map_option ((#) i) (list_for_each_off fuel' h (nxt s i) s))"

declare list_for_each_off.simps [simp del]


subsection \<open>Representation\<close>

text \<open>
  \<open>chain s p xs q\<close>: from \<open>p\<close> the \<open>next\<close> pointers lead through \<open>xs\<close> to \<open>q\<close>, and the
  \<open>prev\<close> pointers lead back.
\<close>

fun chain :: "lheap \<Rightarrow> ptr \<Rightarrow> ptr list \<Rightarrow> ptr \<Rightarrow> bool" where
  "chain s p [] q \<longleftrightarrow> nxt s p = q \<and> prv s q = p"
| "chain s p (x # xs) q \<longleftrightarrow> nxt s p = x \<and> prv s x = p \<and> chain s x xs q"

definition list_rep :: "lheap \<Rightarrow> ptr \<Rightarrow> ptr list \<Rightarrow> bool" where
  "list_rep s h xs \<longleftrightarrow> distinct (h # xs) \<and> chain s h xs h"

lemma chain_append: "chain s p (xs @ x # ys) q \<longleftrightarrow> chain s p xs x \<and> chain s x ys q"
  by (induction xs arbitrary: p) auto

lemma chain_cong:
  "(\<And>a. a \<in> set (p # xs) \<Longrightarrow> nxt s' a = nxt s a) \<Longrightarrow>
   (\<And>a. a \<in> set (xs @ [q]) \<Longrightarrow> prv s' a = prv s a) \<Longrightarrow> chain s' p xs q = chain s p xs q"
  by (induction xs arbitrary: p) auto

lemma chain_first: "chain s p xs q \<Longrightarrow> nxt s p = hd (xs @ [q])"
  by (cases xs) auto

lemma chain_last: "chain s p xs q \<Longrightarrow> prv s q = last (p # xs)"
  by (induction xs arbitrary: p) auto

text \<open>Redirecting the first pointer pair or the last pointer pair of a chain.\<close>

lemma chain_relink_first:
  assumes "chain s p xs q" "p' \<notin> set xs" "distinct (xs @ [q])"
    and "nxt s' p' = nxt s p" "prv s' (nxt s p) = p'"
    and "\<And>a. a \<in> set xs \<Longrightarrow> nxt s' a = nxt s a"
    and "\<And>a. a \<in> set (xs @ [q]) \<Longrightarrow> a \<noteq> nxt s p \<Longrightarrow> prv s' a = prv s a"
  shows "chain s' p' xs q"
proof (cases xs)
  case Nil
  with assms show ?thesis by simp
next
  case (Cons x ys)
  have "chain s' x ys q = chain s x ys q"
    using assms Cons by (intro chain_cong) auto
  with assms Cons show ?thesis by simp
qed

lemma chain_relink_last:
  assumes "chain s p xs q" "distinct (p # xs)"
    and "nxt s' (prv s q) = q'" "prv s' q' = prv s q" "q' \<notin> set xs"
    and "\<And>a. a \<in> set (p # xs) \<Longrightarrow> a \<noteq> prv s q \<Longrightarrow> nxt s' a = nxt s a"
    and "\<And>a. a \<in> set xs \<Longrightarrow> prv s' a = prv s a"
  shows "chain s' p xs q'"
  using assms
proof (induction xs arbitrary: p)
  case Nil
  then show ?case by simp
next
  case (Cons x xs)
  have "prv s q = last (x # xs)" using Cons.prems(1) chain_last by fastforce
  then have "p \<noteq> prv s q" using Cons.prems(2) last_in_set [of "x # xs"] by auto
  moreover have "chain s' x xs q'" using Cons.prems by (intro Cons.IH) auto
  ultimately show ?case using Cons.prems by auto
qed

subsection \<open>The operations refine the operations on sequences\<close>

lemma list_rep_distinct: "list_rep s h xs \<Longrightarrow> distinct (h # xs)"
  by (simp add: list_rep_def)

lemma list_rep_init: "list_rep (list_head_init h s) h []"
  by (simp add: list_rep_def list_head_init_def)

lemma list_rep_empty: "list_rep s h xs \<Longrightarrow> list_empty h s = (xs = [])"
  by (cases xs) (auto simp: list_rep_def list_empty_def)

lemma list_rep_add:
  assumes "list_rep s h xs" "n \<notin> set (h # xs)"
  shows "list_rep (list_add h n s) h (n # xs)"
proof -
  have c: "chain s h xs h" and d: "distinct (h # xs)" using assms by (auto simp: list_rep_def)
  have f: "nxt s h = hd (xs @ [h])" using c by (rule chain_first)
  have in': "nxt s h \<in> set (h # xs)" unfolding f by (cases xs) auto
  have "chain (list_add h n s) n xs h"
    using c assms(2) d in' by (intro chain_relink_first [OF c]) (auto simp: list_add_def Let_def)
  then show ?thesis
    using assms d in' by (auto simp: list_rep_def list_add_def Let_def)
qed

lemma list_rep_add_tail:
  assumes "list_rep s h xs" "n \<notin> set (h # xs)"
  shows "list_rep (list_add_tail h n s) h (xs @ [n])"
proof -
  have c: "chain s h xs h" and d: "distinct (h # xs)" using assms by (auto simp: list_rep_def)
  have l: "prv s h = last (h # xs)" using c by (rule chain_last)
  have in': "prv s h \<in> set (h # xs)" unfolding l by (metis last_in_set list.discI)
  have "chain (list_add_tail h n s) h xs n"
    using c assms(2) d in'
    by (intro chain_relink_last [OF c]) (auto simp: list_add_tail_def Let_def)
  then show ?thesis
    using assms d in' by (auto simp: list_rep_def chain_append list_add_tail_def Let_def)
qed

lemma chain_del:
  assumes c: "chain s p (xs @ n # ys) q"
    and dq: "distinct (xs @ n # ys @ [q])" and dp: "distinct (p # xs @ n # ys)"
  shows "chain (list_del n s) p (xs @ ys) q"
proof -
  have cx: "chain s p xs n" and cy: "chain s n ys q" using c by (auto simp: chain_append)
  have ln: "prv s n = last (p # xs)" using cx by (rule chain_last)
  have nn: "nxt s n = hd (ys @ [q])" using cy by (rule chain_first)
  have pin: "prv s n \<in> set (p # xs)" unfolding ln by (metis last_in_set list.discI)
  have nin: "nxt s n \<in> set (ys @ [q])" unfolding nn by (cases ys) auto
  have pn: "prv s n \<noteq> n" "nxt s n \<noteq> n" using pin nin dp dq by auto
  have sel: "nxt (list_del n s) = (nxt s)(prv s n := nxt s n)"
    "prv (list_del n s) = (prv s)(nxt s n := prv s n)"
    using pn by (auto simp: list_del_def Let_def)
  show ?thesis
  proof (cases ys)
    case Nil
    have q: "nxt s n = q" using nn Nil by simp
    have "chain (list_del n s) p xs q"
      using cx dp dq pin q by (intro chain_relink_last [OF cx]) (auto simp: sel)
    then show ?thesis using Nil by simp
  next
    case (Cons y zs)
    have y: "nxt s n = y" using nn Cons by simp
    have "chain (list_del n s) p xs y"
      using cx dp dq pin y Cons by (intro chain_relink_last [OF cx]) (auto simp: sel)
    moreover have "chain (list_del n s) y zs q = chain s y zs q"
      using dp dq pin y Cons by (intro chain_cong) (auto simp: sel)
    moreover have "chain s y zs q" using cy Cons by simp
    ultimately show ?thesis using Cons by (simp add: chain_append)
  qed
qed

lemma list_rep_del_append:
  "list_rep s h (xs @ n # ys) \<Longrightarrow> list_rep (list_del n s) h (xs @ ys)"
  by (auto simp: list_rep_def intro!: chain_del)

lemma remove1_split: "n \<notin> set xs \<Longrightarrow> remove1 n (xs @ n # ys) = xs @ ys"
  by (simp add: remove1_append)

lemma list_rep_del:
  assumes "list_rep s h xs" "n \<in> set xs"
  shows "list_rep (list_del n s) h (remove1 n xs)"
proof -
  obtain as bs where xs: "xs = as @ n # bs" "n \<notin> set as" using assms(2) by (meson split_list_first)
  then show ?thesis using list_rep_del_append assms(1) by (simp add: remove1_split)
qed

lemma chain_in: "chain s p xs q \<Longrightarrow> a \<in> set (p # xs) \<Longrightarrow> nxt s a \<in> set (xs @ [q])"
  by (induction xs arbitrary: p) auto

lemma chain_in_prv: "chain s p xs q \<Longrightarrow> a \<in> set (xs @ [q]) \<Longrightarrow> prv s a \<in> set (p # xs)"
  by (induction xs arbitrary: p) auto

lemma list_rep_nxt_in: "list_rep s h xs \<Longrightarrow> a \<in> set (h # xs) \<Longrightarrow> nxt s a \<in> set (h # xs)"
  using chain_in [of s h xs h a] by (auto simp: list_rep_def)

lemma list_rep_prv_in: "list_rep s h xs \<Longrightarrow> a \<in> set (h # xs) \<Longrightarrow> prv s a \<in> set (h # xs)"
  using chain_in_prv [of s h xs h a] by (auto simp: list_rep_def)

lemma list_rep_frame:
  assumes "list_rep s g ys"
    and "\<And>a. a \<in> set (g # ys) \<Longrightarrow> nxt s' a = nxt s a \<and> prv s' a = prv s a"
  shows "list_rep s' g ys"
proof -
  have "chain s' g ys g = chain s g ys g" using assms(2) by (intro chain_cong) auto
  with assms(1) show ?thesis by (simp add: list_rep_def)
qed

lemma list_frame_add:
  assumes "list_rep s g ys" "list_rep s h xs" "set (g # ys) \<inter> set (h # xs) = {}"
    "n \<notin> set (g # ys)"
  shows "list_rep (list_add h n s) g ys"
  using list_rep_nxt_in [OF assms(2), of h] assms(3,4)
  by (intro list_rep_frame [OF assms(1)]) (auto simp: list_add_def Let_def)

lemma list_frame_del:
  assumes "list_rep s g ys" "list_rep s h xs" "set (g # ys) \<inter> set (h # xs) = {}" "n \<in> set xs"
  shows "list_rep (list_del n s) g ys"
  using list_rep_nxt_in [OF assms(2), of n] list_rep_prv_in [OF assms(2), of n] assms(3,4)
  by (intro list_rep_frame [OF assms(1)]) (auto simp: list_del_def Let_def)

interpretation dl: intrusive_list list_rep list_head_init list_add list_del list_empty
  by unfold_locales
    (assumption | rule list_rep_distinct list_rep_init list_rep_empty list_rep_add list_rep_del
      list_frame_add list_frame_del)+


lemma list_for_each_chain:
  "chain s p xs h \<Longrightarrow> h \<notin> set xs \<Longrightarrow> length xs \<le> fuel \<Longrightarrow>
   list_for_each_off fuel h (nxt s p) s = Some xs"
proof (induction xs arbitrary: p fuel)
  case Nil
  then show ?case by (simp add: list_for_each_off.simps)
next
  case (Cons x xs)
  obtain f where f: "fuel = Suc f" using Cons.prems(3) by (cases fuel) auto
  have "list_for_each_off f h (nxt s x) s = Some xs" using Cons.prems f by (intro Cons.IH) auto
  then show ?case using Cons.prems f by (auto simp: list_for_each_off.simps [of "Suc f" h x s])
qed

lemma list_rep_for_each:
  "list_rep s h xs \<Longrightarrow> length xs \<le> fuel \<Longrightarrow> list_for_each_off fuel h (nxt s h) s = Some xs"
  using list_for_each_chain [of s h xs h fuel] by (simp add: list_rep_def)

lemma list_rep_pop:
  "list_rep s h (x # xs) \<Longrightarrow> fst (list_pop h s) = Some x \<and> list_rep (snd (list_pop h s)) h xs"
  using list_rep_del_append [of s h "[]" x xs] list_rep_empty [of s h "x # xs"]
  by (auto simp: list_pop_def list_rep_def)

lemma list_rep_top: "list_rep s h xs \<Longrightarrow> list_top h s = (case xs of [] \<Rightarrow> None | x # _ \<Rightarrow> Some x)"
  by (auto simp: list_top_def list_rep_empty list_rep_def split: list.split)

lemma list_rep_tail: "list_rep s h xs \<Longrightarrow> list_tail h s = (if xs = [] then None else Some (last xs))"
  using chain_last [of s h xs h] by (auto simp: list_tail_def list_rep_empty list_rep_def)

lemma list_rep_join:
  assumes "chain s to xs from" "chain s from ys to" "distinct (to # xs @ from # ys)"
  shows "list_rep (list_head_init from (list_del from s)) to (xs @ ys)"
    and "list_rep (list_head_init from (list_del from s)) from []"
proof -
  have "list_rep s to (xs @ from # ys)" using assms by (auto simp: list_rep_def chain_append)
  then have r: "list_rep (list_del from s) to (xs @ ys)" by (rule list_rep_del_append)
  show "list_rep (list_head_init from (list_del from s)) to (xs @ ys)"
    using assms(3) by (intro list_rep_frame [OF r]) (auto simp: list_head_init_def)
  show "list_rep (list_head_init from (list_del from s)) from []" by (rule list_rep_init)
qed

lemma list_rep_append_list:
  assumes "list_rep s to xs" "list_rep s from ys" "set (to # xs) \<inter> set (from # ys) = {}"
  shows "list_rep (list_append_list to from s) to (xs @ ys)"
    and "list_rep (list_append_list to from s) from []"
proof -
  let ?s = "set_prv from (prv s to) (set_nxt (prv s to) from
              (set_nxt (prv s from) to (set_prv to (prv s from) s)))"
  have ct: "chain s to xs to" and cf: "chain s from ys from" using assms by (auto simp: list_rep_def)
  have lt: "prv s to \<in> set (to # xs)" and lf: "prv s from \<in> set (from # ys)"
    using list_rep_prv_in [OF assms(1)] list_rep_prv_in [OF assms(2)] by auto
  have d: "distinct (to # xs @ from # ys)" using assms by (auto simp: list_rep_def)
  have 1: "chain ?s to xs from"
    using d lt lf assms(3) by (intro chain_relink_last [OF ct]) (auto simp del: fun_upd_apply, auto)
  have 2: "chain ?s from ys to"
    using d lt lf assms(3) by (intro chain_relink_last [OF cf]) (auto simp del: fun_upd_apply, auto)
  have e: "list_append_list to from s = list_head_init from (list_del from ?s)"
    by (simp add: list_append_list_def Let_def)
  show "list_rep (list_append_list to from s) to (xs @ ys)"
    "list_rep (list_append_list to from s) from []"
    unfolding e using list_rep_join [OF 1 2 d] by auto
qed

lemma list_rep_prepend_list:
  assumes "list_rep s to xs" "list_rep s from ys" "set (to # xs) \<inter> set (from # ys) = {}"
  shows "list_rep (list_prepend_list to from s) to (ys @ xs)"
    and "list_rep (list_prepend_list to from s) from []"
proof -
  let ?s = "set_nxt (prv s from) (nxt s to) (set_prv (nxt s to) (prv s from)
              (set_prv from to (set_nxt to from s)))"
  have ct: "chain s to xs to" and cf: "chain s from ys from" using assms by (auto simp: list_rep_def)
  have lt: "nxt s to \<in> set (to # xs)" and lf: "prv s from \<in> set (from # ys)"
    using list_rep_nxt_in [OF assms(1)] list_rep_prv_in [OF assms(2)] by auto
  have d: "distinct (to # xs @ from # ys)" using assms by (auto simp: list_rep_def)
  have t0: "chain ?s to [] from" using lt lf assms(3) by auto
  have "chain ?s from (ys @ xs) to"
  proof (cases xs)
    case Nil
    then have "nxt s to = to" using ct by simp
    then have "chain ?s from ys to"
      using d lt lf assms(3) Nil by (intro chain_relink_last [OF cf]) auto
    then show ?thesis using Nil by simp
  next
    case (Cons x zs)
    then have x: "nxt s to = x" and cx: "chain s x zs to" using ct by auto
    have "chain ?s from ys x"
      using d lt lf assms(3) Cons x by (intro chain_relink_last [OF cf]) auto
    moreover have "chain ?s x zs to = chain s x zs to"
      using d lt lf assms(3) Cons x by (intro chain_cong) auto
    ultimately show ?thesis using Cons cx by (simp add: chain_append)
  qed
  then have 2: "chain ?s from (ys @ xs) to" .
  have d': "distinct (to # [] @ from # (ys @ xs))" using d by auto
  have e: "list_prepend_list to from s = list_head_init from (list_del from ?s)"
    by (simp add: list_prepend_list_def Let_def)
  show "list_rep (list_prepend_list to from s) to (ys @ xs)"
    "list_rep (list_prepend_list to from s) from []"
    unfolding e using list_rep_join [OF t0 2 d'] by auto
qed

section \<open>The null-terminated list\<close>

text \<open>
  In an \<open>hlist\<close> the head holds a pointer to the first node, and the \<open>prev\<close> pointer of the first
  node points to the head itself, whose \<open>head\<close> field lines up with a node's \<open>next\<close> field.
\<close>

record hheap =
  hnext :: "ptr \<Rightarrow> ptr option"
  hprev :: "ptr \<Rightarrow> ptr option"

definition set_hnext :: "ptr \<Rightarrow> ptr option \<Rightarrow> hheap \<Rightarrow> hheap" where
  "set_hnext p v s = s\<lparr>hnext := (hnext s)(p := v)\<rparr>"

definition set_hprev :: "ptr \<Rightarrow> ptr option \<Rightarrow> hheap \<Rightarrow> hheap" where
  "set_hprev p v s = s\<lparr>hprev := (hprev s)(p := v)\<rparr>"

lemma set_hnext_sel [simp]:
  "hnext (set_hnext p v s) = (hnext s)(p := v)" "hprev (set_hnext p v s) = hprev s"
  by (simp_all add: set_hnext_def)

lemma set_hprev_sel [simp]:
  "hprev (set_hprev p v s) = (hprev s)(p := v)" "hnext (set_hprev p v s) = hnext s"
  by (simp_all add: set_hprev_def)

definition hlist_init_head :: "ptr \<Rightarrow> hheap \<Rightarrow> hheap" where
  "hlist_init_head h s = set_hnext h None s"

definition hlist_add_head :: "ptr \<Rightarrow> ptr \<Rightarrow> hheap \<Rightarrow> hheap" where
  "hlist_add_head h n s =
     (let s = set_hnext n (hnext s h) s;
          s = set_hprev n (Some h) s;
          s = (case hnext s n of None \<Rightarrow> s | Some m \<Rightarrow> set_hprev m (Some n) s)
      in set_hnext h (Some n) s)"

definition hlist_del_head :: "ptr \<Rightarrow> hheap \<Rightarrow> hheap option" where
  "hlist_del_head h s =
     (case hnext s h of None \<Rightarrow> None
      | Some n \<Rightarrow> (let s = set_hnext h (hnext s n) s
                   in Some (case hnext s h of None \<Rightarrow> s | Some m \<Rightarrow> set_hprev m (Some h) s)))"

text \<open>Deleting a node that is in no list dereferences a null pointer, which leaves the heap alone here.\<close>

definition hlist_del :: "ptr \<Rightarrow> hheap \<Rightarrow> hheap" where
  "hlist_del n s =
     (case hprev s n of None \<Rightarrow> s
      | Some p \<Rightarrow> (let s = set_hnext p (hnext s n) s
                   in case hnext s n of None \<Rightarrow> s | Some m \<Rightarrow> set_hprev m (hprev s n) s))"

definition hlist_empty :: "ptr \<Rightarrow> hheap \<Rightarrow> bool" where
  "hlist_empty h s \<longleftrightarrow> hnext s h = None"

fun hchain :: "hheap \<Rightarrow> ptr \<Rightarrow> ptr list \<Rightarrow> bool" where
  "hchain s p [] \<longleftrightarrow> hnext s p = None"
| "hchain s p (x # xs) \<longleftrightarrow> hnext s p = Some x \<and> hprev s x = Some p \<and> hchain s x xs"

definition hlist_rep :: "hheap \<Rightarrow> ptr \<Rightarrow> ptr list \<Rightarrow> bool" where
  "hlist_rep s h xs \<longleftrightarrow> distinct (h # xs) \<and> hchain s h xs"

lemma hchain_cong:
  "(\<And>a. a \<in> set (p # xs) \<Longrightarrow> hnext s' a = hnext s a) \<Longrightarrow>
   (\<And>a. a \<in> set xs \<Longrightarrow> hprev s' a = hprev s a) \<Longrightarrow> hchain s' p xs = hchain s p xs"
  by (induction xs arbitrary: p) auto

lemma hlist_rep_frame:
  assumes "hlist_rep s g ys"
    and "\<And>a. a \<in> set (g # ys) \<Longrightarrow> hnext s' a = hnext s a"
    and "\<And>a. a \<in> set ys \<Longrightarrow> hprev s' a = hprev s a"
  shows "hlist_rep s' g ys"
  using assms hchain_cong [of g ys s' s] by (auto simp: hlist_rep_def)

lemma hlist_rep_distinct: "hlist_rep s h xs \<Longrightarrow> distinct (h # xs)"
  by (simp add: hlist_rep_def)

lemma hlist_rep_init: "hlist_rep (hlist_init_head h s) h []"
  by (simp add: hlist_rep_def hlist_init_head_def)

lemma hlist_rep_empty: "hlist_rep s h xs \<Longrightarrow> hlist_empty h s = (xs = [])"
  by (cases xs) (auto simp: hlist_rep_def hlist_empty_def)

lemma hlist_rep_add:
  assumes "hlist_rep s h xs" "n \<notin> set (h # xs)"
  shows "hlist_rep (hlist_add_head h n s) h (n # xs)"
proof (cases xs)
  case Nil
  with assms show ?thesis by (auto simp: hlist_rep_def hlist_add_head_def Let_def)
next
  case (Cons x zs)
  have "hchain (hlist_add_head h n s) x zs = hchain s x zs"
    using assms Cons by (intro hchain_cong) (auto simp: hlist_rep_def hlist_add_head_def Let_def)
  with assms Cons show ?thesis by (auto simp: hlist_rep_def hlist_add_head_def Let_def)
qed

lemma hchain_prev_in: "hchain s p xs \<Longrightarrow> n \<in> set xs \<Longrightarrow> \<exists>a \<in> set (p # xs). hprev s n = Some a"
  by (induction xs arbitrary: p) auto

lemma hchain_next_in: "hchain s p xs \<Longrightarrow> n \<in> set (p # xs) \<Longrightarrow> hnext s n = Some b \<Longrightarrow> b \<in> set xs"
  by (induction xs arbitrary: p) auto

lemma hchain_del:
  "hchain s p xs \<Longrightarrow> distinct (p # xs) \<Longrightarrow> n \<in> set xs \<Longrightarrow> hchain (hlist_del n s) p (remove1 n xs)"
proof (induction xs arbitrary: p)
  case (Cons x xs)
  show ?case
  proof (cases "x = n")
    case True
    show ?thesis
    proof (cases xs)
      case Nil
      with Cons.prems True show ?thesis by (auto simp: hlist_del_def Let_def)
    next
      case (Cons y zs)
      have "hchain (hlist_del n s) y zs = hchain s y zs"
        using Cons.prems True Cons by (intro hchain_cong) (auto simp: hlist_del_def Let_def)
      with Cons.prems True Cons show ?thesis by (auto simp: hlist_del_def Let_def)
    qed
  next
    case False
    then have n: "n \<in> set xs" using Cons.prems by auto
    then have "hchain (hlist_del n s) x (remove1 n xs)" using Cons by auto
    moreover have "hprev s n \<noteq> Some p" "hnext s n \<noteq> Some x"
      using hchain_prev_in [of s x xs n] hchain_next_in [of s x xs n] n Cons.prems by auto
    ultimately show ?thesis using Cons.prems False by (auto simp: hlist_del_def Let_def split: option.splits)
  qed
qed simp


lemma hlist_rep_del: "hlist_rep s h xs \<Longrightarrow> n \<in> set xs \<Longrightarrow> hlist_rep (hlist_del n s) h (remove1 n xs)"
  using hchain_del [of s h xs n] set_remove1_subset [of n xs] by (auto simp: hlist_rep_def)

lemma hlist_rep_del_head:
  "hlist_rep s h (x # xs) \<Longrightarrow> \<exists>s'. hlist_del_head h s = Some s' \<and> hlist_rep s' h xs"
proof (cases xs)
  case Nil
  assume "hlist_rep s h (x # xs)"
  with Nil show ?thesis by (auto simp: hlist_rep_def hlist_del_head_def Let_def)
next
  case (Cons y zs)
  assume r: "hlist_rep s h (x # xs)"
  let ?s = "set_hprev y (Some h) (set_hnext h (Some y) s)"
  have "hchain ?s y zs = hchain s y zs" using r Cons by (intro hchain_cong) (auto simp: hlist_rep_def)
  with r Cons show ?thesis
    by (auto simp: hlist_rep_def hlist_del_head_def Let_def)
qed

lemma hlist_frame_add:
  assumes "hlist_rep s g ys" "hlist_rep s h xs" "set (g # ys) \<inter> set (h # xs) = {}"
    "n \<notin> set (g # ys)"
  shows "hlist_rep (hlist_add_head h n s) g ys"
proof (rule hlist_rep_frame [OF assms(1)])
  have c: "hchain s h xs" using assms(2) by (simp add: hlist_rep_def)
  show "hnext (hlist_add_head h n s) a = hnext s a" if "a \<in> set (g # ys)" for a
    using that assms(3,4) by (auto simp: hlist_add_head_def Let_def split: option.splits)
  show "hprev (hlist_add_head h n s) a = hprev s a" if "a \<in> set ys" for a
    using that assms(3,4) hchain_next_in [OF c, of h]
    by (auto simp: hlist_add_head_def Let_def split: option.splits)
qed

lemma hlist_frame_del:
  assumes "hlist_rep s g ys" "hlist_rep s h xs" "set (g # ys) \<inter> set (h # xs) = {}" "n \<in> set xs"
  shows "hlist_rep (hlist_del n s) g ys"
proof (rule hlist_rep_frame [OF assms(1)])
  have c: "hchain s h xs" using assms(2) by (simp add: hlist_rep_def)
  obtain p where p: "p \<in> set (h # xs)" "hprev s n = Some p" using hchain_prev_in [OF c assms(4)] by auto
  have m: "m \<in> set xs" if "hnext s n = Some m" for m
    using hchain_next_in [OF c _ that] assms(4) by auto
  show "hnext (hlist_del n s) a = hnext s a" if "a \<in> set (g # ys)" for a
    using that assms(3,4) p by (auto simp: hlist_del_def Let_def split: option.splits)
  show "hprev (hlist_del n s) a = hprev s a" if "a \<in> set ys" for a
    using that assms(3,4) p m by (auto simp: hlist_del_def Let_def split: option.splits if_splits)
qed

interpretation hl: intrusive_list hlist_rep hlist_init_head hlist_add_head hlist_del hlist_empty
  by unfold_locales
    (assumption | rule hlist_rep_distinct hlist_rep_init hlist_rep_empty hlist_rep_add hlist_rep_del
      hlist_frame_add hlist_frame_del)+

section \<open>Properties\<close>

text \<open>
  C26. \<open>list_append_list\<close>, which splices one list into another with four pointer assignments, leaves
  the concatenation of the two lists in the target: the traversal of \<open>list_for_each\<close> visits the
  nodes of \<open>to\<close> and then those of \<open>from\<close>, and the source list is empty afterwards.
\<close>

theorem list_append_list_correct:
  assumes "list_rep s to xs" "list_rep s from ys" "set (to # xs) \<inter> set (from # ys) = {}"
    "s' = list_append_list to from s"
  shows "list_for_each_off (length xs + length ys) to (nxt s' to) s' = Some (xs @ ys) \<and>
    list_rep s' to (xs @ ys) \<and> list_empty from s'"
  using list_rep_append_list [OF assms(1-3)] list_rep_for_each [of s' to "xs @ ys"] assms(4)
    dl.rep_is_empty [of s' "from" "[]"] by simp

definition lheap_ex :: lheap where
  "lheap_ex = list_add 1 2 (list_add 1 3 (list_add_tail 10 11
     (list_head_init 1 (list_head_init 10 \<lparr>nxt = \<lambda>_. 0, prv = \<lambda>_. 0\<rparr>))))"

lemma list_append_list_correct_witness:
  "list_rep (list_append_list 1 10 lheap_ex) 1 [2, 3, 11] \<and> list_empty 10 (list_append_list 1 10 lheap_ex)"
  using list_append_list_correct [of lheap_ex 1 "[2, 3]" 10 "[11]", OF _ _ _ refl]
  by (simp add: lheap_ex_def list_rep_def list_add_def list_add_tail_def list_head_init_def Let_def)

text \<open>
  C27. Moving a node from one \<open>hlist\<close> to the head of another, as the timer wheel does when it
  reinserts a timer, takes it out of the first list, puts it in front of the second and leaves
  every other list of the heap as it was.
\<close>

theorem hlist_move_correct:
  assumes "hlist_rep s h xs" "hlist_rep s g ys" "set (g # ys) \<inter> set (h # xs) = {}" "n \<in> set xs"
    "s' = hlist_add_head g n (hlist_del n s)"
  shows "hlist_rep s' g (n # ys) \<and> hlist_rep s' h (remove1 n xs) \<and>
    (\<forall>k zs. hlist_rep s k zs \<and> set (k # zs) \<inter> set (h # xs @ g # ys) = {} \<longrightarrow> hlist_rep s' k zs)"
proof (intro conjI allI impI)
  show "hlist_rep s' g (n # ys)" "hlist_rep s' h (remove1 n xs)"
    unfolding assms(5) using hl.rep_move [OF assms(1-4)] by auto
  fix k zs assume k: "hlist_rep s k zs \<and> set (k # zs) \<inter> set (h # xs @ g # ys) = {}"
  have "hlist_rep (hlist_del n s) k zs"
    using k assms by (intro hl.frame_del [of s k zs h xs]) auto
  moreover have "hlist_rep (hlist_del n s) g ys"
    using assms by (intro hl.frame_del [of s g ys h xs]) auto
  ultimately show "hlist_rep s' k zs"
    unfolding assms(5) using k assms(4) by (intro hl.frame_add [of _ k zs g ys]) auto
qed

definition hheap_ex :: hheap where
  "hheap_ex = hlist_add_head 1 2 (hlist_add_head 1 3 (hlist_add_head 10 11
     (hlist_init_head 1 (hlist_init_head 10 \<lparr>hnext = \<lambda>_. None, hprev = \<lambda>_. None\<rparr>))))"

lemma hlist_move_correct_witness:
  "hlist_rep (hlist_add_head 10 2 (hlist_del 2 hheap_ex)) 10 [2, 11] \<and>
   hlist_rep (hlist_add_head 10 2 (hlist_del 2 hheap_ex)) 1 [3]"
  using hlist_move_correct [of hheap_ex 1 "[2, 3]" 10 "[11]" 2, OF _ _ _ _ refl]
  by (simp add: hheap_ex_def hlist_rep_def hlist_add_head_def hlist_init_head_def Let_def)

end
