(* ===== verification/SwQueue.thy ===== *)
theory SwQueue
  imports Prelude
begin

text \<open>
  The software queue of one tenant, \<open>nvme/nvme_sw_queue.c\<close>: a ring buffer of pointers to request
  contexts with the sum of their costs and the tokens the tenant has saved.  The contexts live
  in a heap \<open>h\<close>; the queue holds pointers.
\<close>

section \<open>The interface of a bounded queue\<close>

primrec popn :: "('q \<Rightarrow> int \<times> 'a option \<times> 'q) \<Rightarrow> nat \<Rightarrow> 'q \<Rightarrow> 'a option list" where
  "popn pop 0 q = []"
| "popn pop (Suc n) q = (case pop q of (_, r, q') \<Rightarrow> r # popn pop n q')"

locale bounded_fifo =
  fixes inv :: "'q \<Rightarrow> bool"
    and items :: "'q \<Rightarrow> 'a list"
    and cap :: nat
    and push :: "'q \<Rightarrow> 'a \<Rightarrow> int \<times> 'q"
    and pop :: "'q \<Rightarrow> int \<times> 'a option \<times> 'q"
  assumes items_cap: "inv q \<Longrightarrow> length (items q) \<le> cap"
    and push_ok: "inv q \<Longrightarrow> length (items q) < cap \<Longrightarrow>
        \<exists>q'. push q x = (0, q') \<and> inv q' \<and> items q' = items q @ [x]"
    and push_full: "inv q \<Longrightarrow> length (items q) = cap \<Longrightarrow> push q x = (- EAGAIN, q)"
    and pop_empty: "inv q \<Longrightarrow> items q = [] \<Longrightarrow> pop q = (- EAGAIN, None, q)"
    and pop_ok: "inv q \<Longrightarrow> items q = x # xs \<Longrightarrow>
        \<exists>q'. pop q = (0, Some x, q') \<and> inv q' \<and> items q' = xs"
begin

lemma push_inv: "inv q \<Longrightarrow> inv (snd (push q x))"
  using push_ok [of q x] push_full [of q x] items_cap [of q] by (cases "length (items q) < cap") auto

lemma push_zero_iff: "inv q \<Longrightarrow> fst (push q x) = 0 \<longleftrightarrow> length (items q) < cap"
  using push_ok [of q x] push_full [of q x] items_cap [of q]
  by (cases "length (items q) < cap") (auto simp: EAGAIN_def)

lemma pop_inv: "inv q \<Longrightarrow> inv (snd (snd (pop q)))"
  using pop_ok [of q] pop_empty [of q] by (cases "items q") fastforce+

lemma pop_result: "inv q \<Longrightarrow> fst (snd (pop q)) = (case items q of [] \<Rightarrow> None | x # _ \<Rightarrow> Some x)"
  using pop_ok [of q] pop_empty [of q] by (cases "items q") fastforce+

text \<open>First in, first out: after pushing \<open>xs\<close> on an empty queue, the pops return \<open>xs\<close> in order.\<close>

lemma push_all:
  "inv q \<Longrightarrow> length (items q) + length xs \<le> cap \<Longrightarrow>
   inv (fold (\<lambda>x q. snd (push q x)) xs q) \<and>
   items (fold (\<lambda>x q. snd (push q x)) xs q) = items q @ xs"
proof (induction xs arbitrary: q)
  case (Cons x xs)
  obtain q' where q': "push q x = (0, q')" "inv q'" "items q' = items q @ [x]"
    using push_ok [of q x] Cons.prems by auto
  then show ?case using Cons.IH [of q'] Cons.prems by simp
qed simp

lemma popn_items: "inv q \<Longrightarrow> items q = xs @ ys \<Longrightarrow> popn pop (length xs) q = map Some xs"
proof (induction xs arbitrary: q)
  case (Cons x xs)
  obtain q' where q': "pop q = (0, Some x, q')" "inv q'" "items q' = xs @ ys"
    using pop_ok [of q x "xs @ ys"] Cons.prems by auto
  then show ?case using Cons.IH [of q'] by simp
qed simp

lemma push_popn:
  assumes "inv q" "length (items q) + length xs \<le> cap"
  shows "popn pop (length (items q @ xs)) (fold (\<lambda>x q. snd (push q x)) xs q) = map Some (items q @ xs)"
  using push_all [OF assms] popn_items [of _ "items q @ xs" "[]"] by simp

end

section \<open>Request contexts\<close>

text \<open>
  \<open>struct nvme_ctx\<close>.  The union \<open>user_buf\<close> overlays \<open>buf\<close> and \<open>sgl_buf.sgl\<close> in its first word,
  which is the field \<open>ub_ptr\<close>; \<open>ub_num_sgls\<close> and \<open>ub_current_sgl\<close> are the rest of \<open>sgl_buf\<close>.
  The namespace handle and the completion pointer are opaque to the code and not kept.
\<close>

record nvme_ctx =
  ctx_cookie :: u64
  ub_ptr :: u64
  ub_num_sgls :: int
  ub_current_sgl :: int
  ctx_tid :: u32
  ctx_fg_handle :: int
  ctx_cmd :: int
  req_cost :: int
  ctx_paddr :: u64
  ctx_lba :: u64
  ctx_lba_count :: u32

type_synonym ctx_heap = "ptr \<Rightarrow> nvme_ctx"

section \<open>The queue\<close>

definition NVME_SW_QUEUE_SIZE :: nat where "NVME_SW_QUEUE_SIZE = 256 * 8"

record nvme_sw_queue =
  buf :: "nat \<Rightarrow> ptr"
  count :: int
  head :: u32
  tail :: u32
  total_token_demand :: u64
  saved_tokens :: u64
  fg_handle :: int
  token_credit :: int

text \<open>Zeroed memory, for the examples.\<close>

definition ctx0 :: nvme_ctx where
  "ctx0 = \<lparr>ctx_cookie = 0, ub_ptr = 0, ub_num_sgls = 0, ub_current_sgl = 0, ctx_tid = 0,
     ctx_fg_handle = 0, ctx_cmd = 0, req_cost = 0, ctx_paddr = 0, ctx_lba = 0, ctx_lba_count = 0\<rparr>"

definition swq0 :: nvme_sw_queue where
  "swq0 = \<lparr>buf = \<lambda>_. 0, count = 0, head = 0, tail = 0, total_token_demand = 0, saved_tokens = 0,
     fg_handle = 0, token_credit = 0\<rparr>"

definition nvme_sw_queue_init :: "nvme_sw_queue \<Rightarrow> int \<Rightarrow> nvme_sw_queue" where
  "nvme_sw_queue_init q fg = q\<lparr>count := 0, head := 0, tail := 0, total_token_demand := 0,
     saved_tokens := 0, token_credit := 0, fg_handle := fg\<rparr>"

definition nvme_sw_queue_push_back :: "ctx_heap \<Rightarrow> nvme_sw_queue \<Rightarrow> ptr \<Rightarrow> int \<times> nvme_sw_queue" where
  "nvme_sw_queue_push_back h q ctx =
     (if count q = int NVME_SW_QUEUE_SIZE then (- EAGAIN, q)
      else (0, q\<lparr>buf := (buf q)(unat (head q) := ctx),
                 head := (head q + 1) mod of_nat NVME_SW_QUEUE_SIZE,
                 count := count q + 1,
                 total_token_demand := total_token_demand q + word_of_int (req_cost (h ctx))\<rparr>))"

definition nvme_sw_queue_pop_front :: "ctx_heap \<Rightarrow> nvme_sw_queue \<Rightarrow> int \<times> ptr option \<times> nvme_sw_queue" where
  "nvme_sw_queue_pop_front h q =
     (if count q = 0 then (- EAGAIN, None, q)
      else (let ctx = buf q (unat (tail q)) in
            (0, Some ctx,
             q\<lparr>total_token_demand := total_token_demand q - word_of_int (req_cost (h ctx)),
               tail := (tail q + 1) mod of_nat NVME_SW_QUEUE_SIZE,
               count := count q - 1\<rparr>)))"

definition nvme_sw_queue_isempty :: "nvme_sw_queue \<Rightarrow> int" where
  "nvme_sw_queue_isempty q = (if count q = 0 then 1 else 0)"

definition nvme_sw_queue_peak_head_cost :: "ctx_heap \<Rightarrow> nvme_sw_queue \<Rightarrow> int" where
  "nvme_sw_queue_peak_head_cost h q =
     (if count q = 0 then - 1 else req_cost (h (buf q (unat (tail q)))))"

definition nvme_sw_queue_save_tokens :: "nvme_sw_queue \<Rightarrow> u64 \<Rightarrow> u64 \<times> nvme_sw_queue" where
  "nvme_sw_queue_save_tokens q tokens =
     (if total_token_demand q = 0 then (0, q\<lparr>saved_tokens := 0\<rparr>)
      else if total_token_demand q > tokens then
        (tokens, q\<lparr>saved_tokens := saved_tokens q + tokens\<rparr>)
      else if total_token_demand q \<le> tokens then
        (total_token_demand q, q\<lparr>saved_tokens := saved_tokens q + total_token_demand q\<rparr>)
      else (0, q))"

definition nvme_sw_queue_take_saved_tokens :: "nvme_sw_queue \<Rightarrow> u64 \<times> nvme_sw_queue" where
  "nvme_sw_queue_take_saved_tokens q = (saved_tokens q, q\<lparr>saved_tokens := 0\<rparr>)"

section \<open>The ring buffer is a bounded FIFO\<close>

definition swq_inv :: "nvme_sw_queue \<Rightarrow> bool" where
  "swq_inv q \<longleftrightarrow> 0 \<le> count q \<and> count q \<le> int NVME_SW_QUEUE_SIZE \<and>
     unat (tail q) < NVME_SW_QUEUE_SIZE \<and>
     unat (head q) = (unat (tail q) + nat (count q)) mod NVME_SW_QUEUE_SIZE"

definition swq_items :: "nvme_sw_queue \<Rightarrow> ptr list" where
  "swq_items q = map (\<lambda>i. buf q ((unat (tail q) + i) mod NVME_SW_QUEUE_SIZE)) [0..<nat (count q)]"

lemma length_swq_items [simp]: "length (swq_items q) = nat (count q)"
  by (simp add: swq_items_def)

lemma unat_ring_succ:
  fixes w :: u32
  assumes "unat w < NVME_SW_QUEUE_SIZE"
  shows "unat ((w + 1) mod of_nat NVME_SW_QUEUE_SIZE) = Suc (unat w) mod NVME_SW_QUEUE_SIZE"
proof -
  have "unat (w + 1) = Suc (unat w)"
    using assms by (simp add: unat_word_ariths NVME_SW_QUEUE_SIZE_def)
  then show ?thesis by (simp add: unat_mod_distrib NVME_SW_QUEUE_SIZE_def)
qed

lemma swq_inv_head: "swq_inv q \<Longrightarrow> unat (head q) < NVME_SW_QUEUE_SIZE"
  by (simp add: swq_inv_def NVME_SW_QUEUE_SIZE_def)

lemma swq_push_ok:
  assumes "swq_inv q" "length (swq_items q) < NVME_SW_QUEUE_SIZE"
  shows "\<exists>q'. nvme_sw_queue_push_back h q x = (0, q') \<and> swq_inv q' \<and> swq_items q' = swq_items q @ [x]"
proof -
  let ?N = NVME_SW_QUEUE_SIZE
  have N: "?N = 2048" by (simp add: NVME_SW_QUEUE_SIZE_def)
  have c: "0 \<le> count q" "count q < int ?N" "nat (count q + 1) = Suc (nat (count q))"
    using assms by (auto simp: swq_inv_def)
  have hd: "unat (head q) = (unat (tail q) + nat (count q)) mod ?N"
    using assms by (simp add: swq_inv_def)
  have ne: "(unat (tail q) + i) mod ?N \<noteq> unat (head q)" if "i < nat (count q)" for i
  proof
    assume "(unat (tail q) + i) mod ?N = unat (head q)"
    then have "(unat (tail q) + i) mod ?N = (unat (tail q) + nat (count q)) mod ?N" using hd by simp
    then have "i mod ?N = nat (count q) mod ?N" by (simp add: nat_mod_eq_iff)
    then show False using that c by simp
  qed
  obtain q' where q': "nvme_sw_queue_push_back h q x = (0, q')"
    and sel: "buf q' = (buf q)(unat (head q) := x)" "tail q' = tail q" "count q' = count q + 1"
      "head q' = (head q + 1) mod of_nat ?N"
    using c by (simp add: nvme_sw_queue_push_back_def)
  have "unat (head q') = Suc (unat (head q)) mod ?N"
    unfolding sel using swq_inv_head [OF assms(1)] by (rule unat_ring_succ)
  then have "unat (head q') = (unat (tail q) + nat (count q + 1)) mod ?N"
    unfolding c(3) hd by (simp add: mod_Suc_eq)
  then have inv: "swq_inv q'" using assms c unfolding swq_inv_def sel by auto
  have "swq_items q' = map (\<lambda>i. buf q' ((unat (tail q) + i) mod ?N)) [0..<nat (count q)] @
      [buf q' ((unat (tail q) + nat (count q)) mod ?N)]"
    unfolding swq_items_def sel c(3) by simp
  also have "\<dots> = swq_items q @ [x]"
    using ne by (simp add: swq_items_def sel hd)
  finally show ?thesis using q' inv by blast
qed

lemma swq_push_full:
  "swq_inv q \<Longrightarrow> length (swq_items q) = NVME_SW_QUEUE_SIZE \<Longrightarrow>
   nvme_sw_queue_push_back h q x = (- EAGAIN, q)"
  by (auto simp: swq_inv_def nvme_sw_queue_push_back_def)

lemma swq_pop_empty:
  "swq_inv q \<Longrightarrow> swq_items q = [] \<Longrightarrow> nvme_sw_queue_pop_front h q = (- EAGAIN, None, q)"
  by (auto simp: swq_inv_def swq_items_def nvme_sw_queue_pop_front_def)

lemma swq_items_Cons:
  assumes "swq_inv q" "0 < count q"
  shows "swq_items q = buf q (unat (tail q)) #
     map (\<lambda>i. buf q ((unat (tail q) + Suc i) mod NVME_SW_QUEUE_SIZE)) [0..<nat (count q - 1)]"
proof -
  have n: "nat (count q) = Suc (nat (count q - 1))" using assms(2) by simp
  have "swq_items q = map (\<lambda>i. buf q ((unat (tail q) + i) mod NVME_SW_QUEUE_SIZE))
      (0 # map Suc [0..<nat (count q - 1)])"
    unfolding swq_items_def n by (simp add: upt_conv_Cons map_Suc_upt del: upt_Suc)
  then show ?thesis using assms by (simp add: swq_inv_def comp_def)
qed

lemma swq_pop_ok:
  assumes "swq_inv q" "swq_items q = x # xs"
  shows "\<exists>q'. nvme_sw_queue_pop_front h q = (0, Some x, q') \<and> swq_inv q' \<and> swq_items q' = xs"
proof -
  let ?N = NVME_SW_QUEUE_SIZE
  have "0 < length (swq_items q)" using assms(2) by simp
  then have c: "0 < count q" by simp
  note it = swq_items_Cons [OF assms(1) c]
  have x: "x = buf q (unat (tail q))" and
    xs: "xs = map (\<lambda>i. buf q ((unat (tail q) + Suc i) mod ?N)) [0..<nat (count q - 1)]"
    using it assms(2) by simp_all
  obtain q' where q': "nvme_sw_queue_pop_front h q = (0, Some x, q')"
    and sel: "buf q' = buf q" "tail q' = (tail q + 1) mod of_nat ?N" "count q' = count q - 1"
      "head q' = head q"
    using c x by (simp add: nvme_sw_queue_pop_front_def Let_def)
  have t: "unat (tail q') = Suc (unat (tail q)) mod ?N"
    unfolding sel using assms(1) by (intro unat_ring_succ) (simp add: swq_inv_def)
  have s: "(unat (tail q') + i) mod ?N = (unat (tail q) + Suc i) mod ?N" for i
    unfolding t by (simp add: mod_add_left_eq)
  have "nat (count q) = Suc (nat (count q - 1))" using c by simp
  then have "unat (head q') = (unat (tail q') + nat (count q')) mod ?N"
    unfolding s using assms(1) by (simp add: swq_inv_def sel)
  moreover have "unat (tail q') < ?N" unfolding t by (simp add: NVME_SW_QUEUE_SIZE_def)
  ultimately have "swq_inv q'" using assms(1) c by (simp add: swq_inv_def sel)
  moreover have "swq_items q' = xs" using s by (simp add: swq_items_def xs sel)
  ultimately show ?thesis using q' by blast
qed

interpretation swq: bounded_fifo swq_inv swq_items NVME_SW_QUEUE_SIZE
  "nvme_sw_queue_push_back h" "nvme_sw_queue_pop_front h" for h
proof unfold_locales
  show "swq_inv q \<Longrightarrow> length (swq_items q) \<le> NVME_SW_QUEUE_SIZE" for q
    by (auto simp: swq_inv_def)
qed (assumption | rule swq_push_ok swq_push_full swq_pop_empty swq_pop_ok)+

lemma swq_inv_init: "swq_inv (nvme_sw_queue_init q fg)" "swq_items (nvme_sw_queue_init q fg) = []"
  by (simp_all add: swq_inv_def nvme_sw_queue_init_def swq_items_def NVME_SW_QUEUE_SIZE_def)

lemma swq_isempty: "swq_inv q \<Longrightarrow> nvme_sw_queue_isempty q = (if swq_items q = [] then 1 else 0)"
  by (auto simp: nvme_sw_queue_isempty_def swq_inv_def swq_items_def)

lemma swq_peak:
  "swq_inv q \<Longrightarrow> nvme_sw_queue_peak_head_cost h q =
     (case swq_items q of [] \<Rightarrow> - 1 | x # _ \<Rightarrow> req_cost (h x))"
  using swq_items_Cons [of q]
  by (cases "count q = 0") (auto simp: nvme_sw_queue_peak_head_cost_def swq_items_def swq_inv_def)

section \<open>Token accounting\<close>

text \<open>\<open>total_token_demand\<close> is the sum of the costs of the queued requests.\<close>

definition swq_demand :: "ctx_heap \<Rightarrow> nvme_sw_queue \<Rightarrow> int" where
  "swq_demand h q = (\<Sum>p \<leftarrow> swq_items q. req_cost (h p))"

definition swq_demand_inv :: "ctx_heap \<Rightarrow> nvme_sw_queue \<Rightarrow> bool" where
  "swq_demand_inv h q \<longleftrightarrow> total_token_demand q = word_of_int (swq_demand h q)"

lemma swq_demand_init: "swq_demand_inv h (nvme_sw_queue_init q fg)"
  by (simp add: swq_demand_inv_def swq_demand_def swq_inv_init(2)) (simp add: nvme_sw_queue_init_def)

lemma swq_demand_push:
  assumes "swq_inv q" "swq_demand_inv h q"
  shows "swq_demand_inv h (snd (nvme_sw_queue_push_back h q x))"
proof (cases "length (swq_items q) < NVME_SW_QUEUE_SIZE")
  case True
  obtain q' where q': "nvme_sw_queue_push_back h q x = (0, q')" "swq_items q' = swq_items q @ [x]"
    using swq.push_ok [OF assms(1) True, of h x] by blast
  then have "total_token_demand q' = total_token_demand q + word_of_int (req_cost (h x))"
    by (auto simp: nvme_sw_queue_push_back_def EAGAIN_def split: if_splits)
  then show ?thesis using q' assms(2) by (simp add: swq_demand_inv_def swq_demand_def)
next
  case False
  then have "length (swq_items q) = NVME_SW_QUEUE_SIZE" using swq.items_cap [OF assms(1)] by simp
  then show ?thesis using swq.push_full [OF assms(1)] assms(2) by simp
qed

lemma swq_demand_pop:
  assumes "swq_inv q" "swq_demand_inv h q"
  shows "swq_demand_inv h (snd (snd (nvme_sw_queue_pop_front h q)))"
proof (cases "swq_items q")
  case Nil
  then show ?thesis using swq.pop_empty [OF assms(1)] assms(2) by simp
next
  case (Cons x xs)
  obtain q' where q': "nvme_sw_queue_pop_front h q = (0, Some x, q')" "swq_items q' = xs"
    using swq.pop_ok [OF assms(1) Cons, of h] by blast
  then have "total_token_demand q' = total_token_demand q - word_of_int (req_cost (h x))"
    by (auto simp: nvme_sw_queue_pop_front_def EAGAIN_def Let_def split: if_splits)
  then show ?thesis using q' Cons assms(2) by (simp add: swq_demand_inv_def swq_demand_def)
qed

text \<open>
  Saving tokens never takes more than is offered and never more than the queue demands, so the
  caller's subtraction \<open>be_tokens -= nvme_sw_queue_save_tokens(q, be_tokens)\<close> cannot wrap.
\<close>

lemma save_tokens_le: "fst (nvme_sw_queue_save_tokens q tokens) \<le> tokens"
  by (auto simp: nvme_sw_queue_save_tokens_def)

lemma save_tokens_le_demand: "fst (nvme_sw_queue_save_tokens q tokens) \<le> total_token_demand q"
  by (auto simp: nvme_sw_queue_save_tokens_def)

lemma save_tokens_after_take:
  "saved_tokens (snd (nvme_sw_queue_save_tokens (snd (nvme_sw_queue_take_saved_tokens q)) tokens))
     = fst (nvme_sw_queue_save_tokens q tokens)"
  by (auto simp: nvme_sw_queue_save_tokens_def nvme_sw_queue_take_saved_tokens_def)

lemma save_tokens_sel [simp]:
  "count (snd (nvme_sw_queue_save_tokens q t)) = count q"
  "buf (snd (nvme_sw_queue_save_tokens q t)) = buf q"
  "head (snd (nvme_sw_queue_save_tokens q t)) = head q"
  "tail (snd (nvme_sw_queue_save_tokens q t)) = tail q"
  "total_token_demand (snd (nvme_sw_queue_save_tokens q t)) = total_token_demand q"
  "fg_handle (snd (nvme_sw_queue_save_tokens q t)) = fg_handle q"
  "token_credit (snd (nvme_sw_queue_save_tokens q t)) = token_credit q"
  by (simp_all add: nvme_sw_queue_save_tokens_def)

section \<open>Properties\<close>

text \<open>
  C24. The ring buffer is a first-in first-out queue: pushing a list of requests and then popping
  as often as there are requests returns the requests that were queued before followed by the new
  ones, in order, as long as they fit in the \<open>NVME_SW_QUEUE_SIZE\<close> slots.
\<close>

theorem swq_fifo:
  assumes "swq_inv q" "length (swq_items q) + length xs \<le> NVME_SW_QUEUE_SIZE"
  shows "popn (nvme_sw_queue_pop_front h) (length (swq_items q @ xs))
     (fold (\<lambda>x q. snd (nvme_sw_queue_push_back h q x)) xs q) = map Some (swq_items q @ xs)"
  using assms by (rule swq.push_popn)

lemma swq_fifo_witness:
  "popn (nvme_sw_queue_pop_front (\<lambda>_. ctx0)) (length (swq_items (nvme_sw_queue_init swq0 5) @ [7, 8, 9]))
     (fold (\<lambda>x q. snd (nvme_sw_queue_push_back (\<lambda>_. ctx0) q x)) [7, 8, 9] (nvme_sw_queue_init swq0 5))
   = map Some [7, 8, 9]"
  using swq_fifo [of "nvme_sw_queue_init swq0 5" "[7, 8, 9]" "\<lambda>_. ctx0"]
  by (simp add: swq_inv_init NVME_SW_QUEUE_SIZE_def)

text \<open>The calls a tenant's queue receives, in any order.\<close>

datatype swq_call = Push ptr | Pop | Save u64 | Take

fun swq_exec :: "ctx_heap \<Rightarrow> swq_call \<Rightarrow> nvme_sw_queue \<Rightarrow> nvme_sw_queue" where
  "swq_exec h (Push x) q = snd (nvme_sw_queue_push_back h q x)"
| "swq_exec h Pop q = snd (snd (nvme_sw_queue_pop_front h q))"
| "swq_exec h (Save t) q = snd (nvme_sw_queue_save_tokens q t)"
| "swq_exec h Take q = snd (nvme_sw_queue_take_saved_tokens q)"

lemma swq_exec_inv:
  assumes "swq_inv q" "swq_demand_inv h q"
  shows "swq_inv (swq_exec h c q) \<and> swq_demand_inv h (swq_exec h c q)"
proof (cases c)
  case (Push x)
  then show ?thesis using assms swq.push_inv swq_demand_push by simp
next
  case Pop
  then show ?thesis using assms swq.pop_inv swq_demand_pop by simp
qed (use assms in \<open>simp_all add: swq_inv_def swq_demand_inv_def swq_demand_def swq_items_def
  nvme_sw_queue_take_saved_tokens_def\<close>)

text \<open>
  C25. After any sequence of calls on a freshly initialised queue, the ring indices are consistent
  and \<open>total_token_demand\<close> is the sum of the costs of exactly the requests that are queued.
\<close>

theorem swq_run_inv:
  "swq_inv (fold (swq_exec h) cs (nvme_sw_queue_init q fg)) \<and>
   total_token_demand (fold (swq_exec h) cs (nvme_sw_queue_init q fg)) =
     word_of_int (\<Sum>p \<leftarrow> swq_items (fold (swq_exec h) cs (nvme_sw_queue_init q fg)). req_cost (h p))"
proof -
  have "swq_inv q \<Longrightarrow> swq_demand_inv h q \<Longrightarrow>
      swq_inv (fold (swq_exec h) cs q) \<and> swq_demand_inv h (fold (swq_exec h) cs q)" for q
    by (induction cs arbitrary: q) (simp_all add: swq_exec_inv)
  from this [OF swq_inv_init(1) swq_demand_init] show ?thesis
    by (simp add: swq_demand_inv_def swq_demand_def)
qed

end
