(* ===== verification/Atomic.thy ===== *)
theory Atomic
  imports Prelude
begin

text \<open>
  The atomic counters of \<open>inc/ix/atomic.h\<close>.  An operation is a function from the contents of the
  counter to the returned value and the new contents; each is one indivisible step.  A signed
  counter is kept at its width, as the compiler's \<open>__sync\<close> primitives wrap.
\<close>


section \<open>\<open>atomic_t\<close>\<close>

definition atomic_read :: "u32 \<Rightarrow> int" where "atomic_read a = sint a"
definition atomic_write :: "u32 \<Rightarrow> int \<Rightarrow> u32" where "atomic_write a val = word_of_int val"

definition atomic_fetch_and_add :: "u32 \<Rightarrow> int \<Rightarrow> int \<times> u32" where
  "atomic_fetch_and_add a val = (sint (a), a + word_of_int val)"

text \<open>As written, \<open>atomic_fetch_and_sub\<close> calls \<open>__sync_fetch_and_add\<close>.\<close>

definition atomic_fetch_and_sub :: "u32 \<Rightarrow> int \<Rightarrow> int \<times> u32" where
  "atomic_fetch_and_sub a val = (sint (a), a + word_of_int val)"

definition atomic_add_and_fetch :: "u32 \<Rightarrow> int \<Rightarrow> int \<times> u32" where
  "atomic_add_and_fetch a val = (sint (a + word_of_int val), a + word_of_int val)"

definition atomic_sub_and_fetch :: "u32 \<Rightarrow> int \<Rightarrow> int \<times> u32" where
  "atomic_sub_and_fetch a val = (sint (a - word_of_int val), a - word_of_int val)"

definition atomic_inc :: "u32 \<Rightarrow> u32" where
  "atomic_inc a = snd (atomic_fetch_and_add a 1)"

definition atomic_dec_and_test :: "u32 \<Rightarrow> bool \<times> u32" where
  "atomic_dec_and_test a = (case atomic_sub_and_fetch a 1 of (v, a') \<Rightarrow> (v = 0, a'))"

definition atomic_cmpxchg :: "u32 \<Rightarrow> int \<Rightarrow> int \<Rightarrow> bool \<times> u32" where
  "atomic_cmpxchg a old nw = (if a = word_of_int old then (True, word_of_int nw) else (False, a))"

lemmas atomic_defs = atomic_read_def atomic_write_def atomic_fetch_and_add_def atomic_fetch_and_sub_def atomic_add_and_fetch_def atomic_sub_and_fetch_def atomic_inc_def atomic_dec_and_test_def atomic_cmpxchg_def

section \<open>\<open>atomic64_t\<close>\<close>

definition atomic64_read :: "u64 \<Rightarrow> int" where "atomic64_read a = sint a"
definition atomic64_write :: "u64 \<Rightarrow> int \<Rightarrow> u64" where "atomic64_write a val = word_of_int val"

definition atomic64_fetch_and_add :: "u64 \<Rightarrow> int \<Rightarrow> int \<times> u64" where
  "atomic64_fetch_and_add a val = (sint (a), a + word_of_int val)"

text \<open>As written, \<open>atomic64_fetch_and_sub\<close> calls \<open>__sync_fetch_and_add\<close>.\<close>

definition atomic64_fetch_and_sub :: "u64 \<Rightarrow> int \<Rightarrow> int \<times> u64" where
  "atomic64_fetch_and_sub a val = (sint (a), a + word_of_int val)"

definition atomic64_add_and_fetch :: "u64 \<Rightarrow> int \<Rightarrow> int \<times> u64" where
  "atomic64_add_and_fetch a val = (sint (a + word_of_int val), a + word_of_int val)"

definition atomic64_sub_and_fetch :: "u64 \<Rightarrow> int \<Rightarrow> int \<times> u64" where
  "atomic64_sub_and_fetch a val = (sint (a - word_of_int val), a - word_of_int val)"

definition atomic64_inc :: "u64 \<Rightarrow> u64" where
  "atomic64_inc a = snd (atomic64_fetch_and_add a 1)"

definition atomic64_dec_and_test :: "u64 \<Rightarrow> bool \<times> u64" where
  "atomic64_dec_and_test a = (case atomic64_sub_and_fetch a 1 of (v, a') \<Rightarrow> (v = 0, a'))"

definition atomic64_cmpxchg :: "u64 \<Rightarrow> int \<Rightarrow> int \<Rightarrow> bool \<times> u64" where
  "atomic64_cmpxchg a old nw = (if a = word_of_int old then (True, word_of_int nw) else (False, a))"

lemmas atomic64_defs = atomic64_read_def atomic64_write_def atomic64_fetch_and_add_def atomic64_fetch_and_sub_def atomic64_add_and_fetch_def atomic64_sub_and_fetch_def atomic64_inc_def atomic64_dec_and_test_def atomic64_cmpxchg_def

section \<open>\<open>atomic_u64_t\<close>\<close>

definition atomic_u64_read :: "u64 \<Rightarrow> u64" where "atomic_u64_read a = a"
definition atomic_u64_write :: "u64 \<Rightarrow> u64 \<Rightarrow> u64" where "atomic_u64_write a val = val"

definition atomic_u64_fetch_and_add :: "u64 \<Rightarrow> u64 \<Rightarrow> u64 \<times> u64" where
  "atomic_u64_fetch_and_add a val = (a, a + val)"

text \<open>As written, \<open>atomic_u64_fetch_and_sub\<close> calls \<open>__sync_fetch_and_add\<close>.\<close>

definition atomic_u64_fetch_and_sub :: "u64 \<Rightarrow> u64 \<Rightarrow> u64 \<times> u64" where
  "atomic_u64_fetch_and_sub a val = (a, a + val)"

definition atomic_u64_add_and_fetch :: "u64 \<Rightarrow> u64 \<Rightarrow> u64 \<times> u64" where
  "atomic_u64_add_and_fetch a val = (a + val, a + val)"

definition atomic_u64_sub_and_fetch :: "u64 \<Rightarrow> u64 \<Rightarrow> u64 \<times> u64" where
  "atomic_u64_sub_and_fetch a val = (a - val, a - val)"

definition atomic_u64_inc :: "u64 \<Rightarrow> u64" where
  "atomic_u64_inc a = snd (atomic_u64_fetch_and_add a 1)"

definition atomic_u64_dec_and_test :: "u64 \<Rightarrow> bool \<times> u64" where
  "atomic_u64_dec_and_test a = (case atomic_u64_sub_and_fetch a 1 of (v, a') \<Rightarrow> (v = 0, a'))"

definition atomic_u64_cmpxchg :: "u64 \<Rightarrow> u64 \<Rightarrow> u64 \<Rightarrow> bool \<times> u64" where
  "atomic_u64_cmpxchg a old nw = (if a = old then (True, nw) else (False, a))"

lemmas atomic_u64_defs = atomic_u64_read_def atomic_u64_write_def atomic_u64_fetch_and_add_def atomic_u64_fetch_and_sub_def atomic_u64_add_and_fetch_def atomic_u64_sub_and_fetch_def atomic_u64_inc_def atomic_u64_dec_and_test_def atomic_u64_cmpxchg_def

section \<open>Properties\<close>

lemma of_nat_u32_eq_0: "m < 2 ^ 32 \<Longrightarrow> (word_of_nat m :: u32) = 0 \<longleftrightarrow> m = 0"
  using nat_dvd_not_less [of m "2 ^ 32"] by (auto simp: word_of_nat_eq_0_iff)

text \<open>
  C36. A reference counter: a counter that has been incremented \<open>n\<close> times from 0 reaches 0 exactly
  at the \<open>n\<close>-th decrement, for every \<open>n\<close> that the counter can hold.
\<close>

theorem atomic_refcount:
  assumes "0 < n" "n < 2 ^ 31" "k < n"
  shows "fst (atomic_dec_and_test (((\<lambda>a. snd (atomic_dec_and_test a)) ^^ k) ((atomic_inc ^^ n) 0))) \<longleftrightarrow> Suc k = n"
proof -
  have inc: "(atomic_inc ^^ n) 0 = word_of_nat n" for n
    by (induction n) (simp_all add: atomic_defs)
  have dec: "k \<le> n \<Longrightarrow> ((\<lambda>a. snd (atomic_dec_and_test a)) ^^ k) (word_of_nat n) = word_of_nat (n - k)" for k
    by (induction k) (simp_all add: atomic_defs of_nat_diff)
  have "(word_of_nat (n - k) :: u32) - 1 = word_of_nat (n - k - 1)" using assms by (simp add: of_nat_diff)
  then have "fst (atomic_dec_and_test (word_of_nat (n - k))) \<longleftrightarrow> sint (word_of_nat (n - k - 1) :: u32) = 0"
    by (simp add: atomic_defs)
  also have "\<dots> \<longleftrightarrow> (word_of_nat (n - k - 1) :: u32) = 0" by (rule sint_eq_0)
  also have "\<dots> \<longleftrightarrow> n - k - 1 = 0"
    using assms by (intro of_nat_u32_eq_0) simp
  also have "\<dots> \<longleftrightarrow> Suc k = n" using assms by auto
  finally show ?thesis using inc [of n] dec [of k] assms by simp
qed

lemma atomic_refcount_witness:
  "fst (atomic_dec_and_test (((\<lambda>a. snd (atomic_dec_and_test a)) ^^ 1) ((atomic_inc ^^ 2) 0)))"
  using atomic_refcount [of 2 1] by simp

text \<open>\<open>atomic_fetch_and_sub\<close> adds instead of subtracting.\<close>

lemma atomic_fetch_and_sub_adds: "snd (atomic_fetch_and_sub 5 2) = 7" "snd (atomic_u64_fetch_and_sub 5 2) = 7"
  by (simp_all add: atomic_defs atomic_u64_defs)

end
