(* ===== verification/Usys.thy ===== *)
theory Usys
  imports Prelude
begin

text \<open>
  Batched system calls, \<open>inc/ix/syscall.h\<close>.  The application writes descriptors (\<open>ksys_*\<close>) that
  the data plane executes in a batch, and the data plane writes descriptors (\<open>usys_*\<close>) into a
  per-core array that the application reads as events.  Every argument travels as a \<open>uint64_t\<close>.
\<close>

section \<open>Descriptors\<close>

record bsys_desc =
  sysnr :: u64
  arga :: u64
  argb :: u64
  argc :: u64
  argd :: u64
  arge :: u64
  argf :: u64

text \<open>The casts \<open>(uint64_t)(x)\<close> of a \<open>long\<close> or \<open>int\<close> and of an \<open>unsigned int\<close>.\<close>

abbreviation u64_of_long :: "int \<Rightarrow> u64" where "u64_of_long x \<equiv> word_of_int x"
abbreviation u64_of_uint :: "u32 \<Rightarrow> u64" where "u64_of_uint x \<equiv> ucast x"

text \<open>
  A parameter of type \<open>long\<close>, \<open>int\<close> or \<open>unsigned int\<close> of a handler that is called through
  \<open>bsysfn_t\<close> with \<open>uint64_t\<close> values.
\<close>

definition long_of_u64 :: "u64 \<Rightarrow> int" where "long_of_u64 x = sint x"
definition int_of_u64 :: "u64 \<Rightarrow> int" where "int_of_u64 x = sint (ucast x :: u32)"
definition uint_of_u64 :: "u64 \<Rightarrow> u32" where "uint_of_u64 x = ucast x"

definition long_ok :: "int \<Rightarrow> bool" where "long_ok x \<longleftrightarrow> - (2 ^ 63) \<le> x \<and> x < 2 ^ 63"
definition int_ok :: "int \<Rightarrow> bool" where "int_ok x \<longleftrightarrow> - (2 ^ 31) \<le> x \<and> x < 2 ^ 31"

lemma long_of_u64_of_long [simp]: "long_ok x \<Longrightarrow> long_of_u64 (u64_of_long x) = x"
  by (simp add: long_ok_def long_of_u64_def sint_sbintrunc' signed_take_bit_int_eq_self)

lemma int_of_u64_of_long [simp]: "int_ok x \<Longrightarrow> int_of_u64 (u64_of_long x) = x"
  by (simp add: int_ok_def int_of_u64_def unsigned_of_int sint_sbintrunc' signed_take_bit_take_bit
    signed_take_bit_int_eq_self)

lemma uint_of_u64_of_uint [simp]: "uint_of_u64 (u64_of_uint x) = x"
  unfolding uint_of_u64_def by (rule ucast_up_ucast_id) (simp add: is_up)

definition BSYS_DESC_NOARG :: "bsys_desc \<Rightarrow> u64 \<Rightarrow> bsys_desc" where
  "BSYS_DESC_NOARG desc vsysnr = desc\<lparr>sysnr := vsysnr\<rparr>"

definition BSYS_DESC_1ARG :: "bsys_desc \<Rightarrow> u64 \<Rightarrow> u64 \<Rightarrow> bsys_desc" where
  "BSYS_DESC_1ARG desc vsysnr varga = (BSYS_DESC_NOARG desc vsysnr)\<lparr>arga := varga\<rparr>"

definition BSYS_DESC_2ARG :: "bsys_desc \<Rightarrow> u64 \<Rightarrow> u64 \<Rightarrow> u64 \<Rightarrow> bsys_desc" where
  "BSYS_DESC_2ARG desc vsysnr varga vargb = (BSYS_DESC_1ARG desc vsysnr varga)\<lparr>argb := vargb\<rparr>"

definition BSYS_DESC_3ARG :: "bsys_desc \<Rightarrow> u64 \<Rightarrow> u64 \<Rightarrow> u64 \<Rightarrow> u64 \<Rightarrow> bsys_desc" where
  "BSYS_DESC_3ARG desc vsysnr varga vargb vargc = (BSYS_DESC_2ARG desc vsysnr varga vargb)\<lparr>argc := vargc\<rparr>"

definition BSYS_DESC_4ARG :: "bsys_desc \<Rightarrow> u64 \<Rightarrow> u64 \<Rightarrow> u64 \<Rightarrow> u64 \<Rightarrow> u64 \<Rightarrow> bsys_desc" where
  "BSYS_DESC_4ARG desc vsysnr varga vargb vargc vargd = (BSYS_DESC_3ARG desc vsysnr varga vargb vargc)\<lparr>argd := vargd\<rparr>"

definition BSYS_DESC_5ARG :: "bsys_desc \<Rightarrow> u64 \<Rightarrow> u64 \<Rightarrow> u64 \<Rightarrow> u64 \<Rightarrow> u64 \<Rightarrow> u64 \<Rightarrow> bsys_desc" where
  "BSYS_DESC_5ARG desc vsysnr varga vargb vargc vargd varge = (BSYS_DESC_4ARG desc vsysnr varga vargb vargc vargd)\<lparr>arge := varge\<rparr>"

definition BSYS_DESC_6ARG :: "bsys_desc \<Rightarrow> u64 \<Rightarrow> u64 \<Rightarrow> u64 \<Rightarrow> u64 \<Rightarrow> u64 \<Rightarrow> u64 \<Rightarrow> u64 \<Rightarrow> bsys_desc" where
  "BSYS_DESC_6ARG desc vsysnr varga vargb vargc vargd varge vargf = (BSYS_DESC_5ARG desc vsysnr varga vargb vargc vargd varge)\<lparr>argf := vargf\<rparr>"

lemmas BSYS_DESC_defs = BSYS_DESC_NOARG_def BSYS_DESC_1ARG_def BSYS_DESC_2ARG_def BSYS_DESC_3ARG_def BSYS_DESC_4ARG_def BSYS_DESC_5ARG_def BSYS_DESC_6ARG_def

section \<open>Descriptor arrays\<close>

text \<open>
  The array of the events is allocated by \<open>syscall_init_cpu\<close> of \<open>core/syscall.c\<close> with room for
  \<open>UARR_MIN_CAPACITY\<close> descriptors.  \<open>descs\<close> is the memory from its first descriptor on, indexed by
  descriptors: the code never compares \<open>len\<close> with the capacity, so that it can write behind the
  allocation, at positions from \<open>UARR_MIN_CAPACITY\<close> on.  \<open>arr_ok\<close> says that it has not.
\<close>

definition UARR_MIN_CAPACITY :: nat where "UARR_MIN_CAPACITY = 8192"

record bsys_arr =
  len :: u64
  max_len :: u64
  descs :: "nat \<Rightarrow> bsys_desc"

text \<open>\<open>__bsys_arr_next\<close> returns the position of the next descriptor and does not check for overflow.\<close>

definition bsys_arr_next_unchecked :: "bsys_arr \<Rightarrow> nat \<times> bsys_arr" where
  "bsys_arr_next_unchecked a = (unat (len a), a\<lparr>len := len a + 1\<rparr>)"

definition bsys_arr_next :: "bsys_arr \<Rightarrow> nat option \<times> bsys_arr" where
  "bsys_arr_next a =
     (if len a \<ge> max_len a then (None, a)
      else case bsys_arr_next_unchecked a of (i, a') \<Rightarrow> (Some i, a'))"

definition usys_reset :: "bsys_arr \<Rightarrow> bsys_arr" where
  "usys_reset a = a\<lparr>len := 0\<rparr>"

definition usys_next :: "bsys_arr \<Rightarrow> nat \<times> bsys_arr" where
  "usys_next a = bsys_arr_next_unchecked a"

text \<open>Programming the descriptor at position \<open>i\<close>.\<close>

definition desc_upd :: "nat \<Rightarrow> (bsys_desc \<Rightarrow> bsys_desc) \<Rightarrow> bsys_arr \<Rightarrow> bsys_arr" where
  "desc_upd i f a = a\<lparr>descs := (descs a)(i := f (descs a i))\<rparr>"

section \<open>Commands from the application to the data plane\<close>

definition KSYS_UDP_SEND :: u64 where "KSYS_UDP_SEND = 0"
definition KSYS_UDP_SENDV :: u64 where "KSYS_UDP_SENDV = 1"
definition KSYS_UDP_RECV_DONE :: u64 where "KSYS_UDP_RECV_DONE = 2"
definition KSYS_TCP_CONNECT :: u64 where "KSYS_TCP_CONNECT = 3"
definition KSYS_TCP_ACCEPT :: u64 where "KSYS_TCP_ACCEPT = 4"
definition KSYS_TCP_REJECT :: u64 where "KSYS_TCP_REJECT = 5"
definition KSYS_TCP_SEND :: u64 where "KSYS_TCP_SEND = 6"
definition KSYS_TCP_SENDV :: u64 where "KSYS_TCP_SENDV = 7"
definition KSYS_TCP_RECV_DONE :: u64 where "KSYS_TCP_RECV_DONE = 8"
definition KSYS_TCP_CLOSE :: u64 where "KSYS_TCP_CLOSE = 9"
definition KSYS_NVME_WRITE :: u64 where "KSYS_NVME_WRITE = 10"
definition KSYS_NVME_READ :: u64 where "KSYS_NVME_READ = 11"
definition KSYS_NVME_WRITEV :: u64 where "KSYS_NVME_WRITEV = 12"
definition KSYS_NVME_READV :: u64 where "KSYS_NVME_READV = 13"
definition KSYS_NVME_OPEN :: u64 where "KSYS_NVME_OPEN = 14"
definition KSYS_NVME_CLOSE :: u64 where "KSYS_NVME_CLOSE = 15"
definition KSYS_NVME_REGISTER_FLOW :: u64 where "KSYS_NVME_REGISTER_FLOW = 16"
definition KSYS_NVME_UNREGISTER_FLOW :: u64 where "KSYS_NVME_UNREGISTER_FLOW = 17"
definition KSYS_NR :: u64 where "KSYS_NR = 18"

lemmas KSYS_defs = KSYS_UDP_SEND_def KSYS_UDP_SENDV_def KSYS_UDP_RECV_DONE_def KSYS_TCP_CONNECT_def KSYS_TCP_ACCEPT_def KSYS_TCP_REJECT_def KSYS_TCP_SEND_def KSYS_TCP_SENDV_def KSYS_TCP_RECV_DONE_def KSYS_TCP_CLOSE_def KSYS_NVME_WRITE_def KSYS_NVME_READ_def KSYS_NVME_WRITEV_def KSYS_NVME_READV_def KSYS_NVME_OPEN_def KSYS_NVME_CLOSE_def KSYS_NVME_REGISTER_FLOW_def KSYS_NVME_UNREGISTER_FLOW_def KSYS_NR_def

definition ksys_udp_send :: "bsys_desc \<Rightarrow> u64 \<Rightarrow> u64 \<Rightarrow> u64 \<Rightarrow> u64 \<Rightarrow> bsys_desc" where
  "ksys_udp_send d addr sz id_p cookie =
     BSYS_DESC_4ARG d KSYS_UDP_SEND addr sz id_p cookie"

definition ksys_udp_sendv :: "bsys_desc \<Rightarrow> u64 \<Rightarrow> u32 \<Rightarrow> u64 \<Rightarrow> u64 \<Rightarrow> bsys_desc" where
  "ksys_udp_sendv d ents nrents id_p cookie =
     BSYS_DESC_4ARG d KSYS_UDP_SENDV ents (u64_of_uint nrents) id_p cookie"

definition ksys_udp_recv_done :: "bsys_desc \<Rightarrow> u64 \<Rightarrow> bsys_desc" where
  "ksys_udp_recv_done d iomap =
     BSYS_DESC_1ARG d KSYS_UDP_RECV_DONE iomap"

definition ksys_tcp_connect :: "bsys_desc \<Rightarrow> u64 \<Rightarrow> u64 \<Rightarrow> bsys_desc" where
  "ksys_tcp_connect d id_p cookie =
     BSYS_DESC_2ARG d KSYS_TCP_CONNECT id_p cookie"

definition ksys_tcp_accept :: "bsys_desc \<Rightarrow> int \<Rightarrow> u64 \<Rightarrow> bsys_desc" where
  "ksys_tcp_accept d handle cookie =
     BSYS_DESC_2ARG d KSYS_TCP_ACCEPT (u64_of_long handle) cookie"

definition ksys_tcp_reject :: "bsys_desc \<Rightarrow> int \<Rightarrow> bsys_desc" where
  "ksys_tcp_reject d handle =
     BSYS_DESC_1ARG d KSYS_TCP_REJECT (u64_of_long handle)"

definition ksys_tcp_send :: "bsys_desc \<Rightarrow> int \<Rightarrow> u64 \<Rightarrow> u64 \<Rightarrow> bsys_desc" where
  "ksys_tcp_send d handle addr sz =
     BSYS_DESC_3ARG d KSYS_TCP_SEND (u64_of_long handle) addr sz"

definition ksys_tcp_sendv :: "bsys_desc \<Rightarrow> int \<Rightarrow> u64 \<Rightarrow> u32 \<Rightarrow> bsys_desc" where
  "ksys_tcp_sendv d handle ents nrents =
     BSYS_DESC_3ARG d KSYS_TCP_SENDV (u64_of_long handle) ents (u64_of_uint nrents)"

definition ksys_tcp_recv_done :: "bsys_desc \<Rightarrow> int \<Rightarrow> u64 \<Rightarrow> bsys_desc" where
  "ksys_tcp_recv_done d handle sz =
     BSYS_DESC_2ARG d KSYS_TCP_RECV_DONE (u64_of_long handle) sz"

definition ksys_tcp_close :: "bsys_desc \<Rightarrow> int \<Rightarrow> bsys_desc" where
  "ksys_tcp_close d handle =
     BSYS_DESC_1ARG d KSYS_TCP_CLOSE (u64_of_long handle)"

definition ksys_nvme_open :: "bsys_desc \<Rightarrow> int \<Rightarrow> int \<Rightarrow> bsys_desc" where
  "ksys_nvme_open d dev_id ns_id =
     BSYS_DESC_2ARG d KSYS_NVME_OPEN (u64_of_long dev_id) (u64_of_long ns_id)"

definition ksys_nvme_close :: "bsys_desc \<Rightarrow> int \<Rightarrow> int \<Rightarrow> int \<Rightarrow> bsys_desc" where
  "ksys_nvme_close d dev_id ns_id handle =
     BSYS_DESC_3ARG d KSYS_NVME_CLOSE (u64_of_long dev_id) (u64_of_long ns_id) (u64_of_long handle)"

definition ksys_nvme_write :: "bsys_desc \<Rightarrow> int \<Rightarrow> u64 \<Rightarrow> u64 \<Rightarrow> u32 \<Rightarrow> u64 \<Rightarrow> bsys_desc" where
  "ksys_nvme_write d priority bf lba lba_count cookie =
     BSYS_DESC_5ARG d KSYS_NVME_WRITE (u64_of_long priority) bf lba (u64_of_uint lba_count) cookie"

definition ksys_nvme_read :: "bsys_desc \<Rightarrow> int \<Rightarrow> u64 \<Rightarrow> u64 \<Rightarrow> u32 \<Rightarrow> u64 \<Rightarrow> bsys_desc" where
  "ksys_nvme_read d priority bf lba lba_count cookie =
     BSYS_DESC_5ARG d KSYS_NVME_READ (u64_of_long priority) bf lba (u64_of_uint lba_count) cookie"

definition ksys_nvme_writev :: "bsys_desc \<Rightarrow> int \<Rightarrow> u64 \<Rightarrow> int \<Rightarrow> u64 \<Rightarrow> int \<Rightarrow> u64 \<Rightarrow> bsys_desc" where
  "ksys_nvme_writev d priority sgls num_sgls lba lba_count cookie =
     BSYS_DESC_6ARG d KSYS_NVME_WRITEV (u64_of_long priority) sgls (u64_of_long num_sgls) lba (u64_of_long lba_count) cookie"

definition ksys_nvme_readv :: "bsys_desc \<Rightarrow> int \<Rightarrow> u64 \<Rightarrow> int \<Rightarrow> u64 \<Rightarrow> int \<Rightarrow> u64 \<Rightarrow> bsys_desc" where
  "ksys_nvme_readv d fg_handle sgls num_sgls lba lba_count cookie =
     BSYS_DESC_6ARG d KSYS_NVME_READV (u64_of_long fg_handle) sgls (u64_of_long num_sgls) lba (u64_of_long lba_count) cookie"

definition ksys_nvme_register_flow :: "bsys_desc \<Rightarrow> int \<Rightarrow> u64 \<Rightarrow> u32 \<Rightarrow> u64 \<Rightarrow> int \<Rightarrow> bsys_desc" where
  "ksys_nvme_register_flow d flow_group_id cookie latency_us_SLO IOPS_SLO rw_ratio_SLO =
     BSYS_DESC_5ARG d KSYS_NVME_REGISTER_FLOW (u64_of_long flow_group_id) cookie (u64_of_uint latency_us_SLO) IOPS_SLO (u64_of_long rw_ratio_SLO)"

definition ksys_nvme_unregister_flow :: "bsys_desc \<Rightarrow> int \<Rightarrow> bsys_desc" where
  "ksys_nvme_unregister_flow d fg_handle =
     BSYS_DESC_1ARG d KSYS_NVME_UNREGISTER_FLOW (u64_of_long fg_handle)"

lemmas ksys_defs = ksys_udp_send_def ksys_udp_sendv_def ksys_udp_recv_done_def ksys_tcp_connect_def ksys_tcp_accept_def ksys_tcp_reject_def ksys_tcp_send_def ksys_tcp_sendv_def ksys_tcp_recv_done_def ksys_tcp_close_def ksys_nvme_open_def ksys_nvme_close_def ksys_nvme_write_def ksys_nvme_read_def ksys_nvme_writev_def ksys_nvme_readv_def ksys_nvme_register_flow_def ksys_nvme_unregister_flow_def

section \<open>Events from the data plane to the application\<close>

definition USYS_UDP_RECV :: u64 where "USYS_UDP_RECV = 0"
definition USYS_UDP_SENT :: u64 where "USYS_UDP_SENT = 1"
definition USYS_TCP_CONNECTED :: u64 where "USYS_TCP_CONNECTED = 2"
definition USYS_TCP_KNOCK :: u64 where "USYS_TCP_KNOCK = 3"
definition USYS_TCP_RECV :: u64 where "USYS_TCP_RECV = 4"
definition USYS_TCP_SENT :: u64 where "USYS_TCP_SENT = 5"
definition USYS_TCP_DEAD :: u64 where "USYS_TCP_DEAD = 6"
definition USYS_NVME_WRITTEN :: u64 where "USYS_NVME_WRITTEN = 7"
definition USYS_NVME_RESPONSE :: u64 where "USYS_NVME_RESPONSE = 8"
definition USYS_NVME_OPENED :: u64 where "USYS_NVME_OPENED = 9"
definition USYS_NVME_CLOSED :: u64 where "USYS_NVME_CLOSED = 10"
definition USYS_NVME_REGISTERED_FLOW :: u64 where "USYS_NVME_REGISTERED_FLOW = 11"
definition USYS_NVME_UNREGISTERED_FLOW :: u64 where "USYS_NVME_UNREGISTERED_FLOW = 12"
definition USYS_TIMER :: u64 where "USYS_TIMER = 13"
definition USYS_NR :: u64 where "USYS_NR = 14"

lemmas USYS_defs = USYS_UDP_RECV_def USYS_UDP_SENT_def USYS_TCP_CONNECTED_def USYS_TCP_KNOCK_def USYS_TCP_RECV_def USYS_TCP_SENT_def USYS_TCP_DEAD_def USYS_NVME_WRITTEN_def USYS_NVME_RESPONSE_def USYS_NVME_OPENED_def USYS_NVME_CLOSED_def USYS_NVME_REGISTERED_FLOW_def USYS_NVME_UNREGISTERED_FLOW_def USYS_TIMER_def USYS_NR_def

definition usys_udp_recv :: "bsys_arr \<Rightarrow> u64 \<Rightarrow> u64 \<Rightarrow> u64 \<Rightarrow> bsys_arr" where
  "usys_udp_recv arr addr sz id_p =
     (case usys_next arr of (d, arr') \<Rightarrow>
        desc_upd d (\<lambda>d. BSYS_DESC_3ARG d USYS_UDP_RECV addr sz id_p) arr')"

definition usys_udp_sent :: "bsys_arr \<Rightarrow> u64 \<Rightarrow> bsys_arr" where
  "usys_udp_sent arr cookie =
     (case usys_next arr of (d, arr') \<Rightarrow>
        desc_upd d (\<lambda>d. BSYS_DESC_1ARG d USYS_UDP_SENT cookie) arr')"

definition usys_tcp_connected :: "bsys_arr \<Rightarrow> int \<Rightarrow> u64 \<Rightarrow> int \<Rightarrow> bsys_arr" where
  "usys_tcp_connected arr handle cookie ret =
     (case usys_next arr of (d, arr') \<Rightarrow>
        desc_upd d (\<lambda>d. BSYS_DESC_3ARG d USYS_TCP_CONNECTED (u64_of_long handle) cookie (u64_of_long ret)) arr')"

definition usys_tcp_knock :: "bsys_arr \<Rightarrow> int \<Rightarrow> u64 \<Rightarrow> bsys_arr" where
  "usys_tcp_knock arr handle id_p =
     (case usys_next arr of (d, arr') \<Rightarrow>
        desc_upd d (\<lambda>d. BSYS_DESC_2ARG d USYS_TCP_KNOCK (u64_of_long handle) id_p) arr')"

definition usys_tcp_recv :: "bsys_arr \<Rightarrow> int \<Rightarrow> u64 \<Rightarrow> u64 \<Rightarrow> u64 \<Rightarrow> bsys_arr" where
  "usys_tcp_recv arr handle cookie addr sz =
     (case usys_next arr of (d, arr') \<Rightarrow>
        desc_upd d (\<lambda>d. BSYS_DESC_4ARG d USYS_TCP_RECV (u64_of_long handle) cookie addr sz) arr')"

definition usys_tcp_sent :: "bsys_arr \<Rightarrow> int \<Rightarrow> u64 \<Rightarrow> u64 \<Rightarrow> bsys_arr" where
  "usys_tcp_sent arr handle cookie sz =
     (case usys_next arr of (d, arr') \<Rightarrow>
        desc_upd d (\<lambda>d. BSYS_DESC_3ARG d USYS_TCP_SENT (u64_of_long handle) cookie sz) arr')"

definition usys_tcp_dead :: "bsys_arr \<Rightarrow> int \<Rightarrow> u64 \<Rightarrow> bsys_arr" where
  "usys_tcp_dead arr handle cookie =
     (case usys_next arr of (d, arr') \<Rightarrow>
        desc_upd d (\<lambda>d. BSYS_DESC_2ARG d USYS_TCP_DEAD (u64_of_long handle) cookie) arr')"

definition usys_nvme_written :: "bsys_arr \<Rightarrow> u64 \<Rightarrow> int \<Rightarrow> bsys_arr" where
  "usys_nvme_written arr cookie ret =
     (case usys_next arr of (d, arr') \<Rightarrow>
        desc_upd d (\<lambda>d. BSYS_DESC_2ARG d USYS_NVME_WRITTEN cookie (u64_of_long ret)) arr')"

definition usys_nvme_response :: "bsys_arr \<Rightarrow> u64 \<Rightarrow> u64 \<Rightarrow> int \<Rightarrow> bsys_arr" where
  "usys_nvme_response arr cookie bf ret =
     (case usys_next arr of (d, arr') \<Rightarrow>
        desc_upd d (\<lambda>d. BSYS_DESC_3ARG d USYS_NVME_RESPONSE cookie bf (u64_of_long ret)) arr')"

definition usys_nvme_opened :: "bsys_arr \<Rightarrow> int \<Rightarrow> int \<Rightarrow> int \<Rightarrow> bsys_arr" where
  "usys_nvme_opened arr handle ns_size ns_sector_size =
     (case usys_next arr of (d, arr') \<Rightarrow>
        desc_upd d (\<lambda>d. BSYS_DESC_3ARG d USYS_NVME_OPENED (u64_of_long handle) (u64_of_long ns_size) (u64_of_long ns_sector_size)) arr')"

definition usys_nvme_closed :: "bsys_arr \<Rightarrow> int \<Rightarrow> int \<Rightarrow> bsys_arr" where
  "usys_nvme_closed arr handle ret =
     (case usys_next arr of (d, arr') \<Rightarrow>
        desc_upd d (\<lambda>d. BSYS_DESC_2ARG d USYS_NVME_CLOSED (u64_of_long handle) (u64_of_long ret)) arr')"

definition usys_nvme_registered_flow :: "bsys_arr \<Rightarrow> int \<Rightarrow> u64 \<Rightarrow> int \<Rightarrow> bsys_arr" where
  "usys_nvme_registered_flow arr fg_handle cookie ret =
     (case usys_next arr of (d, arr') \<Rightarrow>
        desc_upd d (\<lambda>d. BSYS_DESC_3ARG d USYS_NVME_REGISTERED_FLOW (u64_of_long fg_handle) cookie (u64_of_long ret)) arr')"

definition usys_nvme_unregistered_flow :: "bsys_arr \<Rightarrow> int \<Rightarrow> int \<Rightarrow> bsys_arr" where
  "usys_nvme_unregistered_flow arr flow_group_id ret =
     (case usys_next arr of (d, arr') \<Rightarrow>
        desc_upd d (\<lambda>d. BSYS_DESC_2ARG d USYS_NVME_UNREGISTERED_FLOW (u64_of_long flow_group_id) (u64_of_long ret)) arr')"

definition usys_timer :: "bsys_arr \<Rightarrow> u64 \<Rightarrow> bsys_arr" where
  "usys_timer arr cookie =
     (case usys_next arr of (d, arr') \<Rightarrow>
        desc_upd d (\<lambda>d. BSYS_DESC_1ARG d USYS_TIMER cookie) arr')"

lemmas usys_defs = usys_udp_recv_def usys_udp_sent_def usys_tcp_connected_def usys_tcp_knock_def usys_tcp_recv_def usys_tcp_sent_def usys_tcp_dead_def usys_nvme_written_def usys_nvme_response_def usys_nvme_opened_def usys_nvme_closed_def usys_nvme_registered_flow_def usys_nvme_unregistered_flow_def usys_timer_def

section \<open>The event log\<close>

definition arr_ok :: "bsys_arr \<Rightarrow> bool" where
  "arr_ok a \<longleftrightarrow> unat (len a) \<le> UARR_MIN_CAPACITY"

text \<open>When all descriptors are in use the next one is behind the allocation, although one is returned.\<close>

lemma usys_next_overflow: "unat (len a) = UARR_MIN_CAPACITY \<Longrightarrow> fst (usys_next a) = UARR_MIN_CAPACITY \<and> \<not> arr_ok (snd (usys_next a))"
  by (simp add: usys_next_def bsys_arr_next_unchecked_def arr_ok_def UARR_MIN_CAPACITY_def unat_plus_if_size word_size)

definition usys_events :: "bsys_arr \<Rightarrow> bsys_desc list" where
  "usys_events arr = map (descs arr) [0..<unat (len arr)]"

lemma usys_events_reset [simp]: "usys_events (usys_reset arr) = []"
  by (simp add: usys_events_def usys_reset_def)

lemma usys_events_put:
  assumes "len arr \<noteq> - 1"
  shows "usys_events (case usys_next arr of (d, arr') \<Rightarrow> desc_upd d f arr') =
    usys_events arr @ [f (descs arr (unat (len arr)))]"
proof -
  have "len arr + 1 \<noteq> 0" using assms by (metis add_eq_0_iff2)
  then have "unat (len arr + 1) = Suc (unat (len arr))" by (simp add: unatSuc add.commute)
  then show ?thesis
    by (simp add: usys_next_def bsys_arr_next_unchecked_def desc_upd_def usys_events_def)
qed

lemma usys_put_len [simp]:
  "len (case usys_next arr of (d, arr') \<Rightarrow> desc_upd d f arr') = len arr + 1"
  "max_len (case usys_next arr of (d, arr') \<Rightarrow> desc_upd d f arr') = max_len arr"
  by (simp_all add: usys_next_def bsys_arr_next_unchecked_def desc_upd_def)

lemma usys_len [simp]:
  "len (usys_nvme_written arr c r) = len arr + 1"
  "len (usys_nvme_response arr c b r) = len arr + 1"
  "len (usys_nvme_opened arr h sz ssz) = len arr + 1"
  "len (usys_nvme_closed arr h r) = len arr + 1"
  "len (usys_nvme_registered_flow arr h c r) = len arr + 1"
  "len (usys_nvme_unregistered_flow arr h r) = len arr + 1"
  by (simp_all add: usys_defs)

end

