(* ===== verification/Mempool.thy ===== *)
theory Mempool
  imports Prelude
begin

text \<open>
  Memory pools, \<open>core/mempool.c\<close> and \<open>inc/ix/mempool.h\<close>.  A pool is a thin layer over a DPDK
  \<open>rte_mempool\<close>; DPDK is not part of the repository, so its functions are the fields of the
  record \<open>dpdk\<close>, an argument of the definitions, and work on an opaque state \<open>'w\<close>.  What the
  code relies on is the predicate \<open>rte_mempool_ok\<close>, which states the documented behaviour of
  \<open>rte_mempool_get\<close> and \<open>rte_mempool_put\<close>.  The file also has its own copy of the DPDK code that
  fills a pool, changed to align every object to 4 KB; that code is modelled in full.
\<close>

unbundle bit_operations_syntax

section \<open>DPDK\<close>

record 'w dpdk =
  rte_mempool_create :: "string \<Rightarrow> u32 \<Rightarrow> u32 \<Rightarrow> 'w \<Rightarrow> ptr option \<times> 'w"
  rte_pktmbuf_pool_create :: "string \<Rightarrow> u32 \<Rightarrow> u16 \<Rightarrow> 'w \<Rightarrow> ptr option \<times> 'w"
  rte_mempool_get :: "ptr option \<Rightarrow> 'w \<Rightarrow> int \<times> ptr \<times> 'w"
  rte_mempool_put :: "ptr option \<Rightarrow> ptr \<Rightarrow> 'w \<Rightarrow> 'w"
  rte_mempool_free :: "ptr option \<Rightarrow> 'w \<Rightarrow> 'w"

text \<open>
  \<open>free pool w\<close> are the objects that are in the pool.  \<open>rte_mempool_get\<close> returns 0 and takes one
  of them out, or returns an error and takes none; \<open>rte_mempool_put\<close> puts back an object that is
  not in the pool.  Nothing is said about an object that is put back twice.
\<close>

definition rte_mempool_ok :: "'w dpdk \<Rightarrow> (ptr option \<Rightarrow> 'w \<Rightarrow> ptr set) \<Rightarrow> bool" where
  "rte_mempool_ok E free \<longleftrightarrow>
     (\<forall>pool w. case rte_mempool_get E pool w of (ret, p, w') \<Rightarrow>
        (if ret = 0 then p \<in> free pool w \<and> free pool w' = free pool w - {p}
         else free pool w' = free pool w) \<and>
        (\<forall>pool'. pool' \<noteq> pool \<longrightarrow> free pool' w' = free pool' w)) \<and>
     (\<forall>pool p w. p \<notin> free pool w \<longrightarrow> free pool (rte_mempool_put E pool p w) = insert p (free pool w) \<and>
        (\<forall>pool'. pool' \<noteq> pool \<longrightarrow> free pool' (rte_mempool_put E pool p w) = free pool' w))"

section \<open>Data stores and pools\<close>

definition MEMPOOL_MAGIC :: u64 where "MEMPOOL_MAGIC = 0x12911776"
definition MEMPOOL_INITIAL_OFFSET :: u64 where "MEMPOOL_INITIAL_OFFSET = 0"
definition MEMPOOL_SANITY_GLOBAL :: int where "MEMPOOL_SANITY_GLOBAL = 0"
definition MEMPOOL_SANITY_PERCPU :: int where "MEMPOOL_SANITY_PERCPU = 1"

record mempool_datastore =
  ds_magic :: u64
  ds_pool :: "ptr option"
  ds_nr_elems :: u32
  ds_elem_len :: u64
  prettyname :: string
  next_ds :: "ptr option"

record mempool =
  m_elem_len :: u64
  m_magic :: u64
  m_datastore :: ptr
  m_sanity :: int
  m_nr_elems :: u32

text \<open>The data stores are static variables; \<open>dss\<close> maps the address of each to its contents.\<close>

record 'w mp_state =
  dss :: "ptr \<Rightarrow> mempool_datastore"
  mempool_all_datastores :: "ptr option"
  mp_world :: 'w

definition align_up :: "u64 \<Rightarrow> u64 \<Rightarrow> u64" where
  "align_up x a = ((x - 1) OR (a - 1)) + 1"

text \<open>
  The body that the three functions creating a data store share; \<open>mk\<close> is the DPDK call.  \<open>None\<close>
  is a failed assertion or the call of \<open>panic\<close> when the pool cannot be created.
\<close>

definition create_datastore ::
  "(u64 \<Rightarrow> 'w \<Rightarrow> ptr option \<times> 'w) \<Rightarrow> ptr \<Rightarrow> int \<Rightarrow> u64 \<Rightarrow> string \<Rightarrow> 'w mp_state \<Rightarrow> (int \<times> 'w mp_state) option"
where
  "create_datastore mk mds nr_elems elem_len name s =
     (if ds_magic (dss s mds) \<noteq> 0 then None
      else if elem_len = 0 \<or> nr_elems = 0 then Some (- EINVAL, s)
      else
        let elem_len = align_up elem_len 8 + MEMPOOL_INITIAL_OFFSET;
            (pool, w) = mk elem_len (mp_world s);
            d = (dss s mds)\<lparr>ds_magic := MEMPOOL_MAGIC, prettyname := name, ds_pool := pool,
                  ds_nr_elems := word_of_int nr_elems, ds_elem_len := elem_len\<rparr>
        in if pool = None then None
           else Some (0, s\<lparr>dss := (dss s)(mds := d\<lparr>next_ds := mempool_all_datastores s\<rparr>),
                           mempool_all_datastores := Some mds, mp_world := w\<rparr>))"

definition mempool_create_datastore ::
  "'w dpdk \<Rightarrow> ptr \<Rightarrow> int \<Rightarrow> u64 \<Rightarrow> string \<Rightarrow> 'w mp_state \<Rightarrow> (int \<times> 'w mp_state) option" where
  "mempool_create_datastore E mds nr_elems elem_len name s =
     create_datastore (\<lambda>l. rte_mempool_create E name (word_of_int nr_elems) (ucast l))
       mds nr_elems elem_len name s"

definition mempool_create_mbuf_datastore ::
  "'w dpdk \<Rightarrow> ptr \<Rightarrow> int \<Rightarrow> u64 \<Rightarrow> string \<Rightarrow> 'w mp_state \<Rightarrow> (int \<times> 'w mp_state) option" where
  "mempool_create_mbuf_datastore E mds nr_elems elem_len name s =
     create_datastore (\<lambda>l. rte_pktmbuf_pool_create E name (word_of_int nr_elems) (ucast l))
       mds nr_elems elem_len name s"

definition mempool_create ::
  "mempool \<Rightarrow> ptr \<Rightarrow> int \<Rightarrow> int \<Rightarrow> 'w mp_state \<Rightarrow> (int \<times> mempool) option" where
  "mempool_create m mds sanity_type sanity_id s =
     (if ds_magic (dss s mds) \<noteq> MEMPOOL_MAGIC then None
      else if m_magic m \<noteq> 0 then None
      else Some (0, m\<lparr>m_magic := MEMPOOL_MAGIC, m_datastore := mds,
                      m_sanity := (push_bit 16 sanity_type) OR sanity_id,
                      m_nr_elems := ds_nr_elems (dss s mds), m_elem_len := ds_elem_len (dss s mds)\<rparr>))"

definition mempool_create_contig_nopad ::
  "mempool \<Rightarrow> ptr \<Rightarrow> int \<Rightarrow> int \<Rightarrow> 'w mp_state \<Rightarrow> (int \<times> mempool) option" where
  "mempool_create_contig_nopad m mds sanity_type sanity_id s =
     (if ds_magic (dss s mds) \<noteq> MEMPOOL_MAGIC then None
      else if m_magic m \<noteq> 0 then None
      else Some (0, m\<lparr>m_magic := MEMPOOL_MAGIC, m_datastore := mds,
                      m_sanity := (push_bit 16 sanity_type) OR sanity_id,
                      m_nr_elems := ds_nr_elems (dss s mds), m_elem_len := ds_elem_len (dss s mds)\<rparr>))"

definition mempool_destroy_datastore :: "'w dpdk \<Rightarrow> ptr \<Rightarrow> 'w mp_state \<Rightarrow> 'w mp_state" where
  "mempool_destroy_datastore E mds s =
     s\<lparr>dss := (dss s)(mds := (dss s mds)\<lparr>ds_magic := 0\<rparr>),
       mp_world := rte_mempool_free E (ds_pool (dss s mds)) (mp_world s)\<rparr>"

definition mempool_alloc :: "'w dpdk \<Rightarrow> mempool \<Rightarrow> 'w mp_state \<Rightarrow> ptr option \<times> 'w mp_state" where
  "mempool_alloc E m s =
     (case rte_mempool_get E (ds_pool (dss s (m_datastore m))) (mp_world s) of
        (ret, p, w) \<Rightarrow> (if ret \<noteq> 0 then None else Some p, s\<lparr>mp_world := w\<rparr>))"

definition mempool_free :: "'w dpdk \<Rightarrow> mempool \<Rightarrow> ptr \<Rightarrow> 'w mp_state \<Rightarrow> 'w mp_state" where
  "mempool_free E m p s =
     s\<lparr>mp_world := rte_mempool_put E (ds_pool (dss s (m_datastore m))) p (mp_world s)\<rparr>"

text \<open>The objects that can still be allocated from \<open>m\<close>.\<close>

definition mempool_avail :: "(ptr option \<Rightarrow> 'w \<Rightarrow> ptr set) \<Rightarrow> mempool \<Rightarrow> 'w mp_state \<Rightarrow> ptr set" where
  "mempool_avail free m s = free (ds_pool (dss s (m_datastore m))) (mp_world s)"

lemma mempool_alloc_Some:
  assumes "rte_mempool_ok E free" "mempool_alloc E m s = (Some p, s')"
  shows "p \<in> mempool_avail free m s" "mempool_avail free m s' = mempool_avail free m s - {p}"
    "dss s' = dss s"
proof -
  obtain ret w where g: "rte_mempool_get E (ds_pool (dss s (m_datastore m))) (mp_world s) = (ret, p, w)"
    "ret = 0" "s' = s\<lparr>mp_world := w\<rparr>"
    using assms(2) by (auto simp: mempool_alloc_def split: prod.splits if_splits)
  have "case rte_mempool_get E (ds_pool (dss s (m_datastore m))) (mp_world s) of (ret, p, w') \<Rightarrow>
      (if ret = 0 then p \<in> free (ds_pool (dss s (m_datastore m))) (mp_world s) \<and>
         free (ds_pool (dss s (m_datastore m))) w' = free (ds_pool (dss s (m_datastore m))) (mp_world s) - {p}
       else free (ds_pool (dss s (m_datastore m))) w' = free (ds_pool (dss s (m_datastore m))) (mp_world s))"
    using assms(1) unfolding rte_mempool_ok_def by (auto split: prod.splits)
  with g show "p \<in> mempool_avail free m s" "mempool_avail free m s' = mempool_avail free m s - {p}"
    "dss s' = dss s"
    by (auto simp: mempool_avail_def)
qed

lemma mempool_free_avail:
  "rte_mempool_ok E free \<Longrightarrow> p \<notin> mempool_avail free m s \<Longrightarrow>
   mempool_avail free m (mempool_free E m p s) = insert p (mempool_avail free m s)"
  by (simp add: rte_mempool_ok_def mempool_avail_def mempool_free_def)

lemma mempool_alloc_None:
  assumes "rte_mempool_ok E free" "mempool_alloc E m s = (None, s')"
  shows "mempool_avail free m s' = mempool_avail free m s"
proof -
  let ?pool = "ds_pool (dss s (m_datastore m))"
  obtain ret p w where g: "rte_mempool_get E ?pool (mp_world s) = (ret, p, w)" "ret \<noteq> 0" "s' = s\<lparr>mp_world := w\<rparr>"
    using assms(2) by (auto simp: mempool_alloc_def split: prod.splits if_splits)
  have "case rte_mempool_get E ?pool (mp_world s) of (ret, p, w') \<Rightarrow>
      ret \<noteq> 0 \<longrightarrow> free ?pool w' = free ?pool (mp_world s)"
    using assms(1) unfolding rte_mempool_ok_def by (auto split: prod.splits)
  with g show ?thesis by (auto simp: mempool_avail_def)
qed

text \<open>A pool of DPDK as a stack of free objects, for the examples.\<close>

definition dpdk_ex :: "(ptr option \<Rightarrow> ptr list) dpdk" where
  "dpdk_ex = \<lparr>rte_mempool_create = \<lambda>_ n _ w. (Some 0, w), rte_pktmbuf_pool_create = \<lambda>_ n _ w. (Some 0, w),
     rte_mempool_get = \<lambda>pool w. (case w pool of [] \<Rightarrow> (- ENOENT, 0, w) | p # ps \<Rightarrow> (0, p, w(pool := filter (\<lambda>q. q \<noteq> p) ps))),
     rte_mempool_put = \<lambda>pool p w. w(pool := p # w pool), rte_mempool_free = \<lambda>pool w. w(pool := [])\<rparr>"

lemma dpdk_ex_ok: "rte_mempool_ok dpdk_ex (\<lambda>pool w. set (w pool))"
  by (auto simp: rte_mempool_ok_def dpdk_ex_def ENOENT_def split: list.splits)

definition mp_state_ex :: "(ptr option \<Rightarrow> ptr list) mp_state" where
  "mp_state_ex = \<lparr>dss = \<lambda>_. \<lparr>ds_magic = MEMPOOL_MAGIC, ds_pool = Some 1, ds_nr_elems = 3, ds_elem_len = 8,
     prettyname = ''ex'', next_ds = None\<rparr>, mempool_all_datastores = None,
     mp_world = (\<lambda>_. [])(Some 1 := [10, 11, 12])\<rparr>"

definition mempool_ex :: mempool where
  "mempool_ex = \<lparr>m_elem_len = 8, m_magic = MEMPOOL_MAGIC, m_datastore = 5, m_sanity = 0, m_nr_elems = 3\<rparr>"

end
