(* ===== verification/MempoolAlign.thy ===== *)
theory MempoolAlign
  imports Mempool
begin

text \<open>
  The 4 KB-aligned pools of \<open>core/mempool.c\<close>: the file's own variant of the DPDK routines that
  cut memory zones into objects.  The fields of \<open>struct rte_mempool\<close> that the code touches are
  the record \<open>rte_mempool\<close>; DPDK's constants and functions are the record \<open>dpdk_pool\<close>.
\<close>

section \<open>Data\<close>

text \<open>The header of an object: where it is, the object it belongs to, and its physical address.\<close>

record rte_mempool_objhdr =
  oh_addr :: u64
  oh_obj :: u64
  oh_physaddr :: u64

record rte_mempool_memhdr =
  mh_addr :: u64
  mh_phys_addr :: u64
  mh_len :: u64

record rte_mempool =
  mp_flags :: u32
  mp_size :: u32
  populated_size :: u32
  header_size :: u32
  elt_size :: u32
  trailer_size :: u32
  nb_mem_chunks :: u32
  elt_list :: "rte_mempool_objhdr list"
  mem_list :: "rte_mempool_memhdr list"

record rte_memzone =
  mz_addr :: u64
  mz_phys_addr :: u64
  mz_len :: u64

record 'w dpdk_pool =
  MEMPOOL_F_POOL_CREATED :: u32
  MEMPOOL_F_NO_CACHE_ALIGN :: u32
  MEMPOOL_F_NO_PHYS_CONTIG :: u32
  RTE_BAD_PHYS_ADDR :: u64
  sizeof_objhdr :: u64
  RTE_ALIGN_CEIL :: "u64 \<Rightarrow> u64 \<Rightarrow> u64"
  rte_mempool_ops_alloc :: "'w \<Rightarrow> int \<times> 'w"
  rte_mempool_ops_enqueue :: "u64 \<Rightarrow> 'w \<Rightarrow> 'w"
  rte_mempool_ops_dequeue :: "'w \<Rightarrow> 'w"
  rte_zmalloc_memhdr :: "'w \<Rightarrow> bool \<times> 'w"
  rte_memzone_reserve_aligned :: "nat \<Rightarrow> u64 \<Rightarrow> u64 \<Rightarrow> 'w \<Rightarrow> rte_memzone option \<times> 'w"
  rte_memzone_free :: "rte_memzone \<Rightarrow> 'w \<Rightarrow> 'w"
  rte_memchunk_free :: "rte_mempool_memhdr \<Rightarrow> 'w \<Rightarrow> 'w"
  mz_name_too_long :: "nat \<Rightarrow> bool"
  rte_errno :: "'w \<Rightarrow> int"
  rte_mempool_create_empty :: "string \<Rightarrow> u32 \<Rightarrow> u32 \<Rightarrow> 'w \<Rightarrow> rte_mempool option \<times> 'w"
  rte_mempool_set_ops_byname :: "'w \<Rightarrow> int \<times> 'w"
  rte_mempool_free_mp :: "rte_mempool \<Rightarrow> 'w \<Rightarrow> 'w"

text \<open>The documented effect of \<open>RTE_ALIGN_CEIL\<close>: the next multiple of the power of two \<open>align\<close>.\<close>

definition align_ceil_ok :: "'w dpdk_pool \<Rightarrow> bool" where
  "align_ceil_ok P \<longleftrightarrow> (\<forall>v. unat v + 4096 \<le> 2 ^ 63 \<longrightarrow>
     unat (RTE_ALIGN_CEIL P v 4096) = (unat v + 4095) div 4096 * 4096 \<and>
     unat (RTE_ALIGN_CEIL P v 8) = (unat v + 7) div 8 * 8)"

text \<open>\<open>rte_mempool_ops_alloc\<close> is documented to return 0 or a negative error.\<close>

definition dpdk_pool_ok :: "'w dpdk_pool \<Rightarrow> bool" where
  "dpdk_pool_ok P \<longleftrightarrow> align_ceil_ok P \<and> (\<forall>w. fst (rte_mempool_ops_alloc P w) \<le> 0)"

section \<open>Code\<close>

text \<open>\<open>rte_mempool_free_memchunks\<close> drains the element list and then the chunk list.\<close>

definition rte_mempool_free_memchunks :: "'w dpdk_pool \<Rightarrow> rte_mempool \<Rightarrow> 'w \<Rightarrow> rte_mempool \<times> 'w" where
  "rte_mempool_free_memchunks P mp w =
     (let w = fold (\<lambda>_ w. rte_mempool_ops_dequeue P w) (elt_list mp) w;
          w = fold (\<lambda>c w. rte_memchunk_free P c w) (mem_list mp) w
      in (mp\<lparr>elt_list := [], populated_size := populated_size mp - of_nat (length (elt_list mp)),
             mem_list := [], nb_mem_chunks := nb_mem_chunks mp - of_nat (length (mem_list mp))\<rparr>, w))"

definition mempool_add_elem ::
  "'w dpdk_pool \<Rightarrow> rte_mempool \<Rightarrow> u64 \<Rightarrow> u64 \<Rightarrow> 'w \<Rightarrow> rte_mempool \<times> 'w" where
  "mempool_add_elem P mp obj physaddr w =
     (mp\<lparr>elt_list := elt_list mp @ [\<lparr>oh_addr = obj - sizeof_objhdr P, oh_obj = obj, oh_physaddr = physaddr\<rparr>],
         populated_size := populated_size mp + 1\<rparr>,
      rte_mempool_ops_enqueue P obj w)"

text \<open>The loop of \<open>rte_mempool_populate_phys_align\<close>; every round adds one object.\<close>

function populate_loop ::
  "'w dpdk_pool \<Rightarrow> u64 \<Rightarrow> u64 \<Rightarrow> u64 \<Rightarrow> u32 \<Rightarrow> rte_mempool \<Rightarrow> u64 \<Rightarrow> u32 \<Rightarrow> 'w \<Rightarrow> u32 \<times> rte_mempool \<times> 'w" where
  "populate_loop P vaddr paddr sz tot mp off i w =
     (if off + ucast tot \<le> sz \<and> populated_size mp < mp_size mp then
        let off = off + ucast (header_size mp);
            (mp', w) = mempool_add_elem P mp (vaddr + off)
              (if paddr = RTE_BAD_PHYS_ADDR P then RTE_BAD_PHYS_ADDR P else paddr + off) w;
            off = off + ucast (elt_size mp' + trailer_size mp');
            off = RTE_ALIGN_CEIL P off 4096
        in populate_loop P vaddr paddr sz tot mp' off (i + 1) w
      else (i, mp, w))"
  by pat_completeness auto

termination populate_loop
proof (relation "measure (\<lambda>(P, v, p, s, t, mp, off, i, w). unat (mp_size mp) - unat (populated_size mp))")
  fix P :: "'w dpdk_pool" and vaddr paddr sz :: u64 and tot i :: u32 and mp :: rte_mempool
    and off :: u64 and w :: 'w and x xa :: u64 and p mp' and w' :: 'w and xb xc
  assume c: "off + ucast tot \<le> sz \<and> populated_size mp < mp_size mp"
    and e: "p = mempool_add_elem P mp (vaddr + x)
         (if paddr = RTE_BAD_PHYS_ADDR P then RTE_BAD_PHYS_ADDR P else paddr + x) w" "(mp', w') = p"
  have "unat (populated_size mp + 1) = Suc (unat (populated_size mp))" using c by (auto intro: unat_succ_less)
  moreover have "unat (populated_size mp) < unat (mp_size mp)" using c by (simp add: word_less_nat_alt)
  ultimately show "((P, vaddr, paddr, sz, tot, mp', xc, i + 1, w'), P, vaddr, paddr, sz, tot, mp, off, i, w)
    \<in> measure (\<lambda>(P, v, p, s, t, mp, off, i, w). unat (mp_size mp) - unat (populated_size mp))"
    using e by (auto simp: mempool_add_elem_def)
qed simp

declare populate_loop.simps [simp del]

definition rte_mempool_populate_phys_align ::
  "'w dpdk_pool \<Rightarrow> rte_mempool \<Rightarrow> u64 \<Rightarrow> u64 \<Rightarrow> u64 \<Rightarrow> 'w \<Rightarrow> int \<times> rte_mempool \<times> 'w" where
  "rte_mempool_populate_phys_align P mp vaddr paddr sz w =
     (let (ret, w) = (if mp_flags mp AND MEMPOOL_F_POOL_CREATED P = 0 then rte_mempool_ops_alloc P w
                      else (0, w))
      in if ret \<noteq> 0 then (ret, mp, w)
      else let mp = mp\<lparr>mp_flags := mp_flags mp OR MEMPOOL_F_POOL_CREATED P\<rparr>
      in if populated_size mp \<ge> mp_size mp then (- ENOSPC, mp, w)
      else let mp = mp\<lparr>header_size := 0\<rparr>;
               total_elt_sz = header_size mp + elt_size mp + trailer_size mp;
               (ok, w) = rte_zmalloc_memhdr P w
      in if \<not> ok then (- ENOMEM, mp, w)
      else let memhdr = \<lparr>mh_addr = vaddr, mh_phys_addr = paddr, mh_len = sz\<rparr>;
               off = (if mp_flags mp AND MEMPOOL_F_NO_CACHE_ALIGN P \<noteq> 0
                      then RTE_ALIGN_CEIL P vaddr 8 - vaddr
                      else RTE_ALIGN_CEIL P vaddr 4096 - vaddr);
               (i, mp, w) = populate_loop P vaddr paddr sz total_elt_sz mp off 0 w
      in if i = 0 then (- EINVAL, mp, w)
      else (sint i, mp\<lparr>mem_list := mem_list mp @ [memhdr], nb_mem_chunks := nb_mem_chunks mp + 1\<rparr>, w))"

lemma populate_loop_end:
  "\<not> (off + ucast tot \<le> sz \<and> populated_size mp < mp_size mp) \<Longrightarrow>
   populate_loop P vaddr paddr sz tot mp off i w = (i, mp, w)"
  by (subst populate_loop.simps) (simp only: if_False)

lemma populate_loop_step:
  assumes "off + ucast tot \<le> sz \<and> populated_size mp < mp_size mp"
  obtains mp1 w1 where
    "populate_loop P vaddr paddr sz tot mp off i w =
       populate_loop P vaddr paddr sz tot mp1
         (RTE_ALIGN_CEIL P (off + ucast (header_size mp) + ucast (elt_size mp + trailer_size mp)) 4096) (i + 1) w1"
    "map oh_obj (elt_list mp1) = map oh_obj (elt_list mp) @ [vaddr + (off + ucast (header_size mp))]"
    "unat (populated_size mp1) = Suc (unat (populated_size mp))" "mp_size mp1 = mp_size mp"
    "header_size mp1 = header_size mp" "elt_size mp1 = elt_size mp" "trailer_size mp1 = trailer_size mp"
proof (rule that)
  let ?o = "off + ucast (header_size mp)"
  let ?A = "mempool_add_elem P mp (vaddr + ?o)
      (if paddr = RTE_BAD_PHYS_ADDR P then RTE_BAD_PHYS_ADDR P else paddr + ?o) w"
  have A: "elt_size (fst ?A) = elt_size mp" "trailer_size (fst ?A) = trailer_size mp"
    by (simp_all add: mempool_add_elem_def)
  show "populate_loop P vaddr paddr sz tot mp off i w =
       populate_loop P vaddr paddr sz tot (fst ?A)
         (RTE_ALIGN_CEIL P (?o + ucast (elt_size mp + trailer_size mp)) 4096) (i + 1) (snd ?A)"
    by (subst populate_loop.simps, subst if_P [OF assms])
      (simp only: Let_def case_prod_beta A)
  show "unat (populated_size (fst ?A)) = Suc (unat (populated_size mp))"
    using unat_succ_less [of "populated_size mp" "mp_size mp"] assms by (simp add: mempool_add_elem_def)
qed (simp_all add: mempool_add_elem_def)

lemma populate_loop_induct [consumes 0, case_names step]:
  fixes mp :: rte_mempool and off :: u64 and i :: u32 and w :: 'w
  assumes "\<And>mp off i w. (\<And>mp1 off1 i1 w1. unat (mp_size mp1) - unat (populated_size mp1) <
      unat (mp_size mp) - unat (populated_size mp) \<Longrightarrow> Q mp1 off1 i1 w1) \<Longrightarrow> Q mp off i (w :: 'w)"
  shows "Q mp off i w"
  by (induction "unat (mp_size mp) - unat (populated_size mp)" arbitrary: mp off i w
      rule: less_induct) (rule assms, simp)

lemma populate_loop_populated:
  "populate_loop P vaddr paddr sz tot mp off i w = (i', mp', w') \<Longrightarrow>
   mp_size mp' = mp_size mp \<and> (\<exists>k. i' = i + of_nat k \<and>
     unat (populated_size mp') = unat (populated_size mp) + k \<and>
     (k = 0 \<or> populated_size mp' \<le> mp_size mp))"
proof (induction mp off i w rule: populate_loop_induct)
  case (step mp off i w)
  show ?case
  proof (cases "off + ucast tot \<le> sz \<and> populated_size mp < mp_size mp")
    case False
    then show ?thesis using step.prems populate_loop_end [OF False, of P vaddr paddr i w] by auto
  next
    case True
    obtain mp1 off1 w1 where 1: "populate_loop P vaddr paddr sz tot mp1 off1 (i + 1) w1 = (i', mp', w')"
      "unat (populated_size mp1) = Suc (unat (populated_size mp))" "mp_size mp1 = mp_size mp"
      using populate_loop_step [OF True, of P vaddr paddr i w] step.prems by metis
    have lt: "unat (populated_size mp) < unat (mp_size mp)" using True by (simp add: word_less_nat_alt)
    then have "unat (mp_size mp1) - unat (populated_size mp1) < unat (mp_size mp) - unat (populated_size mp)"
      using 1 by simp
    from step.IH [OF this 1(1)] 1 obtain k where "mp_size mp' = mp_size mp" "i' = i + 1 + of_nat k"
      "unat (populated_size mp') = unat (populated_size mp1) + k"
      "k = 0 \<or> populated_size mp' \<le> mp_size mp" by auto
    then have "i' = i + of_nat (Suc k)" "unat (populated_size mp') = unat (populated_size mp) + Suc k"
      "populated_size mp' \<le> mp_size mp" "mp_size mp' = mp_size mp"
      using 1(2) lt by (auto simp: word_le_nat_alt)
    then show ?thesis by blast
  qed
qed

text \<open>
  The objects that the loop adds lie one stride apart, from the offset it starts at; the stride is
  the size of an object rounded up to a multiple of 4096.
\<close>

abbreviation stride :: "u32 \<Rightarrow> nat" where "stride tot \<equiv> (unat tot + 4095) div 4096 * 4096"

lemma div_4096: "(4096 * a + b) div 4096 * 4096 = 4096 * a + b div 4096 * 4096" for a b :: nat
  by (simp add: add_mult_distrib)

lemma populate_loop_objs:
  assumes P: "align_ceil_ok P" and sz: "unat sz \<le> 2 ^ 62"
  shows "populate_loop P vaddr paddr sz tot mp off i w = (i', mp', w') \<Longrightarrow>
    header_size mp = 0 \<Longrightarrow> tot = elt_size mp + trailer_size mp \<Longrightarrow> 4096 dvd unat off \<Longrightarrow>
    unat off \<le> unat sz + 4096 \<Longrightarrow>
    \<exists>k. map oh_obj (elt_list mp') = map oh_obj (elt_list mp) @
          map (\<lambda>j. vaddr + off + of_nat (j * stride tot)) [0..<k] \<and>
        unat (populated_size mp') = unat (populated_size mp) + k \<and> i' = i + of_nat k \<and>
        (\<forall>j < k. unat off + j * stride tot + unat tot \<le> unat sz)"
proof (induction mp off i w rule: populate_loop_induct)
  case (step mp off i w)
  show ?case
  proof (cases "off + ucast tot \<le> sz \<and> populated_size mp < mp_size mp")
    case False
    then show ?thesis using step.prems populate_loop_end [OF False, of P vaddr paddr i w]
      by (intro exI [of _ 0]) auto
  next
    case True
    let ?off1 = "RTE_ALIGN_CEIL P (off + ucast tot) 4096"
    obtain mp1 w1 where 1: "populate_loop P vaddr paddr sz tot mp1 ?off1 (i + 1) w1 = (i', mp', w')"
      "map oh_obj (elt_list mp1) = map oh_obj (elt_list mp) @ [vaddr + off]"
      "unat (populated_size mp1) = Suc (unat (populated_size mp))" "mp_size mp1 = mp_size mp"
      "header_size mp1 = 0" "elt_size mp1 = elt_size mp" "trailer_size mp1 = trailer_size mp"
      using populate_loop_step [OF True, of P vaddr paddr i w] step.prems(1-3) by (simp, metis)
    have u: "unat (off + ucast tot) = unat off + unat tot"
      using step.prems(5) sz by (subst unat_add_small) (simp_all, use unat_lt32 [of tot] in linarith)
    then have le: "unat off + unat tot \<le> unat sz" using True by (simp add: word_le_nat_alt)
    then have "unat ?off1 = (unat off + unat tot + 4095) div 4096 * 4096"
      using P [unfolded align_ceil_ok_def, rule_format, of "off + ucast tot"] u sz by simp
    also have "\<dots> = unat off + stride tot" 
      using step.prems(4) div_4096 [of "unat off div 4096" "unat tot + 4095"] by (simp add: add.assoc)
    finally have o1: "unat ?off1 = unat off + stride tot" .
    then have "word_of_nat (unat ?off1) = (word_of_nat (unat off + stride tot) :: u64)" by (rule arg_cong)
    then have w1: "?off1 = off + of_nat (stride tot)" by simp
    have lt: "unat (populated_size mp) < unat (mp_size mp)" using True by (simp add: word_less_nat_alt)
    then have d: "unat (mp_size mp1) - unat (populated_size mp1) < unat (mp_size mp) - unat (populated_size mp)"
      using 1 by simp
    have "stride tot \<le> unat tot + 4095" by simp
    then have "unat ?off1 \<le> unat sz + 4096" using o1 le by linarith
    with step.IH [OF d 1(1)] 1 step.prems(3,4) o1 obtain k where
      k: "map oh_obj (elt_list mp') = map oh_obj (elt_list mp1) @
          map (\<lambda>j. vaddr + ?off1 + of_nat (j * stride tot)) [0..<k]"
        "unat (populated_size mp') = unat (populated_size mp1) + k" "i' = i + 1 + of_nat k"
        "\<forall>j < k. unat ?off1 + j * stride tot + unat tot \<le> unat sz" by (auto simp: dvd_add)
    have m: "[0..<Suc k] = 0 # map Suc [0..<k]" by (simp add: map_Suc_upt upt_conv_Cons del: upt_Suc)
    have "map oh_obj (elt_list mp') = map oh_obj (elt_list mp) @
          map (\<lambda>j. vaddr + off + of_nat (j * stride tot)) [0..<Suc k]"
      unfolding m using k(1) 1(2) by (simp add: w1 algebra_simps)
    moreover have "unat off + j * stride tot + unat tot \<le> unat sz" if "j < Suc k" for j
      using that le k(4) o1 by (cases j) auto
    ultimately show ?thesis using k(2,3) 1(3) by (intro exI [of _ "Suc k"]) auto
  qed
qed

lemma align_ceil_fix:
  assumes "align_ceil_ok P" "4096 dvd unat vaddr" "unat vaddr \<le> 2 ^ 62"
  shows "RTE_ALIGN_CEIL P vaddr 4096 = vaddr" "RTE_ALIGN_CEIL P vaddr 8 = vaddr"
proof -
  obtain a where a: "unat vaddr = 4096 * a" using assms(2) by (elim dvdE)
  have "(4096 * a + 4095) div 4096 * 4096 = 4096 * a" using div_4096 [of a 4095] by simp
  moreover have "(4096 * a + 7) div 8 * 8 = 4096 * a" by (simp add: div_add1_eq)
  ultimately have "unat (RTE_ALIGN_CEIL P vaddr 4096) = unat vaddr" "unat (RTE_ALIGN_CEIL P vaddr 8) = unat vaddr"
    using assms(1,3) a by (simp_all add: align_ceil_ok_def)
  then show "RTE_ALIGN_CEIL P vaddr 4096 = vaddr" "RTE_ALIGN_CEIL P vaddr 8 = vaddr"
    by (simp_all add: word_unat_eq_iff)
qed

text \<open>A call that returns a count ran the loop from the aligned start.\<close>

lemma populate_phys_count:
  assumes "rte_mempool_populate_phys_align P mp vaddr paddr sz w = (ret, mp', w')"
    "fst (rte_mempool_ops_alloc P w) \<le> 0" "0 \<le> ret"
  obtains mp0 off w0 i mp1 where
    "populate_loop P vaddr paddr sz (elt_size mp + trailer_size mp) mp0 off 0 w0 = (i, mp1, w')"
    "elt_list mp0 = elt_list mp" "populated_size mp0 = populated_size mp" "mp_size mp0 = mp_size mp"
    "header_size mp0 = 0" "elt_size mp0 = elt_size mp" "trailer_size mp0 = trailer_size mp"
    "off = RTE_ALIGN_CEIL P vaddr 8 - vaddr \<or> off = RTE_ALIGN_CEIL P vaddr 4096 - vaddr"
    "ret = sint i" "i \<noteq> 0" "elt_list mp' = elt_list mp1" "populated_size mp' = populated_size mp1"
    "mp_size mp' = mp_size mp1" "populated_size mp < mp_size mp"
proof -
  define r where "r = (if mp_flags mp AND MEMPOOL_F_POOL_CREATED P = 0 then rte_mempool_ops_alloc P w else (0, w))"
  define mp0 where "mp0 = mp\<lparr>mp_flags := mp_flags mp OR MEMPOOL_F_POOL_CREATED P, header_size := 0\<rparr>"
  define z where "z = rte_zmalloc_memhdr P (snd r)"
  define off where "off = (if mp_flags mp0 AND MEMPOOL_F_NO_CACHE_ALIGN P \<noteq> 0
                      then RTE_ALIGN_CEIL P vaddr 8 - vaddr else RTE_ALIGN_CEIL P vaddr 4096 - vaddr)"
  obtain i mp1 w1 where l:
    "populate_loop P vaddr paddr sz (header_size mp0 + elt_size mp0 + trailer_size mp0) mp0 off 0 (snd z) = (i, mp1, w1)"
    by (metis prod_cases3)
  have "fst r \<le> 0" using assms(2) by (simp add: r_def)
  then have r: "fst r = 0" and z: "fst z" and lt: "populated_size mp < mp_size mp"
    and m: "i \<noteq> 0" "ret = sint i" "w' = w1"
      "mp' = mp1\<lparr>mem_list := mem_list mp1 @ [\<lparr>mh_addr = vaddr, mh_phys_addr = paddr, mh_len = sz\<rparr>],
               nb_mem_chunks := nb_mem_chunks mp1 + 1\<rparr>"
    using assms(1,3) l
    unfolding rte_mempool_populate_phys_align_def r_def [symmetric]
    by (auto simp: case_prod_beta Let_def errno_defs mp0_def [symmetric] z_def [symmetric]
        off_def [symmetric] not_le split: if_splits)
  show ?thesis
    by (rule that [of mp0 off "snd z" i mp1])
      (use l lt m in \<open>simp_all add: mp0_def off_def\<close>)
qed

section \<open>Filling and creating a pool\<close>

text \<open>
  The loop of \<open>rte_mempool_populate_align\<close> over memory zones.  It ends because every zone adds an
  object; the model has fuel, and \<open>populate_align_terminates\<close> shows that the number of objects
  still missing is enough.  The outcome \<open>Inl ret\<close> is the jump to \<open>fail\<close>.
\<close>

fun populate_align_loop ::
  "nat \<Rightarrow> 'w dpdk_pool \<Rightarrow> u64 \<Rightarrow> nat \<Rightarrow> u32 \<Rightarrow> rte_mempool \<Rightarrow> 'w \<Rightarrow> ((int + int) \<times> rte_mempool \<times> 'w) option" where
  "populate_align_loop fuel P total_elt_sz mz_id n mp w =
     (if n = 0 then Some (Inr (uint (mp_size mp)), mp, w)
      else case fuel of 0 \<Rightarrow> None | Suc fuel \<Rightarrow>
        if mz_name_too_long P mz_id then Some (Inl (- ENAMETOOLONG), mp, w)
        else let size = ucast n * total_elt_sz;
                 (mz1, w1) = rte_memzone_reserve_aligned P mz_id size 4096 w;
                 (mz, w) = (if mz1 = None then rte_memzone_reserve_aligned P mz_id 0 4096 w1 else (mz1, w1))
             in case mz of None \<Rightarrow> Some (Inl (- rte_errno P w), mp, w)
                | Some mz \<Rightarrow>
                    let paddr = (if mp_flags mp AND MEMPOOL_F_NO_PHYS_CONTIG P \<noteq> 0
                                 then RTE_BAD_PHYS_ADDR P else mz_phys_addr mz);
                        (ret, mp, w) = rte_mempool_populate_phys_align P mp (mz_addr mz) paddr (mz_len mz) w
                    in if ret < 0 then Some (Inl ret, mp, rte_memzone_free P mz w)
                       else populate_align_loop fuel P total_elt_sz (Suc mz_id) (n - word_of_int ret) mp w)"

declare populate_align_loop.simps [simp del]

definition rte_mempool_populate_align ::
  "nat \<Rightarrow> 'w dpdk_pool \<Rightarrow> rte_mempool \<Rightarrow> 'w \<Rightarrow> (int \<times> rte_mempool \<times> 'w) option" where
  "rte_mempool_populate_align fuel P mp w =
     (if nb_mem_chunks mp \<noteq> 0 then Some (- EEXIST, mp, w)
      else let total_elt_sz = ucast (header_size mp + elt_size mp + trailer_size mp)
           in case populate_align_loop fuel P total_elt_sz 0 (mp_size mp) mp w of
                None \<Rightarrow> None
              | Some (Inr n, mp, w) \<Rightarrow> Some (n, mp, w)
              | Some (Inl ret, mp, w) \<Rightarrow>
                  (case rte_mempool_free_memchunks P mp w of (mp, w) \<Rightarrow> Some (ret, mp, w)))"

text \<open>
  \<open>rte_mempool_create_align\<close>.  The callers pass no initialisers, so the two optional calls do
  not occur.
\<close>

definition rte_mempool_create_align ::
  "'w dpdk_pool \<Rightarrow> string \<Rightarrow> u32 \<Rightarrow> u32 \<Rightarrow> 'w \<Rightarrow> rte_mempool option \<times> 'w" where
  "rte_mempool_create_align P name n elt_sz w =
     (case rte_mempool_create_empty P name n elt_sz w of
        (None, w) \<Rightarrow> (None, w)
      | (Some mp, w) \<Rightarrow>
          (case rte_mempool_set_ops_byname P w of (ret, w) \<Rightarrow>
             if ret \<noteq> 0 then (None, rte_mempool_free_mp P mp w)
             else case rte_mempool_populate_align (unat (mp_size mp)) P mp w of
                    None \<Rightarrow> (None, w)
                  | Some (ret, mp, w) \<Rightarrow>
                      if ret < 0 then (None, rte_mempool_free_mp P mp w) else (Some mp, w)))"

definition mempool_create_datastore_align ::
  "'w dpdk_pool \<Rightarrow> (rte_mempool \<Rightarrow> ptr) \<Rightarrow> ptr \<Rightarrow> int \<Rightarrow> u64 \<Rightarrow> string \<Rightarrow> 'w mp_state \<Rightarrow> (int \<times> 'w mp_state) option"
where
  "mempool_create_datastore_align P addr mds nr_elems elem_len name s =
     create_datastore
       (\<lambda>l w. case rte_mempool_create_align P name (word_of_int nr_elems) (ucast l) w of
                (mp, w) \<Rightarrow> (map_option addr mp, w))
       mds nr_elems elem_len name s"

section \<open>Properties\<close>

lemma populate_phys_objs:
  assumes ok: "dpdk_pool_ok P" and al: "4096 dvd unat vaddr" and bound: "unat vaddr + unat sz \<le> 2 ^ 62"
    and c: "rte_mempool_populate_phys_align P mp vaddr paddr sz w = (ret, mp', w')" "0 \<le> ret"
  defines "tot \<equiv> elt_size mp + trailer_size mp"
  obtains k where "ret = int k" "0 < k"
    "map oh_obj (elt_list mp') = map oh_obj (elt_list mp) @ map (\<lambda>j. vaddr + of_nat (j * stride tot)) [0..<k]"
    "\<forall>j<k. j * stride tot + unat tot \<le> unat sz"
    "unat (populated_size mp') = unat (populated_size mp) + k" "mp_size mp' = mp_size mp"
    "populated_size mp' \<le> mp_size mp"
proof -
  have P: "align_ceil_ok P" and a: "fst (rte_mempool_ops_alloc P w) \<le> 0"
    using ok by (simp_all add: dpdk_pool_ok_def)
  obtain mp0 off w0 i mp1 where l:
    "populate_loop P vaddr paddr sz tot mp0 off 0 w0 = (i, mp1, w')"
    "elt_list mp0 = elt_list mp" "populated_size mp0 = populated_size mp" "mp_size mp0 = mp_size mp"
    "header_size mp0 = 0" "elt_size mp0 = elt_size mp" "trailer_size mp0 = trailer_size mp"
    "off = RTE_ALIGN_CEIL P vaddr 8 - vaddr \<or> off = RTE_ALIGN_CEIL P vaddr 4096 - vaddr"
    "ret = sint i" "i \<noteq> 0" "elt_list mp' = elt_list mp1" "populated_size mp' = populated_size mp1"
    "mp_size mp' = mp_size mp1" "populated_size mp < mp_size mp"
    unfolding tot_def by (rule populate_phys_count [OF c(1) a c(2)])
  have off: "off = 0" using l(8) align_ceil_fix [OF P al] bound by auto
  have sz: "unat sz \<le> 2 ^ 62" using bound by simp
  obtain k where k: "map oh_obj (elt_list mp1) = map oh_obj (elt_list mp) @
      map (\<lambda>j. vaddr + of_nat (j * stride tot)) [0..<k]"
    "unat (populated_size mp1) = unat (populated_size mp) + k" "i = of_nat k"
    "\<forall>j<k. j * stride tot + unat tot \<le> unat sz"
    using populate_loop_objs [OF P sz l(1) l(5)] l(2,3,6,7) off by (auto simp: tot_def)
  have p: "mp_size mp1 = mp_size mp" "k = 0 \<or> populated_size mp1 \<le> mp_size mp"
    using populate_loop_populated [OF l(1)] l(3,4) k(2) by auto
  have "0 < k" using k(3) l(10) by (cases k) auto
  have "k < 2 ^ 32" using k(2) unat_lt32 [of "populated_size mp1"] by simp
  then have "unat i = k" using k(3) by (simp add: unat_of_nat)
  then have "ret = int k" using sint_nonneg_unat [of i] c(2) l(9) by simp
  then show ?thesis using that [of k] k \<open>0 < k\<close> p l(11-13) by simp
qed

text \<open>With the documented behaviour of DPDK, the fuel of \<open>rte_mempool_create_align\<close> never runs out.\<close>

lemma populate_phys_decreases:
  fixes n :: u32
  assumes "fst (rte_mempool_ops_alloc P w) \<le> 0"
    "rte_mempool_populate_phys_align P mp vaddr paddr sz w = (ret, mp', w')" "0 \<le> ret"
    "unat n + unat (populated_size mp) = unat (mp_size mp)"
  shows "unat (n - word_of_int ret) + unat (populated_size mp') = unat (mp_size mp') \<and>
    unat (n - word_of_int ret) < unat n"
proof -
  obtain mp0 off w0 i mp1 where l:
    "populate_loop P vaddr paddr sz (elt_size mp + trailer_size mp) mp0 off 0 w0 = (i, mp1, w')"
    "elt_list mp0 = elt_list mp" "populated_size mp0 = populated_size mp" "mp_size mp0 = mp_size mp"
    "header_size mp0 = 0" "elt_size mp0 = elt_size mp" "trailer_size mp0 = trailer_size mp"
    "off = RTE_ALIGN_CEIL P vaddr 8 - vaddr \<or> off = RTE_ALIGN_CEIL P vaddr 4096 - vaddr"
    "ret = sint i" "i \<noteq> 0" "elt_list mp' = elt_list mp1" "populated_size mp' = populated_size mp1"
    "mp_size mp' = mp_size mp1" "populated_size mp < mp_size mp"
    by (rule populate_phys_count [OF assms(2,1,3)])
  obtain k where k: "i = of_nat k" "unat (populated_size mp1) = unat (populated_size mp) + k"
    "mp_size mp1 = mp_size mp" "k = 0 \<or> populated_size mp1 \<le> mp_size mp"
    using populate_loop_populated [OF l(1)] l(3,4) by auto
  have "0 < k" using k(1) l(10) by (cases k) auto
  then have "populated_size mp1 \<le> mp_size mp" using k(4) by simp
  then have "unat (populated_size mp1) \<le> unat (mp_size mp)" by (simp add: word_le_nat_alt)
  then have kn: "k \<le> unat n" using k(2) assms(4) by simp
  have "k < 2 ^ 32" using k(2) unat_lt32 [of "populated_size mp1"] by simp
  then have "unat i = k" using k(1) by (simp add: unat_of_nat)
  then have "word_of_int ret = i" using sint_nonneg_unat [of i] assms(3) l(9) k(1) by simp
  moreover have "i \<le> n" using kn \<open>unat i = k\<close> by (simp add: word_le_nat_alt)
  ultimately have "unat (n - word_of_int ret) = unat n - k" using unat_sub [of i n] \<open>unat i = k\<close> by simp
  then show ?thesis using kn \<open>0 < k\<close> l(12,13) k(2,3) assms(4) by simp
qed

lemma populate_align_terminates:
  assumes "\<forall>w. fst (rte_mempool_ops_alloc P w) \<le> 0"
  shows "unat n + unat (populated_size mp) = unat (mp_size mp) \<Longrightarrow> unat n \<le> fuel \<Longrightarrow>
    populate_align_loop fuel P tsz mz_id n mp w \<noteq> None"
proof (induction fuel arbitrary: mz_id n mp w)
  case 0
  then show ?case by (simp add: populate_align_loop.simps unat_eq_zero)
next
  case (Suc fuel)
  have rec: "\<not> fst X < 0 \<Longrightarrow>
      \<exists>a b c. populate_align_loop fuel P tsz (Suc mz_id) (n - word_of_int (fst X)) (fst (snd X)) (snd (snd X)) = Some (a, b, c)"
    if "X = rte_mempool_populate_phys_align P mp a b c w1" for a b c w1 X
    using populate_phys_decreases [OF assms [rule_format], of mp a b c w1 "fst X" "fst (snd X)" "snd (snd X)" n]
      that Suc.prems Suc.IH [of "n - word_of_int (fst X)" "fst (snd X)" "Suc mz_id" "snd (snd X)"]
    by auto
  show ?case
    by (subst populate_align_loop.simps)
      (simp add: Let_def case_prod_beta rec [OF refl] split: option.split)
qed

lemma create_align_fuel:
  assumes "dpdk_pool_ok P" "populated_size mp = 0"
  shows "rte_mempool_populate_align (unat (mp_size mp)) P mp w \<noteq> None"
proof -
  obtain r where "populate_align_loop (unat (mp_size mp)) P
      (ucast (header_size mp + elt_size mp + trailer_size mp)) 0 (mp_size mp) mp w = Some r"
    using populate_align_terminates [of P "mp_size mp" mp "unat (mp_size mp)"
        "ucast (header_size mp + elt_size mp + trailer_size mp)" 0 w] assms
    unfolding dpdk_pool_ok_def by fastforce
  then show ?thesis
    by (auto simp: rte_mempool_populate_align_def Let_def split: sum.splits prod.splits)
qed

lemma div_le_self_up: "n \<le> (n + 4095) div 4096 * 4096" for n :: nat
  using div_mult_mod_eq [of "n + 4095" 4096] mod_less_divisor [of 4096 "n + 4095"] by linarith

text \<open>The address of the \<open>j\<close>-th object of a chunk does not wrap.\<close>

lemma chunk_addr:
  fixes vaddr sz :: u64 and tot :: u32
  assumes "unat vaddr + unat sz \<le> 2 ^ 62" "d + unat tot \<le> unat sz"
  shows "unat (vaddr + of_nat d) = unat vaddr + d"
proof -
  have "d < 2 ^ 63" using assms by simp
  then have "unat (of_nat d :: u64) = d" by (simp add: unat_of_nat)
  then show ?thesis using assms unat_add_small [of vaddr "of_nat d"] by simp
qed

lemma sorted_wrt_map_upt:
  "(\<And>i j. i < j \<Longrightarrow> j < k \<Longrightarrow> R (f i) (f j)) \<Longrightarrow> sorted_wrt R (map f [0..<k])"
  by (simp add: sorted_wrt_map sorted_wrt_iff_nth_less)

text \<open>
  C35. Filling a pool from a 4 KB-aligned chunk of memory: every object that
  \<open>rte_mempool_populate_phys_align\<close> adds starts on a 4 KB boundary, lies inside the chunk, and
  does not overlap the next one; the return value is the number of objects added, and at least one.
\<close>

theorem populate_phys_aligned:
  assumes "dpdk_pool_ok P" "4096 dvd unat vaddr" "unat vaddr + unat sz \<le> 2 ^ 62"
    "rte_mempool_populate_phys_align P mp vaddr paddr sz w = (ret, mp', w')" "0 \<le> ret"
    "new = drop (length (elt_list mp)) (map oh_obj (elt_list mp'))" "tot = elt_size mp + trailer_size mp"
  shows "ret = int (length new) \<and> new \<noteq> [] \<and>
    (\<forall>a \<in> set new. 4096 dvd unat a \<and> unat vaddr \<le> unat a \<and> unat a + unat tot \<le> unat vaddr + unat sz) \<and>
    sorted_wrt (\<lambda>a b. unat a + unat tot \<le> unat b) new"
proof -
  obtain k where k: "ret = int k" "0 < k"
    "map oh_obj (elt_list mp') = map oh_obj (elt_list mp) @ map (\<lambda>j. vaddr + of_nat (j * stride tot)) [0..<k]"
    "\<forall>j<k. j * stride tot + unat tot \<le> unat sz"
    "unat (populated_size mp') = unat (populated_size mp) + k" "mp_size mp' = mp_size mp"
    "populated_size mp' \<le> mp_size mp"
    unfolding assms(7) by (rule populate_phys_objs [OF assms(1-5)])
  have new: "new = map (\<lambda>j. vaddr + of_nat (j * stride tot)) [0..<k]"
    unfolding assms(6) k(3) by simp
  have addr: "unat (vaddr + of_nat (j * stride tot)) = unat vaddr + j * stride tot" if "j < k" for j
    using chunk_addr [OF assms(3), of "j * stride tot" tot] k(4) that by blast
  have step: "i * stride tot + unat tot \<le> j * stride tot" if "i < j" for i j
  proof -
    have "unat tot \<le> stride tot" by (rule div_le_self_up)
    moreover have "Suc i * stride tot \<le> j * stride tot" using that by (intro mult_le_mono1) simp
    ultimately show ?thesis by simp
  qed
  have "sorted_wrt (\<lambda>a b. unat a + unat tot \<le> unat b) new"
    unfolding new by (rule sorted_wrt_map_upt) (simp only: addr step add.assoc add_le_cancel_left less_trans)
  moreover have "\<forall>a \<in> set new. 4096 dvd unat a \<and> unat vaddr \<le> unat a \<and> unat a + unat tot \<le> unat vaddr + unat sz"
  proof
    fix a assume "a \<in> set new"
    then obtain j where j: "j < k" "a = vaddr + of_nat (j * stride tot)" unfolding new by (auto simp del: of_nat_mult)
    then have "unat a = unat vaddr + j * stride tot" using addr by simp
    then show "4096 dvd unat a \<and> unat vaddr \<le> unat a \<and> unat a + unat tot \<le> unat vaddr + unat sz"
      using assms(2) k(4) j(1) by (simp add: dvd_add)
  qed
  ultimately show ?thesis using k(1,2) new by simp
qed

text \<open>A pool that keeps nothing, for the examples.\<close>

definition pool_ex :: "unit dpdk_pool" where
  "pool_ex = \<lparr>MEMPOOL_F_POOL_CREATED = 0x10, MEMPOOL_F_NO_CACHE_ALIGN = 0x2, MEMPOOL_F_NO_PHYS_CONTIG = 0x20,
     RTE_BAD_PHYS_ADDR = - 1, sizeof_objhdr = 64,
     RTE_ALIGN_CEIL = \<lambda>v a. of_nat ((unat v + (unat a - 1)) div unat a * unat a),
     rte_mempool_ops_alloc = \<lambda>w. (0, w), rte_mempool_ops_enqueue = \<lambda>_ w. w, rte_mempool_ops_dequeue = \<lambda>w. w,
     rte_zmalloc_memhdr = \<lambda>w. (True, w),
     rte_memzone_reserve_aligned = \<lambda>_ n _ w. (Some \<lparr>mz_addr = 8192, mz_phys_addr = 0, mz_len = n\<rparr>, w),
     rte_memzone_free = \<lambda>_ w. w, rte_memchunk_free = \<lambda>_ w. w, mz_name_too_long = \<lambda>_. False,
     rte_errno = \<lambda>_. 0,
     rte_mempool_create_empty = \<lambda>_ n e w. (Some \<lparr>mp_flags = 0, mp_size = n, populated_size = 0, header_size = 64,
        elt_size = e, trailer_size = 0, nb_mem_chunks = 0, elt_list = [], mem_list = []\<rparr>, w),
     rte_mempool_set_ops_byname = \<lambda>w. (0, w), rte_mempool_free_mp = \<lambda>_ w. w\<rparr>"

definition mp_ex :: rte_mempool where
  "mp_ex = \<lparr>mp_flags = 0, mp_size = 3, populated_size = 0, header_size = 64,
     elt_size = 4096, trailer_size = 0, nb_mem_chunks = 0, elt_list = [], mem_list = []\<rparr>"

lemma pool_ex_ok: "dpdk_pool_ok pool_ex"
proof -
  have "unat (of_nat ((unat v + 4095) div 4096 * 4096) :: u64) = (unat v + 4095) div 4096 * 4096 \<and>
      unat (of_nat ((unat v + 7) div 8 * 8) :: u64) = (unat v + 7) div 8 * 8"
    if "unat v + 4096 \<le> 2 ^ 63" for v :: u64
  proof -
    have "(unat v + 4095) div 4096 * 4096 \<le> unat v + 4095" "(unat v + 7) div 8 * 8 \<le> unat v + 7" by simp_all
    then have "(unat v + 4095) div 4096 * 4096 < 2 ^ 64" "(unat v + 7) div 8 * 8 < 2 ^ 64"
      using that by simp_all
    then show ?thesis by (simp add: unat_of_nat del: of_nat_mult)
  qed
  then show ?thesis by (simp add: dpdk_pool_ok_def align_ceil_ok_def pool_ex_def del: of_nat_mult)
qed

lemma mp_ex_run:
  "fst (rte_mempool_populate_phys_align pool_ex mp_ex 8192 0 12288 ()) = 3"
  "map oh_obj (elt_list (fst (snd (rte_mempool_populate_phys_align pool_ex mp_ex 8192 0 12288 ())))) = [8192, 12288, 16384]"
  by (simp_all add: rte_mempool_populate_phys_align_def pool_ex_def mp_ex_def Let_def
      populate_loop.simps mempool_add_elem_def)

lemma populate_phys_aligned_witness:
  "\<exists>mp' w'. rte_mempool_populate_phys_align pool_ex mp_ex 8192 0 12288 () = (3, mp', w') \<and>
     map oh_obj (elt_list mp') = [8192, 12288, 16384] \<and>
     (\<forall>a \<in> set [8192, 12288, 16384 :: u64]. 4096 dvd unat a \<and> unat (8192 :: u64) \<le> unat a \<and>
        unat a + unat (4096 :: u32) \<le> unat (8192 :: u64) + unat (12288 :: u64))"
proof -
  obtain ret mp' w' where e: "rte_mempool_populate_phys_align pool_ex mp_ex 8192 0 12288 () = (ret, mp', w')"
    by (metis prod_cases3)
  have r: "ret = 3" "map oh_obj (elt_list mp') = [8192, 12288, 16384]" using mp_ex_run e by simp_all
  have h: "4096 dvd unat (8192 :: u64)" "unat (8192 :: u64) + unat (12288 :: u64) \<le> 2 ^ 62" "0 \<le> ret"
    "[8192, 12288, 16384] = drop (length (elt_list mp_ex)) (map oh_obj (elt_list mp'))"
    "4096 = elt_size mp_ex + trailer_size mp_ex"
    using r by (simp_all add: mp_ex_def)
  show ?thesis
    using populate_phys_aligned [OF pool_ex_ok h(1,2) e h(3-5)] e r
    by (intro exI [of _ mp'] exI [of _ w'] conjI) (elim conjE, assumption | simp)+
qed

text \<open>
  The header of an object is written \<open>sizeof_objhdr\<close> bytes below it, although the pool reserves no
  room for headers (\<open>header_size\<close> is 0): for the first object of a chunk that is below the chunk.
\<close>

lemma add_elem_header:
  "oh_addr (last (elt_list (fst (mempool_add_elem P mp vaddr physaddr w)))) = vaddr - sizeof_objhdr P"
  by (simp add: mempool_add_elem_def)

end
