(* ===== verification/NvmeState.thy ===== *)
theory NvmeState
  imports CDouble Bitmap IxList Mempool Usys SwQueue Atomic
begin

text \<open>
  The data of \<open>nvme/nvmedev.c\<close>: the configuration it reads, the flow groups, and one record with
  the static variables of the file and the per-core variables of the core that runs the code.

  SPDK is not part of the repository.  Its functions are the fields of \<open>nvme_env\<close>, over the same
  opaque state as the memory pools.  \<open>sq\<close> records the commands handed to SPDK, oldest first.

  The list of tenant queues of a core is an intrusive list of \<open>inc/ix/list.h\<close>.  The model keeps
  the HOL list of its nodes; the lemmas \<open>list_rep_add\<close>, \<open>list_rep_del\<close> and \<open>list_rep_for_each\<close> of
  theory \<open>IxList\<close> show that the pointer operations do the same.
\<close>

section \<open>Configuration\<close>

definition DEFAULT_FLASH :: int where "DEFAULT_FLASH = 0"
definition FAKE_FLASH :: int where "FAKE_FLASH = 1"
definition FLASH_DEV_MODEL :: int where "FLASH_DEV_MODEL = 2"

definition MAX_OPEN_BATCH :: int where "MAX_OPEN_BATCH = 32"
definition MAX_NUM_IO_QUEUES :: nat where "MAX_NUM_IO_QUEUES = 31"
definition MAX_NVME_FLOW_GROUPS :: nat where "MAX_NVME_FLOW_GROUPS = 16384"
definition NVME_CMD_READ :: int where "NVME_CMD_READ = 0"
definition NVME_CMD_WRITE :: int where "NVME_CMD_WRITE = 1"
definition UINT_MAX :: u64 where "UINT_MAX = 4294967295"
definition SLO_REQ_SIZE :: u64 where "SLO_REQ_SIZE = 4096"
definition SGL_PAGE_SIZE :: u32 where "SGL_PAGE_SIZE = 4096"
definition NUM_NVME_REQUESTS :: int where "NUM_NVME_REQUESTS = 4096 * 256"
definition MEMPOOL_DEFAULT_CHUNKSIZE :: int where "MEMPOOL_DEFAULT_CHUNKSIZE = 128"

record lat_tokenrate_pair =
  p95_tail_latency :: u32
  token_rate_limit :: u64
  token_rdonly_rate_limit :: u64

text \<open>
  The configuration variables the code reads.  \<open>no_nvme\<close> is the test
  \<open>CFG.num_nvmedev == 0 || CFG.ns_sizes[0] != 0\<close> that skips the NVMe code, and \<open>sizeof_ctx\<close> and
  \<open>sizeof_swq\<close> are the sizes of the two pooled structures.
\<close>

record nvme_cfg =
  nvme_dev_model :: int
  nvme_sched_flag :: bool
  NVME_READ_COST :: int
  NVME_WRITE_COST :: int
  dev_model :: "nat \<Rightarrow> lat_tokenrate_pair"
  dev_model_size :: nat
  cycles_per_us :: int
  cpus_active :: nat
  cpu_nr :: u32
  cpu_id :: int
  no_nvme :: bool
  sizeof_ctx :: u64
  sizeof_swq :: u64

section \<open>SPDK\<close>

datatype spdk_cmd =
    Cmd_read u64 u64 u32 ptr     \<comment> \<open>buffer, lba, lba count, callback argument\<close>
  | Cmd_write u64 u64 u32 ptr
  | Cmd_readv u64 u32 ptr        \<comment> \<open>lba, lba count, callback argument; the buffers come from the callbacks\<close>
  | Cmd_writev u64 u32 ptr

text \<open>A completion: the callback that was registered, its argument, and the error status.\<close>

datatype spdk_cpl = Read_done ptr bool | Write_done ptr bool

record 'w nvme_env =
  env_dpdk :: "'w dpdk"
  spdk_nvme_ns_cmd :: "spdk_cmd \<Rightarrow> 'w \<Rightarrow> int \<times> 'w"
  spdk_nvme_qpair_process_completions :: "int \<Rightarrow> 'w \<Rightarrow> int \<times> spdk_cpl list \<times> 'w"
  spdk_nvme_ns_get_size :: "int \<Rightarrow> 'w \<Rightarrow> u64"
  spdk_nvme_ns_get_sector_size :: "int \<Rightarrow> 'w \<Rightarrow> u32"

section \<open>State\<close>

record nvme_flow_group =
  flow_group_id :: int
  fg_cookie :: u64
  latency_us_SLO :: u32
  IOPS_SLO :: u64
  rw_ratio_SLO :: int
  scaled_IOPS_limit :: u64
  scaled_IOPuS_limit :: rat
  latency_critical_flag :: bool
  nvme_swq :: ptr
  fg_tid :: u32
  conn_ref_count :: int

record 'w nvme_state =
  \<comment> \<open>static variables, shared by the cores\<close>
  ioq_bitmap :: bitmap
  nvme_fgs_bitmap :: bitmap
  nvme_fgs :: "int \<Rightarrow> nvme_flow_group"
  global_token_rate :: u64
  global_leftover_tokens :: u64
  global_LC_sum_token_rate :: u64
  global_num_best_effort_tenants :: u64
  global_num_lc_tenants :: u64
  global_be_token_rate_per_tenant :: u32
  global_lc_boost_no_BE :: u64
  scheduled_bit_vector :: "nat \<Rightarrow> int"
  TOKEN_DEFICIT_LIMIT :: int
  global_readonly_flag :: bool
  global_ns_size :: int
  global_ns_sector_size :: int
  \<comment> \<open>per-core variables\<close>
  open_ev :: "int \<Rightarrow> int"
  open_ev_ptr :: int
  mempool_initialized :: bool
  ctx_mempool :: mempool
  nvme_swq_mempool :: mempool
  received_nvme_completions :: int
  tenant_swq :: "ptr list"
  num_tenants :: int
  num_best_effort_tenants :: int
  last_sched_time :: u64
  last_sched_time_be :: u64
  local_extra_demand :: u64
  local_leftover_tokens :: u64
  roundrobin_start :: int
  usys_arr :: bsys_arr
  \<comment> \<open>memory\<close>
  swqs :: "ptr \<Rightarrow> nvme_sw_queue"
  ctxs :: ctx_heap
  mp :: "'w mp_state"
  sq :: "spdk_cmd list"

text \<open>The addresses of the two data stores.\<close>

definition ctx_datastore :: ptr where "ctx_datastore = 1"
definition nvme_swq_datastore :: ptr where "nvme_swq_datastore = 2"

section \<open>Allocation\<close>

definition alloc_local_nvme_ctx :: "'w nvme_env \<Rightarrow> 'w nvme_state \<Rightarrow> ptr option \<times> 'w nvme_state" where
  "alloc_local_nvme_ctx E s =
     (case mempool_alloc (env_dpdk E) (ctx_mempool s) (mp s) of (p, m) \<Rightarrow> (p, s\<lparr>mp := m\<rparr>))"

definition free_local_nvme_ctx :: "'w nvme_env \<Rightarrow> ptr \<Rightarrow> 'w nvme_state \<Rightarrow> 'w nvme_state" where
  "free_local_nvme_ctx E req s = s\<lparr>mp := mempool_free (env_dpdk E) (ctx_mempool s) req (mp s)\<rparr>"

definition alloc_local_nvme_swq :: "'w nvme_env \<Rightarrow> 'w nvme_state \<Rightarrow> ptr option \<times> 'w nvme_state" where
  "alloc_local_nvme_swq E s =
     (case mempool_alloc (env_dpdk E) (nvme_swq_mempool s) (mp s) of (p, m) \<Rightarrow> (p, s\<lparr>mp := m\<rparr>))"

definition free_local_nvme_swq :: "'w nvme_env \<Rightarrow> ptr \<Rightarrow> 'w nvme_state \<Rightarrow> 'w nvme_state" where
  "free_local_nvme_swq E q s = s\<lparr>mp := mempool_free (env_dpdk E) (nvme_swq_mempool s) q (mp s)\<rparr>"

section \<open>Initialisation\<close>

definition set_token_deficit_limit :: "nvme_cfg \<Rightarrow> 'w nvme_state \<Rightarrow> 'w nvme_state" where
  "set_token_deficit_limit cfg s = s\<lparr>TOKEN_DEFICIT_LIMIT := 100 * NVME_WRITE_COST cfg\<rparr>"

text \<open>\<open>now\<close> and \<open>tsc\<close> are what \<open>timer_now\<close> and \<open>rdtsc\<close> return.\<close>

definition init_nvme_request_cpu ::
  "nvme_cfg \<Rightarrow> u64 \<Rightarrow> u64 \<Rightarrow> 'w nvme_state \<Rightarrow> (int \<times> 'w nvme_state) option" where
  "init_nvme_request_cpu cfg now tsc s =
     (if mempool_initialized s then Some (0, s)
      else if no_nvme cfg then Some (0, s)
      else do {
        (ret, m2) \<leftarrow> mempool_create (ctx_mempool s) ctx_datastore MEMPOOL_SANITY_PERCPU (cpu_id cfg) (mp s);
        if ret \<noteq> 0 then Some (ret, s\<lparr>ctx_mempool := m2\<rparr>) else do {
          (ret, m3) \<leftarrow> mempool_create (nvme_swq_mempool s) nvme_swq_datastore MEMPOOL_SANITY_PERCPU
             (cpu_id cfg) (mp s);
          if ret \<noteq> 0 then Some (ret, s\<lparr>ctx_mempool := m2, nvme_swq_mempool := m3\<rparr>)
          else Some (ret, s\<lparr>ctx_mempool := m2, nvme_swq_mempool := m3,
                 tenant_swq := [], num_tenants := 0, num_best_effort_tenants := 0,
                 last_sched_time := now, last_sched_time_be := tsc,
                 local_leftover_tokens := 0, local_extra_demand := 0, mempool_initialized := True\<rparr>)
        }})"

definition init_nvme_request ::
  "'w nvme_env \<Rightarrow> nvme_cfg \<Rightarrow> u64 \<Rightarrow> u64 \<Rightarrow> 'w nvme_state \<Rightarrow> (int \<times> 'w nvme_state) option" where
  "init_nvme_request E cfg now tsc s =
     (if no_nvme cfg then Some (0, s)
      else do {
        (ret, m) \<leftarrow> mempool_create_datastore (env_dpdk E) ctx_datastore NUM_NVME_REQUESTS
           (sizeof_ctx cfg) ''nvme_ctx'' (mp s);
        let s = s\<lparr>mp := m\<rparr>;
        if ret \<noteq> 0 then Some (ret, s) else do {
          (ret, m) \<leftarrow> mempool_create_datastore (env_dpdk E) nvme_swq_datastore
             ((MEMPOOL_DEFAULT_CHUNKSIZE * int MAX_NVME_FLOW_GROUPS) div MEMPOOL_DEFAULT_CHUNKSIZE * 2)
             (sizeof_swq cfg) ''nvme_swq'' (mp s);
          let s = s\<lparr>mp := m\<rparr>;
          if ret \<noteq> 0 then Some (ret, s) else do {
            (_, s) \<leftarrow> init_nvme_request_cpu cfg now tsc s;
            Some (0, set_token_deficit_limit cfg s)
          }}})"

section \<open>An example state\<close>

text \<open>
  The state after start-up with three request contexts and three queues in the pools, SPDK
  accepting every command and completing none.  The examples start from it.
\<close>

definition fg0 :: nvme_flow_group where
  "fg0 = \<lparr>flow_group_id = 0, fg_cookie = 0, latency_us_SLO = 0, IOPS_SLO = 0, rw_ratio_SLO = 0,
     scaled_IOPS_limit = 0, scaled_IOPuS_limit = 0, latency_critical_flag = False, nvme_swq = 0,
     fg_tid = 0, conn_ref_count = 0\<rparr>"

definition cfg_ex :: nvme_cfg where
  "cfg_ex = \<lparr>nvme_dev_model = FLASH_DEV_MODEL, nvme_sched_flag = True, NVME_READ_COST = 1, NVME_WRITE_COST = 20,
     dev_model = (\<lambda>_. \<lparr>p95_tail_latency = 0, token_rate_limit = 0, token_rdonly_rate_limit = 0\<rparr>)
       (0 := \<lparr>p95_tail_latency = 500, token_rate_limit = 100000, token_rdonly_rate_limit = 200000\<rparr>,
        1 := \<lparr>p95_tail_latency = 1000, token_rate_limit = 300000, token_rdonly_rate_limit = 400000\<rparr>),
     dev_model_size = 2, cycles_per_us = 1000, cpus_active = 1, cpu_nr = 0, cpu_id = 0, no_nvme = False,
     sizeof_ctx = 96, sizeof_swq = 16448\<rparr>"

definition env_ex :: "(ptr option \<Rightarrow> ptr list) nvme_env" where
  "env_ex = \<lparr>env_dpdk = dpdk_ex, spdk_nvme_ns_cmd = \<lambda>_ w. (0, w),
     spdk_nvme_qpair_process_completions = \<lambda>_ w. (0, [], w),
     spdk_nvme_ns_get_size = \<lambda>_ _. 1048576, spdk_nvme_ns_get_sector_size = \<lambda>_ _. 512\<rparr>"

definition pool_of :: "ptr \<Rightarrow> mempool" where
  "pool_of d = \<lparr>m_elem_len = 0, m_magic = MEMPOOL_MAGIC, m_datastore = d, m_sanity = 0, m_nr_elems = 3\<rparr>"

definition nvme_mp_ex :: "(ptr option \<Rightarrow> ptr list) mp_state" where
  "nvme_mp_ex = \<lparr>dss = \<lambda>d. \<lparr>ds_magic = MEMPOOL_MAGIC, ds_pool = Some d, ds_nr_elems = 3, ds_elem_len = 0,
       prettyname = [], next_ds = None\<rparr>, mempool_all_datastores = None,
     mp_world = (\<lambda>_. [])(Some ctx_datastore := [11, 12, 13], Some nvme_swq_datastore := [21, 22, 23])\<rparr>"

definition nvme_state_ex :: "(ptr option \<Rightarrow> ptr list) nvme_state" where
  "nvme_state_ex = \<lparr>ioq_bitmap = \<lambda>_. 0, nvme_fgs_bitmap = \<lambda>_. 0, nvme_fgs = \<lambda>_. fg0, global_token_rate = UINT_MAX,
     global_leftover_tokens = 0, global_LC_sum_token_rate = 0, global_num_best_effort_tenants = 0,
     global_num_lc_tenants = 0, global_be_token_rate_per_tenant = 0, global_lc_boost_no_BE = 0,
     scheduled_bit_vector = \<lambda>_. 0, TOKEN_DEFICIT_LIMIT = 2000, global_readonly_flag = True,
     global_ns_size = 1048576, global_ns_sector_size = 512, open_ev = \<lambda>_. 0, open_ev_ptr = 0,
     mempool_initialized = True, ctx_mempool = pool_of ctx_datastore, nvme_swq_mempool = pool_of nvme_swq_datastore,
     received_nvme_completions = 0, tenant_swq = [], num_tenants = 0, num_best_effort_tenants = 0,
     last_sched_time = 0, last_sched_time_be = 0, local_extra_demand = 0, local_leftover_tokens = 0,
     roundrobin_start = 0,
     usys_arr = \<lparr>len = 0, max_len = 8192,
       descs = \<lambda>_. \<lparr>sysnr = 0, arga = 0, argb = 0, argc = 0, argd = 0, arge = 0, argf = 0\<rparr>\<rparr>,
     swqs = \<lambda>_. swq0, ctxs = \<lambda>_. ctx0, mp = nvme_mp_ex, sq = []\<rparr>"

end
