(* ===== verification/NvmeFlow.thy ===== *)
theory NvmeFlow
  imports NvmeState
begin

text \<open>
  Queues, flow groups and admission control of \<open>nvme/nvmedev.c\<close>: opening and closing a queue,
  registering and unregistering a tenant, the device model, and the token rates that follow from
  the registered tenants.
\<close>

section \<open>Queues\<close>

text \<open>The \<open>for\<close> loop of \<open>allocate_nvme_ioq\<close>, over the indices it runs through.\<close>

fun ioq_scan :: "nat list \<Rightarrow> bitmap \<Rightarrow> (nat \<times> bitmap) option" where
  "ioq_scan [] b = None"
| "ioq_scan (q # qs) b = (if bitmap_test b q then ioq_scan qs b else Some (q, bitmap_set b q))"

definition allocate_nvme_ioq :: "'w nvme_state \<Rightarrow> int \<times> 'w nvme_state" where
  "allocate_nvme_ioq s =
     (case ioq_scan [1..<MAX_NUM_IO_QUEUES] (ioq_bitmap s) of
        None \<Rightarrow> (- ENOMEM, s)
      | Some (q, b) \<Rightarrow> (int q, s\<lparr>ioq_bitmap := b\<rparr>))"

text \<open>\<open>open_ev\<close> has \<open>MAX_OPEN_BATCH\<close> entries; \<open>None\<close> is the write behind its end.\<close>

definition bsys_nvme_open :: "'w nvme_env \<Rightarrow> int \<Rightarrow> int \<Rightarrow> 'w nvme_state \<Rightarrow> (int \<times> 'w nvme_state) option" where
  "bsys_nvme_open E dev_id ns_id s =
     (case allocate_nvme_ioq s of (ioq, s) \<Rightarrow>
        if ioq < 0 then Some (- RET_NOBUFS, s)
        else if open_ev_ptr s \<ge> MAX_OPEN_BATCH then None
        else Some (RET_OK, s\<lparr>nvme_fgs_bitmap := bitmap_init (nvme_fgs_bitmap s) MAX_NVME_FLOW_GROUPS False,
                open_ev := (open_ev s)(open_ev_ptr s := ioq), open_ev_ptr := open_ev_ptr s + 1,
                global_ns_size := sint (spdk_nvme_ns_get_size E ns_id (mp_world (mp s))),
                global_ns_sector_size := uint (spdk_nvme_ns_get_sector_size E ns_id (mp_world (mp s)))\<rparr>))"

definition bsys_nvme_close :: "int \<Rightarrow> int \<Rightarrow> int \<Rightarrow> 'w nvme_state \<Rightarrow> int \<times> 'w nvme_state" where
  "bsys_nvme_close dev_id ns_id handle s =
     (RET_OK, s\<lparr>ioq_bitmap := bitmap_clear (ioq_bitmap s) (nat handle),
                usys_arr := usys_nvme_closed (usys_arr s) handle 0\<rparr>)"

section \<open>Flow group handles\<close>

text \<open>
  The \<open>for\<close> loop of \<open>set_nvme_flow_group_id\<close>: \<open>Inl i\<close> is the early return for a registered flow,
  \<open>Inr next_avail\<close> the end of the loop.
\<close>

fun fg_scan :: "nvme_cfg \<Rightarrow> 'w nvme_state \<Rightarrow> int \<Rightarrow> nat list \<Rightarrow> nat \<Rightarrow> nat + nat" where
  "fg_scan cfg s fid [] next_avail = Inr next_avail"
| "fg_scan cfg s fid (i # is) next_avail =
     (if bitmap_test (nvme_fgs_bitmap s) i then
        if flow_group_id (nvme_fgs s (int i)) = fid \<and> fg_tid (nvme_fgs s (int i)) = cpu_nr cfg
        then Inl i else fg_scan cfg s fid is next_avail
      else fg_scan cfg s fid is (if next_avail = 0 then i else next_avail))"

text \<open>The result is the return value, the handle written through the pointer, and the state.\<close>

definition set_nvme_flow_group_id ::
  "nvme_cfg \<Rightarrow> int \<Rightarrow> int \<Rightarrow> 'w nvme_state \<Rightarrow> int \<times> int \<times> 'w nvme_state" where
  "set_nvme_flow_group_id cfg fid fg_handle_to_set s =
     (case fg_scan cfg s fid [1..<MAX_NVME_FLOW_GROUPS] 0 of
        Inl i \<Rightarrow> (1, int i, s)
      | Inr next_avail \<Rightarrow>
          if next_avail = MAX_NVME_FLOW_GROUPS then (- ENOMEM, fg_handle_to_set, s)
          else (0, int next_avail, s\<lparr>nvme_fgs_bitmap := bitmap_set (nvme_fgs_bitmap s) next_avail\<rparr>))"

section \<open>The device model\<close>

text \<open>The first entry of the table with a latency above the objective, or the size of the table.\<close>

fun devmodel_scan :: "nvme_cfg \<Rightarrow> u32 \<Rightarrow> nat list \<Rightarrow> nat" where
  "devmodel_scan cfg lat_SLO [] = dev_model_size cfg"
| "devmodel_scan cfg lat_SLO (i # is) =
     (if lat_SLO < p95_tail_latency (dev_model cfg i) then i else devmodel_scan cfg lat_SLO is)"

text \<open>
  The linear interpolation.  The C expression multiplies and subtracts in \<open>unsigned long\<close>, then
  divides and adds in \<open>double\<close>.
\<close>

definition interpolate :: "u64 \<Rightarrow> u64 \<Rightarrow> u64 \<Rightarrow> u64 \<Rightarrow> u32 \<Rightarrow> u64" where
  "interpolate y0 y1 x0 x1 lat_SLO =
     word_of_int (d_trunc (dadd (d_of_int (uint y0))
       (ddiv (d_of_int (uint ((y1 - y0) * (ucast lat_SLO - x0)))) (d_of_int (uint (x1 - x0))))))"

definition rate_of :: "bool \<Rightarrow> lat_tokenrate_pair \<Rightarrow> u64" where
  "rate_of rdonly e = (if rdonly then token_rdonly_rate_limit e else token_rate_limit e)"

definition find_token_limit_from_devmodel :: "nvme_cfg \<Rightarrow> bool \<Rightarrow> u32 \<Rightarrow> u64 option" where
  "find_token_limit_from_devmodel cfg rdonly lat_SLO =
     (let i = devmodel_scan cfg lat_SLO [0..<dev_model_size cfg] in
      if 0 < i then
        if i = dev_model_size cfg then Some (rate_of rdonly (dev_model cfg (i - 1)))
        else let y0 = rate_of rdonly (dev_model cfg (i - 1));
                 y1 = rate_of rdonly (dev_model cfg i);
                 x0 = ucast (p95_tail_latency (dev_model cfg (i - 1)));
                 x1 = ucast (p95_tail_latency (dev_model cfg i))
             in if x1 - x0 = 0 then None else Some (interpolate y0 y1 x0 x1 lat_SLO)
      else Some (rate_of rdonly (dev_model cfg 0)))"

definition lookup_device_token_rate :: "nvme_cfg \<Rightarrow> bool \<Rightarrow> u32 \<Rightarrow> u64 option" where
  "lookup_device_token_rate cfg rdonly lat_SLO =
     (if nvme_dev_model cfg = DEFAULT_FLASH then Some UINT_MAX
      else if nvme_dev_model cfg = FAKE_FLASH then Some UINT_MAX
      else if nvme_dev_model cfg = FLASH_DEV_MODEL then find_token_limit_from_devmodel cfg rdonly lat_SLO
      else Some UINT_MAX)"

section \<open>The cost of a request\<close>

text \<open>
  The product of two \<open>int\<close>s.  An overflow is undefined in C; the model keeps the lower 32 bits, as the
  compiled multiplication does.
\<close>

definition int_mul :: "int \<Rightarrow> int \<Rightarrow> int" where
  "int_mul a b = int_of_u64 (word_of_int (a * b))"

lemma int_mul_exact: "int_ok (a * b) \<Longrightarrow> int_mul a b = a * b"
  by (simp add: int_mul_def del: of_int_mult)

definition nvme_compute_req_cost :: "nvme_cfg \<Rightarrow> int \<Rightarrow> u64 \<Rightarrow> int" where
  "nvme_compute_req_cost cfg req_type req_len =
     (if req_len \<le> 0 then 0
      else let len_scale_factor = (if req_len > 4096 then int_of_u64 ((req_len + 4096 - 1) div 4096) else 1)
           in if req_type = NVME_CMD_READ then int_mul (NVME_READ_COST cfg) len_scale_factor
              else if req_type = NVME_CMD_WRITE then int_mul (NVME_WRITE_COST cfg) len_scale_factor
              else 1)"

definition scaled_IOPS :: "nvme_cfg \<Rightarrow> u64 \<Rightarrow> int \<Rightarrow> u64" where
  "scaled_IOPS cfg IOPS rw_ratio_100 =
     (let rw_ratio = ddiv (d_of_int rw_ratio_100) (d_of_int 100);
          scaledIOPS = dadd
            (dmul (dmul (d_of_int (uint IOPS)) rw_ratio)
               (d_of_int (nvme_compute_req_cost cfg NVME_CMD_READ SLO_REQ_SIZE)))
            (dmul (dmul (d_of_int (uint IOPS)) (dsub 1 rw_ratio))
               (d_of_int (nvme_compute_req_cost cfg NVME_CMD_WRITE SLO_REQ_SIZE)))
      in word_of_int (d_trunc (dadd scaledIOPS (1 / 2))))"

section \<open>Token rates\<close>

text \<open>The \<open>for\<close> loop of \<open>readjust_lc_tenant_token_limits\<close>; \<open>j\<close> counts the latency-critical tenants.\<close>

fun readjust_loop :: "nat list \<Rightarrow> int \<Rightarrow> 'w nvme_state \<Rightarrow> 'w nvme_state" where
  "readjust_loop [] j s = s"
| "readjust_loop (i # is) j s =
     (if bitmap_test (nvme_fgs_bitmap s) i \<and> latency_critical_flag (nvme_fgs s (int i)) then
        let s = s\<lparr>nvme_fgs := (nvme_fgs s)(int i := (nvme_fgs s (int i))\<lparr>scaled_IOPuS_limit :=
                    ddiv (d_of_int (uint (scaled_IOPS_limit (nvme_fgs s (int i)) + global_lc_boost_no_BE s)))
                      (d_of_int 1000000)\<rparr>)\<rparr>;
            j = j + 1
        in if word_of_int j = global_num_lc_tenants s then s else readjust_loop is j s
      else readjust_loop is j s)"

definition readjust_lc_tenant_token_limits :: "'w nvme_state \<Rightarrow> 'w nvme_state" where
  "readjust_lc_tenant_token_limits s = readjust_loop [0..<MAX_NVME_FLOW_GROUPS] 0 s"

text \<open>The end of both \<open>recalculate_weights\<close> functions: the rates of the tenants from the totals.\<close>

definition redistribute :: "'w nvme_state \<Rightarrow> 'w nvme_state" where
  "redistribute s =
     (let nbe = global_num_best_effort_tenants s;
          spare = global_token_rate s - global_LC_sum_token_rate s;
          be_token_rate_per_tenant = (if nbe \<noteq> 0 then ucast (spare div nbe) else (0 :: u32));
          boost = (if nbe \<noteq> 0 then 0
                   else if global_num_lc_tenants s \<noteq> 0 then spare div global_num_lc_tenants s else 0);
          s = s\<lparr>global_be_token_rate_per_tenant :=
                  atomic_write (global_be_token_rate_per_tenant s) (sint be_token_rate_per_tenant)\<rparr>
      in if boost \<noteq> global_lc_boost_no_BE s
         then readjust_lc_tenant_token_limits (s\<lparr>global_lc_boost_no_BE := boost\<rparr>) else s)"

definition recalculate_weights_add :: "nvme_cfg \<Rightarrow> int \<Rightarrow> 'w nvme_state \<Rightarrow> (int \<times> 'w nvme_state) option" where
  "recalculate_weights_add cfg idx s =
     (let fg = nvme_fgs s idx in
      if latency_critical_flag fg then
        let new_LC_sum = global_LC_sum_token_rate s + scaled_IOPS_limit fg;
            s = (if rw_ratio_SLO fg < 100 then s\<lparr>global_readonly_flag := False\<rparr> else s)
        in do {
          rate \<leftarrow> lookup_device_token_rate cfg (global_readonly_flag s) (latency_us_SLO fg);
          let new_rate = (if rate > global_token_rate s then global_token_rate s else rate);
          if new_LC_sum > new_rate then Some (- RET_CANTMEETSLO, s)
          else Some (1, redistribute (s\<lparr>global_token_rate := new_rate,
                 global_LC_sum_token_rate := new_LC_sum,
                 global_num_lc_tenants := global_num_lc_tenants s + 1\<rparr>))
        }
      else Some (1, redistribute (s\<lparr>global_num_best_effort_tenants := global_num_best_effort_tenants s + 1,
                      global_readonly_flag := False\<rparr>)))"

text \<open>The loop that finds the strictest objective of the remaining tenants.\<close>

fun strictest_loop :: "'w nvme_state \<Rightarrow> int \<Rightarrow> nat list \<Rightarrow> u32 \<Rightarrow> bool \<Rightarrow> u32 \<times> bool" where
  "strictest_loop s idx [] strictest rdonly = (strictest, rdonly)"
| "strictest_loop s idx (i # is) strictest rdonly =
     (if bitmap_test (nvme_fgs_bitmap s) i \<and> int i \<noteq> idx \<and> latency_critical_flag (nvme_fgs s (int i)) then
        strictest_loop s idx is
          (if latency_us_SLO (nvme_fgs s (int i)) < strictest then latency_us_SLO (nvme_fgs s (int i)) else strictest)
          (if rw_ratio_SLO (nvme_fgs s (int i)) < 100 then False else rdonly)
      else strictest_loop s idx is strictest rdonly)"

definition recalculate_weights_remove :: "nvme_cfg \<Rightarrow> int \<Rightarrow> 'w nvme_state \<Rightarrow> (int \<times> 'w nvme_state) option" where
  "recalculate_weights_remove cfg idx s = do {
     let fg = nvme_fgs s idx;
     s \<leftarrow> (if latency_critical_flag fg then
             let (strictest, rdonly) = strictest_loop s idx [0..<MAX_NVME_FLOW_GROUPS] (ucast UINT_MAX) True
             in do {
               rate \<leftarrow> lookup_device_token_rate cfg rdonly strictest;
               Some (s\<lparr>global_readonly_flag := rdonly,
                       global_LC_sum_token_rate := global_LC_sum_token_rate s - scaled_IOPS_limit fg,
                       global_token_rate := rate,
                       global_num_lc_tenants := global_num_lc_tenants s - 1\<rparr>)
             }
           else Some (s\<lparr>global_num_best_effort_tenants := global_num_best_effort_tenants s - 1\<rparr>));
     let s = (if global_num_best_effort_tenants s \<noteq> 0 then s\<lparr>global_readonly_flag := False\<rparr> else s);
     Some (1, redistribute s)
   }"

section \<open>Registration\<close>

definition upd_fg :: "int \<Rightarrow> (nvme_flow_group \<Rightarrow> nvme_flow_group) \<Rightarrow> 'w nvme_state \<Rightarrow> 'w nvme_state" where
  "upd_fg h f s = s\<lparr>nvme_fgs := (nvme_fgs s)(h := f (nvme_fgs s h))\<rparr>"

definition bsys_nvme_unregister_flow ::
  "'w nvme_env \<Rightarrow> nvme_cfg \<Rightarrow> int \<Rightarrow> 'w nvme_state \<Rightarrow> (int \<times> 'w nvme_state) option" where
  "bsys_nvme_unregister_flow E cfg h s = do {
     let s = upd_fg h (\<lambda>fg. fg\<lparr>conn_ref_count := conn_ref_count fg - 1\<rparr>) s;
     s \<leftarrow> (if conn_ref_count (nvme_fgs s h) = 0 then do {
             let s = (if \<not> latency_critical_flag (nvme_fgs s h)
                      then s\<lparr>num_best_effort_tenants := num_best_effort_tenants s - 1\<rparr> else s);
             let swq = nvme_swq (nvme_fgs s h);
             let s = free_local_nvme_swq E swq (s\<lparr>tenant_swq := remove1 swq (tenant_swq s)\<rparr>);
             let s = s\<lparr>num_tenants := num_tenants s - 1\<rparr>;
             (_, s) \<leftarrow> recalculate_weights_remove cfg h s;
             Some (s\<lparr>nvme_fgs_bitmap := bitmap_clear (nvme_fgs_bitmap s) (nat h)\<rparr>)
           } else Some s);
     Some (RET_OK, s\<lparr>usys_arr := usys_nvme_unregistered_flow (usys_arr s) h RET_OK\<rparr>)
   }"

definition bsys_nvme_register_flow ::
  "'w nvme_env \<Rightarrow> nvme_cfg \<Rightarrow> int \<Rightarrow> u64 \<Rightarrow> u32 \<Rightarrow> u64 \<Rightarrow> int \<Rightarrow> 'w nvme_state \<Rightarrow> (int \<times> 'w nvme_state) option" where
  "bsys_nvme_register_flow E cfg fid cookie lat iops rw s = do {
     let (already, h, s) = set_nvme_flow_group_id cfg fid 0 s;
     s \<leftarrow> (if already = 1 \<and> (latency_us_SLO (nvme_fgs s h) \<noteq> lat \<or> IOPS_SLO (nvme_fgs s h) \<noteq> iops \<or>
                             rw_ratio_SLO (nvme_fgs s h) \<noteq> rw)
           then map_option snd (bsys_nvme_unregister_flow E cfg h s) else Some s);
     let s = upd_fg h (\<lambda>fg. fg\<lparr>flow_group_id := sint (word_of_int fid :: u32), fg_cookie := cookie,
                latency_us_SLO := lat, IOPS_SLO := iops, rw_ratio_SLO := rw, fg_tid := cpu_nr cfg,
                scaled_IOPS_limit :=
                  word_of_int (d_trunc (ddiv (d_of_int (uint (scaled_IOPS cfg iops rw))) (d_of_int 1000000))),
                latency_critical_flag := (lat \<noteq> 0)\<rparr>) s;
     (ret, s) \<leftarrow> recalculate_weights_add cfg h s;
     if ret < 0 then Some (- RET_CANTMEETSLO, s) else
       (case alloc_local_nvme_swq E s of
          (None, s) \<Rightarrow> Some (- RET_NOMEM, s)
        | (Some swq, s) \<Rightarrow>
            let s = upd_fg h (\<lambda>fg. fg\<lparr>nvme_swq := swq\<rparr>) s;
                s = s\<lparr>swqs := (swqs s)(swq := nvme_sw_queue_init (swqs s swq) h)\<rparr>;
                s = s\<lparr>tenant_swq := swq # tenant_swq s, num_tenants := num_tenants s + 1, roundrobin_start := 0\<rparr>;
                s = (if lat = 0 then s\<lparr>num_best_effort_tenants := num_best_effort_tenants s + 1\<rparr> else s);
                s = upd_fg h (\<lambda>fg. fg\<lparr>conn_ref_count := 0 + 1\<rparr>) s
            in Some (RET_OK, s\<lparr>usys_arr := usys_nvme_registered_flow (usys_arr s) h cookie RET_OK\<rparr>))
   }"

section \<open>Queues: what the scan finds\<close>

lemma ioq_scan_None: "ioq_scan qs b = None \<longleftrightarrow> (\<forall>q \<in> set qs. bitmap_test b q)"
  by (induction qs) auto

lemma ioq_scan_Some:
  "ioq_scan qs b = Some (q, b') \<Longrightarrow> q \<in> set qs \<and> \<not> bitmap_test b q \<and> b' = bitmap_set b q"
  by (induction qs) (auto split: if_splits)

lemma ioq_scan_first:
  "ioq_scan qs b = Some (q, b') \<Longrightarrow> sorted_wrt (<) qs \<Longrightarrow> \<forall>p \<in> set qs. p < q \<longrightarrow> bitmap_test b p"
proof (induction qs)
  case (Cons a qs)
  then show ?case using ioq_scan_Some [of qs b q b'] by (auto split: if_splits)
qed simp

text \<open>
  C34. \<open>allocate_nvme_ioq\<close> returns the lowest free queue from 1 to 30 and marks exactly that queue
  as used; it returns \<open>-ENOMEM\<close> and changes nothing exactly when all of them are in use.
\<close>

theorem allocate_nvme_ioq_spec:
  "(case allocate_nvme_ioq s of (q, s') \<Rightarrow>
      if \<forall>i \<in> {1..<MAX_NUM_IO_QUEUES}. bitmap_test (ioq_bitmap s) i then q = - ENOMEM \<and> s' = s
      else 1 \<le> q \<and> q < int MAX_NUM_IO_QUEUES \<and> \<not> bitmap_test (ioq_bitmap s) (nat q) \<and>
        (\<forall>i \<in> {1..<nat q}. bitmap_test (ioq_bitmap s) i) \<and>
        (\<forall>i. bitmap_test (ioq_bitmap s') i \<longleftrightarrow> i = nat q \<or> bitmap_test (ioq_bitmap s) i) \<and>
        s' = s\<lparr>ioq_bitmap := ioq_bitmap s'\<rparr>)"
proof (cases "ioq_scan [1..<MAX_NUM_IO_QUEUES] (ioq_bitmap s)")
  case None
  then have "\<forall>i \<in> {1..<MAX_NUM_IO_QUEUES}. bitmap_test (ioq_bitmap s) i" by (simp add: ioq_scan_None)
  then show ?thesis using None by (simp add: allocate_nvme_ioq_def)
next
  case (Some r)
  obtain q b where r: "r = (q, b)" by (cases r)
  note q = ioq_scan_Some [OF Some [unfolded r]]
  have "\<forall>i \<in> {1..<q}. bitmap_test (ioq_bitmap s) i"
    using ioq_scan_first [OF Some [unfolded r]] q by auto
  then show ?thesis using q Some r by (auto simp: allocate_nvme_ioq_def)
qed

lemma allocate_nvme_ioq_spec_witness:
  "\<not> bitmap_test (ioq_bitmap nvme_state_ex) 1 \<and> fst (allocate_nvme_ioq nvme_state_ex) \<ge> 1"
proof -
  have t: "\<not> bitmap_test (ioq_bitmap nvme_state_ex) i" for i
    by (simp add: nvme_state_ex_def bitmap_test_bit)
  then have "\<not> (\<forall>i \<in> {1..<MAX_NUM_IO_QUEUES}. bitmap_test (ioq_bitmap nvme_state_ex) i)"
    by (auto simp: MAX_NUM_IO_QUEUES_def intro!: bexI [of _ 1])
  then show ?thesis using allocate_nvme_ioq_spec [of nvme_state_ex] t by (auto split: prod.splits)
qed

section \<open>Flow group handles: what the scan finds\<close>

definition fg_match :: "nvme_cfg \<Rightarrow> 'w nvme_state \<Rightarrow> int \<Rightarrow> nat \<Rightarrow> bool" where
  "fg_match cfg s fid i \<longleftrightarrow> bitmap_test (nvme_fgs_bitmap s) i \<and>
     flow_group_id (nvme_fgs s (int i)) = fid \<and> fg_tid (nvme_fgs s (int i)) = cpu_nr cfg"

lemma fg_scan_eq:
  "0 \<notin> set is \<Longrightarrow> fg_scan cfg s fid is na =
     (case find (fg_match cfg s fid) is of Some i \<Rightarrow> Inl i
      | None \<Rightarrow> Inr (if na \<noteq> 0 then na
           else case find (\<lambda>i. \<not> bitmap_test (nvme_fgs_bitmap s) i) is of Some i \<Rightarrow> i | None \<Rightarrow> 0))"
  by (induction "is" arbitrary: na) (auto simp: fg_match_def split: option.splits)

lemma find_upt_None: "find P [a..<b] = None \<longleftrightarrow> (\<forall>i \<in> {a..<b}. \<not> P i)"
  by (auto simp: find_None_iff)

lemma find_upt_Some:
  "find P [a..<b] = Some i \<longleftrightarrow> P i \<and> a \<le> i \<and> i < b \<and> (\<forall>j \<in> {a..<i}. \<not> P j)"
proof
  assume "find P [a..<b] = Some i"
  then obtain k where k: "k < b - a" "P (a + k)" "i = a + k" "\<forall>j<k. \<not> P (a + j)"
    by (auto simp: find_Some_iff)
  have "\<not> P j" if "j \<in> {a..<i}" for j
    using k(3,4) that by (metis atLeastLessThan_iff le_add_diff_inverse nat_add_left_cancel_less)
  then show "P i \<and> a \<le> i \<and> i < b \<and> (\<forall>j \<in> {a..<i}. \<not> P j)" using k by auto
next
  assume "P i \<and> a \<le> i \<and> i < b \<and> (\<forall>j \<in> {a..<i}. \<not> P j)"
  then show "find P [a..<b] = Some i"
    by (auto simp: find_Some_iff intro!: exI [of _ "i - a"])
qed

lemma MAX_NVME_FLOW_GROUPS_pos [simp]: "0 < MAX_NVME_FLOW_GROUPS" "MAX_NVME_FLOW_GROUPS \<noteq> 0"
  by (simp_all add: MAX_NVME_FLOW_GROUPS_def)

lemma flow_group_id_result:
  "case set_nvme_flow_group_id cfg fid h0 s of (ret, h, s') \<Rightarrow>
     if \<exists>i \<in> {1..<MAX_NVME_FLOW_GROUPS}. fg_match cfg s fid i
     then ret = 1 \<and> s' = s \<and> h \<in> {1..<int MAX_NVME_FLOW_GROUPS} \<and> fg_match cfg s fid (nat h)
     else ret = 0 \<and> s' = s\<lparr>nvme_fgs_bitmap := bitmap_set (nvme_fgs_bitmap s) (nat h)\<rparr> \<and>
       (if \<forall>i \<in> {1..<MAX_NVME_FLOW_GROUPS}. bitmap_test (nvme_fgs_bitmap s) i then h = 0
        else h \<in> {1..<int MAX_NVME_FLOW_GROUPS} \<and> \<not> bitmap_test (nvme_fgs_bitmap s) (nat h) \<and>
          (\<forall>i \<in> {1..<nat h}. bitmap_test (nvme_fgs_bitmap s) i))"
proof -
  note scan = fg_scan_eq [of "[1..<MAX_NVME_FLOW_GROUPS]" cfg s fid 0]
  let ?free = "\<lambda>i. \<not> bitmap_test (nvme_fgs_bitmap s) i"
  show ?thesis
  proof (cases "find (fg_match cfg s fid) [1..<MAX_NVME_FLOW_GROUPS]")
    case (Some i)
    then have "fg_match cfg s fid i" "i \<in> {1..<MAX_NVME_FLOW_GROUPS}" by (simp_all only: find_upt_Some) auto
    then show ?thesis using scan Some by (auto simp: set_nvme_flow_group_id_def)
  next
    case None
    then have n: "\<forall>i \<in> {1..<MAX_NVME_FLOW_GROUPS}. \<not> fg_match cfg s fid i" by (simp only: find_upt_None)
    show ?thesis
    proof (cases "find ?free [1..<MAX_NVME_FLOW_GROUPS]")
      case None': None
      then have "\<forall>i \<in> {1..<MAX_NVME_FLOW_GROUPS}. bitmap_test (nvme_fgs_bitmap s) i" by (simp only: find_upt_None) simp
      then show ?thesis using scan None None' n
        by (auto simp: set_nvme_flow_group_id_def)
    next
      case (Some i)
      then have i: "?free i" "1 \<le> i" "i < MAX_NVME_FLOW_GROUPS" "\<forall>j \<in> {1..<i}. bitmap_test (nvme_fgs_bitmap s) j"
        by (simp_all only: find_upt_Some) auto
      then have "\<not> (\<forall>i \<in> {1..<MAX_NVME_FLOW_GROUPS}. bitmap_test (nvme_fgs_bitmap s) i)" by auto
      then show ?thesis using scan None Some n i by (auto simp: set_nvme_flow_group_id_def)
    qed
  qed
qed

text \<open>
  C33. \<open>set_nvme_flow_group_id\<close> returns 1 and the handle of a flow that this core has registered
  under the same identifier; otherwise it returns 0 and the lowest handle whose bit is clear, and
  sets that bit.  When every handle from 1 on is taken it still returns 0, with the handle 0:
  the error \<open>-ENOMEM\<close> is never returned.
\<close>

theorem set_nvme_flow_group_id_spec:
  "case set_nvme_flow_group_id cfg fid h0 s of (ret, h, s') \<Rightarrow>
     if \<exists>i \<in> {1..<MAX_NVME_FLOW_GROUPS}. fg_match cfg s fid i
     then ret = 1 \<and> s' = s \<and> h \<in> {1..<int MAX_NVME_FLOW_GROUPS} \<and> fg_match cfg s fid (nat h)
     else ret = 0 \<and> s' = s\<lparr>nvme_fgs_bitmap := bitmap_set (nvme_fgs_bitmap s) (nat h)\<rparr> \<and>
       (if \<forall>i \<in> {1..<MAX_NVME_FLOW_GROUPS}. bitmap_test (nvme_fgs_bitmap s) i then h = 0
        else h \<in> {1..<int MAX_NVME_FLOW_GROUPS} \<and> \<not> bitmap_test (nvme_fgs_bitmap s) (nat h) \<and>
          (\<forall>i \<in> {1..<nat h}. bitmap_test (nvme_fgs_bitmap s) i))"
  by (rule flow_group_id_result)

lemma set_nvme_flow_group_id_spec_witness:
  "case set_nvme_flow_group_id cfg_ex 7 0 nvme_state_ex of (ret, h, s') \<Rightarrow>
     ret = 0 \<and> h \<in> {1..<int MAX_NVME_FLOW_GROUPS}"
proof -
  have t: "\<not> bitmap_test (nvme_fgs_bitmap nvme_state_ex) i" for i
    by (simp add: nvme_state_ex_def bitmap_test_bit)
  then have "\<not> (\<exists>i \<in> {1..<MAX_NVME_FLOW_GROUPS}. fg_match cfg_ex nvme_state_ex 7 i)"
    "\<not> (\<forall>i \<in> {1..<MAX_NVME_FLOW_GROUPS}. bitmap_test (nvme_fgs_bitmap nvme_state_ex) i)"
    by (auto simp: fg_match_def MAX_NVME_FLOW_GROUPS_def intro!: bexI [of _ 1])
  moreover obtain ret h s' where "set_nvme_flow_group_id cfg_ex 7 0 nvme_state_ex = (ret, h, s')" by (metis prod_cases3)
  ultimately show ?thesis
    using set_nvme_flow_group_id_spec [where cfg = cfg_ex and fid = 7 and ?h0.0 = 0 and s = nvme_state_ex]
    by (simp only: prod.case if_False)
qed

end
