(* ===== verification/NvmeAdmission.thy ===== *)
theory NvmeAdmission
  imports NvmeFlow
begin

text \<open>
  What the device model and the admission control of \<open>nvme/nvmedev.c\<close> guarantee: the token rate is
  monotone in the latency objective, costs and reservations are the intended products in spite of
  the floating point arithmetic, and admitted reservations fit in the rate of the device.
\<close>

section \<open>The device model is monotone\<close>

definition itp :: "int \<Rightarrow> int \<Rightarrow> int \<Rightarrow> int \<Rightarrow> int \<Rightarrow> int" where
  "itp Y0 Y1 X0 X1 L = d_trunc (dadd (of_int Y0) (ddiv (of_int ((Y1 - Y0) * (L - X0))) (of_int (X1 - X0))))"

lemma itp_mono:
  assumes "Y0 \<le> Y1" "X0 < X1" "L \<le> L'"
  shows "itp Y0 Y1 X0 X1 L \<le> itp Y0 Y1 X0 X1 L'"
proof -
  have "(Y1 - Y0) * (L - X0) \<le> (Y1 - Y0) * (L' - X0)" using assms by (intro mult_left_mono) auto
  then have "(of_int ((Y1 - Y0) * (L - X0)) :: rat) \<le> of_int ((Y1 - Y0) * (L' - X0))"
    unfolding of_int_le_iff .
  then have "ddiv (of_int ((Y1 - Y0) * (L - X0))) (of_int (X1 - X0)) \<le>
      ddiv (of_int ((Y1 - Y0) * (L' - X0))) (of_int (X1 - X0))"
    unfolding ddiv_def using assms(2) by (intro rnd_mono divide_right_mono) simp_all
  then show ?thesis unfolding itp_def dadd_def by (intro d_trunc_mono rnd_mono) simp
qed

lemma itp_bounds:
  assumes "0 \<le> Y0" "Y0 \<le> Y1" "Y1 < 2 ^ 32" "X0 < X1" "X0 \<le> L" "L \<le> X1"
  shows "Y0 \<le> itp Y0 Y1 X0 X1 L" "itp Y0 Y1 X0 X1 L \<le> Y1"
proof -
  have e0: "itp Y0 Y1 X0 X1 X0 = Y0"
    using assms by (simp add: itp_def ddiv_def dadd_def rnd_of_int d_trunc_def)
  have "ddiv (of_int ((Y1 - Y0) * (X1 - X0))) (of_int (X1 - X0)) = of_int (Y1 - Y0)"
    using assms rnd_of_int [of "Y1 - Y0"] by (simp add: ddiv_def)
  then have "itp Y0 Y1 X0 X1 X1 = d_trunc (rnd (of_int Y1))" by (simp add: itp_def dadd_def)
  then have e1: "itp Y0 Y1 X0 X1 X1 = Y1" using assms by (simp add: rnd_of_int d_trunc_def)
  show "Y0 \<le> itp Y0 Y1 X0 X1 L" "itp Y0 Y1 X0 X1 L \<le> Y1"
    using itp_mono [OF assms(2,4), of X0 L] itp_mono [OF assms(2,4), of L X1] assms e0 e1 by simp_all
qed

text \<open>On a sane table the unsigned arithmetic of \<open>interpolate\<close> does not wrap.\<close>

lemma interpolate_itp:
  assumes "y0 \<le> y1" "uint y1 < 2 ^ 32" "x0 < x1" "uint x1 < 2 ^ 21" "x0 \<le> ucast l" "ucast l \<le> x1"
  shows "interpolate y0 y1 x0 x1 l = word_of_int (itp (uint y0) (uint y1) (uint x0) (uint x1) (uint l))"
    "uint (interpolate y0 y1 x0 x1 l) = itp (uint y0) (uint y1) (uint x0) (uint x1) (uint l)"
proof -
  have l: "uint (ucast l :: u64) = uint l" by (simp add: uint_up_ucast is_up)
  have c: "uint y0 \<le> uint y1" "uint x0 < uint x1" "uint x0 \<le> uint l" "uint l \<le> uint x1"
    using assms l by (simp_all add: word_le_def word_less_def)
  have d: "uint (y1 - y0) = uint y1 - uint y0" "uint (ucast l - x0) = uint l - uint x0"
    "uint (x1 - x0) = uint x1 - uint x0"
    using assms l by (simp_all add: uint_sub_lem [THEN iffD1] word_le_def word_less_def)
  have p: "0 \<le> (uint y1 - uint y0) * (uint l - uint x0)" using c by simp
  have "uint y1 - uint y0 \<le> 2 ^ 32 - 1"
    by (rule order.trans [of _ "uint y1"]) (use assms(2) in simp_all)
  moreover have "uint l - uint x0 \<le> 2 ^ 21 - 1"
    by (rule order.trans [of _ "uint l"]) (use c(4) assms(4) in simp_all)
  ultimately have "(uint y1 - uint y0) * (uint l - uint x0) \<le> (2 ^ 32 - 1) * (2 ^ 21 - 1)"
    using c by (intro mult_mono) simp_all
  then have b: "(uint y1 - uint y0) * (uint l - uint x0) < 2 ^ 53" by simp
  then have m: "uint ((y1 - y0) * (ucast l - x0)) = (uint y1 - uint y0) * (uint l - uint x0)"
    using p d by (simp add: uint_word_ariths)
  have "uint x1 - uint x0 < 2 ^ 53" by (rule order.strict_trans1 [of _ "uint x1"]) (use assms(4) in simp_all)
  then have q: "\<bar>uint x1 - uint x0\<bar> < 2 ^ 53" "\<bar>uint y0\<bar> < 2 ^ 53" using c assms(2) by simp_all
  show e: "interpolate y0 y1 x0 x1 l = word_of_int (itp (uint y0) (uint y1) (uint x0) (uint x1) (uint l))"
    unfolding interpolate_def itp_def m d
    using b p q by (simp add: d_of_int_exact del: of_int_mult of_int_diff)
  have "0 \<le> itp (uint y0) (uint y1) (uint x0) (uint x1) (uint l)"
    "itp (uint y0) (uint y1) (uint x0) (uint x1) (uint l) < 2 ^ 64"
    using itp_bounds [of "uint y0" "uint y1" "uint x0" "uint x1" "uint l"] c assms(2)
      order.trans [of 0 "uint y0" "itp (uint y0) (uint y1) (uint x0) (uint x1) (uint l)"] by simp_all
  then show "uint (interpolate y0 y1 x0 x1 l) = itp (uint y0) (uint y1) (uint x0) (uint x1) (uint l)"
    unfolding e by (simp add: uint_word_of_int)
qed

lemma interpolate_mono:
  assumes "y0 \<le> y1" "uint y1 < 2 ^ 32" "x0 < x1" "uint x1 < 2 ^ 21" "x0 \<le> ucast l" "l \<le> l'" "ucast l' \<le> x1"
  shows "interpolate y0 y1 x0 x1 l \<le> interpolate y0 y1 x0 x1 l'"
    "y0 \<le> interpolate y0 y1 x0 x1 l" "interpolate y0 y1 x0 x1 l' \<le> y1"
proof -
  have u: "uint (ucast l :: u64) = uint l" "uint (ucast l' :: u64) = uint l'" by (simp_all add: uint_up_ucast is_up)
  have c: "uint y0 \<le> uint y1" "uint x0 < uint x1" "uint x0 \<le> uint l" "uint l \<le> uint l'" "uint l' \<le> uint x1"
    using assms u by (simp_all add: word_le_def word_less_def)
  have ll: "(ucast l :: u64) \<le> x1" "x0 \<le> ucast l'" using c u by (simp_all add: word_le_def)
  note e = interpolate_itp(2) [OF assms(1-5) ll(1)] interpolate_itp(2) [OF assms(1-4) ll(2) assms(7)]
  show "interpolate y0 y1 x0 x1 l \<le> interpolate y0 y1 x0 x1 l'"
    using itp_mono [of "uint y0" "uint y1" "uint x0" "uint x1" "uint l" "uint l'"] c by (simp add: word_le_def e)
  show "y0 \<le> interpolate y0 y1 x0 x1 l" "interpolate y0 y1 x0 x1 l' \<le> y1"
    using itp_bounds [of "uint y0" "uint y1" "uint x0" "uint x1" "uint l"]
      itp_bounds [of "uint y0" "uint y1" "uint x0" "uint x1" "uint l'"] c assms(2) by (simp_all add: word_le_def e)
qed

lemma devmodel_scan_upt:
  "a \<le> dev_model_size cfg \<Longrightarrow> i = devmodel_scan cfg lat [a..<dev_model_size cfg] \<Longrightarrow>
   a \<le> i \<and> i \<le> dev_model_size cfg \<and> (\<forall>j \<in> {a..<i}. p95_tail_latency (dev_model cfg j) \<le> lat) \<and>
   (i < dev_model_size cfg \<longrightarrow> lat < p95_tail_latency (dev_model cfg i))"
proof (induction "dev_model_size cfg - a" arbitrary: a)
  case (Suc k)
  then have a: "[a..<dev_model_size cfg] = a # [Suc a..<dev_model_size cfg]" by (simp add: upt_conv_Cons)
  show ?case
  proof (cases "lat < p95_tail_latency (dev_model cfg a)")
    case True
    then show ?thesis using Suc.prems Suc.hyps(2) unfolding a by auto
  next
    case False
    then have "i = devmodel_scan cfg lat [Suc a..<dev_model_size cfg]" using Suc.prems(2) unfolding a by simp
    from Suc.hyps(1) [OF _ _ this] Suc.hyps(2) have
      "Suc a \<le> i \<and> i \<le> dev_model_size cfg \<and> (\<forall>j \<in> {Suc a..<i}. p95_tail_latency (dev_model cfg j) \<le> lat) \<and>
       (i < dev_model_size cfg \<longrightarrow> lat < p95_tail_latency (dev_model cfg i))" by auto
    moreover from this have "{a..<i} = insert a {Suc a..<i}" by auto
    ultimately show ?thesis using False by (simp add: not_less)
  qed
qed auto

definition devmodel_ok :: "nvme_cfg \<Rightarrow> bool \<Rightarrow> bool" where
  "devmodel_ok cfg rdonly \<longleftrightarrow> 0 < dev_model_size cfg \<and>
     (\<forall>i < dev_model_size cfg. uint (rate_of rdonly (dev_model cfg i)) < 2 ^ 32 \<and>
        uint (p95_tail_latency (dev_model cfg i)) < 2 ^ 21) \<and>
     (\<forall>j < dev_model_size cfg. \<forall>i < j. p95_tail_latency (dev_model cfg i) < p95_tail_latency (dev_model cfg j) \<and>
        rate_of rdonly (dev_model cfg i) \<le> rate_of rdonly (dev_model cfg j))"

abbreviation dm_scan :: "nvme_cfg \<Rightarrow> u32 \<Rightarrow> nat" where
  "dm_scan cfg lat \<equiv> devmodel_scan cfg lat [0..<dev_model_size cfg]"

lemma devmodel_rate_mono:
  "devmodel_ok cfg rdonly \<Longrightarrow> i \<le> j \<Longrightarrow> j < dev_model_size cfg \<Longrightarrow>
   rate_of rdonly (dev_model cfg i) \<le> rate_of rdonly (dev_model cfg j)"
  by (cases "i = j") (auto simp: devmodel_ok_def)

text \<open>Within one segment of the table.\<close>

lemma ucast_u32_less: "(ucast (a :: u32) :: u64) < ucast b \<longleftrightarrow> a < b" "(ucast a :: u64) \<le> ucast b \<longleftrightarrow> a \<le> b"
  by (simp_all add: word_less_nat_alt word_le_nat_alt)

lemma token_limit_segment:
  assumes "devmodel_ok cfg rdonly" "0 < i" "i < dev_model_size cfg" "i = dm_scan cfg lat" "i = dm_scan cfg lat'" "lat \<le> lat'"
  obtains r r' where "find_token_limit_from_devmodel cfg rdonly lat = Some r"
    "find_token_limit_from_devmodel cfg rdonly lat' = Some r'" "r \<le> r'"
    "rate_of rdonly (dev_model cfg (i - 1)) \<le> r" "r' \<le> rate_of rdonly (dev_model cfg i)"
proof -
  let ?y0 = "rate_of rdonly (dev_model cfg (i - 1))" and ?y1 = "rate_of rdonly (dev_model cfg i)"
  let ?x0 = "ucast (p95_tail_latency (dev_model cfg (i - 1))) :: u64"
  let ?x1 = "ucast (p95_tail_latency (dev_model cfg i)) :: u64"
  have x: "p95_tail_latency (dev_model cfg (i - 1)) < p95_tail_latency (dev_model cfg i)"
    using assms(1-3) unfolding devmodel_ok_def by simp
  have y: "?y0 \<le> ?y1" using devmodel_rate_mono [OF assms(1), of "i - 1" i] assms(2,3) by simp
  have b: "uint ?y1 < 2 ^ 32" "uint ?x1 < 2 ^ 21"
    using assms(1,3) by (simp_all add: devmodel_ok_def uint_up_ucast is_up)
  have l: "p95_tail_latency (dev_model cfg (i - 1)) \<le> lat" "lat' < p95_tail_latency (dev_model cfg i)"
    using devmodel_scan_upt [of 0 cfg i lat] devmodel_scan_upt [of 0 cfg i lat'] assms by auto
  have x01: "?x0 < ?x1" using x by (simp add: ucast_u32_less)
  have "interpolate ?y0 ?y1 ?x0 ?x1 lat \<le> interpolate ?y0 ?y1 ?x0 ?x1 lat'"
    "?y0 \<le> interpolate ?y0 ?y1 ?x0 ?x1 lat" "interpolate ?y0 ?y1 ?x0 ?x1 lat' \<le> ?y1"
    using interpolate_mono [OF y b(1) x01 b(2), of lat lat'] l assms(6) by (simp_all add: ucast_u32_less)
  moreover have "find_token_limit_from_devmodel cfg rdonly lat = Some (interpolate ?y0 ?y1 ?x0 ?x1 lat)"
    "find_token_limit_from_devmodel cfg rdonly lat' = Some (interpolate ?y0 ?y1 ?x0 ?x1 lat')"
    using x01 assms(2,3) unfolding find_token_limit_from_devmodel_def assms(4,5) [symmetric] Let_def by auto
  ultimately show ?thesis using that by blast
qed

lemma token_limit_range:
  assumes ok: "devmodel_ok cfg rdonly" and k: "k = dm_scan cfg l"
  shows "\<exists>r. find_token_limit_from_devmodel cfg rdonly l = Some r \<and> rate_of rdonly (dev_model cfg (k - 1)) \<le> r \<and>
    r \<le> rate_of rdonly (dev_model cfg (min k (dev_model_size cfg - 1)))"
proof -
  let ?n = "dev_model_size cfg" and ?y = "\<lambda>i. rate_of rdonly (dev_model cfg i)"
  note sk = devmodel_scan_upt [OF le0 k]
  have n: "0 < ?n" using ok by (simp add: devmodel_ok_def)
  show ?thesis
  proof (cases "0 < k \<and> k < ?n")
    case True
    then obtain r where "find_token_limit_from_devmodel cfg rdonly l = Some r" "?y (k - 1) \<le> r" "r \<le> ?y k"
      using token_limit_segment [OF ok _ _ k k order.refl] by (metis option.inject)
    moreover have "min k (?n - 1) = k" using True by (intro min_absorb1) linarith
    ultimately show ?thesis by auto
  next
    case False
    then have "k = 0 \<or> k = ?n" using sk by auto
    then show ?thesis using n k by (auto simp: find_token_limit_from_devmodel_def Let_def min_def)
  qed
qed

lemma token_limit_total: "devmodel_ok cfg rdonly \<Longrightarrow> \<exists>r. find_token_limit_from_devmodel cfg rdonly l = Some r"
  using token_limit_range [OF _ refl] by blast

text \<open>
  C30. The token rate that the device model allows grows with the latency objective: on a table
  with increasing latencies and nondecreasing rates, a stricter objective never gets a higher rate,
  and every rate lies between the first and the last rate of the table.  The interpolation is the
  one of the C code, with its rounding of \<open>double\<close> and its wrap-around of \<open>unsigned long\<close>.
\<close>

theorem token_limit_mono:
  assumes "devmodel_ok cfg rdonly" "lat \<le> lat'"
  shows "\<exists>r r'. find_token_limit_from_devmodel cfg rdonly lat = Some r \<and>
     find_token_limit_from_devmodel cfg rdonly lat' = Some r' \<and> r \<le> r' \<and>
     rate_of rdonly (dev_model cfg 0) \<le> r \<and> r' \<le> rate_of rdonly (dev_model cfg (dev_model_size cfg - 1))"
proof -
  let ?n = "dev_model_size cfg" and ?y = "\<lambda>i. rate_of rdonly (dev_model cfg i)"
  define i j where ij: "i = dm_scan cfg lat" "j = dm_scan cfg lat'"
  note si = devmodel_scan_upt [OF le0 ij(1)] and sj = devmodel_scan_upt [OF le0 ij(2)]
  have n: "0 < ?n" using assms(1) by (simp add: devmodel_ok_def)
  have "i \<le> j"
  proof (rule ccontr)
    assume "\<not> i \<le> j"
    then have "p95_tail_latency (dev_model cfg j) \<le> lat" "lat' < p95_tail_latency (dev_model cfg j)"
      using si sj by auto
    then show False using assms(2) by simp
  qed
  note val = token_limit_range [OF assms(1)]
  obtain r r' where r: "find_token_limit_from_devmodel cfg rdonly lat = Some r" "?y (i - 1) \<le> r" "r \<le> ?y (min i (?n - 1))"
    and r': "find_token_limit_from_devmodel cfg rdonly lat' = Some r'" "?y (j - 1) \<le> r'" "r' \<le> ?y (min j (?n - 1))"
    using val [OF ij(1)] val [OF ij(2)] by blast
  have "i - 1 < ?n" using si n by linarith
  then have "?y 0 \<le> ?y (i - 1)" by (rule devmodel_rate_mono [OF assms(1) le0])
  moreover have "?y (min j (?n - 1)) \<le> ?y (?n - 1)"
    by (rule devmodel_rate_mono [OF assms(1)]) (use n in simp_all)
  ultimately have ends: "?y 0 \<le> r" "r' \<le> ?y (?n - 1)" using r(2) r'(3) by (auto intro: order.trans)
  have "r \<le> r'"
  proof (cases "i = j")
    case True
    show ?thesis
    proof (cases "0 < i \<and> i < ?n")
      case True
      then have "0 < i" "i < ?n" "i = dm_scan cfg lat'" using \<open>i = j\<close> ij(2) by simp_all
      then obtain q q' where "find_token_limit_from_devmodel cfg rdonly lat = Some q"
        "find_token_limit_from_devmodel cfg rdonly lat' = Some q'" "q \<le> q'"
        using token_limit_segment [OF assms(1) _ _ ij(1) _ assms(2)] by metis
      then show ?thesis using r(1) r'(1) by simp
    next
      case False
      then have "i = 0 \<or> i = ?n" using si by auto
      then show ?thesis using r(1) r'(1) ij \<open>i = j\<close> n
        by (auto simp: find_token_limit_from_devmodel_def Let_def)
    qed
  next
    case False
    then have "i \<le> j - 1" "j - 1 < ?n" "min i (?n - 1) = i" using \<open>i \<le> j\<close> sj n by auto
    then show ?thesis using devmodel_rate_mono [OF assms(1), of i "j - 1"] r(3) r'(2) by (auto intro: order.trans)
  qed
  then show ?thesis using r(1) r'(1) ends by blast
qed

lemma devmodel_ex_ok: "devmodel_ok cfg_ex False" "devmodel_ok cfg_ex True"
  by (auto simp: devmodel_ok_def cfg_ex_def rate_of_def less_2_cases_iff)

lemma token_limit_mono_witness:
  "\<exists>r r'. find_token_limit_from_devmodel cfg_ex False 600 = Some r \<and>
     find_token_limit_from_devmodel cfg_ex False 800 = Some r' \<and> r \<le> r' \<and> 100000 \<le> r \<and> r' \<le> 300000"
  using token_limit_mono [OF devmodel_ex_ok(1), of 600 800] by (simp add: cfg_ex_def rate_of_def)

section \<open>Costs\<close>

lemma int_of_u64_small: "uint x < 2 ^ 31 \<Longrightarrow> int_of_u64 x = uint x"
proof -
  assume a: "uint x < 2 ^ 31"
  have "int_of_u64 (word_of_int (uint x)) = uint x" by (rule int_of_u64_of_long) (use a order.trans [of "- 2147483648" 0 "uint x"] in \<open>simp add: int_ok_def\<close>)
  then show ?thesis by simp
qed

lemma page_count:
  assumes "n \<noteq> 0" "uint n < 2 ^ 42"
  shows "uint ((n + 4096 - 1) div 4096 :: u64) = (uint n + 4095) div 4096"
proof -
  have "n + 4096 - 1 = n + 4095" by simp
  moreover have "uint (n + 4095) = uint n + 4095" using assms by (simp add: uint_word_ariths)
  ultimately show ?thesis by (simp only: uint_div) simp
qed

text \<open>
  C32. The cost of a request is the cost of its kind times the number of 4 KB pages it covers,
  rounded up, as long as the request is below 4 TB and this product fits an \<open>int\<close>: only then are the
  conversion of the page count to \<open>int\<close> and the multiplication of two \<open>int\<close>s exact.
\<close>

theorem nvme_compute_req_cost_spec:
  assumes "0 < uint req_len" "uint req_len < 2 ^ 42"
    "int_ok (NVME_READ_COST cfg * ((uint req_len + 4095) div 4096))"
    "int_ok (NVME_WRITE_COST cfg * ((uint req_len + 4095) div 4096))"
  shows "nvme_compute_req_cost cfg NVME_CMD_READ req_len = NVME_READ_COST cfg * ((uint req_len + 4095) div 4096) \<and>
    nvme_compute_req_cost cfg NVME_CMD_WRITE req_len = NVME_WRITE_COST cfg * ((uint req_len + 4095) div 4096)"
proof -
  have z: "req_len \<noteq> 0" using assms(1) by auto
  let ?k = "(uint req_len + 4095) div 4096"
  have f: "(if req_len > 4096 then int_of_u64 ((req_len + 4096 - 1) div 4096) else 1) = ?k"
  proof (cases "req_len > 4096")
    case True
    have "?k < 2 ^ 31" using assms(2) by simp
    then show ?thesis using True page_count [OF z assms(2)] int_of_u64_small [of "(req_len + 4096 - 1) div 4096"] by simp
  next
    case False
    then have "uint req_len \<le> 4096" by (simp add: word_less_def)
    then have "?k \<le> (4096 + 4095) div 4096" "(1 + 4095) div 4096 \<le> ?k"
      using assms(1) by (intro zdiv_mono1; simp)+
    then have "?k = 1" by simp
    then show ?thesis using False by simp
  qed
  show "nvme_compute_req_cost cfg NVME_CMD_READ req_len = NVME_READ_COST cfg * ?k \<and>
    nvme_compute_req_cost cfg NVME_CMD_WRITE req_len = NVME_WRITE_COST cfg * ?k"
    unfolding nvme_compute_req_cost_def Let_def f int_mul_exact [OF assms(3)] int_mul_exact [OF assms(4)]
    using z by (simp_all add: NVME_CMD_READ_def NVME_CMD_WRITE_def)
qed

lemma nvme_compute_req_cost_spec_witness:
  "nvme_compute_req_cost cfg_ex NVME_CMD_READ 10000 = 3 \<and> nvme_compute_req_cost cfg_ex NVME_CMD_WRITE 10000 = 60"
  using nvme_compute_req_cost_spec [of 10000 cfg_ex] by (simp add: cfg_ex_def int_ok_def)

text \<open>
  With a write cost of 20 a write of 2 TB has a negative cost: the product is beyond the range of
  \<open>int\<close>.
\<close>

lemma req_cost_overflow:
  "NVME_WRITE_COST cfg = 20 \<Longrightarrow> nvme_compute_req_cost cfg NVME_CMD_WRITE (2 ^ 41) = - (2 ^ 31)"
  by (simp add: nvme_compute_req_cost_def int_mul_def int_of_u64_def Let_def NVME_CMD_READ_def NVME_CMD_WRITE_def)

lemma slo_cost:
  "int_ok (NVME_READ_COST cfg) \<Longrightarrow> nvme_compute_req_cost cfg NVME_CMD_READ SLO_REQ_SIZE = NVME_READ_COST cfg"
  "int_ok (NVME_WRITE_COST cfg) \<Longrightarrow> nvme_compute_req_cost cfg NVME_CMD_WRITE SLO_REQ_SIZE = NVME_WRITE_COST cfg"
  using int_mul_exact [of _ 1] by (simp_all add: nvme_compute_req_cost_def SLO_REQ_SIZE_def NVME_CMD_READ_def NVME_CMD_WRITE_def)

text \<open>The expression of \<open>scaled_IOPS\<close> as a function of the integers.\<close>

definition siops :: "int \<Rightarrow> int \<Rightarrow> int \<Rightarrow> int \<Rightarrow> rat" where
  "siops rc wc iops rw =
     dadd (dadd (dmul (dmul (d_of_int iops) (ddiv (d_of_int rw) (d_of_int 100))) (d_of_int rc))
                (dmul (dmul (d_of_int iops) (dsub 1 (ddiv (d_of_int rw) (d_of_int 100)))) (d_of_int wc))) (1 / 2)"

lemma scaled_IOPS_siops:
  "int_ok (NVME_READ_COST cfg) \<Longrightarrow> int_ok (NVME_WRITE_COST cfg) \<Longrightarrow>
   scaled_IOPS cfg iops rw = word_of_int (d_trunc (siops (NVME_READ_COST cfg) (NVME_WRITE_COST cfg) (uint iops) rw))"
  by (simp add: scaled_IOPS_def siops_def slo_cost Let_def)

lemma rw_ratio_bounds:
  assumes "0 \<le> rw" "rw \<le> 100"
  shows "0 \<le> ddiv (d_of_int rw) (d_of_int 100)" "ddiv (d_of_int rw) (d_of_int 100) \<le> 1"
    "0 \<le> dsub 1 (ddiv (d_of_int rw) (d_of_int 100))" "dsub 1 (ddiv (d_of_int rw) (d_of_int 100)) \<le> 1"
proof -
  have e: "ddiv (d_of_int rw) (d_of_int 100) = rnd (of_int rw / 100)" using assms by (simp add: ddiv_def)
  have one: "rnd 1 = 1" using rnd_of_int [of 1] by simp
  show r: "0 \<le> ddiv (d_of_int rw) (d_of_int 100)" unfolding e using assms by (intro rnd_nonneg) simp
  have "rnd (of_int rw / 100) \<le> rnd 1" using assms by (intro rnd_mono) simp
  then show r1: "ddiv (d_of_int rw) (d_of_int 100) \<le> 1" unfolding e one .
  show "0 \<le> dsub 1 (ddiv (d_of_int rw) (d_of_int 100))" unfolding dsub_def using r1 by (intro rnd_nonneg) simp
  have "rnd (1 - ddiv (d_of_int rw) (d_of_int 100)) \<le> rnd 1" using r by (intro rnd_mono) simp
  then show "dsub 1 (ddiv (d_of_int rw) (d_of_int 100)) \<le> 1" unfolding dsub_def one .
qed

lemma dmul_mono: "a \<le> b \<Longrightarrow> 0 \<le> c \<Longrightarrow> dmul a c \<le> dmul b c"
  unfolding dmul_def by (intro rnd_mono mult_right_mono)

lemma dmul_nonneg: "0 \<le> a \<Longrightarrow> 0 \<le> b \<Longrightarrow> 0 \<le> dmul a b"
  unfolding dmul_def by (intro rnd_nonneg mult_nonneg_nonneg)

lemma dadd_mono: "a \<le> b \<Longrightarrow> c \<le> d \<Longrightarrow> dadd a c \<le> dadd b d"
  unfolding dadd_def by (intro rnd_mono add_mono)

lemma siops_mono:
  assumes "0 \<le> rw" "rw \<le> 100" "0 \<le> rc" "0 \<le> wc" "iops \<le> iops'"
  shows "siops rc wc iops rw \<le> siops rc wc iops' rw"
proof -
  have c: "0 \<le> d_of_int rc" "0 \<le> d_of_int wc" using assms by (simp_all add: d_of_int_def rnd_nonneg)
  show ?thesis unfolding siops_def using c assms(5) rw_ratio_bounds [OF assms(1,2)]
    by (intro dadd_mono dmul_mono order.refl d_of_int_mono) simp_all
qed

lemma siops_bounds:
  assumes "0 \<le> rw" "rw \<le> 100" "0 \<le> rc" "0 \<le> wc" "0 \<le> iops" "iops < 2 ^ 32" "rc < 2 ^ 15" "wc < 2 ^ 15"
  shows "0 \<le> siops rc wc iops rw" "siops rc wc iops rw \<le> 2 ^ 48 + 1"
proof -
  let ?r = "ddiv (d_of_int rw) (d_of_int 100)"
  have c: "0 \<le> d_of_int rc" "0 \<le> d_of_int wc" "0 \<le> d_of_int iops" using assms by (simp_all add: d_of_int_def rnd_nonneg)
  note b = rw_ratio_bounds [OF assms(1,2)]
  show "0 \<le> siops rc wc iops rw" unfolding siops_def dadd_def using b c
    by (intro rnd_nonneg add_nonneg_nonneg dmul_nonneg) simp_all
  have d: "d_of_int rc = of_int rc" "d_of_int wc = of_int wc" "d_of_int iops = of_int iops" using assms by simp_all
  have m: "dmul (dmul (d_of_int iops) x) (d_of_int k) \<le> 2 ^ 47"
    if "0 \<le> x" "x \<le> 1" "0 \<le> k" "k < 2 ^ 15" for x k
  proof -
    have "(of_int iops :: rat) * x \<le> of_int (2 ^ 32)" using that assms(5,6) mult_mono [of "of_int iops" "of_int (2 ^ 32)" x 1] by simp
    then have "dmul (d_of_int iops) x \<le> rnd (of_int (2 ^ 32))" unfolding dmul_def d by (rule rnd_mono)
    then have 1: "dmul (d_of_int iops) x \<le> 2 ^ 32" using rnd_of_int [of "2 ^ 32"] by simp
    have k: "d_of_int k = of_int k" using that by simp
    have "dmul (d_of_int iops) x * d_of_int k \<le> 2 ^ 32 * of_int (2 ^ 15)"
      using 1 that dmul_nonneg [OF c(3) that(1)] unfolding k by (intro mult_mono) simp_all
    then have "dmul (d_of_int iops) x * d_of_int k \<le> of_int (2 ^ 47)" by simp
    then have "dmul (dmul (d_of_int iops) x) (d_of_int k) \<le> rnd (of_int (2 ^ 47))" unfolding dmul_def [of "dmul _ _"] by (rule rnd_mono)
    then show ?thesis using rnd_of_int [of "2 ^ 47"] by simp
  qed
  have "dadd (dmul (dmul (d_of_int iops) ?r) (d_of_int rc)) (dmul (dmul (d_of_int iops) (dsub 1 ?r)) (d_of_int wc))
      \<le> dadd (2 ^ 47) (2 ^ 47)"
    using m [OF b(1,2) assms(3,7)] m [OF b(3,4) assms(4,8)] by (rule dadd_mono)
  also have "\<dots> = 2 ^ 48" using rnd_of_int [of "2 ^ 48"] by (simp add: dadd_def)
  finally have "siops rc wc iops rw \<le> dadd (2 ^ 48) 1" unfolding siops_def by (rule dadd_mono) simp
  also have "\<dots> = 2 ^ 48 + 1" using rnd_of_int [of "2 ^ 48 + 1"] by (simp add: dadd_def)
  finally show "siops rc wc iops rw \<le> 2 ^ 48 + 1" .
qed

lemma round_half_exact: "0 \<le> n \<Longrightarrow> n < 2 ^ 48 \<Longrightarrow> d_trunc (dadd (of_int n) (1 / 2)) = n"
proof -
  assume n: "0 \<le> n" "n < 2 ^ 48"
  have "dadd (of_int n) (1 / 2) = rnd (of_int (2 * n + 1) / 2)" by (simp add: dadd_def add_divide_distrib)
  also have "\<dots> = of_int (2 * n + 1) / 2" using n by (intro rnd_half) simp
  finally have "dadd (of_int n) (1 / 2) = of_int n + 1 / 2" by (simp add: add_divide_distrib)
  moreover have "\<lfloor>of_int n + (1 / 2 :: rat)\<rfloor> = n" by (rule floor_unique) simp_all
  ultimately show ?thesis using n by (simp add: d_trunc_def)
qed

lemma rnd_mult_exact:
  "0 \<le> c \<Longrightarrow> c < 2 ^ 15 \<Longrightarrow> 0 \<le> n \<Longrightarrow> n < 2 ^ 32 \<Longrightarrow> rnd (of_int n * of_int c) = of_int (n * c)"
proof -
  assume c: "0 \<le> c" "c < 2 ^ 15" "0 \<le> n" "n < 2 ^ 32"
  have "n * c \<le> (2 ^ 32 - 1) * (2 ^ 15 - 1)" using c by (intro mult_mono) simp_all
  moreover have "0 \<le> n * c" using c by simp
  ultimately show ?thesis using rnd_of_int [of "n * c"] by simp
qed

lemma siops_100:
  "0 \<le> rc \<Longrightarrow> rc < 2 ^ 15 \<Longrightarrow> 0 \<le> n \<Longrightarrow> n < 2 ^ 32 \<Longrightarrow> siops rc wc n 100 = dadd (of_int (n * rc)) (1 / 2)"
  using rnd_mult_exact [of rc n] rnd_mult_exact [of 1 n] rnd_of_int [of 1]
  by (simp add: siops_def ddiv_def dsub_def dmul_def dadd_def [of _ 0])

lemma siops_0:
  "0 \<le> wc \<Longrightarrow> wc < 2 ^ 15 \<Longrightarrow> 0 \<le> n \<Longrightarrow> n < 2 ^ 32 \<Longrightarrow> siops rc wc n 0 = dadd (of_int (n * wc)) (1 / 2)"
  using rnd_mult_exact [of wc n] rnd_mult_exact [of 1 n] rnd_of_int [of 1]
  by (simp add: siops_def ddiv_def dsub_def dmul_def dadd_def [of 0])

lemma iops_cost_bound:
  "0 \<le> c \<Longrightarrow> c < 2 ^ 15 \<Longrightarrow> uint iops < 2 ^ 32 \<Longrightarrow> 0 \<le> uint iops * c \<and> uint iops * c < 2 ^ 48"
proof -
  assume c: "0 \<le> c" "c < 2 ^ 15" and i: "uint iops < 2 ^ 32"
  have "uint iops * c \<le> (2 ^ 32 - 1) * (2 ^ 15 - 1)" using i c by (intro mult_mono) simp_all
  then show ?thesis using c by simp
qed

text \<open>
  C31. The token reservation that \<open>scaled_IOPS\<close> computes in floating point is exact for a read-only
  and for a write-only objective (the objective times the cost of the request), and in between it
  grows with the objective.
\<close>

theorem scaled_IOPS_spec:
  assumes "0 \<le> NVME_READ_COST cfg" "NVME_READ_COST cfg < 2 ^ 15" "0 \<le> NVME_WRITE_COST cfg" "NVME_WRITE_COST cfg < 2 ^ 15"
    "uint iops' < 2 ^ 32" "iops \<le> iops'" "0 \<le> rw" "rw \<le> 100"
  shows "uint (scaled_IOPS cfg iops 100) = uint iops * NVME_READ_COST cfg \<and>
    uint (scaled_IOPS cfg iops 0) = uint iops * NVME_WRITE_COST cfg \<and>
    scaled_IOPS cfg iops rw \<le> scaled_IOPS cfg iops' rw"
proof -
  have c: "int_ok (NVME_READ_COST cfg)" "int_ok (NVME_WRITE_COST cfg)" using assms(1-4) by (simp_all add: int_ok_def)
  have le: "uint iops \<le> uint iops'" using assms(6) by (simp add: word_le_def)
  then have i: "uint iops < 2 ^ 32" using assms(5) by linarith
  note exact = round_half_exact and prod = iops_cost_bound [OF _ _ i]
  have r: "uint (scaled_IOPS cfg iops 100) = uint iops * NVME_READ_COST cfg"
    using exact [of "uint iops * NVME_READ_COST cfg"] prod [OF assms(1,2)] i assms(1,2)
    by (simp add: scaled_IOPS_siops [OF c] siops_100 uint_word_of_int del: of_int_mult)
  have w: "uint (scaled_IOPS cfg iops 0) = uint iops * NVME_WRITE_COST cfg"
    using exact [of "uint iops * NVME_WRITE_COST cfg"] prod [OF assms(3,4)] i assms(3,4)
    by (simp add: scaled_IOPS_siops [OF c] siops_0 uint_word_of_int del: of_int_mult)
  let ?s = "\<lambda>x. siops (NVME_READ_COST cfg) (NVME_WRITE_COST cfg) (uint x) rw"
  have b: "0 \<le> d_trunc (?s x) \<and> d_trunc (?s x) < 2 ^ 64" if "uint x < 2 ^ 32" for x :: u64
    using siops_bounds [OF assms(7,8,1,3) _ that assms(2,4)] d_trunc_le [of "?s x" "2 ^ 48 + 1"] d_trunc_nonneg [of "?s x"]
    by simp
  have "d_trunc (?s iops) \<le> d_trunc (?s iops')" by (intro d_trunc_mono siops_mono assms le)
  then have "scaled_IOPS cfg iops rw \<le> scaled_IOPS cfg iops' rw"
    using b [OF i] b [OF assms(5)] by (simp add: scaled_IOPS_siops [OF c] word_le_def uint_word_of_int)
  then show ?thesis using r w by blast
qed

lemma scaled_IOPS_spec_witness: "uint (scaled_IOPS cfg_ex 1000 0) = 20000"
  using scaled_IOPS_spec [of cfg_ex 1000 1000 0] by (simp add: cfg_ex_def)

section \<open>Admission control\<close>

text \<open>Redistributing the tokens changes the rates derived from the totals and nothing else.\<close>

definition fgs_same :: "(int \<Rightarrow> nvme_flow_group) \<Rightarrow> (int \<Rightarrow> nvme_flow_group) \<Rightarrow> bool" where
  "fgs_same f g \<longleftrightarrow> (\<forall>i. g i = (f i)\<lparr>scaled_IOPuS_limit := scaled_IOPuS_limit (g i)\<rparr>)"

lemma fgs_same_refl: "fgs_same f f"
  by (simp add: fgs_same_def)

lemma fgs_same_trans: "fgs_same f g \<Longrightarrow> fgs_same g h \<Longrightarrow> fgs_same f h"
  unfolding fgs_same_def by (metis (no_types, lifting) nvme_flow_group.surjective nvme_flow_group.update_convs(7))

lemma fgs_same_upd: "fgs_same f (f(i := (f i)\<lparr>scaled_IOPuS_limit := x\<rparr>))"
  by (simp add: fgs_same_def)

lemma fgs_same_sel:
  assumes "fgs_same f g"
  shows "flow_group_id (g i) = flow_group_id (f i)" "fg_cookie (g i) = fg_cookie (f i)"
    "latency_us_SLO (g i) = latency_us_SLO (f i)" "IOPS_SLO (g i) = IOPS_SLO (f i)"
    "rw_ratio_SLO (g i) = rw_ratio_SLO (f i)" "scaled_IOPS_limit (g i) = scaled_IOPS_limit (f i)"
    "latency_critical_flag (g i) = latency_critical_flag (f i)" "nvme_swq (g i) = nvme_swq (f i)"
    "fg_tid (g i) = fg_tid (f i)" "conn_ref_count (g i) = conn_ref_count (f i)"
proof -
  have "g i = (f i)\<lparr>scaled_IOPuS_limit := scaled_IOPuS_limit (g i)\<rparr>" using assms by (simp add: fgs_same_def)
  then show "flow_group_id (g i) = flow_group_id (f i)" "fg_cookie (g i) = fg_cookie (f i)"
    "latency_us_SLO (g i) = latency_us_SLO (f i)" "IOPS_SLO (g i) = IOPS_SLO (f i)"
    "rw_ratio_SLO (g i) = rw_ratio_SLO (f i)" "scaled_IOPS_limit (g i) = scaled_IOPS_limit (f i)"
    "latency_critical_flag (g i) = latency_critical_flag (f i)" "nvme_swq (g i) = nvme_swq (f i)"
    "fg_tid (g i) = fg_tid (f i)" "conn_ref_count (g i) = conn_ref_count (f i)"
    by (metis nvme_flow_group.select_convs nvme_flow_group.surjective nvme_flow_group.update_convs(7))+
qed

lemma readjust_loop_frame:
  "\<exists>f. readjust_loop is j s = s\<lparr>nvme_fgs := f\<rparr> \<and> fgs_same (nvme_fgs s) f"
proof (induction "is" arbitrary: j s)
  case Nil
  show ?case using fgs_same_refl by (intro exI [of _ "nvme_fgs s"]) simp
next
  case (Cons i "is")
  show ?case
  proof (cases "bitmap_test (nvme_fgs_bitmap s) i \<and> latency_critical_flag (nvme_fgs s (int i))")
    case False
    then show ?thesis using Cons.IH [of j s] by auto
  next
    case True
    define g where "g = (nvme_fgs s)(int i := (nvme_fgs s (int i))\<lparr>scaled_IOPuS_limit :=
                    ddiv (d_of_int (uint (scaled_IOPS_limit (nvme_fgs s (int i)) + global_lc_boost_no_BE s)))
                      (d_of_int 1000000)\<rparr>)"
    have g: "fgs_same (nvme_fgs s) g" unfolding g_def by (rule fgs_same_upd)
    obtain f where f: "readjust_loop is (j + 1) (s\<lparr>nvme_fgs := g\<rparr>) = s\<lparr>nvme_fgs := f\<rparr>" "fgs_same g f"
      using Cons.IH [of "j + 1" "s\<lparr>nvme_fgs := g\<rparr>"] by auto
    have "readjust_loop (i # is) j s = (if word_of_int (j + 1) = global_num_lc_tenants s then s\<lparr>nvme_fgs := g\<rparr>
        else readjust_loop is (j + 1) (s\<lparr>nvme_fgs := g\<rparr>))"
      using True by (simp add: Let_def g_def)
    then show ?thesis using f g fgs_same_trans [OF g f(2)] by (auto split: if_splits)
  qed
qed

lemma redistribute_frame:
  "\<exists>f b g. redistribute s = s\<lparr>nvme_fgs := f, global_be_token_rate_per_tenant := b, global_lc_boost_no_BE := g\<rparr> \<and>
     fgs_same (nvme_fgs s) f \<and>
     b = (if global_num_best_effort_tenants s \<noteq> 0
          then ucast ((global_token_rate s - global_LC_sum_token_rate s) div global_num_best_effort_tenants s) else 0)"
proof -
  let ?b = "if global_num_best_effort_tenants s \<noteq> 0
          then ucast ((global_token_rate s - global_LC_sum_token_rate s) div global_num_best_effort_tenants s) else (0 :: u32)"
  define boost where "boost = (if global_num_best_effort_tenants s \<noteq> 0 then 0
     else if global_num_lc_tenants s \<noteq> 0 then (global_token_rate s - global_LC_sum_token_rate s) div global_num_lc_tenants s else 0)"
  define s1 where "s1 = s\<lparr>global_be_token_rate_per_tenant := ?b\<rparr>"
  have r: "redistribute s = (if boost \<noteq> global_lc_boost_no_BE s
      then readjust_lc_tenant_token_limits (s1\<lparr>global_lc_boost_no_BE := boost\<rparr>) else s1)"
    by (simp add: redistribute_def Let_def boost_def s1_def atomic_write_def)
  obtain f where f: "readjust_lc_tenant_token_limits (s1\<lparr>global_lc_boost_no_BE := boost\<rparr>) =
      s1\<lparr>global_lc_boost_no_BE := boost, nvme_fgs := f\<rparr>" "fgs_same (nvme_fgs s) f"
    using readjust_loop_frame [of "[0..<MAX_NVME_FLOW_GROUPS]" 0 "s1\<lparr>global_lc_boost_no_BE := boost\<rparr>"]
    by (auto simp: readjust_lc_tenant_token_limits_def s1_def)
  show ?thesis
  proof (cases "boost \<noteq> global_lc_boost_no_BE s")
    case True
    then show ?thesis using r f
      by (intro exI [of _ f] exI [of _ ?b] exI [of _ boost]) (simp add: s1_def)
  next
    case False
    then show ?thesis using r fgs_same_refl
      by (intro exI [of _ "nvme_fgs s"] exI [of _ ?b] exI [of _ "global_lc_boost_no_BE s"]) (simp add: s1_def)
  qed
qed

lemma redistribute_sel [simp]:
  shows "ioq_bitmap (redistribute s) = ioq_bitmap s"
    "nvme_fgs_bitmap (redistribute s) = nvme_fgs_bitmap s"
    "global_token_rate (redistribute s) = global_token_rate s"
    "global_leftover_tokens (redistribute s) = global_leftover_tokens s"
    "global_LC_sum_token_rate (redistribute s) = global_LC_sum_token_rate s"
    "global_num_best_effort_tenants (redistribute s) = global_num_best_effort_tenants s"
    "global_num_lc_tenants (redistribute s) = global_num_lc_tenants s"
    "scheduled_bit_vector (redistribute s) = scheduled_bit_vector s"
    "TOKEN_DEFICIT_LIMIT (redistribute s) = TOKEN_DEFICIT_LIMIT s"
    "global_readonly_flag (redistribute s) = global_readonly_flag s"
    "open_ev_ptr (redistribute s) = open_ev_ptr s"
    "ctx_mempool (redistribute s) = ctx_mempool s"
    "nvme_swq_mempool (redistribute s) = nvme_swq_mempool s"
    "tenant_swq (redistribute s) = tenant_swq s"
    "num_tenants (redistribute s) = num_tenants s"
    "num_best_effort_tenants (redistribute s) = num_best_effort_tenants s"
    "roundrobin_start (redistribute s) = roundrobin_start s"
    "usys_arr (redistribute s) = usys_arr s"
    "swqs (redistribute s) = swqs s"
    "ctxs (redistribute s) = ctxs s"
    "mp (redistribute s) = mp s"
    "sq (redistribute s) = sq s"
proof -
  obtain f b g where "redistribute s = s\<lparr>nvme_fgs := f, global_be_token_rate_per_tenant := b, global_lc_boost_no_BE := g\<rparr>"
    using redistribute_frame [of s] by blast
  then show "ioq_bitmap (redistribute s) = ioq_bitmap s"
    "nvme_fgs_bitmap (redistribute s) = nvme_fgs_bitmap s"
    "global_token_rate (redistribute s) = global_token_rate s"
    "global_leftover_tokens (redistribute s) = global_leftover_tokens s"
    "global_LC_sum_token_rate (redistribute s) = global_LC_sum_token_rate s"
    "global_num_best_effort_tenants (redistribute s) = global_num_best_effort_tenants s"
    "global_num_lc_tenants (redistribute s) = global_num_lc_tenants s"
    "scheduled_bit_vector (redistribute s) = scheduled_bit_vector s"
    "TOKEN_DEFICIT_LIMIT (redistribute s) = TOKEN_DEFICIT_LIMIT s"
    "global_readonly_flag (redistribute s) = global_readonly_flag s"
    "open_ev_ptr (redistribute s) = open_ev_ptr s"
    "ctx_mempool (redistribute s) = ctx_mempool s"
    "nvme_swq_mempool (redistribute s) = nvme_swq_mempool s"
    "tenant_swq (redistribute s) = tenant_swq s"
    "num_tenants (redistribute s) = num_tenants s"
    "num_best_effort_tenants (redistribute s) = num_best_effort_tenants s"
    "roundrobin_start (redistribute s) = roundrobin_start s"
    "usys_arr (redistribute s) = usys_arr s"
    "swqs (redistribute s) = swqs s"
    "ctxs (redistribute s) = ctxs s"
    "mp (redistribute s) = mp s"
    "sq (redistribute s) = sq s"
    by simp_all
qed

lemma redistribute_fgs: "fgs_same (nvme_fgs s) (nvme_fgs (redistribute s))"
  using redistribute_frame [of s] by auto

lemma redistribute_be_rate:
  "global_be_token_rate_per_tenant (redistribute s) =
     (if global_num_best_effort_tenants s \<noteq> 0
      then ucast ((global_token_rate s - global_LC_sum_token_rate s) div global_num_best_effort_tenants s) else 0)"
  using redistribute_frame [of s] by auto

text \<open>The reservations of the latency-critical tenants fit in the token rate of the device.\<close>

definition reservation_inv :: "'w nvme_state \<Rightarrow> bool" where
  "reservation_inv s \<longleftrightarrow> global_LC_sum_token_rate s \<le> global_token_rate s"

lemma ucast_div_le: "unat (ucast ((a :: u64) div b) :: u32) * unat b \<le> unat a"
proof -
  have "unat (ucast (a div b) :: u32) \<le> unat (a div b)"
    unfolding unsigned_ucast_eq by (rule take_bit_nat_less_eq_self)
  then have "unat (ucast (a div b) :: u32) * unat b \<le> unat a div unat b * unat b"
    by (simp add: unat_div)
  then show ?thesis using div_times_less_eq_dividend [of "unat a" "unat b"] by (rule order.trans)
qed

lemma be_share:
  assumes "reservation_inv s"
  shows "unat (global_LC_sum_token_rate s) + unat (global_num_best_effort_tenants s) *
      unat (global_be_token_rate_per_tenant (redistribute s)) \<le> unat (global_token_rate s)"
proof -
  let ?a = "global_token_rate s - global_LC_sum_token_rate s"
  have "unat (global_LC_sum_token_rate s) + unat ?a = unat (global_token_rate s)"
    using assms by (simp add: reservation_inv_def unat_sub word_le_nat_alt)
  then show ?thesis using ucast_div_le [of ?a "global_num_best_effort_tenants s"]
    by (simp add: redistribute_be_rate mult.commute)
qed

text \<open>
  C3. Admission control.  A latency-critical tenant is refused with \<open>-RET_CANTMEETSLO\<close> exactly
  when its reservation on top of the existing ones exceeds the rate the device model allows for the
  strictest objective; a refusal leaves the totals and the tenants as they were.  When a tenant is
  admitted the reservations still fit in the token rate, and the rates that the best-effort tenants
  get together fit in what remains.
\<close>

theorem admission_control:
  assumes "recalculate_weights_add cfg h s = Some (ret, s')" "reservation_inv s"
    "lookup_device_token_rate cfg (global_readonly_flag s \<and> \<not> rw_ratio_SLO (nvme_fgs s h) < 100)
       (latency_us_SLO (nvme_fgs s h)) = Some rate"
  shows "if latency_critical_flag (nvme_fgs s h) \<and>
        min rate (global_token_rate s) < global_LC_sum_token_rate s + scaled_IOPS_limit (nvme_fgs s h)
     then ret = - RET_CANTMEETSLO \<and> s' = s\<lparr>global_readonly_flag := global_readonly_flag s'\<rparr>
     else ret = 1 \<and> reservation_inv s' \<and>
       unat (global_LC_sum_token_rate s') +
         unat (global_num_best_effort_tenants s') * unat (global_be_token_rate_per_tenant s') \<le> unat (global_token_rate s') \<and>
       (if latency_critical_flag (nvme_fgs s h)
        then global_LC_sum_token_rate s' = global_LC_sum_token_rate s + scaled_IOPS_limit (nvme_fgs s h) \<and>
          global_token_rate s' = min rate (global_token_rate s) \<and>
          global_num_lc_tenants s' = global_num_lc_tenants s + 1
        else global_LC_sum_token_rate s' = global_LC_sum_token_rate s \<and> global_token_rate s' = global_token_rate s \<and>
          global_num_best_effort_tenants s' = global_num_best_effort_tenants s + 1)"
proof -
  note share = be_share
  show ?thesis
  proof (cases "latency_critical_flag (nvme_fgs s h)")
    case False
    define s1 where "s1 = s\<lparr>global_num_best_effort_tenants := global_num_best_effort_tenants s + 1, global_readonly_flag := False\<rparr>"
    have "ret = 1" "s' = redistribute s1" using assms(1) False by (auto simp: recalculate_weights_add_def s1_def Let_def)
    moreover have "reservation_inv s1" using assms(2) by (simp add: reservation_inv_def s1_def)
    ultimately show ?thesis using share [of s1] False by (simp add: reservation_inv_def s1_def)
  next
    case True
    define s1 where "s1 = (if rw_ratio_SLO (nvme_fgs s h) < 100 then s\<lparr>global_readonly_flag := False\<rparr> else s)"
    define sum where "sum = global_LC_sum_token_rate s + scaled_IOPS_limit (nvme_fgs s h)"
    have mn: "(if global_token_rate s < rate then global_token_rate s else rate) = min rate (global_token_rate s)"
      by (auto simp: min_def)
    have res: "(if min rate (global_token_rate s) < sum then Some (- RET_CANTMEETSLO, s1)
        else Some (1, redistribute (s1\<lparr>global_token_rate := min rate (global_token_rate s),
                 global_LC_sum_token_rate := sum, global_num_lc_tenants := global_num_lc_tenants s1 + 1\<rparr>))) = Some (ret, s')"
      using assms(1,3) True
      by (cases "rw_ratio_SLO (nvme_fgs s h) < 100")
        (simp_all add: recalculate_weights_add_def Let_def s1_def sum_def mn cong: if_cong)
    show ?thesis
    proof (cases "min rate (global_token_rate s) < sum")
      case refuse: True
      then show ?thesis using res True by (auto simp: sum_def [symmetric] s1_def)
    next
      case admit: False
      define s2 where "s2 = s1\<lparr>global_token_rate := min rate (global_token_rate s),
                 global_LC_sum_token_rate := sum, global_num_lc_tenants := global_num_lc_tenants s1 + 1\<rparr>"
      have "ret = 1" "s' = redistribute s2" using res admit by (simp_all add: s2_def)
      moreover have "reservation_inv s2" using admit by (simp add: reservation_inv_def s2_def not_less)
      ultimately show ?thesis using share [of s2] True admit
        by (simp add: reservation_inv_def s2_def sum_def [symmetric]) (simp add: s1_def)
    qed
  qed
qed

lemma recalculate_weights_add_total:
  assumes "\<And>b l. \<exists>r. lookup_device_token_rate cfg b l = Some r"
  shows "\<exists>ret s'. recalculate_weights_add cfg h s = Some (ret, s')"
proof -
  obtain r where "lookup_device_token_rate cfg
      (global_readonly_flag (if rw_ratio_SLO (nvme_fgs s h) < 100 then s\<lparr>global_readonly_flag := False\<rparr> else s))
      (latency_us_SLO (nvme_fgs s h)) = Some r" using assms by blast
  then show ?thesis by (auto simp: recalculate_weights_add_def Let_def)
qed

lemma lookup_total: "devmodel_ok cfg True \<Longrightarrow> devmodel_ok cfg False \<Longrightarrow> \<exists>r. lookup_device_token_rate cfg b l = Some r"
  using token_limit_total [of cfg b l] by (cases b) (auto simp: lookup_device_token_rate_def)

lemma admission_control_witness:
  "\<exists>ret s'. recalculate_weights_add cfg_ex 1
     (nvme_state_ex\<lparr>nvme_fgs := (\<lambda>_. fg0)(1 := fg0\<lparr>latency_us_SLO := 2000, scaled_IOPS_limit := 5, latency_critical_flag := True\<rparr>)\<rparr>)
       = Some (ret, s') \<and> ret = 1 \<and> reservation_inv s'"
proof -
  let ?s = "nvme_state_ex\<lparr>nvme_fgs := (\<lambda>_. fg0)(1 := fg0\<lparr>latency_us_SLO := 2000, scaled_IOPS_limit := 5, latency_critical_flag := True\<rparr>)\<rparr>"
  have l: "lookup_device_token_rate cfg_ex b 2000 = Some (if b then 400000 else 300000)" for b
    by (simp add: lookup_device_token_rate_def find_token_limit_from_devmodel_def cfg_ex_def FLASH_DEV_MODEL_def
        DEFAULT_FLASH_def FAKE_FLASH_def rate_of_def Let_def upt_conv_Cons)
  have i: "reservation_inv ?s" by (simp add: reservation_inv_def nvme_state_ex_def)
  obtain ret s' where r: "recalculate_weights_add cfg_ex 1 ?s = Some (ret, s')"
    using recalculate_weights_add_total [OF lookup_total [OF devmodel_ex_ok(2,1)]] by blast
  have "lookup_device_token_rate cfg_ex (global_readonly_flag ?s \<and> \<not> rw_ratio_SLO (nvme_fgs ?s 1) < 100)
       (latency_us_SLO (nvme_fgs ?s 1)) = Some 300000"
    using l by (simp add: fg0_def)
  from admission_control [OF r i this] have "ret = 1 \<and> reservation_inv s'"
    by (simp add: nvme_state_ex_def fg0_def UINT_MAX_def min_def)
  then show ?thesis using r by blast
qed

text \<open>
  The reservation of a tenant is \<open>scaled_IOPS\<close> divided by one million and truncated: every objective
  below a million tokens per second reserves nothing, although \<open>global_token_rate\<close>, which the sum of
  the reservations is compared with, is in tokens per second.
\<close>

lemma reservation_truncated:
  assumes "uint n < 1000000"
  shows "(word_of_int (d_trunc (ddiv (d_of_int (uint n)) (d_of_int 1000000))) :: u64) = 0"
proof -
  have "(of_int (uint n) :: rat) \<le> of_int 999999" unfolding of_int_le_iff using assms by simp
  then have "(of_int (uint n) :: rat) / 1000000 \<le> of_int 999999 / 1000000"
    by (intro divide_right_mono) simp_all
  then have le: "ddiv (d_of_int (uint n)) (d_of_int 1000000) \<le> rnd (999999 / 1000000)"
    using assms by (simp add: ddiv_def rnd_mono)
  have "rnd (of_int 1048575 * 2 powi (- 20)) = of_int 1048575 * 2 powi (- 20)" by (rule rnd_exact) simp
  then have "rnd (1048575 / 1048576) = 1048575 / 1048576" by (simp add: power_int_minus field_simps)
  moreover have "rnd (999999 / 1000000) \<le> rnd (1048575 / 1048576)" by (rule rnd_mono) simp
  ultimately have "rnd (999999 / 1000000) < 1" by simp
  then have "ddiv (d_of_int (uint n)) (d_of_int 1000000) < 1" using le by simp
  moreover have "0 \<le> ddiv (d_of_int (uint n)) (d_of_int 1000000)"
    unfolding ddiv_def d_of_int_def by (intro rnd_nonneg divide_nonneg_nonneg of_int_nonneg) simp_all
  ultimately have "d_trunc (ddiv (d_of_int (uint n)) (d_of_int 1000000)) = 0" by (simp add: d_trunc_def floor_eq_iff)
  then show ?thesis by simp
qed

end
