(* ===== verification/NvmeTenants.thy ===== *)
theory NvmeTenants
  imports NvmeAdmission
begin

text \<open>
  The tenants of a core under registration and unregistration (\<open>bsys_nvme_register_flow\<close> and
  \<open>bsys_nvme_unregister_flow\<close>): the invariant of the tenant list and that both operations keep it.
\<close>

section \<open>Registration\<close>

text \<open>Recalculating the weights leaves the tenants of the core alone.\<close>

definition weights_frame :: "'w nvme_state \<Rightarrow> 'w nvme_state \<Rightarrow> bool" where
  "weights_frame s s' \<longleftrightarrow> fgs_same (nvme_fgs s) (nvme_fgs s') \<and> nvme_fgs_bitmap s' = nvme_fgs_bitmap s \<and>
     tenant_swq s' = tenant_swq s \<and> num_tenants s' = num_tenants s \<and>
     num_best_effort_tenants s' = num_best_effort_tenants s \<and> swqs s' = swqs s \<and> ctxs s' = ctxs s \<and>
     mp s' = mp s \<and> nvme_swq_mempool s' = nvme_swq_mempool s \<and> ctx_mempool s' = ctx_mempool s \<and>
     roundrobin_start s' = roundrobin_start s \<and> usys_arr s' = usys_arr s"

lemma weights_frame_redistribute:
  "weights_frame s s1 \<Longrightarrow> weights_frame s (redistribute s1)"
  using redistribute_fgs [of s1] by (auto simp: weights_frame_def intro: fgs_same_trans)

lemma weights_frame_add:
  assumes "recalculate_weights_add cfg h s = Some (ret, s')"
  shows "weights_frame s s'" "ret = 1 \<or> ret = - RET_CANTMEETSLO"
proof -
  have "weights_frame s s' \<and> (ret = 1 \<or> ret = - RET_CANTMEETSLO)"
    using assms unfolding recalculate_weights_add_def
    by (auto simp: Let_def bind_eq_Some_conv fgs_same_refl split: if_splits
        intro!: weights_frame_redistribute) (simp_all add: weights_frame_def fgs_same_refl)
  then show "weights_frame s s'" "ret = 1 \<or> ret = - RET_CANTMEETSLO" by auto
qed

lemma weights_frame_remove:
  assumes "recalculate_weights_remove cfg h s = Some (ret, s')"
  shows "weights_frame s s'"
  using assms unfolding recalculate_weights_remove_def
  by (auto simp: Let_def bind_eq_Some_conv split: if_splits prod.splits
      intro!: weights_frame_redistribute) (simp_all add: weights_frame_def fgs_same_refl)

text \<open>
  The tenants of a core: the list of queues has no duplicates and the two counters count it; every
  queue is a well-formed ring buffer that belongs to a flow group with its bit set, which points
  back to the queue; no queue in the list is free memory.
\<close>

definition is_be :: "'w nvme_state \<Rightarrow> ptr \<Rightarrow> bool" where
  "is_be s q \<longleftrightarrow> \<not> latency_critical_flag (nvme_fgs s (fg_handle (swqs s q)))"

definition tenant_ok :: "'w nvme_state \<Rightarrow> ptr \<Rightarrow> bool" where
  "tenant_ok s q \<longleftrightarrow> swq_inv (swqs s q) \<and> 1 \<le> fg_handle (swqs s q) \<and> fg_handle (swqs s q) < int MAX_NVME_FLOW_GROUPS \<and>
     bitmap_test (nvme_fgs_bitmap s) (nat (fg_handle (swqs s q))) \<and>
     nvme_swq (nvme_fgs s (fg_handle (swqs s q))) = q \<and> conn_ref_count (nvme_fgs s (fg_handle (swqs s q))) = 1"

definition tenant_inv :: "(ptr option \<Rightarrow> 'w \<Rightarrow> ptr set) \<Rightarrow> 'w nvme_state \<Rightarrow> bool" where
  "tenant_inv free s \<longleftrightarrow> distinct (tenant_swq s) \<and> num_tenants s = int (length (tenant_swq s)) \<and>
     num_best_effort_tenants s = int (length (filter (is_be s) (tenant_swq s))) \<and>
     set (tenant_swq s) \<inter> mempool_avail free (nvme_swq_mempool s) (mp s) = {} \<and>
     (\<forall>q \<in> set (tenant_swq s). tenant_ok s q) \<and> 0 \<le> roundrobin_start s"

lemma tenant_ok_cong:
  assumes "swqs s' q = swqs s q" "nvme_fgs_bitmap s' = nvme_fgs_bitmap s"
    "fgs_same (nvme_fgs s) (nvme_fgs s')"
  shows "tenant_ok s' q = tenant_ok s q" "is_be s' q = is_be s q"
  using assms fgs_same_sel [OF assms(3)] by (simp_all add: tenant_ok_def is_be_def)

lemma tenant_inv_frame:
  assumes "weights_frame s s'" "tenant_inv free s"
  shows "tenant_inv free s'"
proof -
  have "tenant_ok s' q = tenant_ok s q" "is_be s' q = is_be s q" for q
    using assms(1) tenant_ok_cong [of s' q s] by (simp_all add: weights_frame_def)
  then have "tenant_ok s' = tenant_ok s" "is_be s' = is_be s" by auto
  then show ?thesis using assms by (simp add: tenant_inv_def weights_frame_def)
qed

lemma tenant_handle_inj:
  "tenant_inv free s \<Longrightarrow> q \<in> set (tenant_swq s) \<Longrightarrow> q' \<in> set (tenant_swq s) \<Longrightarrow>
   fg_handle (swqs s q) = fg_handle (swqs s q') \<Longrightarrow> q = q'"
  unfolding tenant_inv_def tenant_ok_def by metis

text \<open>Writing the flow group of a handle that no tenant uses, and setting its bit.\<close>

lemma tenant_inv_new_handle:
  assumes "tenant_inv free s" "\<forall>q \<in> set (tenant_swq s). fg_handle (swqs s q) \<noteq> h" "1 \<le> h"
  shows "tenant_inv free (upd_fg h f (s\<lparr>nvme_fgs_bitmap := bitmap_set (nvme_fgs_bitmap s) (nat h)\<rparr>))"
proof -
  let ?s = "upd_fg h f (s\<lparr>nvme_fgs_bitmap := bitmap_set (nvme_fgs_bitmap s) (nat h)\<rparr>)"
  have be: "is_be ?s q = is_be s q" if "q \<in> set (tenant_swq s)" for q
    using assms(2) that by (simp add: is_be_def upd_fg_def)
  then have "filter (is_be ?s) (tenant_swq s) = filter (is_be s) (tenant_swq s)" by (rule filter_cong [OF refl])
  moreover have "tenant_ok ?s q" if "q \<in> set (tenant_swq s)" for q
    using assms(1,2) that unfolding tenant_inv_def tenant_ok_def by (simp add: upd_fg_def bitmap_test_set)
  ultimately show ?thesis using assms(1) by (simp add: tenant_inv_def upd_fg_def)
qed

text \<open>Linking a queue that was just taken from the pool.\<close>

definition link_tenant :: "int \<Rightarrow> u64 \<Rightarrow> u32 \<Rightarrow> ptr \<Rightarrow> 'w nvme_state \<Rightarrow> 'w nvme_state" where
  "link_tenant h cookie lat swq s =
     (let s = upd_fg h (\<lambda>fg. fg\<lparr>nvme_swq := swq\<rparr>) s;
          s = s\<lparr>swqs := (swqs s)(swq := nvme_sw_queue_init (swqs s swq) h)\<rparr>;
          s = s\<lparr>tenant_swq := swq # tenant_swq s, num_tenants := num_tenants s + 1, roundrobin_start := 0\<rparr>;
          s = (if lat = 0 then s\<lparr>num_best_effort_tenants := num_best_effort_tenants s + 1\<rparr> else s);
          s = upd_fg h (\<lambda>fg. fg\<lparr>conn_ref_count := 0 + 1\<rparr>) s
      in s\<lparr>usys_arr := usys_nvme_registered_flow (usys_arr s) h cookie RET_OK\<rparr>)"

lemma link_tenant_sel [simp]:
  "tenant_swq (link_tenant h cookie lat swq s) = swq # tenant_swq s"
  "num_tenants (link_tenant h cookie lat swq s) = num_tenants s + 1"
  "num_best_effort_tenants (link_tenant h cookie lat swq s) = num_best_effort_tenants s + (if lat = 0 then 1 else 0)"
  "roundrobin_start (link_tenant h cookie lat swq s) = 0"
  "mp (link_tenant h cookie lat swq s) = mp s"
  "nvme_swq_mempool (link_tenant h cookie lat swq s) = nvme_swq_mempool s"
  "nvme_fgs_bitmap (link_tenant h cookie lat swq s) = nvme_fgs_bitmap s"
  "swqs (link_tenant h cookie lat swq s) = (swqs s)(swq := nvme_sw_queue_init (swqs s swq) h)"
  "nvme_fgs (link_tenant h cookie lat swq s) =
     (nvme_fgs s)(h := (nvme_fgs s h)\<lparr>nvme_swq := swq, conn_ref_count := 1\<rparr>)"
  "usys_arr (link_tenant h cookie lat swq s) = usys_nvme_registered_flow (usys_arr s) h cookie RET_OK"
  by (simp_all add: link_tenant_def Let_def upd_fg_def)

lemma tenant_inv_link:
  assumes inv: "tenant_inv free s" and pool: "rte_mempool_ok (env_dpdk E) free"
    and al: "alloc_local_nvme_swq E s = (Some swq, s1)"
    and h: "\<forall>q \<in> set (tenant_swq s). fg_handle (swqs s q) \<noteq> h" "1 \<le> h" "h < int MAX_NVME_FLOW_GROUPS"
      "bitmap_test (nvme_fgs_bitmap s) (nat h)" "latency_critical_flag (nvme_fgs s h) = (lat \<noteq> 0)"
  shows "tenant_inv free (link_tenant h cookie lat swq s1)"
proof -
  obtain m where m: "mempool_alloc (env_dpdk E) (nvme_swq_mempool s) (mp s) = (Some swq, m)" "s1 = s\<lparr>mp := m\<rparr>"
    using al by (auto simp: alloc_local_nvme_swq_def split: prod.splits)
  note av = mempool_alloc_Some [OF pool m(1)]
  let ?s = "link_tenant h cookie lat swq s1"
  have new: "swq \<notin> set (tenant_swq s)" using inv av(1) by (auto simp: tenant_inv_def)
  have old: "tenant_ok ?s q" "is_be ?s q = is_be s q" if "q \<in> set (tenant_swq s)" for q
    using inv h(1) that new unfolding tenant_inv_def tenant_ok_def is_be_def m(2) by auto
  have "fg_handle (nvme_sw_queue_init x h) = h" for x by (simp add: nvme_sw_queue_init_def)
  then have sw: "tenant_ok ?s swq" "is_be ?s swq = (lat = 0)"
    using h unfolding m(2) by (simp_all add: tenant_ok_def is_be_def swq_inv_init)
  have "filter (is_be ?s) (tenant_swq s) = filter (is_be s) (tenant_swq s)"
    using old(2) by (rule filter_cong [OF refl])
  then show ?thesis
    using inv new old(1) sw av unfolding tenant_inv_def m(2) by (auto simp: mempool_avail_def)
qed

text \<open>The body of \<open>bsys_nvme_register_flow\<close> for a flow that is not yet registered.\<close>

definition new_fg :: "nvme_cfg \<Rightarrow> int \<Rightarrow> u64 \<Rightarrow> u32 \<Rightarrow> u64 \<Rightarrow> int \<Rightarrow> nvme_flow_group \<Rightarrow> nvme_flow_group" where
  "new_fg cfg fid cookie lat iops rw fg = fg\<lparr>flow_group_id := sint (word_of_int fid :: u32), fg_cookie := cookie,
                latency_us_SLO := lat, IOPS_SLO := iops, rw_ratio_SLO := rw, fg_tid := cpu_nr cfg,
                scaled_IOPS_limit :=
                  word_of_int (d_trunc (ddiv (d_of_int (uint (scaled_IOPS cfg iops rw))) (d_of_int 1000000))),
                latency_critical_flag := (lat \<noteq> 0)\<rparr>"

lemma register_fresh:
  assumes "set_nvme_flow_group_id cfg fid 0 s = (0, h, s0)"
    "bsys_nvme_register_flow E cfg fid cookie lat iops rw s = Some (ret, s')"
  obtains r s1 where "recalculate_weights_add cfg h (upd_fg h (new_fg cfg fid cookie lat iops rw) s0) = Some (r, s1)"
    "r < 0 \<and> ret = - RET_CANTMEETSLO \<and> s' = s1 \<or>
     \<not> r < 0 \<and> (\<exists>s2. alloc_local_nvme_swq E s1 = (None, s2) \<and> ret = - RET_NOMEM \<and> s' = s2) \<or>
     \<not> r < 0 \<and> (\<exists>swq s2. alloc_local_nvme_swq E s1 = (Some swq, s2) \<and> ret = RET_OK \<and> s' = link_tenant h cookie lat swq s2)"
proof -
  have f: "(\<lambda>fg. fg\<lparr>flow_group_id := sint (word_of_int fid :: u32), fg_cookie := cookie,
                latency_us_SLO := lat, IOPS_SLO := iops, rw_ratio_SLO := rw, fg_tid := cpu_nr cfg,
                scaled_IOPS_limit :=
                  word_of_int (d_trunc (ddiv (d_of_int (uint (scaled_IOPS cfg iops rw))) (d_of_int 1000000))),
                latency_critical_flag := (lat \<noteq> 0)\<rparr>) = new_fg cfg fid cookie lat iops rw"
    by (rule ext) (simp add: new_fg_def)
  obtain r s1 where r: "recalculate_weights_add cfg h (upd_fg h (new_fg cfg fid cookie lat iops rw) s0) = Some (r, s1)"
    using assms unfolding bsys_nvme_register_flow_def f by (auto simp: bind_eq_Some_conv)
  have "(if r < 0 then Some (- RET_CANTMEETSLO, s1) else case alloc_local_nvme_swq E s1 of
      (None, s2) \<Rightarrow> Some (- RET_NOMEM, s2) | (Some swq, s2) \<Rightarrow> Some (RET_OK, link_tenant h cookie lat swq s2)) = Some (ret, s')"
    using assms r unfolding bsys_nvme_register_flow_def f link_tenant_def Let_def by simp
  then show ?thesis using that [OF r] by (auto split: if_splits prod.splits option.splits)
qed

lemma nvme_sw_queue_init_fg [simp]: "fg_handle (nvme_sw_queue_init q h) = h"
  by (simp add: nvme_sw_queue_init_def)

lemma set_flow_group_id_fresh:
  assumes "\<forall>i \<in> {1..<MAX_NVME_FLOW_GROUPS}. \<not> fg_match cfg s fid i"
    "\<exists>i \<in> {1..<MAX_NVME_FLOW_GROUPS}. \<not> bitmap_test (nvme_fgs_bitmap s) i"
  obtains h where "set_nvme_flow_group_id cfg fid 0 s = (0, h, s\<lparr>nvme_fgs_bitmap := bitmap_set (nvme_fgs_bitmap s) (nat h)\<rparr>)"
    "1 \<le> h" "h < int MAX_NVME_FLOW_GROUPS" "\<not> bitmap_test (nvme_fgs_bitmap s) (nat h)"
proof -
  obtain ret h s' where e: "set_nvme_flow_group_id cfg fid 0 s = (ret, h, s')" by (metis prod_cases3)
  have n: "\<not> (\<exists>i \<in> {1..<MAX_NVME_FLOW_GROUPS}. fg_match cfg s fid i)"
    "\<not> (\<forall>i \<in> {1..<MAX_NVME_FLOW_GROUPS}. bitmap_test (nvme_fgs_bitmap s) i)" using assms by blast+
  have "ret = 0 \<and> s' = s\<lparr>nvme_fgs_bitmap := bitmap_set (nvme_fgs_bitmap s) (nat h)\<rparr> \<and>
      (1 \<le> h \<and> h < int MAX_NVME_FLOW_GROUPS) \<and> \<not> bitmap_test (nvme_fgs_bitmap s) (nat h)"
    using flow_group_id_result [where cfg = cfg and fid = fid and ?h0.0 = 0 and s = s] e n
    by (simp only: prod.case if_False atLeastLessThan_iff) blast
  then show ?thesis using that [of h] e by blast
qed

text \<open>
  C4. Registering a new flow while a handle is free keeps the invariant of the tenants.  On success
  exactly one queue, empty and taken from the pool, is added in front of the list, and the
  application gets one event; when the objective cannot be met or no queue can be allocated, the
  list of tenants is unchanged.
\<close>

theorem register_flow_inv:
  assumes "tenant_inv free s" "rte_mempool_ok (env_dpdk E) free"
    "\<forall>i \<in> {1..<MAX_NVME_FLOW_GROUPS}. \<not> fg_match cfg s fid i"
    "\<exists>i \<in> {1..<MAX_NVME_FLOW_GROUPS}. \<not> bitmap_test (nvme_fgs_bitmap s) i"
    "bsys_nvme_register_flow E cfg fid cookie lat iops rw s = Some (ret, s')"
  shows "tenant_inv free s' \<and>
    (if ret = RET_OK then \<exists>q. tenant_swq s' = q # tenant_swq s \<and> swq_items (swqs s' q) = [] \<and>
         q \<in> mempool_avail free (nvme_swq_mempool s) (mp s) \<and>
         usys_arr s' = usys_nvme_registered_flow (usys_arr s) (fg_handle (swqs s' q)) cookie RET_OK
     else ret \<in> {- RET_CANTMEETSLO, - RET_NOMEM} \<and> tenant_swq s' = tenant_swq s)"
proof -
  obtain h where h: "set_nvme_flow_group_id cfg fid 0 s = (0, h, s\<lparr>nvme_fgs_bitmap := bitmap_set (nvme_fgs_bitmap s) (nat h)\<rparr>)"
    "1 \<le> h" "h < int MAX_NVME_FLOW_GROUPS" "\<not> bitmap_test (nvme_fgs_bitmap s) (nat h)"
    using set_flow_group_id_fresh [OF assms(3,4)] .
  have hq: "\<forall>q \<in> set (tenant_swq s). fg_handle (swqs s q) \<noteq> h"
    using assms(1) h(4) unfolding tenant_inv_def tenant_ok_def by auto
  let ?s0 = "upd_fg h (new_fg cfg fid cookie lat iops rw) (s\<lparr>nvme_fgs_bitmap := bitmap_set (nvme_fgs_bitmap s) (nat h)\<rparr>)"
  have i0: "tenant_inv free ?s0" using tenant_inv_new_handle [OF assms(1) hq h(2)] .
  obtain r s1 where r: "recalculate_weights_add cfg h ?s0 = Some (r, s1)"
    and out: "r < 0 \<and> ret = - RET_CANTMEETSLO \<and> s' = s1 \<or>
     \<not> r < 0 \<and> (\<exists>s2. alloc_local_nvme_swq E s1 = (None, s2) \<and> ret = - RET_NOMEM \<and> s' = s2) \<or>
     \<not> r < 0 \<and> (\<exists>swq s2. alloc_local_nvme_swq E s1 = (Some swq, s2) \<and> ret = RET_OK \<and> s' = link_tenant h cookie lat swq s2)"
    using register_fresh [OF h(1) assms(5)] .
  note fr = weights_frame_add(1) [OF r]
  note i1 = tenant_inv_frame [OF fr i0]
  have s1: "tenant_swq s1 = tenant_swq s" "swqs s1 = swqs s" "mp s1 = mp s" "nvme_swq_mempool s1 = nvme_swq_mempool s"
    "usys_arr s1 = usys_arr s" "nvme_fgs_bitmap s1 = bitmap_set (nvme_fgs_bitmap s) (nat h)"
    "latency_critical_flag (nvme_fgs s1 h) = (lat \<noteq> 0)"
    using fr fgs_same_sel(7) [of "nvme_fgs ?s0" "nvme_fgs s1" h] by (auto simp: weights_frame_def upd_fg_def new_fg_def)
  from out consider (slo) "ret = - RET_CANTMEETSLO" "s' = s1"
    | (nomem) s2 where "alloc_local_nvme_swq E s1 = (None, s2)" "ret = - RET_NOMEM" "s' = s2"
    | (ok) swq s2 where "alloc_local_nvme_swq E s1 = (Some swq, s2)" "ret = RET_OK" "s' = link_tenant h cookie lat swq s2"
    by blast
  then show ?thesis
  proof cases
    case slo
    then show ?thesis using i1 s1 by (simp add: errno_defs)
  next
    case nomem
    obtain m where m: "mempool_alloc (env_dpdk E) (nvme_swq_mempool s1) (mp s1) = (None, m)" "s2 = s1\<lparr>mp := m\<rparr>"
      using nomem(1) by (auto simp: alloc_local_nvme_swq_def split: prod.splits)
    have e: "tenant_ok (s1\<lparr>mp := m\<rparr>) = tenant_ok s1" "is_be (s1\<lparr>mp := m\<rparr>) = is_be s1"
      by (auto simp: tenant_ok_def is_be_def fun_eq_iff)
    have "tenant_inv free s2"
      using i1 mempool_alloc_None [OF assms(2) m(1)] by (simp add: tenant_inv_def m(2) e)
    then show ?thesis using nomem s1 m(2) by (simp add: errno_defs)
  next
    case ok
    obtain m where m: "mempool_alloc (env_dpdk E) (nvme_swq_mempool s1) (mp s1) = (Some swq, m)" "s2 = s1\<lparr>mp := m\<rparr>"
      using ok(1) by (auto simp: alloc_local_nvme_swq_def split: prod.splits)
    have "tenant_inv free s'" unfolding ok(3)
      by (rule tenant_inv_link [OF i1 assms(2) ok(1)]) (use hq h s1 in \<open>simp_all add: bitmap_test_set\<close>)
    moreover have "swq \<in> mempool_avail free (nvme_swq_mempool s) (mp s)"
      using mempool_alloc_Some(1) [OF assms(2) m(1)] s1 by simp
    ultimately show ?thesis using ok s1 m(2) by (simp add: swq_inv_init)
  qed
qed

lemma int_length_remove1: "int (length (remove1 x xs)) = int (length xs) - (if x \<in> set xs then 1 else 0)"
  by (induction xs) auto

lemma tenant_inv_unlink:
  assumes inv: "tenant_inv free s" and q: "q \<in> set (tenant_swq s)" "fg_handle (swqs s q) = h"
    and fr: "fgs_same ((nvme_fgs s)(h := x)) (nvme_fgs s')"
      "tenant_swq s' = remove1 q (tenant_swq s)" "num_tenants s' = num_tenants s - 1" "swqs s' = swqs s"
      "num_best_effort_tenants s' = num_best_effort_tenants s - (if is_be s q then 1 else 0)"
      "nvme_fgs_bitmap s' = bitmap_clear (nvme_fgs_bitmap s) (nat h)" "roundrobin_start s' = roundrobin_start s"
      "mempool_avail free (nvme_swq_mempool s') (mp s') = insert q (mempool_avail free (nvme_swq_mempool s) (mp s))"
  shows "tenant_inv free s'"
proof -
  have dist: "distinct (tenant_swq s)" using inv by (simp add: tenant_inv_def)
  have sub: "p \<in> set (tenant_swq s)" "p \<noteq> q" if "p \<in> set (remove1 q (tenant_swq s))" for p
    using that dist by auto
  have ne: "fg_handle (swqs s p) \<noteq> h" if "p \<in> set (remove1 q (tenant_swq s))" for p
    using tenant_handle_inj [OF inv sub(1) [OF that] q(1)] sub(2) [OF that] q(2) by auto
  have old: "tenant_ok s' p" "is_be s' p = is_be s p" if p: "p \<in> set (remove1 q (tenant_swq s))" for p
  proof -
    have o: "tenant_ok s p" using inv sub(1) [OF p] by (auto simp: tenant_inv_def)
    have h1: "1 \<le> fg_handle (swqs s p)" "1 \<le> h" using o inv q by (auto simp: tenant_ok_def tenant_inv_def)
    then have "nat h \<noteq> nat (fg_handle (swqs s p))" using ne [OF p] by auto
    then show "tenant_ok s' p" "is_be s' p = is_be s p"
      using o ne [OF p] fgs_same_sel [OF fr(1)] fr(4,6) by (simp_all add: tenant_ok_def is_be_def bitmap_test_clear)
  qed
  have "filter (is_be s') (remove1 q (tenant_swq s)) = remove1 q (filter (is_be s) (tenant_swq s))"
    using old(2) unfolding filter_remove1 [symmetric] by (rule filter_cong [OF refl])
  then have "int (length (filter (is_be s') (tenant_swq s'))) =
      int (length (filter (is_be s) (tenant_swq s))) - (if is_be s q then 1 else 0)"
    using q(1) unfolding fr(2) by (simp only: int_length_remove1 set_filter mem_Collect_eq simp_thms)
  moreover have "num_best_effort_tenants s = int (length (filter (is_be s) (tenant_swq s)))"
    "num_tenants s = int (length (tenant_swq s))" "0 \<le> roundrobin_start s"
    using inv by (simp_all add: tenant_inv_def)
  moreover have "set (tenant_swq s') \<inter> mempool_avail free (nvme_swq_mempool s') (mp s') = {}"
    using inv sub unfolding fr(2,8) tenant_inv_def by blast
  moreover have "distinct (tenant_swq s')" "int (length (tenant_swq s')) = int (length (tenant_swq s)) - 1"
    "\<forall>p \<in> set (tenant_swq s'). tenant_ok s' p"
    using dist q(1) old(1) unfolding fr(2) int_length_remove1 by auto
  ultimately show ?thesis unfolding tenant_inv_def using fr(3,5,7) by linarith
qed

lemma unregister_flow_result:
  assumes "tenant_inv free s" "rte_mempool_ok (env_dpdk E) free"
    "q \<in> set (tenant_swq s)" "fg_handle (swqs s q) = h"
    "bsys_nvme_unregister_flow E cfg h s = Some (ret, s')"
  shows "ret = RET_OK \<and> tenant_inv free s' \<and> tenant_swq s' = remove1 q (tenant_swq s) \<and>
    \<not> bitmap_test (nvme_fgs_bitmap s') (nat h) \<and>
    mempool_avail free (nvme_swq_mempool s') (mp s') = insert q (mempool_avail free (nvme_swq_mempool s) (mp s)) \<and>
    usys_arr s' = usys_nvme_unregistered_flow (usys_arr s) h RET_OK"
proof -
  have ok: "tenant_ok s q" using assms(1,3) by (auto simp: tenant_inv_def)
  then have c: "conn_ref_count (nvme_fgs s h) = 1" "nvme_swq (nvme_fgs s h) = q" using assms(4) by (auto simp: tenant_ok_def)
  have nq: "q \<notin> mempool_avail free (nvme_swq_mempool s) (mp s)" using assms(1,3) by (auto simp: tenant_inv_def)
  define s1 where "s1 = upd_fg h (\<lambda>fg. fg\<lparr>conn_ref_count := conn_ref_count fg - 1\<rparr>) s"
  define s2 where "s2 = (if \<not> latency_critical_flag (nvme_fgs s1 h)
                      then s1\<lparr>num_best_effort_tenants := num_best_effort_tenants s1 - 1\<rparr> else s1)"
  define s3 where "s3 = free_local_nvme_swq E q (s2\<lparr>tenant_swq := remove1 q (tenant_swq s2)\<rparr>)"
  have "conn_ref_count (nvme_fgs s1 h) = 0" "nvme_swq (nvme_fgs s2 h) = q" using c by (simp_all add: s1_def s2_def upd_fg_def)
  then obtain x s4 where x: "recalculate_weights_remove cfg h (s3\<lparr>num_tenants := num_tenants s3 - 1\<rparr>) = Some (x, s4)"
    "ret = RET_OK" "s' = s4\<lparr>nvme_fgs_bitmap := bitmap_clear (nvme_fgs_bitmap s4) (nat h),
       usys_arr := usys_nvme_unregistered_flow (usys_arr s4) h RET_OK\<rparr>"
    using assms(5) unfolding bsys_nvme_unregister_flow_def Let_def s1_def [symmetric]
    by (auto simp: bind_eq_Some_conv s2_def [symmetric] s3_def [symmetric])
  note fr = weights_frame_remove [OF x(1), unfolded weights_frame_def]
  have s2: "nvme_fgs s2 = (nvme_fgs s)(h := (nvme_fgs s h)\<lparr>conn_ref_count := conn_ref_count (nvme_fgs s h) - 1\<rparr>)"
    "tenant_swq s2 = tenant_swq s" "swqs s2 = swqs s" "mp s2 = mp s" "nvme_swq_mempool s2 = nvme_swq_mempool s"
    "num_tenants s2 = num_tenants s" "nvme_fgs_bitmap s2 = nvme_fgs_bitmap s" "usys_arr s2 = usys_arr s"
    "roundrobin_start s2 = roundrobin_start s"
    "num_best_effort_tenants s2 = num_best_effort_tenants s - (if is_be s q then 1 else 0)"
    using assms(4) by (simp_all add: s2_def s1_def upd_fg_def is_be_def)
  have f: "fgs_same ((nvme_fgs s)(h := (nvme_fgs s h)\<lparr>conn_ref_count := conn_ref_count (nvme_fgs s h) - 1\<rparr>)) (nvme_fgs s')"
    using fr x(3) by (simp add: s3_def s2 free_local_nvme_swq_def)
  have av: "mempool_avail free (nvme_swq_mempool s') (mp s') = insert q (mempool_avail free (nvme_swq_mempool s) (mp s))"
    using fr x(3) mempool_free_avail [OF assms(2) nq]
    by (simp add: s3_def s2 free_local_nvme_swq_def)
  have be: "num_best_effort_tenants s' = num_best_effort_tenants s - (if is_be s q then 1 else 0)"
    using fr x(3) by (simp add: s3_def s2 free_local_nvme_swq_def)
  have rest: "tenant_swq s' = remove1 q (tenant_swq s)" "num_tenants s' = num_tenants s - 1" "swqs s' = swqs s"
    "nvme_fgs_bitmap s' = bitmap_clear (nvme_fgs_bitmap s) (nat h)" "roundrobin_start s' = roundrobin_start s"
    "usys_arr s' = usys_nvme_unregistered_flow (usys_arr s) h RET_OK"
    using fr x(3) by (simp_all add: s3_def s2 free_local_nvme_swq_def)
  have "tenant_inv free s'"
    by (rule tenant_inv_unlink [OF assms(1,3,4) f rest(1-3) be rest(4,5) av])
  then show ?thesis using x(2) rest av by (simp add: bitmap_test_clear)
qed

text \<open>
  C5. Unregistering the last connection of a tenant removes exactly its queue from the list, gives
  the queue back to the pool, clears the bit of its handle and keeps the invariant of the tenants.
\<close>

theorem unregister_flow_inv:
  assumes "tenant_inv free s" "rte_mempool_ok (env_dpdk E) free"
    "q \<in> set (tenant_swq s)" "fg_handle (swqs s q) = h"
    "bsys_nvme_unregister_flow E cfg h s = Some (ret, s')"
  shows "ret = RET_OK \<and> tenant_inv free s' \<and> tenant_swq s' = remove1 q (tenant_swq s) \<and>
    \<not> bitmap_test (nvme_fgs_bitmap s') (nat h) \<and>
    mempool_avail free (nvme_swq_mempool s') (mp s') = insert q (mempool_avail free (nvme_swq_mempool s) (mp s)) \<and>
    usys_arr s' = usys_nvme_unregistered_flow (usys_arr s) h RET_OK"
  using assms by (rule unregister_flow_result)

lemma tenant_inv_ex: "tenant_inv (\<lambda>pool w. set (w pool)) nvme_state_ex"
  by (simp add: tenant_inv_def nvme_state_ex_def)

lemma nvme_state_ex_free: "\<not> bitmap_test (nvme_fgs_bitmap nvme_state_ex) i"
  by (simp add: nvme_state_ex_def bitmap_test_bit)

lemma env_ex_ok: "rte_mempool_ok (env_dpdk env_ex) (\<lambda>pool w. set (w pool))"
  by (simp add: env_ex_def dpdk_ex_ok)

lemma register_total:
  assumes "set_nvme_flow_group_id cfg fid 0 s = (0, h, s0)" "devmodel_ok cfg True" "devmodel_ok cfg False"
  shows "\<exists>ret s'. bsys_nvme_register_flow E cfg fid cookie lat iops rw s = Some (ret, s')"
proof -
  obtain r s1 where "recalculate_weights_add cfg h (upd_fg h (\<lambda>fg. fg\<lparr>flow_group_id := sint (word_of_int fid :: u32), fg_cookie := cookie,
                latency_us_SLO := lat, IOPS_SLO := iops, rw_ratio_SLO := rw, fg_tid := cpu_nr cfg,
                scaled_IOPS_limit :=
                  word_of_int (d_trunc (ddiv (d_of_int (uint (scaled_IOPS cfg iops rw))) (d_of_int 1000000))),
                latency_critical_flag := (lat \<noteq> 0)\<rparr>) s0) = Some (r, s1)"
    using recalculate_weights_add_total [OF lookup_total [OF assms(2,3)]] by blast
  then show ?thesis using assms(1) unfolding bsys_nvme_register_flow_def Let_def
    by (cases "r < 0"; cases "alloc_local_nvme_swq E s1"; cases "fst (alloc_local_nvme_swq E s1)") simp_all
qed

lemma register_flow_inv_witness:
  "\<exists>ret s'. bsys_nvme_register_flow env_ex cfg_ex 7 70 0 1000 50 nvme_state_ex = Some (ret, s') \<and>
     tenant_inv (\<lambda>pool w. set (w pool)) s'"
proof -
  have h: "\<forall>i \<in> {1..<MAX_NVME_FLOW_GROUPS}. \<not> fg_match cfg_ex nvme_state_ex 7 i"
    "\<exists>i \<in> {1..<MAX_NVME_FLOW_GROUPS}. \<not> bitmap_test (nvme_fgs_bitmap nvme_state_ex) i"
    using nvme_state_ex_free by (simp add: fg_match_def)
      (intro bexI [of _ 1]; use nvme_state_ex_free in \<open>simp add: MAX_NVME_FLOW_GROUPS_def\<close>)
  obtain h' where "set_nvme_flow_group_id cfg_ex 7 0 nvme_state_ex =
      (0, h', nvme_state_ex\<lparr>nvme_fgs_bitmap := bitmap_set (nvme_fgs_bitmap nvme_state_ex) (nat h')\<rparr>)"
    using set_flow_group_id_fresh [OF h] by blast
  then obtain ret s' where r: "bsys_nvme_register_flow env_ex cfg_ex 7 70 0 1000 50 nvme_state_ex = Some (ret, s')"
    using register_total [OF _ devmodel_ex_ok(2,1)] by blast
  show ?thesis using register_flow_inv [OF tenant_inv_ex env_ex_ok h r] r by blast
qed

text \<open>A state with one best-effort tenant: handle 1, queue 24, no request queued.\<close>

definition nvme_state_ex1 :: "(ptr option \<Rightarrow> ptr list) nvme_state" where
  "nvme_state_ex1 = nvme_state_ex\<lparr>nvme_fgs := (\<lambda>_. fg0)(1 := fg0\<lparr>flow_group_id := 7, nvme_swq := 24, conn_ref_count := 1\<rparr>),
     nvme_fgs_bitmap := bitmap_set (\<lambda>_. 0) 1, swqs := (\<lambda>_. swq0)(24 := nvme_sw_queue_init swq0 1),
     tenant_swq := [24], num_tenants := 1, num_best_effort_tenants := 1, global_num_best_effort_tenants := 1\<rparr>"

lemma tenant_inv_ex1: "tenant_inv (\<lambda>pool w. set (w pool)) nvme_state_ex1"
  by (simp add: tenant_inv_def nvme_state_ex1_def nvme_state_ex_def tenant_ok_def is_be_def swq_inv_init
      bitmap_test_set fg0_def mempool_avail_def pool_of_def nvme_mp_ex_def MAX_NVME_FLOW_GROUPS_def
      nvme_swq_datastore_def ctx_datastore_def)

lemma recalculate_weights_remove_total:
  assumes "\<And>b l. \<exists>r. lookup_device_token_rate cfg b l = Some r"
  shows "\<exists>ret s'. recalculate_weights_remove cfg h s = Some (ret, s')"
proof (cases "latency_critical_flag (nvme_fgs s h)")
  case True
  obtain st rd where l: "strictest_loop s h [0..<MAX_NVME_FLOW_GROUPS] (ucast UINT_MAX) True = (st, rd)"
    by (cases "strictest_loop s h [0..<MAX_NVME_FLOW_GROUPS] (ucast UINT_MAX) True")
  obtain r where "lookup_device_token_rate cfg rd st = Some r" using assms by blast
  then show ?thesis using True l by (simp add: recalculate_weights_remove_def Let_def)
qed (simp add: recalculate_weights_remove_def Let_def)

lemma unregister_total:
  assumes "\<And>b l. \<exists>r. lookup_device_token_rate cfg b l = Some r"
  shows "\<exists>ret s'. bsys_nvme_unregister_flow E cfg h s = Some (ret, s')"
proof -
  have "recalculate_weights_remove cfg h s1 \<noteq> None" for s1 :: "'a nvme_state"
    using recalculate_weights_remove_total [OF assms, of h s1] by auto
  then have "bsys_nvme_unregister_flow E cfg h s \<noteq> None"
    by (simp add: bsys_nvme_unregister_flow_def Let_def bind_eq_None_conv case_prod_beta del: not_None_eq)
  then show ?thesis by auto
qed

lemma unregister_flow_inv_witness:
  "\<exists>ret s'. bsys_nvme_unregister_flow env_ex cfg_ex 1 nvme_state_ex1 = Some (ret, s') \<and>
     tenant_inv (\<lambda>pool w. set (w pool)) s' \<and> tenant_swq s' = []"
proof -
  have t: "24 \<in> set (tenant_swq nvme_state_ex1)" "fg_handle (swqs nvme_state_ex1 24) = 1"
    "\<not> latency_critical_flag (nvme_fgs nvme_state_ex1 1)" "tenant_swq nvme_state_ex1 = [24]"
    by (simp_all add: nvme_state_ex1_def fg0_def)
  obtain ret s' where r: "bsys_nvme_unregister_flow env_ex cfg_ex 1 nvme_state_ex1 = Some (ret, s')"
    using unregister_total [OF lookup_total [OF devmodel_ex_ok(2,1)]] by blast
  show ?thesis using unregister_flow_inv [OF tenant_inv_ex1 env_ex_ok t(1,2) r] r t(4) by auto
qed

text \<open>
  Registering a registered flow again with another objective unregisters it first, which clears its
  bit in the bitmap, and never sets the bit again: the flow is then served under a handle that the
  bitmap shows as free, and the next new flow is given the same handle.
\<close>

lemma reregister_loses_bit:
  assumes inv: "tenant_inv free s" and pool: "rte_mempool_ok (env_dpdk E) free"
    and q: "q \<in> set (tenant_swq s)" "fg_handle (swqs s q) = h"
    and id: "set_nvme_flow_group_id cfg fid 0 s = (1, h, s)" and slo: "latency_us_SLO (nvme_fgs s h) \<noteq> lat"
    and r: "bsys_nvme_register_flow E cfg fid cookie lat iops rw s = Some (RET_OK, s')"
  shows "\<exists>q'. q' \<in> set (tenant_swq s') \<and> fg_handle (swqs s' q') = h \<and> \<not> bitmap_test (nvme_fgs_bitmap s') (nat h)"
proof -
  have f: "(\<lambda>fg. fg\<lparr>flow_group_id := sint (word_of_int fid :: u32), fg_cookie := cookie,
                latency_us_SLO := lat, IOPS_SLO := iops, rw_ratio_SLO := rw, fg_tid := cpu_nr cfg,
                scaled_IOPS_limit :=
                  word_of_int (d_trunc (ddiv (d_of_int (uint (scaled_IOPS cfg iops rw))) (d_of_int 1000000))),
                latency_critical_flag := (lat \<noteq> 0)\<rparr>) = new_fg cfg fid cookie lat iops rw"
    by (rule ext) (simp add: new_fg_def)
  obtain x s1 where u: "bsys_nvme_unregister_flow E cfg h s = Some (x, s1)"
    using r id slo unfolding bsys_nvme_register_flow_def f by (auto simp: bind_eq_Some_conv)
  obtain y s2 where y: "recalculate_weights_add cfg h (upd_fg h (new_fg cfg fid cookie lat iops rw) s1) = Some (y, s2)"
    using r id slo u unfolding bsys_nvme_register_flow_def f by (auto simp: bind_eq_Some_conv)
  have "(if y < 0 then Some (- RET_CANTMEETSLO, s2) else case alloc_local_nvme_swq E s2 of
      (None, s3) \<Rightarrow> Some (- RET_NOMEM, s3) | (Some swq, s3) \<Rightarrow> Some (RET_OK, link_tenant h cookie lat swq s3)) = Some (RET_OK, s')"
    using r id slo u y unfolding bsys_nvme_register_flow_def f link_tenant_def Let_def by simp
  then obtain swq s3 where l: "alloc_local_nvme_swq E s2 = (Some swq, s3)" "s' = link_tenant h cookie lat swq s3"
    by (auto simp: errno_defs split: if_splits prod.splits option.splits)
  have "nvme_fgs_bitmap s3 = nvme_fgs_bitmap s2"
    using l(1) by (auto simp: alloc_local_nvme_swq_def split: prod.splits)
  moreover have "nvme_fgs_bitmap s2 = nvme_fgs_bitmap s1"
    using weights_frame_add(1) [OF y] by (simp add: weights_frame_def upd_fg_def)
  ultimately show ?thesis
    using unregister_flow_result [OF inv pool q u] l(2) by (intro exI [of _ swq]) simp
qed

end
