(* ===== verification/NvmeIo.thy ===== *)
theory NvmeIo
  imports NvmeFlow
begin

text \<open>
  The I/O path of \<open>nvme/nvmedev.c\<close>: the four request calls, the scatter-gather callbacks, handing a
  request to SPDK, and the completions.  \<open>None\<close> is a failed assertion or a call of \<open>panic\<close>.
\<close>

section \<open>Requests\<close>

definition upd_ctx :: "ptr \<Rightarrow> (nvme_ctx \<Rightarrow> nvme_ctx) \<Rightarrow> 'w nvme_state \<Rightarrow> 'w nvme_state" where
  "upd_ctx p f s = s\<lparr>ctxs := (ctxs s)(p := f (ctxs s p))\<rparr>"

text \<open>A call of one of SPDK's submission functions; \<open>sq\<close> records the command.\<close>

definition spdk_submit :: "'w nvme_env \<Rightarrow> spdk_cmd \<Rightarrow> 'w nvme_state \<Rightarrow> int \<times> 'w nvme_state" where
  "spdk_submit E c s =
     (case spdk_nvme_ns_cmd E c (mp_world (mp s)) of
        (ret, w) \<Rightarrow> (ret, s\<lparr>mp := (mp s)\<lparr>mp_world := w\<rparr>, sq := sq s @ [c]\<rparr>))"

text \<open>The end of the four request functions when the scheduler is on.\<close>

definition enqueue_ctx :: "'w nvme_env \<Rightarrow> int \<Rightarrow> ptr \<Rightarrow> 'w nvme_state \<Rightarrow> int \<times> 'w nvme_state" where
  "enqueue_ctx E h ctx s =
     (let swq = nvme_swq (nvme_fgs s h) in
      case nvme_sw_queue_push_back (ctxs s) (swqs s swq) ctx of (ret, q) \<Rightarrow>
        let s = s\<lparr>swqs := (swqs s)(swq := q)\<rparr> in
        if ret \<noteq> 0 then (- RET_NOMEM, free_local_nvme_ctx E ctx s) else (RET_OK, s))"

text \<open>The size of a request in bytes: \<open>lba_count * global_ns_sector_size\<close>, passed as a \<open>size_t\<close>.\<close>

definition req_bytes :: "u32 \<Rightarrow> 'w nvme_state \<Rightarrow> u64" where
  "req_bytes lba_count s = word_of_int (uint lba_count * global_ns_sector_size s)"

definition bsys_nvme_write ::
  "'w nvme_env \<Rightarrow> nvme_cfg \<Rightarrow> int \<Rightarrow> u64 \<Rightarrow> u64 \<Rightarrow> u32 \<Rightarrow> u64 \<Rightarrow> 'w nvme_state \<Rightarrow> (int \<times> 'w nvme_state) option" where
  "bsys_nvme_write E cfg h vaddr lba lba_count cookie s =
     (case alloc_local_nvme_ctx E s of
        (None, s) \<Rightarrow> Some (- RET_NOMEM, s)
      | (Some ctx, s) \<Rightarrow>
          let s = upd_ctx ctx (\<lambda>c. c\<lparr>ctx_cookie := cookie\<rparr>) s; paddr = vaddr in
          if nvme_sched_flag cfg then
            let s = upd_ctx ctx (\<lambda>c. c\<lparr>ctx_tid := cpu_nr cfg, ctx_fg_handle := h, ctx_cmd := NVME_CMD_WRITE,
                      req_cost := nvme_compute_req_cost cfg NVME_CMD_WRITE (req_bytes lba_count s),
                      ctx_paddr := paddr, ctx_lba := lba, ctx_lba_count := lba_count\<rparr>) s
            in Some (enqueue_ctx E h ctx s)
          else (case spdk_submit E (Cmd_write paddr lba lba_count ctx) s of
                  (ret, s) \<Rightarrow> if ret = 0 then Some (RET_OK, s) else None))"

definition bsys_nvme_read ::
  "'w nvme_env \<Rightarrow> nvme_cfg \<Rightarrow> int \<Rightarrow> u64 \<Rightarrow> u64 \<Rightarrow> u32 \<Rightarrow> u64 \<Rightarrow> 'w nvme_state \<Rightarrow> (int \<times> 'w nvme_state) option" where
  "bsys_nvme_read E cfg h vaddr lba lba_count cookie s =
     (case alloc_local_nvme_ctx E s of
        (None, s) \<Rightarrow> Some (- RET_NOMEM, s)
      | (Some ctx, s) \<Rightarrow>
          let s = upd_ctx ctx (\<lambda>c. c\<lparr>ctx_cookie := cookie\<rparr>) s; paddr = vaddr;
              s = upd_ctx ctx (\<lambda>c. c\<lparr>ub_ptr := vaddr\<rparr>) s in
          if nvme_sched_flag cfg then
            let s = upd_ctx ctx (\<lambda>c. c\<lparr>ctx_tid := cpu_nr cfg, ctx_fg_handle := h, ctx_cmd := NVME_CMD_READ,
                      req_cost := nvme_compute_req_cost cfg NVME_CMD_READ (req_bytes lba_count s),
                      ctx_paddr := paddr, ctx_lba := lba, ctx_lba_count := lba_count\<rparr>) s
            in Some (enqueue_ctx E h ctx s)
          else if lba_count = 0 \<or> (lba div ucast lba_count) * ucast lba_count \<noteq> lba then None
          else (case spdk_submit E (Cmd_read paddr lba lba_count ctx) s of
                  (ret, s) \<Rightarrow> if ret = 0 then Some (RET_OK, s) else None))"

definition bsys_nvme_writev ::
  "'w nvme_env \<Rightarrow> nvme_cfg \<Rightarrow> int \<Rightarrow> u64 \<Rightarrow> int \<Rightarrow> u64 \<Rightarrow> u32 \<Rightarrow> u64 \<Rightarrow> 'w nvme_state \<Rightarrow> (int \<times> 'w nvme_state) option" where
  "bsys_nvme_writev E cfg h bf num_sgls lba lba_count cookie s =
     (case alloc_local_nvme_ctx E s of
        (None, s) \<Rightarrow> Some (- RET_NOMEM, s)
      | (Some ctx, s) \<Rightarrow>
          let s = upd_ctx ctx (\<lambda>c. c\<lparr>ctx_cookie := cookie, ub_ptr := bf, ub_num_sgls := num_sgls\<rparr>) s in
          if nvme_sched_flag cfg then
            let s = upd_ctx ctx (\<lambda>c. c\<lparr>ctx_tid := cpu_nr cfg, ctx_fg_handle := h, ctx_cmd := NVME_CMD_WRITE,
                      req_cost := nvme_compute_req_cost cfg NVME_CMD_WRITE (req_bytes lba_count s),
                      ctx_lba := lba, ctx_lba_count := lba_count\<rparr>) s
            in Some (enqueue_ctx E h ctx s)
          else (case spdk_submit E (Cmd_writev lba lba_count ctx) s of
                  (ret, s) \<Rightarrow> if ret = 0 then Some (RET_OK, s) else None))"

definition bsys_nvme_readv ::
  "'w nvme_env \<Rightarrow> nvme_cfg \<Rightarrow> int \<Rightarrow> u64 \<Rightarrow> int \<Rightarrow> u64 \<Rightarrow> u32 \<Rightarrow> u64 \<Rightarrow> 'w nvme_state \<Rightarrow> (int \<times> 'w nvme_state) option" where
  "bsys_nvme_readv E cfg h bf num_sgls lba lba_count cookie s =
     (case alloc_local_nvme_ctx E s of
        (None, s) \<Rightarrow> Some (- RET_NOMEM, s)
      | (Some ctx, s) \<Rightarrow>
          let s = upd_ctx ctx (\<lambda>c. c\<lparr>ctx_cookie := cookie, ub_ptr := bf, ub_num_sgls := num_sgls\<rparr>) s in
          if nvme_sched_flag cfg then
            let s = upd_ctx ctx (\<lambda>c. c\<lparr>ctx_tid := cpu_nr cfg, ctx_fg_handle := h, ctx_cmd := NVME_CMD_READ,
                      req_cost := nvme_compute_req_cost cfg NVME_CMD_READ (req_bytes lba_count s),
                      ctx_lba := lba, ctx_lba_count := lba_count\<rparr>) s
            in Some (enqueue_ctx E h ctx s)
          else (case spdk_submit E (Cmd_readv lba lba_count ctx) s of
                  (ret, s) \<Rightarrow> if ret = 0 then Some (RET_OK, s) else None))"

section \<open>Scatter-gather callbacks\<close>

text \<open>
  SPDK asks for the buffers of a vectored command through two callbacks.  \<open>mem\<close> reads a pointer of
  the application's memory; \<open>sgl[i]\<close> is at \<open>sgl + 8 * i\<close>.
\<close>

definition sgl_reset_cb :: "nvme_ctx \<Rightarrow> u32 \<Rightarrow> nvme_ctx" where
  "sgl_reset_cb ctx sgl_offset = ctx\<lparr>ub_current_sgl := sint (sgl_offset div SGL_PAGE_SIZE)\<rparr>"

definition sgl_next_cb :: "(u64 \<Rightarrow> u64) \<Rightarrow> nvme_ctx \<Rightarrow> (int \<times> u64 \<times> u32 \<times> nvme_ctx) option" where
  "sgl_next_cb mem ctx =
     (if ub_current_sgl ctx \<ge> ub_num_sgls ctx then None
      else Some (0, mem (ub_ptr ctx + 8 * word_of_int (ub_current_sgl ctx)), 4096,
                 ctx\<lparr>ub_current_sgl := ub_current_sgl ctx + 1\<rparr>))"

section \<open>Handing a request to the device\<close>

definition issue_nvme_req :: "'w nvme_env \<Rightarrow> nvme_cfg \<Rightarrow> ptr \<Rightarrow> 'w nvme_state \<Rightarrow> 'w nvme_state option" where
  "issue_nvme_req E cfg ctx s =
     (let c = ctxs s ctx in
      if nvme_dev_model cfg = FAKE_FLASH then
        let s = (if ctx_cmd c = NVME_CMD_READ then
                   s\<lparr>usys_arr := usys_nvme_response (usys_arr s) (ctx_cookie c) (ub_ptr c) RET_OK,
                     received_nvme_completions := received_nvme_completions s + 1\<rparr>
                 else if ctx_cmd c = NVME_CMD_WRITE then
                   s\<lparr>usys_arr := usys_nvme_written (usys_arr s) (ctx_cookie c) RET_OK,
                     received_nvme_completions := received_nvme_completions s + 1\<rparr>
                 else s)
        in Some (free_local_nvme_ctx E ctx s)
      else do {
        (ret, s) \<leftarrow> (if ctx_cmd c = NVME_CMD_READ then
                       Some (spdk_submit E (Cmd_readv (ctx_lba c) (ctx_lba_count c) ctx) s)
                     else if ctx_cmd c = NVME_CMD_WRITE then
                       Some (spdk_submit E (Cmd_writev (ctx_lba c) (ctx_lba_count c) ctx) s)
                     else None);
        if ret < 0 then None else Some s
      })"

section \<open>Completions\<close>

definition nvme_write_cb :: "'w nvme_env \<Rightarrow> ptr \<Rightarrow> bool \<Rightarrow> 'w nvme_state \<Rightarrow> 'w nvme_state" where
  "nvme_write_cb E ctx error s =
     free_local_nvme_ctx E ctx
       (s\<lparr>usys_arr := usys_nvme_written (usys_arr s) (ctx_cookie (ctxs s ctx)) RET_OK\<rparr>)"

definition nvme_read_cb :: "'w nvme_env \<Rightarrow> ptr \<Rightarrow> bool \<Rightarrow> 'w nvme_state \<Rightarrow> 'w nvme_state" where
  "nvme_read_cb E ctx error s =
     free_local_nvme_ctx E ctx
       (s\<lparr>usys_arr := usys_nvme_response (usys_arr s) (ctx_cookie (ctxs s ctx)) (ub_ptr (ctxs s ctx)) RET_OK\<rparr>)"

fun run_cpl :: "'w nvme_env \<Rightarrow> spdk_cpl \<Rightarrow> 'w nvme_state \<Rightarrow> 'w nvme_state" where
  "run_cpl E (Read_done ctx e) s = nvme_read_cb E ctx e s"
| "run_cpl E (Write_done ctx e) s = nvme_write_cb E ctx e s"

text \<open>
  \<open>nvme_process_completions\<close> first reports the queues opened since the last call, then lets SPDK
  run the callbacks of the finished commands.
\<close>

definition nvme_process_completions :: "'w nvme_env \<Rightarrow> nvme_cfg \<Rightarrow> 'w nvme_state \<Rightarrow> 'w nvme_state" where
  "nvme_process_completions E cfg s =
     (if no_nvme cfg then s
      else
        let s = fold (\<lambda>i s. s\<lparr>usys_arr := usys_nvme_opened (usys_arr s) (open_ev s i) (global_ns_size s) (global_ns_sector_size s),
                     received_nvme_completions := received_nvme_completions s + 1\<rparr>) [0..open_ev_ptr s - 1] s;
            s = s\<lparr>open_ev_ptr := 0\<rparr>;
            (n, cpls, w) = spdk_nvme_qpair_process_completions E 4096 (mp_world (mp s));
            s = fold (run_cpl E) cpls (s\<lparr>mp := (mp s)\<lparr>mp_world := w\<rparr>\<rparr>)
        in s\<lparr>received_nvme_completions := received_nvme_completions s + n\<rparr>)"

section \<open>The shared token bucket\<close>

text \<open>
  \<open>try_acquire_global_tokens\<close> reads the bucket and tries to replace the value it read by a
  compare-and-swap.  Between the two other cores may write the bucket: \<open>vs\<close> lists what they leave
  there, one value per attempt, and after the last one nobody interferes.  The result is the number
  of tokens acquired and the new contents of the bucket.
\<close>

fun try_acquire_global_tokens :: "u64 list \<Rightarrow> u64 \<Rightarrow> u64 \<Rightarrow> u64 \<times> u64" where
  "try_acquire_global_tokens vs token_demand bucket =
     (let avail_tokens = atomic_u64_read bucket;
          bucket' = (case vs of [] \<Rightarrow> bucket | v # _ \<Rightarrow> v);
          (ok, bucket'', got) =
            (if token_demand > avail_tokens then
               (case atomic_u64_cmpxchg bucket' avail_tokens 0 of (ok, b) \<Rightarrow> (ok, b, avail_tokens))
             else
               (case atomic_u64_cmpxchg bucket' avail_tokens (avail_tokens - token_demand) of
                  (ok, b) \<Rightarrow> (ok, b, token_demand)))
      in if ok then (got, bucket'')
         else (case vs of [] \<Rightarrow> (got, bucket'') | _ # vs \<Rightarrow> try_acquire_global_tokens vs token_demand bucket''))"

declare try_acquire_global_tokens.simps [simp del]

end
