(* ===== verification/NvmeSched.thy ===== *)
theory NvmeSched
  imports NvmeIo NvmeTenants
begin

text \<open>
  The scheduler of \<open>nvme/nvmedev.c\<close>.  One round serves the latency-critical tenants against their
  token credit (\<open>nvme_sched_subround1\<close>) and then the best-effort tenants, in round-robin order,
  against the tokens that are left over (\<open>nvme_sched_subround2\<close>).

  The two loops that serve a queue and the search for the next round-robin start have fuel; the
  lemmas \<open>lc_serve_spec\<close>, \<open>be_serve_spec\<close> and \<open>rr_search_spec\<close> of \<open>NvmeServe\<close> show that the fuel given by the
  callers is enough.  \<open>None\<close> also stands for the calls of \<open>panic\<close> in \<open>issue_nvme_req\<close>.
\<close>

section \<open>Latency-critical tenants\<close>

definition upd_swq :: "ptr \<Rightarrow> (nvme_sw_queue \<Rightarrow> nvme_sw_queue) \<Rightarrow> 'w nvme_state \<Rightarrow> 'w nvme_state" where
  "upd_swq q f s = s\<lparr>swqs := (swqs s)(q := f (swqs s q))\<rparr>"

text \<open>Popping the head of queue \<open>q\<close> and issuing it; the result is the request.\<close>

definition pop_issue :: "'w nvme_env \<Rightarrow> nvme_cfg \<Rightarrow> ptr \<Rightarrow> 'w nvme_state \<Rightarrow> (ptr \<times> 'w nvme_state) option" where
  "pop_issue E cfg q s =
     (case nvme_sw_queue_pop_front (ctxs s) (swqs s q) of
        (_, None, _) \<Rightarrow> None
      | (_, Some ctx, q') \<Rightarrow>
          map_option (\<lambda>s. (ctx, s)) (issue_nvme_req E cfg ctx (s\<lparr>swqs := (swqs s)(q := q')\<rparr>)))"

fun lc_serve :: "nat \<Rightarrow> 'w nvme_env \<Rightarrow> nvme_cfg \<Rightarrow> ptr \<Rightarrow> 'w nvme_state \<Rightarrow> 'w nvme_state option" where
  "lc_serve fuel E cfg q s =
     (if nvme_sw_queue_isempty (swqs s q) = 0 \<and> token_credit (swqs s q) > - TOKEN_DEFICIT_LIMIT s then
        case fuel of 0 \<Rightarrow> None | Suc fuel \<Rightarrow>
          (case pop_issue E cfg q s of None \<Rightarrow> None
           | Some (ctx, s) \<Rightarrow>
               lc_serve fuel E cfg q (upd_swq q (\<lambda>x. x\<lparr>token_credit := token_credit x - req_cost (ctxs s ctx)\<rparr>) s))
      else Some s)"

declare lc_serve.simps [simp del]

definition TOKEN_FRAC_GIVEAWAY :: rat where "TOKEN_FRAC_GIVEAWAY = rnd (9 / 10)"

text \<open>The body of the loop of \<open>nvme_sched_subround1\<close> over the tenants; \<open>(s, local_leftover, local_demand)\<close>.\<close>

definition lc_tenant ::
  "'w nvme_env \<Rightarrow> nvme_cfg \<Rightarrow> u64 \<Rightarrow> ptr \<Rightarrow> 'w nvme_state \<times> u64 \<times> u64 \<Rightarrow> ('w nvme_state \<times> u64 \<times> u64) option" where
  "lc_tenant E cfg time_delta q = (\<lambda>(s, local_leftover, local_demand).
     if latency_critical_flag (nvme_fgs s (fg_handle (swqs s q))) then do {
       let token_increment = dadd (dmul (scaled_IOPuS_limit (nvme_fgs s (fg_handle (swqs s q)))) (d_of_int (uint time_delta))) (1 / 2);
       let s = upd_swq q (\<lambda>x. x\<lparr>token_credit := token_credit x + d_trunc token_increment\<rparr>) s;
       s \<leftarrow> lc_serve NVME_SW_QUEUE_SIZE E cfg q s;
       let POS_LIMIT = d_trunc (dmul 3 token_increment);
       let credit = token_credit (swqs s q);
       if credit > POS_LIMIT then
         let given = dmul (d_of_int credit) TOKEN_FRAC_GIVEAWAY
         in Some (upd_swq q (\<lambda>x. x\<lparr>token_credit := d_trunc (dsub (d_of_int credit) given)\<rparr>) s,
                  word_of_int (d_trunc (dadd (d_of_int (uint local_leftover)) given)), local_demand)
       else Some (s, local_leftover, local_demand)
     }
     else Some (s, local_leftover, local_demand + (total_token_demand (swqs s q) - saved_tokens (swqs s q))))"

fun foldM :: "('a \<Rightarrow> 'b \<Rightarrow> 'b option) \<Rightarrow> 'a list \<Rightarrow> 'b \<Rightarrow> 'b option" where
  "foldM f [] b = Some b"
| "foldM f (x # xs) b = (case f x b of None \<Rightarrow> None | Some b \<Rightarrow> foldM f xs b)"

definition nvme_sched_subround1 :: "'w nvme_env \<Rightarrow> nvme_cfg \<Rightarrow> u64 \<Rightarrow> 'w nvme_state \<Rightarrow> 'w nvme_state option" where
  "nvme_sched_subround1 E cfg now s = do {
     let time_delta = now - last_sched_time s;
     let s = s\<lparr>last_sched_time := now\<rparr>;
     (s, local_leftover, local_demand) \<leftarrow> foldM (lc_tenant E cfg time_delta) (tenant_swq s) (s, 0, 0);
     Some (s\<lparr>local_extra_demand := local_demand, local_leftover_tokens := local_leftover\<rparr>)
   }"

section \<open>Best-effort tenants\<close>

fun be_serve :: "nat \<Rightarrow> 'w nvme_env \<Rightarrow> nvme_cfg \<Rightarrow> ptr \<Rightarrow> u64 \<Rightarrow> 'w nvme_state \<Rightarrow> (u64 \<times> 'w nvme_state) option" where
  "be_serve fuel E cfg q be_tokens s =
     (if nvme_sw_queue_isempty (swqs s q) = 0 \<and>
         word_of_int (nvme_sw_queue_peak_head_cost (ctxs s) (swqs s q)) \<le> be_tokens then
        case fuel of 0 \<Rightarrow> None | Suc fuel \<Rightarrow>
          (case pop_issue E cfg q s of None \<Rightarrow> None
           | Some (ctx, s) \<Rightarrow> be_serve fuel E cfg q (be_tokens - word_of_int (req_cost (ctxs s ctx))) s)
      else Some (be_tokens, s))"

declare be_serve.simps [simp del]

text \<open>The body of the two loops of \<open>nvme_sched_subround2\<close> over the tenants; \<open>(s, be_tokens)\<close>.\<close>

definition be_tenant ::
  "'w nvme_env \<Rightarrow> nvme_cfg \<Rightarrow> u64 \<Rightarrow> ptr \<Rightarrow> 'w nvme_state \<times> u64 \<Rightarrow> ('w nvme_state \<times> u64) option" where
  "be_tenant E cfg time_delta_cycles q = (\<lambda>(s, be_tokens).
     if \<not> latency_critical_flag (nvme_fgs s (fg_handle (swqs s q))) then do {
       let (saved, q') = nvme_sw_queue_take_saved_tokens (swqs s q);
       let s = s\<lparr>swqs := (swqs s)(q := q')\<rparr>;
       let be_tokens = be_tokens + saved;
       let token_increment =
         ddiv (d_of_int (uint (word_of_int (atomic_read (global_be_token_rate_per_tenant s)) * time_delta_cycles)))
           (dmul (d_of_int (cycles_per_us cfg)) (d_of_int 1000000));
       let be_tokens = be_tokens + word_of_int (d_trunc (dadd token_increment (1 / 2)));
       (be_tokens, s) \<leftarrow> be_serve NVME_SW_QUEUE_SIZE E cfg q be_tokens s;
       let (saved, q') = nvme_sw_queue_save_tokens (swqs s q) be_tokens;
       Some (s\<lparr>swqs := (swqs s)(q := q')\<rparr>, be_tokens - saved)
     }
     else Some (s, be_tokens))"

text \<open>The search for the next best-effort tenant; it divides by \<open>num_tenants\<close>.\<close>

fun rr_search :: "nat \<Rightarrow> 'w nvme_state \<Rightarrow> int \<Rightarrow> int option" where
  "rr_search fuel s rr =
     (if num_tenants s = 0 then None
      else let rr = (rr + 1) mod num_tenants s
           in if nat rr < length (tenant_swq s) \<and>
                 \<not> latency_critical_flag (nvme_fgs s (fg_handle (swqs s (tenant_swq s ! nat rr))))
              then Some rr
              else (case fuel of 0 \<Rightarrow> None | Suc fuel \<Rightarrow> rr_search fuel s rr))"

declare rr_search.simps [simp del]

definition nvme_sched_subround2 ::
  "'w nvme_env \<Rightarrow> nvme_cfg \<Rightarrow> u64 list \<Rightarrow> u64 \<Rightarrow> 'w nvme_state \<Rightarrow> 'w nvme_state option" where
  "nvme_sched_subround2 E cfg vs now s =
     (let local_leftover = local_leftover_tokens s; local_demand = local_extra_demand s in
      if local_leftover > 0 \<and> local_demand = 0 then
        Some (s\<lparr>global_leftover_tokens := snd (atomic_u64_fetch_and_add (global_leftover_tokens s) local_leftover)\<rparr>)
      else do {
        let (be_tokens, s) =
          (if local_leftover < local_demand then
             (case try_acquire_global_tokens vs (local_demand - local_leftover) (global_leftover_tokens s) of
                (got, bucket) \<Rightarrow> (local_leftover + got, s\<lparr>global_leftover_tokens := bucket\<rparr>))
           else (local_leftover, s));
        let time_delta_cycles = now - last_sched_time_be s;
        let s = s\<lparr>last_sched_time_be := now\<rparr>;
        let start = nat (roundrobin_start s);
        (s, be_tokens) \<leftarrow> foldM (be_tenant E cfg time_delta_cycles) (drop start (tenant_swq s)) (s, be_tokens);
        (s, be_tokens) \<leftarrow> foldM (be_tenant E cfg time_delta_cycles) (take start (tenant_swq s)) (s, be_tokens);
        s \<leftarrow> (if num_best_effort_tenants s > 0
              then map_option (\<lambda>rr. s\<lparr>roundrobin_start := rr\<rparr>) (rr_search (nat (num_tenants s)) s (roundrobin_start s))
              else Some s);
        Some (if be_tokens > 0
              then s\<lparr>global_leftover_tokens := snd (atomic_u64_fetch_and_add (global_leftover_tokens s) be_tokens)\<rparr>
              else s)
      })"

section \<open>A round\<close>

text \<open>
  The two loops of \<open>update_scheduled_bitvector\<close> over the active cores.  The vector is shared and its
  updates are not atomic; here the function runs without interference from other cores.
\<close>

function sched_scan :: "(nat \<Rightarrow> int) \<Rightarrow> nat \<Rightarrow> nat \<Rightarrow> nat" where
  "sched_scan v n i = (if i < n then if v i = 0 then i else sched_scan v n (i + 1) else i)"
  by pat_completeness auto

termination sched_scan
  by (relation "measure (\<lambda>(v, n, i). n - i)") auto

function sched_clear :: "(nat \<Rightarrow> int) \<Rightarrow> nat \<Rightarrow> nat \<Rightarrow> (nat \<Rightarrow> int)" where
  "sched_clear v n i = (if i < n then sched_clear (v(i := 0)) n (i + 1) else v)"
  by pat_completeness auto

termination sched_clear
  by (relation "measure (\<lambda>(v, n, i). n - i)") auto

declare sched_scan.simps [simp del] sched_clear.simps [simp del]

definition update_scheduled_bitvector :: "nvme_cfg \<Rightarrow> 'w nvme_state \<Rightarrow> 'w nvme_state" where
  "update_scheduled_bitvector cfg s =
     (let v = (scheduled_bit_vector s)(unat (cpu_nr cfg) := scheduled_bit_vector s (unat (cpu_nr cfg)) + 1);
          i = sched_scan v (cpus_active cfg) 0
      in if i = cpus_active cfg
         then s\<lparr>global_leftover_tokens := atomic_u64_write (global_leftover_tokens s) 0,
                scheduled_bit_vector := sched_clear v (cpus_active cfg) 0\<rparr>
         else s\<lparr>scheduled_bit_vector := v\<rparr>)"

definition nvme_sched ::
  "'w nvme_env \<Rightarrow> nvme_cfg \<Rightarrow> u64 list \<Rightarrow> u64 \<Rightarrow> u64 \<Rightarrow> 'w nvme_state \<Rightarrow> (int \<times> 'w nvme_state) option" where
  "nvme_sched E cfg vs now tsc s =
     (if num_tenants s = 0 then
        Some (0, update_scheduled_bitvector cfg (s\<lparr>last_sched_time := now, last_sched_time_be := tsc\<rparr>))
      else do {
        s \<leftarrow> nvme_sched_subround1 E cfg now s;
        s \<leftarrow> nvme_sched_subround2 E cfg vs tsc s;
        Some (0, update_scheduled_bitvector cfg (s\<lparr>local_leftover_tokens := 0, local_extra_demand := 0\<rparr>))
      })"

end
