(* ===== verification/NvmeServe.thy ===== *)
theory NvmeServe
  imports NvmeSched
begin

text \<open>
  What the loops of the scheduler do.  Serving a queue is characterised by two abstract rules on the
  list of queued requests, \<open>lc_rule\<close> for a latency-critical and \<open>be_rule\<close> for a best-effort tenant,
  and \<open>lc_serve_spec\<close> and \<open>be_serve_spec\<close> show that the loops follow them with the fuel they are
  given.  \<open>lc_fold_spec\<close> and \<open>be_fold_spec\<close> lift this to a pass over the tenants, the latter with the
  balance of tokens; \<open>rr_search_spec\<close> is the search for the next round-robin start and
  \<open>try_acquire_spec\<close> the access to the shared bucket.
\<close>

section \<open>Issuing requests\<close>

text \<open>
  What the scheduler relies on: SPDK leaves the memory pools alone.  SPDK may refuse a command, by a
  negative result; the code panics then.
\<close>

definition spdk_keeps_pools :: "'w nvme_env \<Rightarrow> (ptr option \<Rightarrow> 'w \<Rightarrow> ptr set) \<Rightarrow> bool" where
  "spdk_keeps_pools E free \<longleftrightarrow> (\<forall>c w pool. free pool (snd (spdk_nvme_ns_cmd E c w)) = free pool w)"

text \<open>Submitting commands one after the other; \<open>None\<close> when SPDK refuses one of them.\<close>

fun spdk_run :: "'w nvme_env \<Rightarrow> spdk_cmd list \<Rightarrow> 'w \<Rightarrow> 'w option" where
  "spdk_run E [] w = Some w"
| "spdk_run E (c # cs) w = (case spdk_nvme_ns_cmd E c w of (ret, w') \<Rightarrow> if ret < 0 then None else spdk_run E cs w')"

lemma spdk_run_append:
  "spdk_run E (cs @ ds) w = (case spdk_run E cs w of None \<Rightarrow> None | Some w' \<Rightarrow> spdk_run E ds w')"
  by (induction cs arbitrary: w) (auto split: prod.split)

text \<open>
  A computation that stops exactly when SPDK refuses one of its commands, and otherwise returns with
  \<open>P\<close>, where \<open>w\<close> is the state SPDK is left in.
\<close>

definition outcome :: "'w option \<Rightarrow> 'a option \<Rightarrow> ('w \<Rightarrow> 'a \<Rightarrow> bool) \<Rightarrow> bool" where
  "outcome W r P \<longleftrightarrow> (case W of None \<Rightarrow> r = None | Some w \<Rightarrow> \<exists>x. r = Some x \<and> P w x)"

lemma outcome_None [simp]: "outcome None r P \<longleftrightarrow> r = None"
  by (simp add: outcome_def)

lemma outcome_Some [simp]: "outcome (Some w) r P \<longleftrightarrow> (\<exists>x. r = Some x \<and> P w x)"
  by (simp add: outcome_def)

lemma outcome_mono: "outcome W r P \<Longrightarrow> (\<And>w x. W = Some w \<Longrightarrow> P w x \<Longrightarrow> Q w x) \<Longrightarrow> outcome W r Q"
  by (auto simp: outcome_def split: option.splits)

lemma outcome_map: "outcome W r P \<Longrightarrow> (\<And>w x. P w x \<Longrightarrow> Q w (f x)) \<Longrightarrow> outcome W (map_option f r) Q"
  by (auto simp: outcome_def split: option.splits)

lemma outcome_then:
  "outcome W r P \<Longrightarrow> (\<And>w x. P w x \<Longrightarrow> \<exists>y. f x = Some y \<and> Q w y) \<Longrightarrow> outcome W (Option.bind r f) Q"
  by (auto simp: outcome_def split: option.splits)

lemma outcome_bind:
  assumes "outcome W r P" "\<And>w x. P w x \<Longrightarrow> outcome (W' w) (f x) Q"
  shows "outcome (case W of None \<Rightarrow> None | Some w \<Rightarrow> W' w) (case r of None \<Rightarrow> None | Some x \<Rightarrow> f x) Q"
  using assms by (cases W) auto

definition req_ok :: "nvme_ctx \<Rightarrow> bool" where
  "req_ok c \<longleftrightarrow> ctx_cmd c = NVME_CMD_READ \<or> ctx_cmd c = NVME_CMD_WRITE"

text \<open>The command that a request becomes.\<close>

definition req_cmd :: "ctx_heap \<Rightarrow> ptr \<Rightarrow> spdk_cmd" where
  "req_cmd h p = (if ctx_cmd (h p) = NVME_CMD_READ then Cmd_readv (ctx_lba (h p)) (ctx_lba_count (h p)) p
                  else Cmd_writev (ctx_lba (h p)) (ctx_lba_count (h p)) p)"

text \<open>What serving requests changes: the queues, the state of SPDK and the submitted commands.\<close>

definition sched_frame :: "(ptr option \<Rightarrow> 'w \<Rightarrow> ptr set) \<Rightarrow> 'w nvme_state \<Rightarrow> 'w nvme_state \<Rightarrow> bool" where
  "sched_frame free s s' \<longleftrightarrow> s' = s\<lparr>swqs := swqs s', mp := mp s', sq := sq s'\<rparr> \<and>
     (\<forall>m. mempool_avail free m (mp s') = mempool_avail free m (mp s)) \<and>
     (\<forall>q. fg_handle (swqs s' q) = fg_handle (swqs s q)) \<and>
     (\<forall>q. swq_inv (swqs s q) \<longrightarrow> swq_inv (swqs s' q)) \<and>
     (\<forall>q. set (swq_items (swqs s' q)) \<subseteq> set (swq_items (swqs s q)))"

lemma sched_frame_refl: "sched_frame free s s"
  by (simp add: sched_frame_def)

lemma sched_frame_sel:
  assumes "sched_frame free s s'"
  shows "ctxs s' = ctxs s" "nvme_fgs s' = nvme_fgs s" "tenant_swq s' = tenant_swq s" "num_tenants s' = num_tenants s"
    "num_best_effort_tenants s' = num_best_effort_tenants s" "TOKEN_DEFICIT_LIMIT s' = TOKEN_DEFICIT_LIMIT s"
    "roundrobin_start s' = roundrobin_start s" "nvme_fgs_bitmap s' = nvme_fgs_bitmap s"
    "nvme_swq_mempool s' = nvme_swq_mempool s" "global_leftover_tokens s' = global_leftover_tokens s"
    "global_be_token_rate_per_tenant s' = global_be_token_rate_per_tenant s" "last_sched_time s' = last_sched_time s"
    "last_sched_time_be s' = last_sched_time_be s" "scheduled_bit_vector s' = scheduled_bit_vector s"
    "local_extra_demand s' = local_extra_demand s" "local_leftover_tokens s' = local_leftover_tokens s" "usys_arr s' = usys_arr s"
proof -
  have e: "s' = s\<lparr>swqs := swqs s', mp := mp s', sq := sq s'\<rparr>" using assms by (simp add: sched_frame_def)
  show "ctxs s' = ctxs s" "nvme_fgs s' = nvme_fgs s" "tenant_swq s' = tenant_swq s" "num_tenants s' = num_tenants s"
    "num_best_effort_tenants s' = num_best_effort_tenants s" "TOKEN_DEFICIT_LIMIT s' = TOKEN_DEFICIT_LIMIT s"
    "roundrobin_start s' = roundrobin_start s" "nvme_fgs_bitmap s' = nvme_fgs_bitmap s"
    "nvme_swq_mempool s' = nvme_swq_mempool s" "global_leftover_tokens s' = global_leftover_tokens s"
    "global_be_token_rate_per_tenant s' = global_be_token_rate_per_tenant s" "last_sched_time s' = last_sched_time s"
    "last_sched_time_be s' = last_sched_time_be s" "scheduled_bit_vector s' = scheduled_bit_vector s"
    "local_extra_demand s' = local_extra_demand s" "local_leftover_tokens s' = local_leftover_tokens s" "usys_arr s' = usys_arr s"
    by (subst e, simp)+
qed

lemma sched_frame_trans:
  assumes "sched_frame free s s'" "sched_frame free s' s''"
  shows "sched_frame free s s''"
proof -
  have e: "s' = s\<lparr>swqs := swqs s', mp := mp s', sq := sq s'\<rparr>" "s'' = s'\<lparr>swqs := swqs s'', mp := mp s'', sq := sq s''\<rparr>"
    using assms by (simp_all add: sched_frame_def)
  have "s'' = s\<lparr>swqs := swqs s'', mp := mp s'', sq := sq s''\<rparr>" by (subst e(2), subst e(1), simp)
  moreover have "set (swq_items (swqs s'' q)) \<subseteq> set (swq_items (swqs s q))" for q
    using assms unfolding sched_frame_def by (meson subset_trans)
  ultimately show ?thesis using assms unfolding sched_frame_def by simp
qed

lemma sched_frame_tenant_inv:
  assumes "sched_frame free s s'" "tenant_inv free s"
  shows "tenant_inv free s'"
proof -
  note sel = sched_frame_sel [OF assms(1)]
  have f: "\<forall>q. fg_handle (swqs s' q) = fg_handle (swqs s q)" "\<forall>q. swq_inv (swqs s q) \<longrightarrow> swq_inv (swqs s' q)"
    "\<forall>m. mempool_avail free m (mp s') = mempool_avail free m (mp s)"
    using assms(1) by (auto simp: sched_frame_def)
  have "tenant_ok s q \<Longrightarrow> tenant_ok s' q" "is_be s' q = is_be s q" for q
    using f sel by (auto simp: tenant_ok_def is_be_def)
  moreover from this have "is_be s' = is_be s" by auto
  ultimately show ?thesis using assms(2) f(3) sel by (simp add: tenant_inv_def)
qed

text \<open>Changing the token fields of a queue is such a step.\<close>

lemma sched_frame_upd_swq:
  assumes "\<And>x. buf (f x) = buf x \<and> count (f x) = count x \<and> head (f x) = head x \<and> tail (f x) = tail x \<and> fg_handle (f x) = fg_handle x"
  shows "sched_frame free s (upd_swq q f s)"
proof -
  have "swq_inv (f x) = swq_inv x" "swq_items (f x) = swq_items x" for x
    using assms [of x] by (simp_all add: swq_inv_def swq_items_def)
  then show ?thesis using assms by (auto simp: sched_frame_def upd_swq_def mempool_avail_def)
qed

abbreviation world :: "'w nvme_state \<Rightarrow> 'w" where
  "world s \<equiv> mp_world (mp s)"

text \<open>The requests \<open>ys\<close> at the head of queue \<open>q\<close> have been submitted, and no other queue has changed.\<close>

definition issues :: "(ptr option \<Rightarrow> 'w \<Rightarrow> ptr set) \<Rightarrow> ptr \<Rightarrow> ptr list \<Rightarrow> 'w nvme_state \<Rightarrow> 'w nvme_state \<Rightarrow> bool" where
  "issues free q ys s s' \<longleftrightarrow> sched_frame free s s' \<and> sq s' = sq s @ map (req_cmd (ctxs s)) ys \<and>
     swq_items (swqs s q) = ys @ swq_items (swqs s' q) \<and> (\<forall>p. p \<noteq> q \<longrightarrow> swqs s' p = swqs s p)"

lemma issues_trans:
  assumes "issues free q ys s s1" "issues free q zs s1 s'"
  shows "issues free q (ys @ zs) s s'"
proof -
  have "ctxs s1 = ctxs s" using assms(1) sched_frame_sel(1) [of free s s1] by (simp add: issues_def)
  then show ?thesis using assms sched_frame_trans [of free s s1 s'] by (simp add: issues_def)
qed

lemma issues_refl: "issues free q [] s s"
  by (simp add: issues_def sched_frame_refl)

lemma issues_upd_swq:
  assumes "\<And>x. buf (f x) = buf x \<and> count (f x) = count x \<and> head (f x) = head x \<and> tail (f x) = tail x \<and> fg_handle (f x) = fg_handle x"
  shows "issues free q [] s (upd_swq q f s)"
proof -
  have "swq_items (f x) = swq_items x" for x using assms [of x] by (simp add: swq_items_def)
  then show ?thesis using sched_frame_upd_swq [OF assms, of free s q] by (simp add: issues_def) (simp add: upd_swq_def)
qed

lemma issues_inv:
  assumes "issues free q ys s s'" "swq_inv (swqs s q)" "\<forall>x \<in> set (swq_items (swqs s q)). req_ok (ctxs s x)"
  shows "swq_inv (swqs s' q)" "\<forall>x \<in> set (swq_items (swqs s' q)). req_ok (ctxs s' x)" "ctxs s' = ctxs s"
    "TOKEN_DEFICIT_LIMIT s' = TOKEN_DEFICIT_LIMIT s"
proof -
  have f: "sched_frame free s s'" using assms(1) by (simp add: issues_def)
  show "ctxs s' = ctxs s" "TOKEN_DEFICIT_LIMIT s' = TOKEN_DEFICIT_LIMIT s" using sched_frame_sel [OF f] by simp_all
  then show "swq_inv (swqs s' q)" "\<forall>x \<in> set (swq_items (swqs s' q)). req_ok (ctxs s' x)"
    using f assms by (simp_all add: sched_frame_def issues_def)
qed

lemma pop_issue_spec:
  assumes inv: "swq_inv (swqs s q)" "swq_items (swqs s q) = x # xs" and spdk: "spdk_keeps_pools E free"
    and ok: "req_ok (ctxs s x)" "nvme_dev_model cfg \<noteq> FAKE_FLASH"
  shows "outcome (spdk_run E [req_cmd (ctxs s) x] (world s)) (pop_issue E cfg q s) (\<lambda>w z. fst z = x \<and>
    issues free q [x] s (snd z) \<and> world (snd z) = w \<and> token_credit (swqs (snd z) q) = token_credit (swqs s q) \<and>
    saved_tokens (swqs (snd z) q) = saved_tokens (swqs s q))"
proof -
  obtain q' where q': "nvme_sw_queue_pop_front (ctxs s) (swqs s q) = (0, Some x, q')" "swq_inv q'" "swq_items q' = xs"
    using swq.pop_ok [OF inv] by blast
  have sel: "token_credit q' = token_credit (swqs s q)" "saved_tokens q' = saved_tokens (swqs s q)"
    "fg_handle q' = fg_handle (swqs s q)"
    using q'(1) by (auto simp: nvme_sw_queue_pop_front_def EAGAIN_def Let_def split: if_splits)
  let ?r = "spdk_nvme_ns_cmd E (req_cmd (ctxs s) x) (world s)"
  define s' where "s' = s\<lparr>swqs := (swqs s)(q := q'), mp := (mp s)\<lparr>mp_world := snd ?r\<rparr>, sq := sq s @ [req_cmd (ctxs s) x]\<rparr>"
  have "issue_nvme_req E cfg x (s\<lparr>swqs := (swqs s)(q := q')\<rparr>) = (if fst ?r < 0 then None else Some s')"
    using ok unfolding issue_nvme_req_def Let_def
    by (auto simp: spdk_submit_def req_cmd_def s'_def req_ok_def NVME_CMD_READ_def NVME_CMD_WRITE_def case_prod_beta)
  then have p: "pop_issue E cfg q s = (if fst ?r < 0 then None else Some (x, s'))" using q'(1) by (simp add: pop_issue_def)
  have "sched_frame free s s'"
    using q' sel inv(2) spdk by (auto simp: sched_frame_def s'_def mempool_avail_def spdk_keeps_pools_def)
  then have "issues free q [x] s s'" using q'(3) inv(2) by (simp add: issues_def) (simp add: s'_def)
  then show ?thesis using p sel by (simp add: case_prod_beta) (simp add: s'_def)
qed

section \<open>Serving a latency-critical tenant\<close>

text \<open>
  The abstract rule: serve requests in order as long as the credit is above the deficit limit, and
  charge their cost.
\<close>

fun lc_rule :: "(ptr \<Rightarrow> int) \<Rightarrow> int \<Rightarrow> int \<Rightarrow> ptr list \<Rightarrow> ptr list" where
  "lc_rule cost limit credit [] = []"
| "lc_rule cost limit credit (x # xs) =
     (if credit > - limit then x # lc_rule cost limit (credit - cost x) xs else [])"

lemma lc_rule_prefix: "\<exists>zs. xs = lc_rule cost limit credit xs @ zs"
  by (induction xs arbitrary: credit) auto

lemma lc_rule_stop:
  "lc_rule cost limit credit xs = xs \<or> credit - (\<Sum>x \<leftarrow> lc_rule cost limit credit xs. cost x) \<le> - limit"
proof (induction xs arbitrary: credit)
  case (Cons x xs)
  then show ?case using Cons.IH [of "credit - cost x"] by (auto simp: algebra_simps)
qed simp

text \<open>Every served request was served at a credit strictly above the limit.\<close>

lemma lc_rule_above:
  "i < length (lc_rule cost limit credit xs) \<Longrightarrow>
   - limit < credit - (\<Sum>x \<leftarrow> take i (lc_rule cost limit credit xs). cost x)"
proof (induction xs arbitrary: credit i)
  case (Cons x xs)
  show ?case
  proof (cases i)
    case (Suc j)
    then show ?thesis using Cons.prems Cons.IH [of j "credit - cost x"] by (auto simp: algebra_simps split: if_splits)
  qed (use Cons.prems in \<open>auto split: if_splits\<close>)
qed simp

lemma lc_rule_bound:
  "(\<And>x. x \<in> set xs \<Longrightarrow> cost x \<le> m) \<Longrightarrow> 0 \<le> m \<Longrightarrow>
   min credit (1 - limit - m) \<le> credit - (\<Sum>x \<leftarrow> lc_rule cost limit credit xs. cost x)"
proof (induction xs arbitrary: credit)
  case (Cons x xs)
  show ?case
  proof (cases "credit > - limit")
    case True
    have "min (credit - cost x) (1 - limit - m) \<le> credit - cost x - (\<Sum>y \<leftarrow> lc_rule cost limit (credit - cost x) xs. cost y)"
      using Cons by simp
    moreover have "cost x \<le> m" using Cons.prems(1) by simp
    ultimately show ?thesis using True by simp
  qed (use Cons.prems in simp)
qed simp

lemma swq_isempty_0: "swq_inv q \<Longrightarrow> nvme_sw_queue_isempty q = 0 \<longleftrightarrow> swq_items q \<noteq> []"
  by (simp add: swq_isempty)

text \<open>A loop with an empty queue ends at once.\<close>

lemma swq_isempty_Nil: "swq_inv q \<Longrightarrow> swq_items q = [] \<Longrightarrow> nvme_sw_queue_isempty q \<noteq> 0"
  by (simp add: swq_isempty)

lemma lc_serve_stop:
  "swq_inv (swqs s q) \<Longrightarrow> swq_items (swqs s q) = [] \<or> \<not> token_credit (swqs s q) > - TOKEN_DEFICIT_LIMIT s \<Longrightarrow>
   lc_serve fuel E cfg q s = Some s"
  by (subst lc_serve.simps) (auto dest: swq_isempty_Nil)

lemma lc_serve_spec:
  assumes spdk: "spdk_keeps_pools E free" and dev: "nvme_dev_model cfg \<noteq> FAKE_FLASH"
  shows "swq_inv (swqs s q) \<Longrightarrow> \<forall>x \<in> set (swq_items (swqs s q)). req_ok (ctxs s x) \<Longrightarrow>
    length (swq_items (swqs s q)) \<le> fuel \<Longrightarrow>
    ys = lc_rule (\<lambda>x. req_cost (ctxs s x)) (TOKEN_DEFICIT_LIMIT s) (token_credit (swqs s q)) (swq_items (swqs s q)) \<Longrightarrow>
    outcome (spdk_run E (map (req_cmd (ctxs s)) ys) (world s)) (lc_serve fuel E cfg q s) (\<lambda>w s'. issues free q ys s s' \<and>
      world s' = w \<and> token_credit (swqs s' q) = token_credit (swqs s q) - (\<Sum>x \<leftarrow> ys. req_cost (ctxs s x)))"
proof (induction fuel arbitrary: s ys)
  case 0
  then have "swq_items (swqs s q) = []" by (metis le_zero_eq length_0_conv)
  then show ?case using 0 lc_serve_stop [of s q 0 E cfg] issues_refl [of free q s] by simp
next
  case (Suc fuel)
  let ?c = "token_credit (swqs s q)" and ?L = "TOKEN_DEFICIT_LIMIT s"
  show ?case
  proof (cases "swq_items (swqs s q) = [] \<or> \<not> ?c > - ?L")
    case True
    then have "ys = []" using Suc.prems(4) by (cases "swq_items (swqs s q)") auto
    then show ?thesis using lc_serve_stop [OF Suc.prems(1) True] issues_refl [of free q s] by simp
  next
    case False
    then obtain x xs where x: "swq_items (swqs s q) = x # xs" "?c > - ?L" by (cases "swq_items (swqs s q)") auto
    define zs where "zs = lc_rule (\<lambda>x. req_cost (ctxs s x)) ?L (?c - req_cost (ctxs s x)) xs"
    have ys: "map (req_cmd (ctxs s)) ys = [req_cmd (ctxs s) x] @ map (req_cmd (ctxs s)) zs" "ys = [x] @ zs"
      using Suc.prems(4) x by (simp_all add: zs_def)
    have e: "lc_serve (Suc fuel) E cfg q s = (case pop_issue E cfg q s of None \<Rightarrow> None | Some z \<Rightarrow> (case z of (ctx, s) \<Rightarrow>
        lc_serve fuel E cfg q (upd_swq q (\<lambda>x. x\<lparr>token_credit := token_credit x - req_cost (ctxs s ctx)\<rparr>) s)))"
      using x swq_isempty_0 [OF Suc.prems(1)] by (subst lc_serve.simps) simp
    have rx: "req_ok (ctxs s x)" using Suc.prems(2) x by simp
    show ?thesis unfolding e ys(1) spdk_run_append
    proof (rule outcome_bind [OF pop_issue_spec [OF Suc.prems(1) x(1) spdk rx dev]])
      fix w z assume z: "fst z = x \<and> issues free q [x] s (snd z) \<and> world (snd z) = w \<and>
        token_credit (swqs (snd z) q) = ?c \<and> saved_tokens (swqs (snd z) q) = saved_tokens (swqs s q)"
      define s2 where "s2 = upd_swq q (\<lambda>x. x\<lparr>token_credit := token_credit x - req_cost (ctxs (snd z) (fst z))\<rparr>) (snd z)"
      have "issues free q [] (snd z) s2" unfolding s2_def by (rule issues_upd_swq) simp
      then have i: "issues free q [x] s s2" using z issues_trans [of free q "[x]" s "snd z" "[]" s2] by simp
      note inv = issues_inv [OF i Suc.prems(1,2)]
      have "ctxs (snd z) = ctxs s" using z issues_inv(3) [OF _ Suc.prems(1,2)] by blast
      then have c: "token_credit (swqs s2 q) = ?c - req_cost (ctxs s x)" "world s2 = w" using z by (simp_all add: s2_def upd_swq_def)
      have xs: "swq_items (swqs s2 q) = xs" using i x(1) by (simp add: issues_def)
      have "outcome (spdk_run E (map (req_cmd (ctxs s)) zs) w) (lc_serve fuel E cfg q s2) (\<lambda>w s'. issues free q zs s2 s' \<and>
          world s' = w \<and> token_credit (swqs s' q) = ?c - req_cost (ctxs s x) - (\<Sum>x \<leftarrow> zs. req_cost (ctxs s x)))"
        using Suc.IH [OF inv(1,2), of zs] Suc.prems(3) x(1) unfolding inv(3,4) c xs zs_def by simp
      then show "outcome (spdk_run E (map (req_cmd (ctxs s)) zs) w) (case z of (ctx, s) \<Rightarrow>
          lc_serve fuel E cfg q (upd_swq q (\<lambda>x. x\<lparr>token_credit := token_credit x - req_cost (ctxs s ctx)\<rparr>) s))
          (\<lambda>w s'. issues free q ys s s' \<and> world s' = w \<and> token_credit (swqs s' q) = ?c - (\<Sum>x \<leftarrow> ys. req_cost (ctxs s x)))"
        unfolding case_prod_beta s2_def [symmetric] ys(2)
        by (rule outcome_mono) (use issues_trans [OF i] in simp)
    qed
  qed
qed

section \<open>Serving a best-effort tenant\<close>

fun be_rule :: "(ptr \<Rightarrow> int) \<Rightarrow> u64 \<Rightarrow> ptr list \<Rightarrow> ptr list" where
  "be_rule cost t [] = []"
| "be_rule cost t (x # xs) =
     (if word_of_int (cost x) \<le> t then x # be_rule cost (t - word_of_int (cost x)) xs else [])"

lemma be_rule_prefix: "\<exists>zs. xs = be_rule cost t xs @ zs"
  by (induction xs arbitrary: t) auto

text \<open>With costs in the range of \<open>int\<close> the subtraction does not wrap: what is spent was there.\<close>

lemma be_rule_exact:
  "(\<And>x. x \<in> set xs \<Longrightarrow> 0 \<le> cost x \<and> cost x < 2 ^ 31) \<Longrightarrow>
   uint t = uint (t - word_of_int (\<Sum>x \<leftarrow> be_rule cost t xs. cost x)) + (\<Sum>x \<leftarrow> be_rule cost t xs. cost x)"
proof (induction xs arbitrary: t)
  case (Cons x xs)
  show ?case
  proof (cases "word_of_int (cost x) \<le> t")
    case True
    have c: "0 \<le> cost x" "cost x < 2 ^ 31" using Cons.prems by auto
    then have w: "uint (word_of_int (cost x) :: u64) = cost x" by (simp add: uint_word_of_int)
    have u: "uint (t - word_of_int (cost x)) = uint t - cost x"
      using True uint_sub_lem [of "word_of_int (cost x)" t] unfolding w word_le_def by blast
    define r where "r = be_rule cost (t - word_of_int (cost x)) xs"
    have "uint (t - word_of_int (cost x)) = uint (t - word_of_int (cost x) - word_of_int (\<Sum>x \<leftarrow> r. cost x)) + (\<Sum>x \<leftarrow> r. cost x)"
      unfolding r_def using Cons.prems by (intro Cons.IH) simp
    moreover have "be_rule cost t (x # xs) = x # r" using True by (simp add: r_def)
    moreover have "t - word_of_int (\<Sum>x \<leftarrow> x # r. cost x) = t - word_of_int (cost x) - word_of_int (\<Sum>x \<leftarrow> r. cost x)"
      by (simp add: diff_diff_eq)
    ultimately show ?thesis using u by (simp only: list.map sum_list.Cons)
  qed simp
qed simp

text \<open>Serving stops at an empty queue or at a request that costs more than the tokens left.\<close>

lemma be_rule_stop:
  "be_rule cost t xs = xs \<or> (\<exists>z zs. xs = be_rule cost t xs @ z # zs \<and>
     t - word_of_int (\<Sum>x \<leftarrow> be_rule cost t xs. cost x) < word_of_int (cost z))"
proof (induction xs arbitrary: t)
  case (Cons x xs)
  show ?case
  proof (cases "word_of_int (cost x) \<le> t")
    case True
    then show ?thesis using Cons.IH [of "t - word_of_int (cost x)"] by (auto simp: diff_diff_eq)
  qed (auto simp: not_le)
qed simp

definition cost_of :: "ctx_heap \<Rightarrow> ptr list \<Rightarrow> int" where
  "cost_of h ys = (\<Sum>x \<leftarrow> ys. req_cost (h x))"

lemma cost_of_simps [simp]: "cost_of h [] = 0" "cost_of h (y # ys) = req_cost (h y) + cost_of h ys"
  "cost_of h (ys @ zs) = cost_of h ys + cost_of h zs"
  by (simp_all add: cost_of_def)

lemma be_serve_stop:
  "swq_inv (swqs s q) \<Longrightarrow> swq_items (swqs s q) = [] \<or> \<not> word_of_int (nvme_sw_queue_peak_head_cost (ctxs s) (swqs s q)) \<le> t \<Longrightarrow>
   be_serve fuel E cfg q t s = Some (t, s)"
  by (subst be_serve.simps) (auto dest: swq_isempty_Nil)

lemma be_serve_spec:
  assumes spdk: "spdk_keeps_pools E free" and dev: "nvme_dev_model cfg \<noteq> FAKE_FLASH"
  shows "swq_inv (swqs s q) \<Longrightarrow> \<forall>x \<in> set (swq_items (swqs s q)). req_ok (ctxs s x) \<Longrightarrow>
    length (swq_items (swqs s q)) \<le> fuel \<Longrightarrow> ys = be_rule (\<lambda>x. req_cost (ctxs s x)) t (swq_items (swqs s q)) \<Longrightarrow>
    outcome (spdk_run E (map (req_cmd (ctxs s)) ys) (world s)) (be_serve fuel E cfg q t s) (\<lambda>w z.
      fst z = t - word_of_int (cost_of (ctxs s) ys) \<and> issues free q ys s (snd z) \<and> world (snd z) = w \<and>
      saved_tokens (swqs (snd z) q) = saved_tokens (swqs s q))"
proof (induction fuel arbitrary: s ys t)
  case 0
  then have "swq_items (swqs s q) = []" by (metis le_zero_eq length_0_conv)
  then show ?case using 0 be_serve_stop [of s q t 0 E cfg] issues_refl [of free q s] by simp
next
  case (Suc fuel)
  let ?cost = "\<lambda>x. req_cost (ctxs s x)"
  show ?case
  proof (cases "swq_items (swqs s q) = [] \<or> \<not> word_of_int (nvme_sw_queue_peak_head_cost (ctxs s) (swqs s q)) \<le> t")
    case True
    then have "ys = []" using Suc.prems(4) swq_peak [OF Suc.prems(1)] by (cases "swq_items (swqs s q)") auto
    then show ?thesis using be_serve_stop [OF Suc.prems(1) True] issues_refl [of free q s] by simp
  next
    case False
    then obtain x xs where x: "swq_items (swqs s q) = x # xs" "word_of_int (?cost x) \<le> t"
      using swq_peak [OF Suc.prems(1)] by (cases "swq_items (swqs s q)") auto
    define zs where "zs = be_rule ?cost (t - word_of_int (?cost x)) xs"
    have ys: "map (req_cmd (ctxs s)) ys = [req_cmd (ctxs s) x] @ map (req_cmd (ctxs s)) zs" "ys = [x] @ zs"
      using Suc.prems(4) x by (simp_all add: zs_def)
    have e: "be_serve (Suc fuel) E cfg q t s = (case pop_issue E cfg q s of None \<Rightarrow> None | Some z \<Rightarrow> (case z of (ctx, s) \<Rightarrow>
        be_serve fuel E cfg q (t - word_of_int (req_cost (ctxs s ctx))) s))"
      using False swq_isempty_0 [OF Suc.prems(1)] by (subst be_serve.simps) simp
    have rx: "req_ok (ctxs s x)" using Suc.prems(2) x by simp
    show ?thesis unfolding e ys(1) spdk_run_append
    proof (rule outcome_bind [OF pop_issue_spec [OF Suc.prems(1) x(1) spdk rx dev]])
      fix w z assume z: "fst z = x \<and> issues free q [x] s (snd z) \<and> world (snd z) = w \<and>
        token_credit (swqs (snd z) q) = token_credit (swqs s q) \<and> saved_tokens (swqs (snd z) q) = saved_tokens (swqs s q)"
      then have i: "issues free q [x] s (snd z)" by blast
      note inv = issues_inv [OF i Suc.prems(1,2)]
      have xs: "swq_items (swqs (snd z) q) = xs" using i x(1) by (simp add: issues_def)
      have "outcome (spdk_run E (map (req_cmd (ctxs s)) zs) w) (be_serve fuel E cfg q (t - word_of_int (?cost x)) (snd z)) (\<lambda>w z'.
          fst z' = t - word_of_int (?cost x) - word_of_int (cost_of (ctxs s) zs) \<and> issues free q zs (snd z) (snd z') \<and> world (snd z') = w \<and>
          saved_tokens (swqs (snd z') q) = saved_tokens (swqs (snd z) q))"
        using Suc.IH [OF inv(1,2), of zs "t - word_of_int (?cost x)"] Suc.prems(3) x(1) z unfolding inv(3) xs zs_def by simp
      then show "outcome (spdk_run E (map (req_cmd (ctxs s)) zs) w)
          (case z of (ctx, s) \<Rightarrow> be_serve fuel E cfg q (t - word_of_int (req_cost (ctxs s ctx))) s)
          (\<lambda>w z. fst z = t - word_of_int (cost_of (ctxs s) ys) \<and> issues free q ys s (snd z) \<and> world (snd z) = w \<and>
            saved_tokens (swqs (snd z) q) = saved_tokens (swqs s q))"
        unfolding case_prod_beta inv(3) ys(2) conjunct1 [OF z]
        by (rule outcome_mono) (use issues_trans [OF i] z in \<open>simp add: diff_diff_eq\<close>)
    qed
  qed
qed

section \<open>Tokens are conserved\<close>

definition queues_ok :: "'w nvme_state \<Rightarrow> bool" where
  "queues_ok s \<longleftrightarrow> (\<forall>q \<in> set (tenant_swq s). swq_inv (swqs s q) \<and> (\<forall>x \<in> set (swq_items (swqs s q)). req_ok (ctxs s x)))"

lemma sched_frame_queues_ok:
  assumes "sched_frame free s s'" "queues_ok s"
  shows "queues_ok s'"
proof -
  have "swq_inv (swqs s q) \<longrightarrow> swq_inv (swqs s' q)" "set (swq_items (swqs s' q)) \<subseteq> set (swq_items (swqs s q))" for q
    using assms(1) by (simp_all add: sched_frame_def)
  then show ?thesis using assms(2) unfolding queues_ok_def sched_frame_sel [OF assms(1)] by blast
qed

lemma sched_frame_is_be: "sched_frame free s s' \<Longrightarrow> is_be s' = is_be s"
  using sched_frame_sel(2) [of free s s'] by (auto simp: is_be_def sched_frame_def)

text \<open>The tokens that a best-effort tenant is given for the time since the last round.\<close>

definition be_increment :: "nvme_cfg \<Rightarrow> u64 \<Rightarrow> 'w nvme_state \<Rightarrow> u64" where
  "be_increment cfg time_delta_cycles s = word_of_int (d_trunc (dadd
     (ddiv (d_of_int (uint (word_of_int (atomic_read (global_be_token_rate_per_tenant s)) * time_delta_cycles)))
        (dmul (d_of_int (cycles_per_us cfg)) (d_of_int 1000000))) (1 / 2)))"

text \<open>The saved tokens and the number of the best-effort tenants among \<open>qs\<close>, as integers.\<close>

definition be_saved :: "'w nvme_state \<Rightarrow> ptr list \<Rightarrow> int" where
  "be_saved s qs = (\<Sum>q \<leftarrow> filter (is_be s) qs. uint (saved_tokens (swqs s q)))"

definition be_count :: "'w nvme_state \<Rightarrow> ptr list \<Rightarrow> int" where
  "be_count s qs = int (length (filter (is_be s) qs))"

lemma be_saved_simps [simp]: "be_saved s [] = 0" "be_saved s (qs @ rs) = be_saved s qs + be_saved s rs"
  "be_saved s (q # qs) = (if is_be s q then uint (saved_tokens (swqs s q)) else 0) + be_saved s qs"
  by (simp_all add: be_saved_def)

lemma be_count_simps [simp]: "be_count s [] = 0" "be_count s (qs @ rs) = be_count s qs + be_count s rs"
  "be_count s (q # qs) = (if is_be s q then 1 else 0) + be_count s qs"
  by (simp_all add: be_count_def)

lemma be_saved_nonneg: "0 \<le> be_saved s qs" "0 \<le> be_count s qs"
  by (induction qs) simp_all

lemma be_saved_cong:
  assumes "sched_frame free s s'" "\<And>q. q \<in> set qs \<Longrightarrow> swqs s' q = swqs s q"
  shows "be_saved s' qs = be_saved s qs"
  unfolding be_saved_def sched_frame_is_be [OF assms(1)] using assms(2) by (intro arg_cong [where f = sum_list] map_cong) auto

text \<open>Costs are what \<open>nvme_compute_req_cost\<close> gives without an overflow: not negative, and an \<open>int\<close>.\<close>

definition costs_ok :: "'w nvme_state \<Rightarrow> ptr list \<Rightarrow> bool" where
  "costs_ok s qs \<longleftrightarrow> (\<forall>q \<in> set qs. \<forall>x \<in> set (swq_items (swqs s q)). 0 \<le> req_cost (ctxs s x) \<and> req_cost (ctxs s x) < 2 ^ 31)"

text \<open>
  The balance of a pass over the tenants \<open>qs\<close> that starts with \<open>t\<close> tokens, gives \<open>inc\<close> to each
  best-effort tenant, spends \<open>cost\<close> and ends with \<open>t'\<close> tokens.  It holds between integers when the
  tokens there are fit 64 bits: no addition and no subtraction of the code wraps.
\<close>

definition balanced :: "ptr list \<Rightarrow> u64 \<Rightarrow> u64 \<Rightarrow> int \<Rightarrow> 'w nvme_state \<Rightarrow> u64 \<Rightarrow> 'w nvme_state \<Rightarrow> bool" where
  "balanced qs t inc cost s t' s' \<longleftrightarrow> (costs_ok s qs \<and> uint t + be_saved s qs + be_count s qs * uint inc < 2 ^ 64 \<longrightarrow>
     uint t + be_saved s qs + be_count s qs * uint inc = uint t' + be_saved s' qs + cost)"

lemma swq_items_take [simp]: "swq_items (snd (nvme_sw_queue_take_saved_tokens q)) = swq_items q"
  "swq_inv (snd (nvme_sw_queue_take_saved_tokens q)) = swq_inv q"
  by (simp_all add: nvme_sw_queue_take_saved_tokens_def swq_items_def swq_inv_def)

lemma save_tokens_after_0:
  "saved_tokens q = 0 \<Longrightarrow> saved_tokens (snd (nvme_sw_queue_save_tokens q t)) = fst (nvme_sw_queue_save_tokens q t)"
  by (simp add: nvme_sw_queue_save_tokens_def)

lemma uint_add3:
  fixes a b c :: u64
  assumes "uint a + uint b + uint c < 2 ^ 64"
  shows "uint (a + b + c) = uint a + uint b + uint c"
proof -
  have "uint a + uint b < 2 ^ 64" using assms uint_ge_0 [of c] by linarith
  then have "uint (a + b) = uint a + uint b" by (simp add: uint_plus_if')
  then show ?thesis using assms by (simp add: uint_plus_if')
qed

text \<open>The part of \<open>be_tenant\<close> after the tokens have been added up.\<close>

definition be_finish :: "ptr \<Rightarrow> u64 \<times> 'w nvme_state \<Rightarrow> 'w nvme_state \<times> u64" where
  "be_finish q z = (upd_swq q (\<lambda>x. snd (nvme_sw_queue_save_tokens x (fst z))) (snd z),
     fst z - fst (nvme_sw_queue_save_tokens (swqs (snd z) q) (fst z)))"

lemma be_tenant_eq:
  "is_be s q \<Longrightarrow> be_tenant E cfg dt q (s, t) = map_option (be_finish q)
     (be_serve NVME_SW_QUEUE_SIZE E cfg q (t + saved_tokens (swqs s q) + be_increment cfg dt s) (upd_swq q (\<lambda>x. x\<lparr>saved_tokens := 0\<rparr>) s))"
  by (cases "be_serve NVME_SW_QUEUE_SIZE E cfg q (t + saved_tokens (swqs s q) + be_increment cfg dt s) (upd_swq q (\<lambda>x. x\<lparr>saved_tokens := 0\<rparr>) s)")
    (auto simp: be_tenant_def is_be_def nvme_sw_queue_take_saved_tokens_def Let_def case_prod_beta be_finish_def be_increment_def upd_swq_def)

lemma be_finish_spec:
  assumes "issues free q ys s (snd z)" "saved_tokens (swqs (snd z) q) = 0"
  shows "issues free q ys s (fst (be_finish q z))" "world (fst (be_finish q z)) = world (snd z)"
    "uint (fst z) = uint (snd (be_finish q z)) + uint (saved_tokens (swqs (fst (be_finish q z)) q))"
proof -
  define v where "v = fst (nvme_sw_queue_save_tokens (swqs (snd z) q) (fst z))"
  have "issues free q [] (snd z) (fst (be_finish q z))" unfolding be_finish_def fst_conv by (rule issues_upd_swq) simp
  then show "issues free q ys s (fst (be_finish q z))" using issues_trans [OF assms(1), of "[]"] by simp
  show "world (fst (be_finish q z)) = world (snd z)" by (simp add: be_finish_def upd_swq_def)
  have "v \<le> fst z" unfolding v_def by (rule save_tokens_le)
  then have "uint (fst z - v) = uint (fst z) - uint v" using uint_sub_lem [of v "fst z"] by (simp add: word_le_def)
  then show "uint (fst z) = uint (snd (be_finish q z)) + uint (saved_tokens (swqs (fst (be_finish q z)) q))"
    using save_tokens_after_0 [OF assms(2)] by (simp add: be_finish_def upd_swq_def v_def)
qed

lemma be_tenant_spec:
  assumes spdk: "spdk_keeps_pools E free" and dev: "nvme_dev_model cfg \<noteq> FAKE_FLASH" and be: "is_be s q"
    and q: "swq_inv (swqs s q)" "\<forall>x \<in> set (swq_items (swqs s q)). req_ok (ctxs s x)"
  shows "\<exists>ys zs. swq_items (swqs s q) = ys @ zs \<and>
    outcome (spdk_run E (map (req_cmd (ctxs s)) ys) (world s)) (be_tenant E cfg dt q (s, t)) (\<lambda>w z.
      issues free q ys s (fst z) \<and> world (fst z) = w \<and>
      balanced [q] t (be_increment cfg dt s) (cost_of (ctxs s) ys) s (snd z) (fst z))"
proof -
  define s1 where "s1 = upd_swq q (\<lambda>x. x\<lparr>saved_tokens := 0\<rparr>) s"
  have f1: "issues free q [] s s1" unfolding s1_def by (rule issues_upd_swq) simp
  have i1: "swq_items (swqs s1 q) = swq_items (swqs s q)" "swq_inv (swqs s1 q)" "saved_tokens (swqs s1 q) = 0"
    "ctxs s1 = ctxs s" "world s1 = world s"
    using q(1) by (simp_all add: s1_def upd_swq_def swq_items_def swq_inv_def)
  let ?inc = "be_increment cfg dt s"
  define t1 where "t1 = t + saved_tokens (swqs s q) + ?inc"
  define ys where "ys = be_rule (\<lambda>x. req_cost (ctxs s x)) t1 (swq_items (swqs s q))"
  have le: "length (swq_items (swqs s q)) \<le> NVME_SW_QUEUE_SIZE" using q(1) by (auto simp: swq_items_def swq_inv_def)
  have sv: "outcome (spdk_run E (map (req_cmd (ctxs s)) ys) (world s)) (be_serve NVME_SW_QUEUE_SIZE E cfg q t1 s1) (\<lambda>w z.
      fst z = t1 - word_of_int (cost_of (ctxs s) ys) \<and> issues free q ys s1 (snd z) \<and> world (snd z) = w \<and>
      saved_tokens (swqs (snd z) q) = 0)"
    using be_serve_spec [OF spdk dev i1(2), of NVME_SW_QUEUE_SIZE ys t1] q(2) le unfolding i1 ys_def by simp
  have ex: "uint t1 = uint (t1 - word_of_int (cost_of (ctxs s) ys)) + cost_of (ctxs s) ys" if "costs_ok s [q]"
    unfolding ys_def cost_of_def by (rule be_rule_exact) (use that in \<open>simp add: costs_ok_def\<close>)
  have "outcome (spdk_run E (map (req_cmd (ctxs s)) ys) (world s)) (be_tenant E cfg dt q (s, t)) (\<lambda>w z.
      issues free q ys s (fst z) \<and> world (fst z) = w \<and> balanced [q] t ?inc (cost_of (ctxs s) ys) s (snd z) (fst z))"
    unfolding be_tenant_eq [OF be] t1_def [symmetric] s1_def [symmetric]
  proof (rule outcome_map [OF sv])
    fix w z assume z: "fst z = t1 - word_of_int (cost_of (ctxs s) ys) \<and> issues free q ys s1 (snd z) \<and> world (snd z) = w \<and>
      saved_tokens (swqs (snd z) q) = 0"
    have i: "issues free q ys s (snd z)" using issues_trans [OF f1, of ys "snd z"] z by simp
    note fin = be_finish_spec [OF i conjunct2 [OF conjunct2 [OF conjunct2 [OF z]]]]
    have "sched_frame free s (fst (be_finish q z))" using fin(1) by (simp add: issues_def)
    then have b: "is_be (fst (be_finish q z)) q" using be sched_frame_is_be [of free s] by simp
    have "balanced [q] t ?inc (cost_of (ctxs s) ys) s (snd (be_finish q z)) (fst (be_finish q z))"
      unfolding balanced_def
    proof
      assume a: "costs_ok s [q] \<and> uint t + be_saved s [q] + be_count s [q] * uint ?inc < 2 ^ 64"
      then have "uint t1 = uint t + uint (saved_tokens (swqs s q)) + uint ?inc"
        unfolding t1_def using be by (intro uint_add3) simp
      then show "uint t + be_saved s [q] + be_count s [q] * uint ?inc =
          uint (snd (be_finish q z)) + be_saved (fst (be_finish q z)) [q] + cost_of (ctxs s) ys"
        using ex a fin(3) z be b by simp
    qed
    then show "issues free q ys s (fst (be_finish q z)) \<and> world (fst (be_finish q z)) = w \<and>
        balanced [q] t ?inc (cost_of (ctxs s) ys) s (snd (be_finish q z)) (fst (be_finish q z))"
      using fin(1,2) z by simp
  qed
  moreover obtain zs where "swq_items (swqs s q) = ys @ zs" using be_rule_prefix unfolding ys_def by blast
  ultimately show ?thesis by blast
qed

lemma be_tenant_lc: "\<not> is_be s q \<Longrightarrow> be_tenant E cfg dt q (s, t) = Some (s, t)"
  by (simp add: be_tenant_def is_be_def)

text \<open>
  One pass over the tenants: \<open>Y q\<close> are the requests served for tenant \<open>q\<close>, a prefix of its queue.
\<close>

definition serves :: "(ptr option \<Rightarrow> 'w \<Rightarrow> ptr set) \<Rightarrow> ptr list \<Rightarrow> (ptr \<Rightarrow> ptr list) \<Rightarrow> 'w nvme_state \<Rightarrow> 'w nvme_state \<Rightarrow> bool" where
  "serves free qs Y s s' \<longleftrightarrow> sched_frame free s s' \<and> sq s' = sq s @ map (req_cmd (ctxs s)) (concat (map Y qs)) \<and>
     (\<forall>q. swq_items (swqs s q) = Y q @ swq_items (swqs s' q)) \<and> (\<forall>q. q \<notin> set qs \<longrightarrow> Y q = [] \<and> swqs s' q = swqs s q)"

lemma serves_refl: "serves free qs (\<lambda>_. []) s s"
  by (simp add: serves_def sched_frame_refl)

lemma serves_append:
  assumes "serves free qs Y s s1" "serves free rs Z s1 s'" "set qs \<inter> set rs = {}"
  shows "serves free (qs @ rs) (\<lambda>q. Y q @ Z q) s s'"
proof -
  have Y: "\<forall>q. q \<notin> set qs \<longrightarrow> Y q = []" and Z: "\<forall>q. q \<notin> set rs \<longrightarrow> Z q = []"
    using assms(1,2) by (simp_all add: serves_def)
  have m: "map (\<lambda>q. Y q @ Z q) qs = map Y qs" "map (\<lambda>q. Y q @ Z q) rs = map Z rs"
    using Y Z assms(3) by auto
  have "ctxs s1 = ctxs s" "sched_frame free s s'"
    using assms(1,2) sched_frame_sel(1) [of free s s1] by (auto simp: serves_def intro: sched_frame_trans)
  then show ?thesis using assms(1,2) unfolding serves_def map_append m by simp
qed

lemma serves_Cons:
  assumes "serves free [q] Y s s1" "serves free rs Z s1 s'" "q \<notin> set rs"
  shows "serves free (q # rs) (\<lambda>q. Y q @ Z q) s s'"
  using serves_append [OF assms(1,2)] assms(3) by simp

text \<open>What a pass may serve: a prefix of every queue.\<close>

definition prefixes :: "'w nvme_state \<Rightarrow> (ptr \<Rightarrow> ptr list) \<Rightarrow> bool" where
  "prefixes s Y \<longleftrightarrow> (\<forall>q. \<exists>zs. swq_items (swqs s q) = Y q @ zs)"

lemma issues_serves: "issues free q ys s s' \<Longrightarrow> serves free [q] ((\<lambda>_. [])(q := ys)) s s'"
  by (simp add: issues_def serves_def)

lemma be_tenant_serves:
  assumes spdk: "spdk_keeps_pools E free" and dev: "nvme_dev_model cfg \<noteq> FAKE_FLASH" and q: "queues_ok s" "q \<in> set (tenant_swq s)"
  obtains ys zs where "swq_items (swqs s q) = ys @ zs" "\<not> is_be s q \<Longrightarrow> ys = []"
    "outcome (spdk_run E (map (req_cmd (ctxs s)) ys) (world s)) (be_tenant E cfg dt q (s, t)) (\<lambda>w z.
      serves free [q] ((\<lambda>_. [])(q := ys)) s (fst z) \<and> world (fst z) = w \<and>
      balanced [q] t (be_increment cfg dt s) (cost_of (ctxs s) ys) s (snd z) (fst z))"
proof (cases "is_be s q")
  case False
  have "serves free [q] ((\<lambda>_. [])(q := [])) s s" by (simp add: serves_def sched_frame_refl)
  then show ?thesis using False
    by (intro that [of "[]" "swq_items (swqs s q)"]) (simp_all add: be_tenant_lc balanced_def)
next
  case True
  have qo: "swq_inv (swqs s q)" "\<forall>x \<in> set (swq_items (swqs s q)). req_ok (ctxs s x)" using q by (auto simp: queues_ok_def)
  obtain ys zs where y: "swq_items (swqs s q) = ys @ zs"
    "outcome (spdk_run E (map (req_cmd (ctxs s)) ys) (world s)) (be_tenant E cfg dt q (s, t)) (\<lambda>w z.
      issues free q ys s (fst z) \<and> world (fst z) = w \<and> balanced [q] t (be_increment cfg dt s) (cost_of (ctxs s) ys) s (snd z) (fst z))"
    using be_tenant_spec [OF spdk dev True qo] by blast
  show ?thesis by (rule that [OF y(1) _ outcome_mono [OF y(2)]]) (use True issues_serves in blast)+
qed

lemma be_increment_frame: "sched_frame free s s' \<Longrightarrow> be_increment cfg dt s' = be_increment cfg dt s"
  by (simp add: be_increment_def sched_frame_sel)

text \<open>The balances of one tenant and of the rest of the pass add up.\<close>

lemma balanced_Cons:
  assumes "balanced [q] t inc c s t1 s1" "balanced qs t1 inc d s1 t' s'" "0 \<le> c \<or> \<not> costs_ok s (q # qs)"
    and f: "sched_frame free s s1" "\<And>p. p \<in> set qs \<Longrightarrow> swqs s1 p = swqs s p" "sched_frame free s1 s'" "swqs s' q = swqs s1 q"
  shows "balanced (q # qs) t inc (c + d) s t' s'"
  unfolding balanced_def
proof
  assume a: "costs_ok s (q # qs) \<and> uint t + be_saved s (q # qs) + be_count s (q # qs) * uint inc < 2 ^ 64"
  have n: "0 \<le> be_saved s qs" "0 \<le> be_count s qs * uint inc" "0 \<le> c" "0 \<le> be_saved s1 [q]"
    using a assms(3) be_saved_nonneg [of s] be_saved_nonneg [of s1 "[q]"] by auto
  have be: "is_be s1 = is_be s" "is_be s' = is_be s1" using f sched_frame_is_be by blast+
  have sv: "be_saved s1 qs = be_saved s qs" "be_count s1 qs = be_count s qs" "be_saved s' [q] = be_saved s1 [q]"
    using be_saved_cong [OF f(1,2)] be f(4) by (simp_all add: be_count_def)
  have sp: "be_saved s (q # qs) = be_saved s [q] + be_saved s qs" "be_count s (q # qs) = be_count s [q] + be_count s qs"
    "be_saved s' (q # qs) = be_saved s' [q] + be_saved s' qs" by simp_all
  have "costs_ok s [q]" "costs_ok s1 qs" using a f(2) sched_frame_sel(1) [OF f(1)] by (auto simp: costs_ok_def)
  moreover from this have 1: "uint t + be_saved s [q] + be_count s [q] * uint inc = uint t1 + be_saved s1 [q] + c"
    using assms(1) a n unfolding balanced_def sp by (simp add: algebra_simps)
  moreover have "uint t1 + be_saved s1 qs + be_count s1 qs * uint inc < 2 ^ 64"
    using 1 a n unfolding sp sv by (simp add: algebra_simps)
  ultimately have "uint t1 + be_saved s qs + be_count s qs * uint inc = uint t' + be_saved s' qs + d"
    using assms(2) unfolding balanced_def sv by blast
  then show "uint t + be_saved s (q # qs) + be_count s (q # qs) * uint inc = uint t' + be_saved s' (q # qs) + (c + d)"
    using 1 unfolding sp sv(3) by (simp add: algebra_simps)
qed

lemma cost_of_nonneg: "(\<And>x. x \<in> set ys \<Longrightarrow> 0 \<le> req_cost (h x)) \<Longrightarrow> 0 \<le> cost_of h ys"
  by (induction ys) simp_all

lemma be_fold_spec:
  assumes spdk: "spdk_keeps_pools E free" and dev: "nvme_dev_model cfg \<noteq> FAKE_FLASH"
  shows "queues_ok s \<Longrightarrow> distinct qs \<Longrightarrow> set qs \<subseteq> set (tenant_swq s) \<Longrightarrow>
    \<exists>Y. prefixes s Y \<and> (\<forall>q. \<not> is_be s q \<or> q \<notin> set qs \<longrightarrow> Y q = []) \<and>
      outcome (spdk_run E (map (req_cmd (ctxs s)) (concat (map Y qs))) (world s)) (foldM (be_tenant E cfg dt) qs (s, t)) (\<lambda>w z.
        serves free qs Y s (fst z) \<and> world (fst z) = w \<and>
        balanced qs t (be_increment cfg dt s) (cost_of (ctxs s) (concat (map Y qs))) s (snd z) (fst z))"
proof (induction qs arbitrary: s t)
  case Nil
  show ?case by (rule exI [of _ "\<lambda>_. []"]) (simp add: prefixes_def serves_refl balanced_def)
next
  case (Cons q qs)
  have nq: "q \<notin> set qs" using Cons.prems by simp
  obtain ys zs where y: "swq_items (swqs s q) = ys @ zs" "\<not> is_be s q \<Longrightarrow> ys = []"
    "outcome (spdk_run E (map (req_cmd (ctxs s)) ys) (world s)) (be_tenant E cfg dt q (s, t)) (\<lambda>w z.
      serves free [q] ((\<lambda>_. [])(q := ys)) s (fst z) \<and> world (fst z) = w \<and>
      balanced [q] t (be_increment cfg dt s) (cost_of (ctxs s) ys) s (snd z) (fst z))"
    by (rule be_tenant_serves [OF spdk dev Cons.prems(1), of q dt t]) (use Cons.prems(3) in auto)
  let ?Y = "(\<lambda>_. [])(q := ys)"
  show ?case
  proof (cases "spdk_run E (map (req_cmd (ctxs s)) ys) (world s)")
    case None
    have m: "concat (map ?Y (q # qs)) = ys @ concat (map ?Y qs)" by simp
    show ?thesis by (rule exI [of _ ?Y], unfold m)
        (use y None in \<open>auto simp: prefixes_def spdk_run_append\<close>)
  next
    case (Some w)
    then obtain s1 t1 where 1: "be_tenant E cfg dt q (s, t) = Some (s1, t1)" "serves free [q] ?Y s s1" "world s1 = w"
      "balanced [q] t (be_increment cfg dt s) (cost_of (ctxs s) ys) s t1 s1"
      using y(3) by auto
    have f: "sched_frame free s s1" and o: "\<forall>p. p \<noteq> q \<longrightarrow> swqs s1 p = swqs s p" "swq_items (swqs s q) = ys @ swq_items (swqs s1 q)"
      using 1(2) by (simp_all add: serves_def)
    note sel = sched_frame_sel [OF f] and be = sched_frame_is_be [OF f] and inc = be_increment_frame [OF f]
    have "queues_ok s1" "distinct qs" "set qs \<subseteq> set (tenant_swq s1)"
      using sched_frame_queues_ok [OF f] Cons.prems sel by simp_all
    then obtain Z where Z: "prefixes s1 Z" "\<forall>p. \<not> is_be s p \<or> p \<notin> set qs \<longrightarrow> Z p = []"
      "outcome (spdk_run E (map (req_cmd (ctxs s)) (concat (map Z qs))) w) (foldM (be_tenant E cfg dt) qs (s1, t1)) (\<lambda>w z.
        serves free qs Z s1 (fst z) \<and> world (fst z) = w \<and>
        balanced qs t1 (be_increment cfg dt s) (cost_of (ctxs s) (concat (map Z qs))) s1 (snd z) (fst z))"
      using Cons.IH [of s1 t1] unfolding inc sel be 1(3) by blast
    let ?W = "\<lambda>p. ?Y p @ Z p"
    have zq: "Z q = []" using Z(2) nq by blast
    have m: "concat (map ?W (q # qs)) = ys @ concat (map Z qs)" using zq nq by (auto intro!: arg_cong [where f = concat])
    have px: "prefixes s ?W"
      unfolding prefixes_def
    proof
      fix p
      show "\<exists>zs. swq_items (swqs s p) = ?W p @ zs"
        using y(1) zq o(1) Z(1) [unfolded prefixes_def, THEN spec, of p] by (cases "p = q") auto
    qed
    have c: "0 \<le> cost_of (ctxs s) ys \<or> \<not> costs_ok s (q # qs)"
      using y(1) cost_of_nonneg [of ys "ctxs s"] by (auto simp: costs_ok_def)
    have "outcome (spdk_run E (map (req_cmd (ctxs s)) (concat (map ?W (q # qs)))) (world s)) (foldM (be_tenant E cfg dt) (q # qs) (s, t)) (\<lambda>w z.
        serves free (q # qs) ?W s (fst z) \<and> world (fst z) = w \<and>
        balanced (q # qs) t (be_increment cfg dt s) (cost_of (ctxs s) (concat (map ?W (q # qs)))) s (snd z) (fst z))"
      unfolding m map_append spdk_run_append Some foldM.simps 1(1) option.case cost_of_simps
    proof (rule outcome_mono [OF Z(3)])
      fix w z assume z: "serves free qs Z s1 (fst z) \<and> world (fst z) = w \<and>
        balanced qs t1 (be_increment cfg dt s) (cost_of (ctxs s) (concat (map Z qs))) s1 (snd z) (fst z)"
      have "sched_frame free s1 (fst z)" "swqs (fst z) q = swqs s1 q" using z nq by (simp_all add: serves_def)
      then have "balanced (q # qs) t (be_increment cfg dt s) (cost_of (ctxs s) ys + cost_of (ctxs s) (concat (map Z qs))) s (snd z) (fst z)"
        using balanced_Cons [OF 1(4) _ c f] z o(1) nq by metis
      then show "serves free (q # qs) ?W s (fst z) \<and> world (fst z) = w \<and>
          balanced (q # qs) t (be_increment cfg dt s) (cost_of (ctxs s) ys + cost_of (ctxs s) (concat (map Z qs))) s (snd z) (fst z)"
        using serves_Cons [OF 1(2) _ nq] z by blast
    qed
    moreover have "\<forall>p. \<not> is_be s p \<or> p \<notin> set (q # qs) \<longrightarrow> ?W p = []" using y(2) Z(2) by auto
    ultimately show ?thesis using px by blast
  qed
qed

section \<open>The round-robin pointer\<close>

definition be_at :: "'w nvme_state \<Rightarrow> int \<Rightarrow> bool" where
  "be_at s i \<longleftrightarrow> nat i < length (tenant_swq s) \<and> is_be s (tenant_swq s ! nat i)"

lemma rr_search_step:
  "num_tenants s \<noteq> 0 \<Longrightarrow> rr_search fuel s rr =
     (if be_at s ((rr + 1) mod num_tenants s) then Some ((rr + 1) mod num_tenants s)
      else case fuel of 0 \<Rightarrow> None | Suc fuel \<Rightarrow> rr_search fuel s ((rr + 1) mod num_tenants s))"
  by (subst rr_search.simps) (simp add: be_at_def is_be_def Let_def)

text \<open>The search returns the first best-effort tenant after \<open>rr\<close>, in cyclic order.\<close>

lemma rr_search_steps:
  assumes "0 < num_tenants s" "be_at s ((rr + 1 + int k) mod num_tenants s)"
    "\<And>j. j < k \<Longrightarrow> \<not> be_at s ((rr + 1 + int j) mod num_tenants s)" "k \<le> fuel"
  shows "rr_search fuel s rr = Some ((rr + 1 + int k) mod num_tenants s)"
  using assms(2-4)
proof (induction k arbitrary: rr fuel)
  case 0
  then show ?case using assms(1) by (subst rr_search_step) auto
next
  case (Suc k)
  let ?r = "(rr + 1) mod num_tenants s"
  obtain f where f: "fuel = Suc f" "k \<le> f" using Suc.prems(3) by (cases fuel) auto
  have m: "(?r + 1 + int j) mod num_tenants s = (rr + 1 + int (Suc j)) mod num_tenants s" for j
    using mod_add_left_eq [of "rr + 1" "num_tenants s" "1 + int j"] by (simp add: add.assoc)
  have "\<not> be_at s ?r" using Suc.prems(2) [of 0] by simp
  moreover have "rr_search f s ?r = Some ((?r + 1 + int k) mod num_tenants s)"
    by (rule Suc.IH) (use Suc.prems(1) Suc.prems(2) [of "Suc j" for j] f(2) in \<open>simp_all only: m Suc_less_eq not_False_eq_True\<close>)
  ultimately show ?case using assms(1) f(1) unfolding m by (subst rr_search_step) auto
qed

lemma rr_search_spec:
  assumes n: "0 < num_tenants s" "num_tenants s = int (length (tenant_swq s))" and be: "\<exists>q \<in> set (tenant_swq s). is_be s q"
  obtains k where "k < length (tenant_swq s)" "rr_search (nat (num_tenants s)) s rr = Some ((rr + 1 + int k) mod num_tenants s)"
    "be_at s ((rr + 1 + int k) mod num_tenants s)" "\<forall>j<k. \<not> be_at s ((rr + 1 + int j) mod num_tenants s)"
proof -
  let ?n = "num_tenants s" and ?P = "\<lambda>k. be_at s ((rr + 1 + int k) mod num_tenants s)"
  obtain i where i: "i < length (tenant_swq s)" "is_be s (tenant_swq s ! i)" using be by (metis in_set_conv_nth)
  define d where "d = nat ((int i - rr - 1) mod ?n)"
  have d: "int d = (int i - rr - 1) mod ?n" using n(1) by (simp add: d_def)
  have "(rr + 1 + int d) mod ?n = int i mod ?n" unfolding d by (simp add: mod_simps)
  also have "\<dots> = int i" using i(1) n by simp
  finally have "?P d" using i by (simp add: be_at_def)
  define k where "k = (LEAST k. ?P k)"
  have k: "?P k" unfolding k_def using \<open>?P d\<close> by (rule LeastI)
  have l: "\<And>j. j < k \<Longrightarrow> \<not> ?P j" unfolding k_def by (rule not_less_Least)
  have kd: "k \<le> d" unfolding k_def using \<open>?P d\<close> by (rule Least_le)
  have "int d < ?n" unfolding d using n(1) by simp
  then have kn: "k < length (tenant_swq s)" using kd n(2) by linarith
  have "rr_search (nat ?n) s rr = Some ((rr + 1 + int k) mod ?n)"
    by (rule rr_search_steps [OF n(1) k]) (use l kn n(2) in auto)
  then show ?thesis using that k l kn by blast
qed

text \<open>Without a best-effort tenant in the list the search never ends.\<close>

lemma rr_search_diverges: "(\<And>i. \<not> be_at s i) \<Longrightarrow> rr_search fuel s rr = None"
proof (induction fuel arbitrary: rr)
  case 0
  then show ?case by (cases "num_tenants s = 0") (simp_all add: rr_search_step, subst rr_search.simps, simp)
next
  case (Suc fuel)
  then show ?case by (cases "num_tenants s = 0") (simp_all add: rr_search_step, subst rr_search.simps, simp)
qed

section \<open>The shared bucket\<close>

text \<open>
  The value of the bucket at the compare-and-swap that succeeds: \<open>vs\<close> are the values that other
  cores leave in it, and the first one that equals the value just read lets the swap succeed.
\<close>

fun bucket_at_cas :: "u64 list \<Rightarrow> u64 \<Rightarrow> u64" where
  "bucket_at_cas [] b = b"
| "bucket_at_cas (v # vs) b = (if v = b then b else bucket_at_cas vs v)"

lemma try_acquire_spec:
  "try_acquire_global_tokens vs d b = (min d (bucket_at_cas vs b), bucket_at_cas vs b - min d (bucket_at_cas vs b))"
proof (induction vs arbitrary: b)
  case Nil
  then show ?case by (subst try_acquire_global_tokens.simps)
      (auto simp: atomic_u64_cmpxchg_def atomic_u64_read_def Let_def min_def)
next
  case (Cons v vs)
  then show ?case by (subst try_acquire_global_tokens.simps)
      (auto simp: atomic_u64_cmpxchg_def atomic_u64_read_def Let_def min_def)
qed

text \<open>It is the value read in the attempt that succeeds, and still there when the swap is made.\<close>

lemma bucket_at_cas_step:
  "\<exists>k \<le> length vs. bucket_at_cas vs b = (b # vs) ! k \<and> (\<forall>j<k. vs ! j \<noteq> (b # vs) ! j) \<and>
     (k < length vs \<longrightarrow> vs ! k = (b # vs) ! k)"
proof (induction vs arbitrary: b)
  case (Cons v vs)
  show ?case
  proof (cases "v = b")
    case False
    obtain k where "k \<le> length vs" "bucket_at_cas vs v = (v # vs) ! k" "\<forall>j<k. vs ! j \<noteq> (v # vs) ! j"
      "k < length vs \<longrightarrow> vs ! k = (v # vs) ! k" using Cons.IH [of v] by blast
    then show ?thesis using False by (intro exI [of _ "Suc k"]) (auto simp: nth_Cons split: nat.splits)
  qed (auto intro!: exI [of _ 0])
qed simp

section \<open>The first sub-round\<close>

text \<open>The tokens that a latency-critical tenant earns in \<open>time_delta\<close>, as a double.\<close>

definition lc_increment :: "u64 \<Rightarrow> 'w nvme_state \<Rightarrow> ptr \<Rightarrow> rat" where
  "lc_increment time_delta s q =
     dadd (dmul (scaled_IOPuS_limit (nvme_fgs s (fg_handle (swqs s q)))) (d_of_int (uint time_delta))) (1 / 2)"

text \<open>The requests served for it: its queue under \<open>lc_rule\<close>, with the increment added to its credit.\<close>

definition lc_served :: "u64 \<Rightarrow> 'w nvme_state \<Rightarrow> ptr \<Rightarrow> ptr list" where
  "lc_served time_delta s q = lc_rule (\<lambda>x. req_cost (ctxs s x)) (TOKEN_DEFICIT_LIMIT s)
     (token_credit (swqs s q) + d_trunc (lc_increment time_delta s q)) (swq_items (swqs s q))"

text \<open>The credit after serving, before the tenant gives tokens away.\<close>

definition lc_credit :: "u64 \<Rightarrow> 'w nvme_state \<Rightarrow> ptr \<Rightarrow> int" where
  "lc_credit time_delta s q = token_credit (swqs s q) + d_trunc (lc_increment time_delta s q) -
     cost_of (ctxs s) (lc_served time_delta s q)"

definition lc_after :: "u64 \<Rightarrow> 'w nvme_state \<Rightarrow> ptr \<Rightarrow> u64 \<Rightarrow> int \<times> u64" where
  "lc_after time_delta s q leftover =
     (let credit = lc_credit time_delta s q; given = dmul (d_of_int credit) TOKEN_FRAC_GIVEAWAY
      in if credit > d_trunc (dmul 3 (lc_increment time_delta s q))
         then (d_trunc (dsub (d_of_int credit) given), word_of_int (d_trunc (dadd (d_of_int (uint leftover)) given)))
         else (credit, leftover))"

text \<open>The part of \<open>lc_tenant\<close> after its queue has been served.\<close>

definition lc_finish :: "u64 \<Rightarrow> 'w nvme_state \<Rightarrow> ptr \<Rightarrow> u64 \<Rightarrow> 'a \<Rightarrow> 'w nvme_state \<Rightarrow> 'w nvme_state \<times> u64 \<times> 'a" where
  "lc_finish dt s q lo d s2 =
     (let credit = token_credit (swqs s2 q); given = dmul (d_of_int credit) TOKEN_FRAC_GIVEAWAY
      in if credit > d_trunc (dmul 3 (lc_increment dt s q))
         then (upd_swq q (\<lambda>x. x\<lparr>token_credit := d_trunc (dsub (d_of_int credit) given)\<rparr>) s2,
               word_of_int (d_trunc (dadd (d_of_int (uint lo)) given)), d)
         else (s2, lo, d))"

lemma lc_tenant_eq:
  "\<not> is_be s q \<Longrightarrow> lc_tenant E cfg dt q (s, lo, d) = map_option (lc_finish dt s q lo d)
     (lc_serve NVME_SW_QUEUE_SIZE E cfg q (upd_swq q (\<lambda>x. x\<lparr>token_credit := token_credit x + d_trunc (lc_increment dt s q)\<rparr>) s))"
  unfolding lc_tenant_def is_be_def lc_increment_def [symmetric]
  by (cases "lc_serve NVME_SW_QUEUE_SIZE E cfg q (upd_swq q (\<lambda>x. x\<lparr>token_credit := token_credit x + d_trunc (lc_increment dt s q)\<rparr>) s)")
    (simp_all add: Let_def lc_finish_def)

lemma lc_finish_spec:
  assumes "issues free q ys s s2" "token_credit (swqs s2 q) = lc_credit dt s q"
  shows "issues free q ys s (fst (lc_finish dt s q lo d s2)) \<and> world (fst (lc_finish dt s q lo d s2)) = world s2 \<and>
    token_credit (swqs (fst (lc_finish dt s q lo d s2)) q) = fst (lc_after dt s q lo) \<and>
    snd (lc_finish dt s q lo d s2) = (snd (lc_after dt s q lo), d)"
proof (cases "lc_credit dt s q > d_trunc (dmul 3 (lc_increment dt s q))")
  case True
  define c where "c = d_trunc (dsub (d_of_int (lc_credit dt s q)) (dmul (d_of_int (lc_credit dt s q)) TOKEN_FRAC_GIVEAWAY))"
  have "issues free q [] s2 (upd_swq q (\<lambda>x. x\<lparr>token_credit := c\<rparr>) s2)" by (rule issues_upd_swq) simp
  then have "issues free q ys s (upd_swq q (\<lambda>x. x\<lparr>token_credit := c\<rparr>) s2)" using issues_trans [OF assms(1), of "[]"] by simp
  then show ?thesis using True assms(2) by (simp add: lc_finish_def lc_after_def Let_def c_def) (simp add: upd_swq_def)
next
  case False
  then show ?thesis using assms by (simp add: lc_finish_def lc_after_def Let_def)
qed

lemma lc_tenant_spec:
  assumes spdk: "spdk_keeps_pools E free" and dev: "nvme_dev_model cfg \<noteq> FAKE_FLASH" and lc: "\<not> is_be s q"
    and q: "swq_inv (swqs s q)" "\<forall>x \<in> set (swq_items (swqs s q)). req_ok (ctxs s x)"
  shows "outcome (spdk_run E (map (req_cmd (ctxs s)) (lc_served dt s q)) (world s)) (lc_tenant E cfg dt q (s, lo, d)) (\<lambda>w z.
    issues free q (lc_served dt s q) s (fst z) \<and> world (fst z) = w \<and>
    token_credit (swqs (fst z) q) = fst (lc_after dt s q lo) \<and> snd z = (snd (lc_after dt s q lo), d))"
proof -
  let ?inc = "lc_increment dt s q"
  define s1 where "s1 = upd_swq q (\<lambda>x. x\<lparr>token_credit := token_credit x + d_trunc ?inc\<rparr>) s"
  have f1: "issues free q [] s s1" unfolding s1_def by (rule issues_upd_swq) simp
  have i1: "swq_items (swqs s1 q) = swq_items (swqs s q)" "swq_inv (swqs s1 q)"
    "token_credit (swqs s1 q) = token_credit (swqs s q) + d_trunc ?inc" "ctxs s1 = ctxs s" "world s1 = world s"
    "TOKEN_DEFICIT_LIMIT s1 = TOKEN_DEFICIT_LIMIT s"
    using q(1) by (simp_all add: s1_def upd_swq_def swq_items_def swq_inv_def)
  have le: "length (swq_items (swqs s q)) \<le> NVME_SW_QUEUE_SIZE" using q(1) by (auto simp: swq_items_def swq_inv_def)
  have "outcome (spdk_run E (map (req_cmd (ctxs s)) (lc_served dt s q)) (world s)) (lc_serve NVME_SW_QUEUE_SIZE E cfg q s1)
      (\<lambda>w s'. issues free q (lc_served dt s q) s1 s' \<and> world s' = w \<and> token_credit (swqs s' q) = lc_credit dt s q)"
    using lc_serve_spec [OF spdk dev i1(2), of NVME_SW_QUEUE_SIZE "lc_served dt s q"] q(2) le
    unfolding i1 lc_served_def [symmetric] cost_of_def [symmetric] lc_credit_def [symmetric] by simp
  then show ?thesis unfolding lc_tenant_eq [OF lc] s1_def [symmetric]
  proof (rule outcome_map)
    fix w s2
    assume 2: "issues free q (lc_served dt s q) s1 s2 \<and> world s2 = w \<and> token_credit (swqs s2 q) = lc_credit dt s q"
    have "issues free q (lc_served dt s q) s s2" using issues_trans [OF f1, of "lc_served dt s q" s2] 2 by simp
    from lc_finish_spec [OF this, of dt lo d] 2
    show "issues free q (lc_served dt s q) s (fst (lc_finish dt s q lo d s2)) \<and> world (fst (lc_finish dt s q lo d s2)) = w \<and>
      token_credit (swqs (fst (lc_finish dt s q lo d s2)) q) = fst (lc_after dt s q lo) \<and>
      snd (lc_finish dt s q lo d s2) = (snd (lc_after dt s q lo), d)" by simp
  qed
qed

definition be_demand :: "'w nvme_state \<Rightarrow> ptr list \<Rightarrow> u64" where
  "be_demand s qs = (\<Sum>q \<leftarrow> filter (is_be s) qs. total_token_demand (swqs s q) - saved_tokens (swqs s q))"

lemma be_demand_simps [simp]: "be_demand s [] = 0"
  "be_demand s (q # qs) = (if is_be s q then total_token_demand (swqs s q) - saved_tokens (swqs s q) else 0) + be_demand s qs"
  by (simp_all add: be_demand_def)

lemma be_demand_cong:
  assumes "sched_frame free s s'" "\<And>q. q \<in> set qs \<Longrightarrow> swqs s' q = swqs s q"
  shows "be_demand s' qs = be_demand s qs"
  unfolding be_demand_def sched_frame_is_be [OF assms(1)] using assms(2) by (intro arg_cong [where f = sum_list] map_cong) auto

text \<open>What the first sub-round serves for the tenants among \<open>qs\<close>.\<close>

definition lc_plan :: "u64 \<Rightarrow> 'w nvme_state \<Rightarrow> ptr list \<Rightarrow> ptr \<Rightarrow> ptr list" where
  "lc_plan dt s qs = (\<lambda>q. if q \<in> set qs \<and> \<not> is_be s q then lc_served dt s q else [])"

lemma lc_plan_prefixes: "prefixes s (lc_plan dt s qs)"
  unfolding prefixes_def lc_plan_def lc_served_def using lc_rule_prefix by simp

lemma lc_tenant_serves:
  assumes spdk: "spdk_keeps_pools E free" and dev: "nvme_dev_model cfg \<noteq> FAKE_FLASH" and q: "queues_ok s" "q \<in> set (tenant_swq s)"
  shows "outcome (spdk_run E (map (req_cmd (ctxs s)) (lc_plan dt s [q] q)) (world s)) (lc_tenant E cfg dt q (s, lo, d)) (\<lambda>w z.
    serves free [q] (lc_plan dt s [q]) s (fst z) \<and> world (fst z) = w \<and> snd (snd z) = d + be_demand s [q])"
proof (cases "is_be s q")
  case True
  have "serves free [q] (lc_plan dt s [q]) s s" using True by (simp add: serves_def lc_plan_def sched_frame_refl)
  moreover have "lc_tenant E cfg dt q (s, lo, d) = Some (s, lo, d + be_demand s [q])"
    using True by (simp add: lc_tenant_def is_be_def be_demand_def)
  ultimately show ?thesis using True by (simp add: lc_plan_def)
next
  case False
  have qo: "swq_inv (swqs s q)" "\<forall>x \<in> set (swq_items (swqs s q)). req_ok (ctxs s x)" using q by (auto simp: queues_ok_def)
  have Y: "lc_plan dt s [q] = (\<lambda>_. [])(q := lc_served dt s q)" using False by (auto simp: lc_plan_def)
  have e: "lc_plan dt s [q] q = lc_served dt s q" unfolding Y by simp
  show ?thesis unfolding e unfolding Y
    by (rule outcome_mono [OF lc_tenant_spec [OF spdk dev False qo, of dt lo d]]) (use False issues_serves [of free q] in simp)
qed

lemma lc_fold_spec:
  assumes spdk: "spdk_keeps_pools E free" and dev: "nvme_dev_model cfg \<noteq> FAKE_FLASH"
  shows "queues_ok s \<Longrightarrow> distinct qs \<Longrightarrow> set qs \<subseteq> set (tenant_swq s) \<Longrightarrow>
    outcome (spdk_run E (map (req_cmd (ctxs s)) (concat (map (lc_plan dt s qs) qs))) (world s)) (foldM (lc_tenant E cfg dt) qs (s, lo, d))
      (\<lambda>w z. serves free qs (lc_plan dt s qs) s (fst z) \<and> world (fst z) = w \<and> snd (snd z) = d + be_demand s qs)"
proof (induction qs arbitrary: s lo d)
  case Nil
  then show ?case using serves_refl [of free "[]" s] by (simp add: lc_plan_def)
next
  case (Cons q qs)
  have nq: "q \<notin> set qs" "q \<in> set (tenant_swq s)" using Cons.prems by auto
  have m: "concat (map (lc_plan dt s (q # qs)) (q # qs)) = lc_plan dt s [q] q @ concat (map (lc_plan dt s qs) qs)"
    using nq by (auto simp: lc_plan_def intro!: arg_cong [where f = concat])
  show ?case unfolding m map_append spdk_run_append foldM.simps
  proof (rule outcome_bind [OF lc_tenant_serves [OF spdk dev Cons.prems(1) nq(2), of dt lo d]])
    fix w and z :: "'a nvme_state \<times> u64 \<times> u64"
    assume z: "serves free [q] (lc_plan dt s [q]) s (fst z) \<and> world (fst z) = w \<and> snd (snd z) = d + be_demand s [q]"
    obtain s1 lo1 where s1: "z = (s1, lo1, d + be_demand s [q])" using z by (cases z) auto
    have 1: "serves free [q] (lc_plan dt s [q]) s s1" "world s1 = w" using z s1 by simp_all
    have f: "sched_frame free s s1" and o: "\<forall>p. p \<noteq> q \<longrightarrow> swqs s1 p = swqs s p"
      using 1 by (simp_all add: serves_def)
    note sel = sched_frame_sel [OF f] and be = sched_frame_is_be [OF f]
    have "queues_ok s1" "distinct qs" "set qs \<subseteq> set (tenant_swq s1)"
      using sched_frame_queues_ok [OF f] Cons.prems sel by simp_all
    note IH = Cons.IH [OF this, of lo1 "d + be_demand s [q]"]
    have dem: "be_demand s1 qs = be_demand s qs" using o nq by (intro be_demand_cong [OF f]) auto
    have ls: "lc_plan dt s1 qs = lc_plan dt s qs"
      using nq o sel be by (auto simp: lc_plan_def lc_served_def lc_increment_def fun_eq_iff)
    have Y: "(\<lambda>p. lc_plan dt s [q] p @ lc_plan dt s qs p) = lc_plan dt s (q # qs)"
      using nq by (auto simp: lc_plan_def)
    show "outcome (spdk_run E (map (req_cmd (ctxs s)) (concat (map (lc_plan dt s qs) qs))) w) (foldM (lc_tenant E cfg dt) qs z)
      (\<lambda>w z. serves free (q # qs) (lc_plan dt s (q # qs)) s (fst z) \<and> world (fst z) = w \<and> snd (snd z) = d + be_demand s (q # qs))"
      unfolding s1
    proof (rule outcome_mono [OF IH [unfolded ls dem sel 1(2)]])
      fix w and z :: "'a nvme_state \<times> u64 \<times> u64"
      assume "serves free qs (lc_plan dt s qs) s1 (fst z) \<and> world (fst z) = w \<and>
        snd (snd z) = d + be_demand s [q] + be_demand s qs"
      then show "serves free (q # qs) (lc_plan dt s (q # qs)) s (fst z) \<and> world (fst z) = w \<and> snd (snd z) = d + be_demand s (q # qs)"
        using serves_Cons [OF 1(1) _ nq(1), of "lc_plan dt s qs"] unfolding Y by (simp add: add.assoc)
    qed
  qed
qed

end
