(* ===== verification/NvmeRounds.thy ===== *)
theory NvmeRounds
  imports NvmeServe
begin

text \<open>
  The properties of a scheduling round of \<open>nvme/nvmedev.c\<close>: it submits requests in the order of each
  queue, conserves best-effort tokens, bounds the debt of latency-critical tenants, turns the
  round-robin start and resets the shared bucket.
\<close>

section \<open>A whole round\<close>

text \<open>The state that serving depends on; the remaining fields are the scheduler's own counters.\<close>

definition same_core :: "'w nvme_state \<Rightarrow> 'w nvme_state \<Rightarrow> bool" where
  "same_core s s' \<longleftrightarrow> tenant_swq s' = tenant_swq s \<and> num_tenants s' = num_tenants s \<and>
     num_best_effort_tenants s' = num_best_effort_tenants s \<and> nvme_fgs s' = nvme_fgs s \<and>
     nvme_fgs_bitmap s' = nvme_fgs_bitmap s \<and> swqs s' = swqs s \<and> ctxs s' = ctxs s \<and> mp s' = mp s \<and>
     nvme_swq_mempool s' = nvme_swq_mempool s \<and> sq s' = sq s \<and> TOKEN_DEFICIT_LIMIT s' = TOKEN_DEFICIT_LIMIT s \<and>
     global_be_token_rate_per_tenant s' = global_be_token_rate_per_tenant s"

lemma same_core_sel:
  assumes "same_core s s'"
  shows "is_be s' = is_be s" "queues_ok s' = queues_ok s" "be_saved s' = be_saved s" "be_count s' = be_count s"
    "be_demand s' = be_demand s" "be_increment cfg dt s' = be_increment cfg dt s" "lc_served dt s' = lc_served dt s"
    "tenant_ok s' = tenant_ok s" "be_at s' = be_at s"
proof -
  note c = assms [unfolded same_core_def]
  show be: "is_be s' = is_be s" using c by (simp add: is_be_def fun_eq_iff)
  show "queues_ok s' = queues_ok s" "be_saved s' = be_saved s" "be_count s' = be_count s"
    "be_demand s' = be_demand s" "be_increment cfg dt s' = be_increment cfg dt s" "lc_served dt s' = lc_served dt s"
    "tenant_ok s' = tenant_ok s" "be_at s' = be_at s"
    by (((rule ext)+)?, simp add: c queues_ok_def be_saved_def be_count_def be_demand_def be_increment_def lc_served_def
        lc_increment_def tenant_ok_def be_at_def be)+
qed

lemma same_core_tenant_inv:
  "same_core s s' \<Longrightarrow> tenant_inv free s \<Longrightarrow> 0 \<le> roundrobin_start s' \<Longrightarrow> tenant_inv free s'"
  using same_core_sel [of s s'] unfolding tenant_inv_def same_core_def by simp

text \<open>What a round promises about the requests.\<close>

definition served :: "(ptr option \<Rightarrow> 'w \<Rightarrow> ptr set) \<Rightarrow> ptr list \<Rightarrow> (ptr \<Rightarrow> ptr list) \<Rightarrow> 'w nvme_state \<Rightarrow> 'w nvme_state \<Rightarrow> bool" where
  "served free qs Y s s' \<longleftrightarrow> tenant_inv free s' \<and> queues_ok s' \<and> tenant_swq s' = tenant_swq s \<and> ctxs s' = ctxs s \<and>
     is_be s' = is_be s \<and> sq s' = sq s @ map (req_cmd (ctxs s)) (concat (map Y qs)) \<and>
     (\<forall>q. swq_items (swqs s q) = Y q @ swq_items (swqs s' q))"

lemma serves_served:
  assumes "serves free qs Y s s'" "tenant_inv free s" "queues_ok s"
  shows "served free qs Y s s'"
proof -
  have f: "sched_frame free s s'" using assms(1) by (simp add: serves_def)
  show ?thesis using assms sched_frame_tenant_inv [OF f] sched_frame_queues_ok [OF f] sched_frame_is_be [OF f] sched_frame_sel [OF f]
    by (simp add: serves_def served_def)
qed

lemma served_core:
  assumes "served free qs Y s1 s2" "same_core s s1" "same_core s2 s'" "0 \<le> roundrobin_start s'"
  shows "served free qs Y s s'"
  using assms same_core_sel(1,2) [OF assms(2)] same_core_sel(1,2) [OF assms(3)] same_core_tenant_inv [OF assms(3)]
  by (simp add: served_def) (simp add: same_core_def)

lemma subround1_spec:
  assumes inv: "tenant_inv free s" "queues_ok s" and spdk: "spdk_keeps_pools E free" and dev: "nvme_dev_model cfg \<noteq> FAKE_FLASH"
    and Y: "Y = lc_plan (now - last_sched_time s) s (tenant_swq s)"
  shows "outcome (spdk_run E (map (req_cmd (ctxs s)) (concat (map Y (tenant_swq s)))) (world s)) (nvme_sched_subround1 E cfg now s) (\<lambda>w s'.
    served free (tenant_swq s) Y s s' \<and> world s' = w \<and> local_extra_demand s' = be_demand s (tenant_swq s) \<and>
    roundrobin_start s' = roundrobin_start s)"
proof -
  let ?dt = "now - last_sched_time s" and ?qs = "tenant_swq s"
  define s0 where "s0 = s\<lparr>last_sched_time := now\<rparr>"
  have c0: "same_core s s0" by (simp add: same_core_def s0_def)
  note c = same_core_sel [OF c0]
  have rr: "0 \<le> roundrobin_start s" "distinct ?qs" using inv(1) by (simp_all add: tenant_inv_def)
  have t0: "tenant_inv free s0" using same_core_tenant_inv [OF c0 inv(1)] rr by (simp add: s0_def)
  have q0: "queues_ok s0" using c inv(2) by simp
  have e0: "tenant_swq s0 = ?qs" "ctxs s0 = ctxs s" "world s0 = world s" by (simp_all add: s0_def)
  have Y0: "lc_plan ?dt s0 ?qs = Y" unfolding Y lc_plan_def c by simp
  have fold: "outcome (spdk_run E (map (req_cmd (ctxs s)) (concat (map Y ?qs))) (world s)) (foldM (lc_tenant E cfg ?dt) ?qs (s0, 0, 0))
      (\<lambda>w z. serves free ?qs Y s0 (fst z) \<and> world (fst z) = w \<and> snd (snd z) = 0 + be_demand s ?qs)"
    using lc_fold_spec [OF spdk dev q0, of ?qs ?dt 0 0] rr(2) unfolding e0 Y0 c by simp
  have r: "nvme_sched_subround1 E cfg now s = Option.bind (foldM (lc_tenant E cfg ?dt) ?qs (s0, 0, 0))
      (\<lambda>z. Some ((fst z)\<lparr>local_extra_demand := snd (snd z), local_leftover_tokens := fst (snd z)\<rparr>))"
    unfolding nvme_sched_subround1_def Let_def s0_def [symmetric] e0 by (simp add: split_def)
  show ?thesis unfolding r
  proof (rule outcome_then [OF fold])
    fix w and z :: "'a nvme_state \<times> u64 \<times> u64"
    assume z: "serves free ?qs Y s0 (fst z) \<and> world (fst z) = w \<and> snd (snd z) = 0 + be_demand s ?qs"
    define s' where "s' = (fst z)\<lparr>local_extra_demand := snd (snd z), local_leftover_tokens := fst (snd z)\<rparr>"
    have f: "sched_frame free s0 (fst z)" using z by (simp add: serves_def)
    have rs: "roundrobin_start s' = roundrobin_start s" using sched_frame_sel(7) [OF f] by (simp add: s'_def s0_def)
    have "same_core (fst z) s'" by (simp add: same_core_def s'_def)
    then have "served free ?qs Y s s'" using served_core [OF serves_served [OF _ t0 q0] c0, of ?qs Y "fst z" s'] z rs rr by simp
    then show "\<exists>y. Some ((fst z)\<lparr>local_extra_demand := snd (snd z), local_leftover_tokens := fst (snd z)\<rparr>) = Some y \<and>
        served free ?qs Y s y \<and> world y = w \<and> local_extra_demand y = be_demand s ?qs \<and> roundrobin_start y = roundrobin_start s"
      using z rs unfolding s'_def by simp
  qed
qed

text \<open>The end of the second sub-round: the next round-robin start.\<close>

lemma rr_next:
  assumes "tenant_inv free s"
  obtains rr where "(if num_best_effort_tenants s > 0
      then map_option (\<lambda>rr. s\<lparr>roundrobin_start := rr\<rparr>) (rr_search (nat (num_tenants s)) s (roundrobin_start s))
      else Some s) = Some (s\<lparr>roundrobin_start := rr\<rparr>)" "0 \<le> rr" "num_best_effort_tenants s > 0 \<longrightarrow> be_at s rr"
proof (cases "num_best_effort_tenants s > 0")
  case True
  then have "filter (is_be s) (tenant_swq s) \<noteq> []" using assms by (auto simp: tenant_inv_def)
  then have b: "\<exists>q \<in> set (tenant_swq s). is_be s q" by (simp add: filter_empty_conv)
  then have "tenant_swq s \<noteq> []" by auto
  then have n: "0 < num_tenants s" "num_tenants s = int (length (tenant_swq s))" using assms by (simp_all add: tenant_inv_def)
  obtain k where k: "k < length (tenant_swq s)"
    "rr_search (nat (num_tenants s)) s (roundrobin_start s) = Some ((roundrobin_start s + 1 + int k) mod num_tenants s)"
    "be_at s ((roundrobin_start s + 1 + int k) mod num_tenants s)"
    "\<forall>j<k. \<not> be_at s ((roundrobin_start s + 1 + int j) mod num_tenants s)"
    by (rule rr_search_spec [OF n b])
  show ?thesis by (rule that [of "(roundrobin_start s + 1 + int k) mod num_tenants s"]) (use True k n in auto)
next
  case False
  then show ?thesis using that [of "roundrobin_start s"] assms by (simp add: tenant_inv_def)
qed

text \<open>The tokens the sub-round starts with and what it leaves in the bucket.\<close>

definition bucket_found :: "u64 list \<Rightarrow> 'w nvme_state \<Rightarrow> u64" where
  "bucket_found vs s = (if local_leftover_tokens s < local_extra_demand s then bucket_at_cas vs (global_leftover_tokens s)
     else global_leftover_tokens s)"

lemma be_tokens_start:
  obtains t b where "(if local_leftover_tokens s < local_extra_demand s
      then (case try_acquire_global_tokens vs (local_extra_demand s - local_leftover_tokens s) (global_leftover_tokens s) of
        (got, bucket) \<Rightarrow> (local_leftover_tokens s + got, s\<lparr>global_leftover_tokens := bucket\<rparr>))
      else (local_leftover_tokens s, s)) = (t, s\<lparr>global_leftover_tokens := b\<rparr>)"
    "uint (bucket_found vs s) + uint (local_leftover_tokens s) < 2 ^ 64 \<longrightarrow>
       uint t + uint b = uint (bucket_found vs s) + uint (local_leftover_tokens s)"
proof (cases "local_leftover_tokens s < local_extra_demand s")
  case True
  let ?lo = "local_leftover_tokens s" and ?v = "bucket_at_cas vs (global_leftover_tokens s)"
  define g where "g = min (local_extra_demand s - ?lo) ?v"
  have "g \<le> ?v" by (simp add: g_def)
  then have u: "uint (?v - g) = uint ?v - uint g" "uint g \<le> uint ?v" using uint_sub_lem [of g ?v] by (simp_all add: word_le_def)
  show ?thesis
  proof (rule that [of "?lo + g" "?v - g"], goal_cases)
    case 2
    show ?case
    proof
      assume "uint (bucket_found vs s) + uint ?lo < 2 ^ 64"
      then have "uint ?lo + uint g < 2 ^ 64" using u(2) True unfolding bucket_found_def by simp
      then have "uint (?lo + g) = uint ?lo + uint g" by (simp add: uint_plus_if')
      then show "uint (?lo + g) + uint (?v - g) = uint (bucket_found vs s) + uint ?lo" using u True by (simp add: bucket_found_def)
    qed
  qed (use True in \<open>simp add: try_acquire_spec g_def\<close>)
next
  case False
  then show ?thesis by (intro that [of "local_leftover_tokens s" "global_leftover_tokens s"]) (simp_all add: bucket_found_def)
qed

lemma foldM_append: "foldM f (xs @ ys) b = (case foldM f xs b of None \<Rightarrow> None | Some b \<Rightarrow> foldM f ys b)"
  by (induction xs arbitrary: b) (auto split: option.split)

definition rotation :: "'w nvme_state \<Rightarrow> ptr list" where
  "rotation s = drop (nat (roundrobin_start s)) (tenant_swq s) @ take (nat (roundrobin_start s)) (tenant_swq s)"

lemma rotation_props: "set (rotation s) = set (tenant_swq s)" "distinct (tenant_swq s) \<Longrightarrow> distinct (rotation s)"
proof -
  let ?n = "nat (roundrobin_start s)"
  have e: "tenant_swq s = take ?n (tenant_swq s) @ drop ?n (tenant_swq s)" by simp
  show "set (rotation s) = set (tenant_swq s)" by (subst e) (auto simp: rotation_def simp del: append_take_drop_id)
  show "distinct (rotation s)" if "distinct (tenant_swq s)"
    using that by (subst (asm) e) (auto simp: rotation_def simp del: append_take_drop_id)
qed

lemma be_saved_rotation: "be_saved s' (rotation s) = be_saved s' (tenant_swq s)" "be_count s' (rotation s) = be_count s' (tenant_swq s)"
proof -
  let ?n = "nat (roundrobin_start s)"
  have e: "tenant_swq s = take ?n (tenant_swq s) @ drop ?n (tenant_swq s)" by simp
  show "be_saved s' (rotation s) = be_saved s' (tenant_swq s)"
    by (subst e) (simp only: rotation_def be_saved_simps add.commute)
  show "be_count s' (rotation s) = be_count s' (tenant_swq s)"
    by (subst e) (simp only: rotation_def be_count_simps add.commute)
qed

text \<open>The two loops of the sub-round are one pass over the tenants in round-robin order.\<close>

lemma be_loops:
  assumes inv: "tenant_inv free s" "queues_ok s" and spdk: "spdk_keeps_pools E free" and dev: "nvme_dev_model cfg \<noteq> FAKE_FLASH"
    and n: "n = nat (roundrobin_start s)"
  shows "(case foldM (be_tenant E cfg dt) (drop n (tenant_swq s)) (s, t) of None \<Rightarrow> None
      | Some z \<Rightarrow> foldM (be_tenant E cfg dt) (take n (tenant_swq (fst z))) z) = foldM (be_tenant E cfg dt) (rotation s) (s, t)"
proof (cases "foldM (be_tenant E cfg dt) (drop n (tenant_swq s)) (s, t)")
  case None
  then show ?thesis using n by (simp add: rotation_def foldM_append)
next
  case (Some z)
  have d: "distinct (tenant_swq s)" using inv(1) by (simp add: tenant_inv_def)
  have "distinct (drop n (tenant_swq s))" "set (drop n (tenant_swq s)) \<subseteq> set (tenant_swq s)"
    using d set_drop_subset [of n "tenant_swq s"] by simp_all
  then obtain Y W where "outcome W (Some z) (\<lambda>w z. serves free (drop n (tenant_swq s)) Y s (fst z) \<and> world (fst z) = w \<and>
      balanced (drop n (tenant_swq s)) t (be_increment cfg dt s) (cost_of (ctxs s) (concat (map Y (drop n (tenant_swq s))))) s (snd z) (fst z))"
    using be_fold_spec [OF spdk dev inv(2), of "drop n (tenant_swq s)" dt t] unfolding Some by blast
  then have "tenant_swq (fst z) = tenant_swq s" by (cases W) (auto simp: serves_def sched_frame_sel)
  then show ?thesis using n Some by (simp add: rotation_def foldM_append)
qed

text \<open>What the second sub-round has, and what it leaves, in tokens.\<close>

definition tokens_before :: "nvme_cfg \<Rightarrow> u64 list \<Rightarrow> u64 \<Rightarrow> 'w nvme_state \<Rightarrow> int" where
  "tokens_before cfg vs now s = uint (bucket_found vs s) + uint (local_leftover_tokens s) + be_saved s (tenant_swq s) +
     be_count s (tenant_swq s) * uint (be_increment cfg (now - last_sched_time_be s) s)"

definition tokens_after :: "'w nvme_state \<Rightarrow> int" where
  "tokens_after s = uint (global_leftover_tokens s) + be_saved s (tenant_swq s)"

text \<open>The code after the two loops.\<close>

definition be_rest :: "'w nvme_state \<times> u64 \<Rightarrow> 'w nvme_state option" where
  "be_rest = (\<lambda>(s, be_tokens). do {
     s \<leftarrow> (if num_best_effort_tenants s > 0
           then map_option (\<lambda>rr. s\<lparr>roundrobin_start := rr\<rparr>) (rr_search (nat (num_tenants s)) s (roundrobin_start s))
           else Some s);
     Some (if be_tokens > 0
           then s\<lparr>global_leftover_tokens := snd (atomic_u64_fetch_and_add (global_leftover_tokens s) be_tokens)\<rparr>
           else s) })"

lemma be_rest_spec:
  assumes "tenant_inv free s"
  obtains rr where "be_rest (s, t) = Some (s\<lparr>roundrobin_start := rr, global_leftover_tokens := global_leftover_tokens s + t\<rparr>)" "0 \<le> rr"
proof -
  obtain rr where rr: "(if num_best_effort_tenants s > 0
      then map_option (\<lambda>rr. s\<lparr>roundrobin_start := rr\<rparr>) (rr_search (nat (num_tenants s)) s (roundrobin_start s))
      else Some s) = Some (s\<lparr>roundrobin_start := rr\<rparr>)" "0 \<le> rr" "num_best_effort_tenants s > 0 \<longrightarrow> be_at s rr"
    by (rule rr_next [OF assms])
  have "be_rest (s, t) = Some (s\<lparr>roundrobin_start := rr, global_leftover_tokens := global_leftover_tokens s + t\<rparr>)"
    unfolding be_rest_def prod.case rr(1) by (simp add: atomic_u64_fetch_and_add_def word_gt_0)
  then show ?thesis using that rr(2) by blast
qed

lemma subround2_eq:
  assumes "\<not> (local_leftover_tokens s > 0 \<and> local_extra_demand s = 0)"
    "(if local_leftover_tokens s < local_extra_demand s
      then (case try_acquire_global_tokens vs (local_extra_demand s - local_leftover_tokens s) (global_leftover_tokens s) of
        (got, bucket) \<Rightarrow> (local_leftover_tokens s + got, s\<lparr>global_leftover_tokens := bucket\<rparr>))
      else (local_leftover_tokens s, s)) = (t, s\<lparr>global_leftover_tokens := b\<rparr>)"
    "s0 = s\<lparr>global_leftover_tokens := b, last_sched_time_be := now\<rparr>" "tenant_inv free s0" "queues_ok s0"
    "spdk_keeps_pools E free" "nvme_dev_model cfg \<noteq> FAKE_FLASH"
  shows "nvme_sched_subround2 E cfg vs now s =
    Option.bind (foldM (be_tenant E cfg (now - last_sched_time_be s)) (rotation s0) (s0, t)) be_rest"
proof -
  have e: "last_sched_time_be (s\<lparr>global_leftover_tokens := b\<rparr>) = last_sched_time_be s"
    "s\<lparr>global_leftover_tokens := b\<rparr>\<lparr>last_sched_time_be := now\<rparr> = s0" using assms(3) by simp_all
  show ?thesis
    unfolding nvme_sched_subround2_def Let_def assms(2) prod.case if_not_P [OF assms(1)] e
      be_loops [OF assms(4-7) refl, symmetric] be_rest_def
    by (auto split: option.splits simp: case_prod_beta)
qed

lemma balance_add:
  assumes "uint t + uint b = v + lo" "balanced qs t inc cost s0 t2 s2" "costs_ok s0 qs"
    "v + lo + be_saved s0 qs + be_count s0 qs * uint inc < 2 ^ 64" "0 \<le> cost"
  shows "v + lo + be_saved s0 qs + be_count s0 qs * uint inc = uint (b + t2) + be_saved s2 qs + cost"
proof -
  have "uint t + be_saved s0 qs + be_count s0 qs * uint inc < 2 ^ 64" using assms(1,4) uint_ge_0 [of b] by linarith
  then have 1: "uint t + be_saved s0 qs + be_count s0 qs * uint inc = uint t2 + be_saved s2 qs + cost"
    using assms(2,3) unfolding balanced_def by blast
  then have "uint b + uint t2 < 2 ^ 64" using assms(1,4,5) be_saved_nonneg(1) [of s2 qs] by linarith
  then have "uint (b + t2) = uint b + uint t2" by (simp add: uint_plus_if')
  then show ?thesis using 1 assms(1) by linarith
qed

lemma concat_costs_nonneg:
  assumes "prefixes s Y" "costs_ok s qs"
  shows "0 \<le> cost_of (ctxs s) (concat (map Y qs))"
proof (rule cost_of_nonneg)
  fix x assume "x \<in> set (concat (map Y qs))"
  then obtain q where q: "q \<in> set qs" "x \<in> set (Y q)" by auto
  moreover obtain zs where "swq_items (swqs s q) = Y q @ zs" using assms(1) unfolding prefixes_def by blast
  ultimately show "0 \<le> req_cost (ctxs s x)" using assms(2) by (auto simp: costs_ok_def)
qed

lemma balanced_rotation: "balanced (rotation s) t inc c s0 t' s' = balanced (tenant_swq s) t inc c s0 t' s'"
  unfolding balanced_def be_saved_rotation costs_ok_def rotation_props ..

lemma subround2_spec:
  assumes inv: "tenant_inv free s" "queues_ok s" and spdk: "spdk_keeps_pools E free" and dev: "nvme_dev_model cfg \<noteq> FAKE_FLASH"
    and run: "\<not> (local_leftover_tokens s > 0 \<and> local_extra_demand s = 0)"
  shows "\<exists>Y. prefixes s Y \<and> (\<forall>q. \<not> is_be s q \<longrightarrow> Y q = []) \<and>
    outcome (spdk_run E (map (req_cmd (ctxs s)) (concat (map Y (rotation s)))) (world s)) (nvme_sched_subround2 E cfg vs now s) (\<lambda>w s'.
      served free (rotation s) Y s s' \<and> world s' = w \<and> last_sched_time_be s' = now \<and>
      (costs_ok s (tenant_swq s) \<and> tokens_before cfg vs now s < 2 ^ 64 \<longrightarrow>
        tokens_before cfg vs now s = tokens_after s' + cost_of (ctxs s) (concat (map Y (rotation s)))))"
proof -
  let ?lo = "local_leftover_tokens s" and ?dt = "now - last_sched_time_be s" and ?qs = "tenant_swq s"
  let ?inc = "be_increment cfg ?dt s"
  obtain t b where tb: "(if ?lo < local_extra_demand s
      then (case try_acquire_global_tokens vs (local_extra_demand s - ?lo) (global_leftover_tokens s) of
        (got, bucket) \<Rightarrow> (?lo + got, s\<lparr>global_leftover_tokens := bucket\<rparr>)) else (?lo, s)) = (t, s\<lparr>global_leftover_tokens := b\<rparr>)"
    "uint (bucket_found vs s) + uint ?lo < 2 ^ 64 \<longrightarrow> uint t + uint b = uint (bucket_found vs s) + uint ?lo"
    by (rule be_tokens_start [where s = s and vs = vs])
  define s0 where "s0 = s\<lparr>global_leftover_tokens := b, last_sched_time_be := now\<rparr>"
  have c0: "same_core s s0" by (simp add: same_core_def s0_def)
  note c = same_core_sel [OF c0]
  have e0: "tenant_swq s0 = ?qs" "ctxs s0 = ctxs s" "rotation s0 = rotation s" "world s0 = world s" "swqs s0 = swqs s"
    by (simp_all add: s0_def rotation_def)
  have t0: "tenant_inv free s0" using same_core_tenant_inv [OF c0 inv(1)] inv(1) by (simp add: tenant_inv_def s0_def)
  have q0: "queues_ok s0" using c inv(2) by simp
  have px: "prefixes s0 = prefixes s" "costs_ok s0 = costs_ok s" by (simp_all add: prefixes_def costs_ok_def e0 fun_eq_iff)
  have "distinct (rotation s)" "set (rotation s) \<subseteq> set (tenant_swq s0)"
    using rotation_props [of s] inv(1) e0 by (auto simp: tenant_inv_def)
  then obtain Y where Y: "prefixes s Y" "\<forall>q. \<not> is_be s q \<or> q \<notin> set (rotation s) \<longrightarrow> Y q = []"
    "outcome (spdk_run E (map (req_cmd (ctxs s)) (concat (map Y (rotation s)))) (world s)) (foldM (be_tenant E cfg ?dt) (rotation s) (s0, t))
      (\<lambda>w z. serves free (rotation s) Y s0 (fst z) \<and> world (fst z) = w \<and>
        balanced (rotation s) t ?inc (cost_of (ctxs s) (concat (map Y (rotation s)))) s0 (snd z) (fst z))"
    using be_fold_spec [OF spdk dev q0, of "rotation s" ?dt t] unfolding c px e0 by blast
  let ?cost = "cost_of (ctxs s) (concat (map Y (rotation s)))"
  have "outcome (spdk_run E (map (req_cmd (ctxs s)) (concat (map Y (rotation s)))) (world s)) (nvme_sched_subround2 E cfg vs now s) (\<lambda>w s'.
      served free (rotation s) Y s s' \<and> world s' = w \<and> last_sched_time_be s' = now \<and>
      (costs_ok s ?qs \<and> tokens_before cfg vs now s < 2 ^ 64 \<longrightarrow> tokens_before cfg vs now s = tokens_after s' + ?cost))"
    unfolding subround2_eq [OF run tb(1) s0_def t0 q0 spdk dev] e0
  proof (rule outcome_then [OF Y(3)])
    fix w and z :: "'a nvme_state \<times> u64"
    assume z: "serves free (rotation s) Y s0 (fst z) \<and> world (fst z) = w \<and> balanced (rotation s) t ?inc ?cost s0 (snd z) (fst z)"
    then have f: "sched_frame free s0 (fst z)" by (simp add: serves_def)
    note sel = sched_frame_sel [OF f]
    obtain rr where rr: "be_rest (fst z, snd z) = Some ((fst z)\<lparr>roundrobin_start := rr,
        global_leftover_tokens := global_leftover_tokens (fst z) + snd z\<rparr>)" "0 \<le> rr"
      by (rule be_rest_spec [OF sched_frame_tenant_inv [OF f t0]])
    define s' where "s' = (fst z)\<lparr>roundrobin_start := rr, global_leftover_tokens := global_leftover_tokens (fst z) + snd z\<rparr>"
    have c': "same_core (fst z) s'" by (simp add: same_core_def s'_def)
    have sv: "served free (rotation s) Y s s'"
      by (rule served_core [OF serves_served [OF conjunct1 [OF z] t0 q0] c0 c']) (use rr(2) in \<open>simp add: s'_def\<close>)
    have l: "world s' = w" "last_sched_time_be s' = now" "tenant_swq s' = ?qs" "global_leftover_tokens s' = b + snd z"
      using z sel by (simp_all add: s'_def s0_def)
    have bal: "balanced ?qs t ?inc ?cost s0 (snd z) (fst z)" using z by (simp add: balanced_rotation)
    have "tokens_before cfg vs now s = tokens_after s' + ?cost" if a: "costs_ok s ?qs \<and> tokens_before cfg vs now s < 2 ^ 64"
    proof -
      have v: "uint (bucket_found vs s) + uint ?lo < 2 ^ 64" "0 \<le> ?cost"
        using a be_saved_nonneg [of s ?qs] concat_costs_nonneg [OF Y(1), of "rotation s"] rotation_props(1) [of s]
        by (auto simp: tokens_before_def costs_ok_def intro: order.strict_trans1 [rotated])
      show ?thesis using balance_add [OF mp [OF tb(2) v(1)] bal _ _ v(2)] a
        unfolding tokens_before_def tokens_after_def c px l same_core_sel(3) [OF c'] by (simp add: add.assoc)
    qed
    then show "\<exists>y. be_rest z = Some y \<and> served free (rotation s) Y s y \<and> world y = w \<and> last_sched_time_be y = now \<and>
        (costs_ok s ?qs \<and> tokens_before cfg vs now s < 2 ^ 64 \<longrightarrow> tokens_before cfg vs now s = tokens_after y + ?cost)"
      using rr(1) sv l unfolding s'_def [symmetric] prod.collapse by blast
  qed
  then show ?thesis using Y(1,2) by blast
qed

lemma rnd_idem_pos:
  assumes "0 < x"
  shows "rnd (rnd x) = rnd x"
proof -
  define m where "m = rne (x / ulp x)"
  have r: "rnd x = of_int m * 2 powi (ilog2 x - 52)" using assms by (simp add: rnd_def m_def ulp_def)
  have "2 ^ 52 \<le> m" unfolding m_def by (rule rne_ge_of_int) (use div_ulp_bounds(1) [OF assms] in simp)
  moreover have "m \<le> 2 ^ 53" unfolding m_def by (rule rne_le_of_int) (use div_ulp_bounds(2) [OF assms] in simp)
  ultimately consider "\<bar>m\<bar> < 2 ^ 53" | "m = 2 ^ 53" by fastforce
  then show ?thesis
  proof cases
    case 1
    then show ?thesis unfolding r by (rule rnd_exact)
  next
    case 2
    have "rnd x = of_int 1 * 2 powi (ilog2 x + 1)" unfolding r 2
      by (simp add: power_int_add power_int_diff)
    then show ?thesis using rnd_exact [of 1 "ilog2 x + 1"] by simp
  qed
qed

lemma rnd_idem: "rnd (rnd x) = rnd x"
proof -
  consider "x = 0" | "0 < x" | "0 < - x" by linarith
  then show ?thesis
  proof cases
    case 3
    then show ?thesis using rnd_idem_pos [OF 3] by (simp add: rnd_minus)
  qed (simp_all add: rnd_idem_pos)
qed

lemma giveaway_nonneg:
  assumes "0 \<le> c"
  shows "0 \<le> d_trunc (dsub (d_of_int c) (dmul (d_of_int c) TOKEN_FRAC_GIVEAWAY))"
proof -
  have t: "TOKEN_FRAC_GIVEAWAY \<le> 1" using rnd_mono [of "9 / 10" 1] rnd_of_int [of 1] by (simp add: TOKEN_FRAC_GIVEAWAY_def)
  have "d_of_int c * TOKEN_FRAC_GIVEAWAY \<le> d_of_int c" using mult_left_mono [OF t d_of_int_nonneg [OF assms]] by simp
  then have "dmul (d_of_int c) TOKEN_FRAC_GIVEAWAY \<le> d_of_int c"
    using rnd_mono [of "d_of_int c * TOKEN_FRAC_GIVEAWAY" "d_of_int c"] rnd_idem [of "of_int c"] by (simp add: dmul_def d_of_int_def)
  then show ?thesis by (intro d_trunc_nonneg) (simp add: dsub_def rnd_nonneg)
qed

lemma lc_increment_nonneg:
  "0 \<le> scaled_IOPuS_limit (nvme_fgs s (fg_handle (swqs s q))) \<Longrightarrow> 0 \<le> lc_increment dt s q"
  by (simp add: lc_increment_def dadd_def dmul_def rnd_nonneg d_of_int_nonneg)

lemma lc_after_bounds:
  assumes lim: "0 \<le> scaled_IOPuS_limit (nvme_fgs s (fg_handle (swqs s q)))" "0 \<le> TOKEN_DEFICIT_LIMIT s"
    and m: "\<forall>x \<in> set (swq_items (swqs s q)). req_cost (ctxs s x) \<le> m" "0 < m"
  shows "min (token_credit (swqs s q) + d_trunc (lc_increment dt s q)) (1 - TOKEN_DEFICIT_LIMIT s - m) \<le> fst (lc_after dt s q lo)"
    "lc_served dt s q = swq_items (swqs s q) \<or> fst (lc_after dt s q lo) \<le> - TOKEN_DEFICIT_LIMIT s"
proof -
  let ?c = "token_credit (swqs s q) + d_trunc (lc_increment dt s q)" and ?L = "TOKEN_DEFICIT_LIMIT s"
  have p: "0 \<le> d_trunc (dmul 3 (lc_increment dt s q))"
    by (intro d_trunc_nonneg) (simp add: dmul_def rnd_nonneg lc_increment_nonneg [OF lim(1)])
  have b: "min ?c (1 - ?L - m) \<le> lc_credit dt s q"
    unfolding lc_credit_def cost_of_def lc_served_def by (rule lc_rule_bound) (use m in auto)
  have st: "lc_served dt s q = swq_items (swqs s q) \<or> lc_credit dt s q \<le> - ?L"
    unfolding lc_credit_def cost_of_def lc_served_def by (rule lc_rule_stop)
  show "min ?c (1 - ?L - m) \<le> fst (lc_after dt s q lo)"
  proof (cases "lc_credit dt s q > d_trunc (dmul 3 (lc_increment dt s q))")
    case True
    then have "0 \<le> fst (lc_after dt s q lo)" using p giveaway_nonneg [of "lc_credit dt s q"] by (simp add: lc_after_def Let_def)
    then show ?thesis using lim(2) m(2) by linarith
  qed (use b in \<open>simp add: lc_after_def Let_def\<close>)
  show "lc_served dt s q = swq_items (swqs s q) \<or> fst (lc_after dt s q lo) \<le> - ?L"
    using st p lim(2) by (auto simp: lc_after_def Let_def)
qed

text \<open>A state in which tenant 24 has one 4 KiB read queued.\<close>

definition sched_ex :: "bool \<Rightarrow> (ptr option \<Rightarrow> ptr list) nvme_state" where
  "sched_ex lc = nvme_state_ex1
     \<lparr>nvme_fgs := (\<lambda>_. fg0)(1 := fg0\<lparr>flow_group_id := 7, nvme_swq := 24, conn_ref_count := 1, latency_critical_flag := lc\<rparr>),
      num_best_effort_tenants := (if lc then 0 else 1),
      ctxs := (\<lambda>_. ctx0)(11 := ctx0\<lparr>ctx_cmd := NVME_CMD_READ, req_cost := 1, ctx_lba := 8, ctx_lba_count := 8\<rparr>),
      swqs := (\<lambda>_. swq0)(24 := snd (nvme_sw_queue_push_back ((\<lambda>_. ctx0)(11 := ctx0\<lparr>req_cost := 1\<rparr>)) (nvme_sw_queue_init swq0 1) 11))\<rparr>"

abbreviation free_ex :: "ptr option \<Rightarrow> (ptr option \<Rightarrow> ptr list) \<Rightarrow> ptr set" where
  "free_ex \<equiv> \<lambda>pool w. set (w pool)"

lemma sched_ex_queue: "swq_inv (swqs (sched_ex lc) 24)" "swq_items (swqs (sched_ex lc) 24) = [11]"
  by (simp_all add: sched_ex_def nvme_sw_queue_push_back_def nvme_sw_queue_init_def swq0_def swq_inv_def swq_items_def
      NVME_SW_QUEUE_SIZE_def)

lemma sched_ex_handle: "fg_handle (swqs (sched_ex lc) 24) = 1"
  by (simp add: sched_ex_def nvme_sw_queue_push_back_def nvme_sw_queue_init_def NVME_SW_QUEUE_SIZE_def)

lemma sched_ex_sel:
  "nvme_fgs (sched_ex lc) 1 = fg0\<lparr>flow_group_id := 7, nvme_swq := 24, conn_ref_count := 1, latency_critical_flag := lc\<rparr>"
  "tenant_swq (sched_ex lc) = [24]" "num_tenants (sched_ex lc) = 1" "num_best_effort_tenants (sched_ex lc) = (if lc then 0 else 1)"
  "roundrobin_start (sched_ex lc) = 0" "TOKEN_DEFICIT_LIMIT (sched_ex lc) = 2000" "local_leftover_tokens (sched_ex lc) = 0"
  "ctxs (sched_ex lc) 11 = ctx0\<lparr>ctx_cmd := NVME_CMD_READ, req_cost := 1, ctx_lba := 8, ctx_lba_count := 8\<rparr>"
  by (simp_all add: sched_ex_def nvme_state_ex1_def nvme_state_ex_def)

lemma sched_ex_tokens: "global_leftover_tokens (sched_ex lc) = 0" "local_extra_demand (sched_ex lc) = 0"
  "saved_tokens (swqs (sched_ex lc) 24) = 0"
  by (simp_all add: sched_ex_def nvme_state_ex1_def nvme_state_ex_def nvme_sw_queue_push_back_def nvme_sw_queue_init_def
      NVME_SW_QUEUE_SIZE_def)

lemma sched_ex_is_be: "is_be (sched_ex lc) 24 = (\<not> lc)"
  by (simp add: is_be_def sched_ex_handle sched_ex_sel)

lemma sched_ex_inv: "tenant_inv free_ex (sched_ex lc)"
proof -
  have "mempool_avail free_ex (nvme_swq_mempool (sched_ex lc)) (mp (sched_ex lc)) \<inter> {24} = {}"
    by (simp add: sched_ex_def nvme_state_ex1_def nvme_state_ex_def mempool_avail_def pool_of_def nvme_mp_ex_def
        nvme_swq_datastore_def ctx_datastore_def)
  moreover have "bitmap_test (nvme_fgs_bitmap (sched_ex lc)) 1"
    by (simp add: sched_ex_def nvme_state_ex1_def bitmap_test_set)
  ultimately show ?thesis
    by (simp add: tenant_inv_def tenant_ok_def sched_ex_sel sched_ex_queue sched_ex_handle sched_ex_is_be
        MAX_NVME_FLOW_GROUPS_def Int_commute)
qed

lemma sched_ex_queues_ok: "queues_ok (sched_ex lc)"
  by (simp add: queues_ok_def sched_ex_sel sched_ex_queue req_ok_def)

lemma spdk_ex: "spdk_keeps_pools env_ex free_ex"
  by (simp add: spdk_keeps_pools_def env_ex_def)

lemma cfg_ex_dev: "nvme_dev_model cfg_ex \<noteq> FAKE_FLASH"
  by (simp add: cfg_ex_def FLASH_DEV_MODEL_def FAKE_FLASH_def)

section \<open>Properties\<close>

text \<open>
  C6. Serving a latency-critical tenant on a real device (not the fake flash of the tests): its
  requests go to the device in queue order, each at a credit strictly above
  \<open>- TOKEN_DEFICIT_LIMIT\<close>, where the credit is the old one plus the increment for the elapsed time
  less the costs of the requests before it.  Serving stops only at an empty queue or when the credit is down
  to the limit, and the credit is never driven further below the limit than the cost of one request
  less one, so a burst of the tenant is throttled and its debt is bounded.  The process
  stops exactly when SPDK refuses one of these commands.
\<close>

theorem lc_tenant_credit:
  assumes "spdk_keeps_pools E free" "nvme_dev_model cfg \<noteq> FAKE_FLASH" "\<not> is_be s q"
    "swq_inv (swqs s q)" "\<forall>x \<in> set (swq_items (swqs s q)). req_ok (ctxs s x) \<and> req_cost (ctxs s x) \<le> m"
    "0 \<le> scaled_IOPuS_limit (nvme_fgs s (fg_handle (swqs s q)))" "0 \<le> TOKEN_DEFICIT_LIMIT s" "0 < m"
  shows "\<exists>ys. (\<forall>i < length ys. - TOKEN_DEFICIT_LIMIT s <
      token_credit (swqs s q) + d_trunc (lc_increment dt s q) - cost_of (ctxs s) (take i ys)) \<and>
    (case spdk_run E (map (req_cmd (ctxs s)) ys) (mp_world (mp s)) of None \<Rightarrow> lc_tenant E cfg dt q (s, lo, d) = None
     | Some w \<Rightarrow> \<exists>s' lo'. lc_tenant E cfg dt q (s, lo, d) = Some (s', lo', d) \<and>
         sq s' = sq s @ map (req_cmd (ctxs s)) ys \<and> swq_items (swqs s q) = ys @ swq_items (swqs s' q) \<and>
         (swq_items (swqs s' q) = [] \<or> token_credit (swqs s' q) \<le> - TOKEN_DEFICIT_LIMIT s) \<and>
         min (token_credit (swqs s q)) (1 - TOKEN_DEFICIT_LIMIT s - m) \<le> token_credit (swqs s' q))"
proof -
  have r: "\<forall>x \<in> set (swq_items (swqs s q)). req_ok (ctxs s x)" "\<forall>x \<in> set (swq_items (swqs s q)). req_cost (ctxs s x) \<le> m"
    using assms(5) by auto
  let ?ys = "lc_served dt s q"
  note b = lc_after_bounds [OF assms(6,7) r(2) assms(8), of dt lo]
  have i: "0 \<le> d_trunc (lc_increment dt s q)" by (rule d_trunc_nonneg [OF lc_increment_nonneg [OF assms(6)]])
  have "outcome (spdk_run E (map (req_cmd (ctxs s)) ?ys) (world s)) (lc_tenant E cfg dt q (s, lo, d)) (\<lambda>w z.
      snd (snd z) = d \<and> sq (fst z) = sq s @ map (req_cmd (ctxs s)) ?ys \<and> swq_items (swqs s q) = ?ys @ swq_items (swqs (fst z) q) \<and>
      (swq_items (swqs (fst z) q) = [] \<or> token_credit (swqs (fst z) q) \<le> - TOKEN_DEFICIT_LIMIT s) \<and>
      min (token_credit (swqs s q)) (1 - TOKEN_DEFICIT_LIMIT s - m) \<le> token_credit (swqs (fst z) q))"
  proof (rule outcome_mono [OF lc_tenant_spec [OF assms(1-4) r(1), of dt lo d]])
    fix w and z :: "'a nvme_state \<times> u64 \<times> u64"
    assume z: "issues free q ?ys s (fst z) \<and> world (fst z) = w \<and> token_credit (swqs (fst z) q) = fst (lc_after dt s q lo) \<and>
      snd z = (snd (lc_after dt s q lo), d)"
    then have it: "swq_items (swqs s q) = ?ys @ swq_items (swqs (fst z) q)" by (simp add: issues_def)
    have "swq_items (swqs (fst z) q) = [] \<or> token_credit (swqs (fst z) q) \<le> - TOKEN_DEFICIT_LIMIT s"
      using b(2) it z by (metis append_self_conv)
    moreover have "min (token_credit (swqs s q)) (1 - TOKEN_DEFICIT_LIMIT s - m) \<le> token_credit (swqs (fst z) q)"
      using b(1) i z by linarith
    ultimately show "snd (snd z) = d \<and> sq (fst z) = sq s @ map (req_cmd (ctxs s)) ?ys \<and> swq_items (swqs s q) = ?ys @ swq_items (swqs (fst z) q) \<and>
      (swq_items (swqs (fst z) q) = [] \<or> token_credit (swqs (fst z) q) \<le> - TOKEN_DEFICIT_LIMIT s) \<and>
      min (token_credit (swqs s q)) (1 - TOKEN_DEFICIT_LIMIT s - m) \<le> token_credit (swqs (fst z) q)"
      using z it by (simp add: issues_def)
  qed
  moreover have "\<forall>i < length ?ys. - TOKEN_DEFICIT_LIMIT s <
      token_credit (swqs s q) + d_trunc (lc_increment dt s q) - cost_of (ctxs s) (take i ?ys)"
    unfolding lc_served_def cost_of_def by (intro allI impI lc_rule_above)
  ultimately show ?thesis
    by (intro exI [of _ ?ys]) (auto simp: outcome_def split: option.splits)
qed

theorem lc_tenant_credit_witness:
  "\<exists>ys. (\<forall>i < length ys. - TOKEN_DEFICIT_LIMIT (sched_ex True) < token_credit (swqs (sched_ex True) 24) +
      d_trunc (lc_increment 5 (sched_ex True) 24) - cost_of (ctxs (sched_ex True)) (take i ys)) \<and>
    (case spdk_run env_ex (map (req_cmd (ctxs (sched_ex True))) ys) (mp_world (mp (sched_ex True))) of
       None \<Rightarrow> lc_tenant env_ex cfg_ex 5 24 (sched_ex True, 0, 0) = None
     | Some w \<Rightarrow> \<exists>s' lo'. lc_tenant env_ex cfg_ex 5 24 (sched_ex True, 0, 0) = Some (s', lo', 0) \<and>
         sq s' = sq (sched_ex True) @ map (req_cmd (ctxs (sched_ex True))) ys \<and>
         swq_items (swqs (sched_ex True) 24) = ys @ swq_items (swqs s' 24) \<and>
         (swq_items (swqs s' 24) = [] \<or> token_credit (swqs s' 24) \<le> - TOKEN_DEFICIT_LIMIT (sched_ex True)) \<and>
         min (token_credit (swqs (sched_ex True) 24)) (1 - TOKEN_DEFICIT_LIMIT (sched_ex True) - 1) \<le> token_credit (swqs s' 24))"
  by (rule lc_tenant_credit [OF spdk_ex cfg_ex_dev])
    (simp_all add: sched_ex_is_be sched_ex_queue sched_ex_handle sched_ex_sel req_ok_def fg0_def)

lemma subround2_early:
  assumes "local_leftover_tokens s > 0 \<and> local_extra_demand s = 0"
  shows "nvme_sched_subround2 E cfg vs now s =
    Some (s\<lparr>global_leftover_tokens := global_leftover_tokens s + local_leftover_tokens s\<rparr>)"
  using assms by (simp add: nvme_sched_subround2_def Let_def atomic_u64_fetch_and_add_def)

text \<open>
  C2. Best-effort tokens are conserved, as integers.  When this core has tokens left over and no
  demand, the second sub-round adds them to the shared bucket and changes nothing else.  Otherwise what
  it finds, in the shared bucket, in the leftover of this core, in the saved tokens of its tenants
  and in one increment per best-effort tenant for the elapsed time, is what it leaves in the bucket and in the saved
  tokens plus what it spends on the requests \<open>ys\<close> that it submits; so nothing is spent that was not there.
  The bucket's value is the one at the successful compare-and-swap, \<open>vs\<close> being what other cores write
  before that; they do not change the bucket later in the sub-round.  The process stops exactly when SPDK refuses one of
  the commands.  The device is a real one, the costs are not negative, and the tokens found fit 64 bits.
\<close>

theorem subround2_conserves_tokens:
  assumes "tenant_inv free s" "queues_ok s" "costs_ok s (tenant_swq s)" "spdk_keeps_pools E free" "nvme_dev_model cfg \<noteq> FAKE_FLASH"
    "before = uint (if local_leftover_tokens s < local_extra_demand s then bucket_at_cas vs (global_leftover_tokens s)
        else global_leftover_tokens s) + uint (local_leftover_tokens s) + be_saved s (tenant_swq s) +
      be_count s (tenant_swq s) * uint (be_increment cfg (now - last_sched_time_be s) s)" "before < 2 ^ 64"
  shows "if local_leftover_tokens s > 0 \<and> local_extra_demand s = 0
    then \<exists>b. nvme_sched_subround2 E cfg vs now s = Some (s\<lparr>global_leftover_tokens := b\<rparr>) \<and>
      uint b = uint (global_leftover_tokens s) + uint (local_leftover_tokens s)
    else \<exists>ys. case spdk_run E (map (req_cmd (ctxs s)) ys) (mp_world (mp s)) of
        None \<Rightarrow> nvme_sched_subround2 E cfg vs now s = None
      | Some w \<Rightarrow> \<exists>s'. nvme_sched_subround2 E cfg vs now s = Some s' \<and> last_sched_time_be s' = now \<and>
          sq s' = sq s @ map (req_cmd (ctxs s)) ys \<and>
          before = uint (global_leftover_tokens s') + be_saved s' (tenant_swq s) + cost_of (ctxs s) ys"
proof (cases "local_leftover_tokens s > 0 \<and> local_extra_demand s = 0")
  case True
  have "before = uint (global_leftover_tokens s) + uint (local_leftover_tokens s) + be_saved s (tenant_swq s) +
      be_count s (tenant_swq s) * uint (be_increment cfg (now - last_sched_time_be s) s)"
    using True assms(6) by simp
  moreover have "0 \<le> be_count s (tenant_swq s) * uint (be_increment cfg (now - last_sched_time_be s) s)"
    by (intro mult_nonneg_nonneg be_saved_nonneg) simp
  ultimately have "uint (global_leftover_tokens s) + uint (local_leftover_tokens s) < 2 ^ 64"
    using assms(7) be_saved_nonneg(1) [of s "tenant_swq s"] by linarith
  then have "uint (global_leftover_tokens s + local_leftover_tokens s) = uint (global_leftover_tokens s) + uint (local_leftover_tokens s)"
    by (simp add: uint_plus_if')
  then show ?thesis unfolding if_P [OF True] subround2_early [OF True] by blast
next
  case False
  have b: "before = tokens_before cfg vs now s" using assms(6) by (simp add: tokens_before_def bucket_found_def)
  obtain Y where Y: "outcome (spdk_run E (map (req_cmd (ctxs s)) (concat (map Y (rotation s)))) (world s)) (nvme_sched_subround2 E cfg vs now s)
      (\<lambda>w s'. served free (rotation s) Y s s' \<and> world s' = w \<and> last_sched_time_be s' = now \<and>
        (costs_ok s (tenant_swq s) \<and> tokens_before cfg vs now s < 2 ^ 64 \<longrightarrow>
          tokens_before cfg vs now s = tokens_after s' + cost_of (ctxs s) (concat (map Y (rotation s)))))"
    using subround2_spec [OF assms(1,2,4,5) False] by blast
  have "outcome (spdk_run E (map (req_cmd (ctxs s)) (concat (map Y (rotation s)))) (world s)) (nvme_sched_subround2 E cfg vs now s)
      (\<lambda>w s'. last_sched_time_be s' = now \<and> sq s' = sq s @ map (req_cmd (ctxs s)) (concat (map Y (rotation s))) \<and>
        before = uint (global_leftover_tokens s') + be_saved s' (tenant_swq s) + cost_of (ctxs s) (concat (map Y (rotation s))))"
    by (rule outcome_mono [OF Y]) (use assms(3,7) in \<open>simp add: b served_def tokens_after_def\<close>)
  then show ?thesis using False unfolding outcome_def by (auto intro!: exI [of _ "concat (map Y (rotation s))"])
qed

theorem subround2_conserves_tokens_witness:
  "\<exists>s. uint (bucket_at_cas [7, 7] (global_leftover_tokens s)) = 7 \<and>
     (\<exists>ys. case spdk_run env_ex (map (req_cmd (ctxs s)) ys) (mp_world (mp s)) of
        None \<Rightarrow> nvme_sched_subround2 env_ex cfg_ex [7, 7] 0 s = None
      | Some w \<Rightarrow> \<exists>s'. nvme_sched_subround2 env_ex cfg_ex [7, 7] 0 s = Some s' \<and> last_sched_time_be s' = 0 \<and>
          sq s' = sq s @ map (req_cmd (ctxs s)) ys \<and>
          7 = uint (global_leftover_tokens s') + be_saved s' (tenant_swq s) + cost_of (ctxs s) ys)"
proof -
  let ?s = "(sched_ex False)\<lparr>global_leftover_tokens := 9, local_extra_demand := 1\<rparr>"
  have c: "same_core (sched_ex False) ?s" by (simp add: same_core_def)
  note sel = same_core_sel [OF c]
  have i: "tenant_inv free_ex ?s" "queues_ok ?s" "costs_ok ?s (tenant_swq ?s)"
    using same_core_tenant_inv [OF c sched_ex_inv] sel(2) sched_ex_queues_ok [of False]
    by (simp_all add: sched_ex_sel costs_ok_def sched_ex_queue)
  have e: "rnd (1 / 2) = 1 / 2" using rnd_exact [of 1 "- 1"] by simp
  have h: "\<lfloor>rnd (1 / 2)\<rfloor> = 0" unfolding e by (simp add: floor_eq_iff)
  have inc: "be_increment cfg_ex (0 - last_sched_time_be ?s) ?s = 0"
    by (simp add: be_increment_def sched_ex_def nvme_state_ex1_def nvme_state_ex_def atomic_read_def ddiv_def dadd_def d_trunc_def h rnd_nonneg)
  have "7 = uint (if local_leftover_tokens ?s < local_extra_demand ?s then bucket_at_cas [7, 7] (global_leftover_tokens ?s)
        else global_leftover_tokens ?s) + uint (local_leftover_tokens ?s) + be_saved ?s (tenant_swq ?s) +
      be_count ?s (tenant_swq ?s) * uint (be_increment cfg_ex (0 - last_sched_time_be ?s) ?s)"
    unfolding inc sel(3,4) by (simp add: sched_ex_sel sched_ex_is_be sched_ex_tokens)
  note r = subround2_conserves_tokens [OF i spdk_ex cfg_ex_dev this]
  have l: "\<not> (local_leftover_tokens ?s > 0 \<and> local_extra_demand ?s = 0)" by (simp add: sched_ex_sel)
  show ?thesis using r unfolding if_not_P [OF l] by (intro exI [of _ ?s]) simp
qed

lemma subround2_served:
  assumes "tenant_inv free s" "queues_ok s" "spdk_keeps_pools E free" "nvme_dev_model cfg \<noteq> FAKE_FLASH"
  shows "\<exists>Z. prefixes s Z \<and> (\<forall>q. \<not> is_be s q \<longrightarrow> Z q = []) \<and>
    outcome (spdk_run E (map (req_cmd (ctxs s)) (concat (map Z (rotation s)))) (world s)) (nvme_sched_subround2 E cfg vs now s)
      (\<lambda>w s'. served free (rotation s) Z s s')"
proof (cases "local_leftover_tokens s > 0 \<and> local_extra_demand s = 0")
  case True
  define s' where "s' = s\<lparr>global_leftover_tokens := global_leftover_tokens s + local_leftover_tokens s\<rparr>"
  have c: "same_core s s'" "0 \<le> roundrobin_start s'" using assms(1) by (simp_all add: same_core_def s'_def tenant_inv_def)
  have "served free (rotation s) (\<lambda>_. []) s s" by (rule serves_served [OF serves_refl assms(1,2)])
  then have "served free (rotation s) (\<lambda>_. []) s s'" by (rule served_core [OF _ _ c]) (simp add: same_core_def)
  moreover have "concat (map (\<lambda>_. []) (rotation s)) = ([] :: ptr list)" by simp
  ultimately show ?thesis unfolding subround2_early [OF True] s'_def [symmetric]
    by (intro exI [of _ "\<lambda>_. []"]) (simp only: prefixes_def list.map spdk_run.simps outcome_Some, simp)
next
  case False
  obtain Y where Y: "prefixes s Y" "\<forall>q. \<not> is_be s q \<longrightarrow> Y q = []"
    "outcome (spdk_run E (map (req_cmd (ctxs s)) (concat (map Y (rotation s)))) (world s)) (nvme_sched_subround2 E cfg vs now s)
      (\<lambda>w s'. served free (rotation s) Y s s' \<and> world s' = w \<and> last_sched_time_be s' = now \<and>
        (costs_ok s (tenant_swq s) \<and> tokens_before cfg vs now s < 2 ^ 64 \<longrightarrow>
          tokens_before cfg vs now s = tokens_after s' + cost_of (ctxs s) (concat (map Y (rotation s)))))"
    using subround2_spec [OF assms False] by blast
  have "outcome (spdk_run E (map (req_cmd (ctxs s)) (concat (map Y (rotation s)))) (world s)) (nvme_sched_subround2 E cfg vs now s)
      (\<lambda>w s'. served free (rotation s) Y s s')" by (rule outcome_mono [OF Y(3)]) simp
  then show ?thesis using Y(1,2) by blast
qed

lemma update_scheduled_same_core: "same_core s (update_scheduled_bitvector cfg s)"
  "roundrobin_start (update_scheduled_bitvector cfg s) = roundrobin_start s"
  by (simp_all add: update_scheduled_bitvector_def same_core_def Let_def)

text \<open>The whole round in the form of the two sub-rounds.\<close>

lemma nvme_sched_outcome:
  assumes inv: "tenant_inv free s" "queues_ok s" "spdk_keeps_pools E free" "nvme_dev_model cfg \<noteq> FAKE_FLASH"
    and n: "num_tenants s \<noteq> 0" and Y: "Y = lc_plan (now - last_sched_time s) s (tenant_swq s)"
  shows "\<exists>Z. (\<forall>q. \<exists>zs. swq_items (swqs s q) = Y q @ Z q @ zs) \<and> (\<forall>q. \<not> is_be s q \<longrightarrow> Z q = []) \<and>
    outcome (spdk_run E (map (req_cmd (ctxs s)) (concat (map Y (tenant_swq s)) @ concat (map Z (rotation s)))) (world s))
      (nvme_sched E cfg vs now tsc s) (\<lambda>w z. fst z = 0 \<and> (\<exists>s1. served free (tenant_swq s) Y s s1 \<and> served free (rotation s) Z s1 (snd z)))"
proof -
  have r: "nvme_sched E cfg vs now tsc s = (case nvme_sched_subround1 E cfg now s of None \<Rightarrow> None | Some s1 \<Rightarrow>
      map_option (\<lambda>s2. (0, update_scheduled_bitvector cfg (s2\<lparr>local_leftover_tokens := 0, local_extra_demand := 0\<rparr>)))
        (nvme_sched_subround2 E cfg vs tsc s1))"
    using n by (auto simp: nvme_sched_def map_option_case split: option.split)
  note o1 = subround1_spec [OF inv Y]
  show ?thesis
  proof (cases "spdk_run E (map (req_cmd (ctxs s)) (concat (map Y (tenant_swq s)))) (world s)")
    case None
    then have "nvme_sched E cfg vs now tsc s = None" using o1 by (simp add: r)
    then show ?thesis using None lc_plan_prefixes [of s] unfolding Y
      by (intro exI [of _ "\<lambda>_. []"]) (simp add: spdk_run_append prefixes_def)
  next
    case (Some w)
    then obtain s1 where s1: "nvme_sched_subround1 E cfg now s = Some s1" "served free (tenant_swq s) Y s s1" "world s1 = w"
      "roundrobin_start s1 = roundrobin_start s" using o1 by auto
    have i1: "tenant_inv free s1" "queues_ok s1" "tenant_swq s1 = tenant_swq s" "ctxs s1 = ctxs s" "is_be s1 = is_be s"
      "\<And>q. swq_items (swqs s q) = Y q @ swq_items (swqs s1 q)" using s1(2) by (simp_all add: served_def)
    have rot: "rotation s1 = rotation s" using i1(3) s1(4) by (simp add: rotation_def)
    obtain Z where Z: "prefixes s1 Z" "\<forall>q. \<not> is_be s q \<longrightarrow> Z q = []"
      "outcome (spdk_run E (map (req_cmd (ctxs s)) (concat (map Z (rotation s)))) w) (nvme_sched_subround2 E cfg vs tsc s1)
        (\<lambda>w s'. served free (rotation s) Z s1 s')"
      using subround2_served [OF i1(1,2) inv(3,4), of vs tsc] unfolding rot i1(4,5) s1(3) by blast
    have "\<forall>q. \<exists>zs. swq_items (swqs s q) = Y q @ Z q @ zs" using Z(1) i1(6) unfolding prefixes_def by metis
    moreover have "outcome (spdk_run E (map (req_cmd (ctxs s)) (concat (map Y (tenant_swq s)) @ concat (map Z (rotation s)))) (world s))
      (nvme_sched E cfg vs now tsc s) (\<lambda>w z. fst z = 0 \<and> (\<exists>s1. served free (tenant_swq s) Y s s1 \<and> served free (rotation s) Z s1 (snd z)))"
      unfolding map_append spdk_run_append Some r s1(1) option.case
    proof (rule outcome_map [OF Z(3)])
      fix w s2 assume s2: "served free (rotation s) Z s1 s2"
      define s3 where "s3 = s2\<lparr>local_leftover_tokens := 0, local_extra_demand := 0\<rparr>"
      have c: "same_core s2 (update_scheduled_bitvector cfg s3)"
        using update_scheduled_same_core(1) [of s3 cfg] by (simp add: same_core_def s3_def)
      have "0 \<le> roundrobin_start (update_scheduled_bitvector cfg s3)"
        using s2 update_scheduled_same_core(2) [of cfg s3] by (simp add: s3_def served_def tenant_inv_def)
      then have "served free (rotation s) Z s1 (update_scheduled_bitvector cfg s3)"
        by (intro served_core [OF s2 _ c]) (simp_all add: same_core_def)
      then show "fst (0, update_scheduled_bitvector cfg (s2\<lparr>local_leftover_tokens := 0, local_extra_demand := 0\<rparr>)) = 0 \<and>
        (\<exists>s1. served free (tenant_swq s) Y s s1 \<and>
          served free (rotation s) Z s1 (snd (0, update_scheduled_bitvector cfg (s2\<lparr>local_leftover_tokens := 0, local_extra_demand := 0\<rparr>))))"
        using s1(2) unfolding s3_def by auto
    qed
    ultimately show ?thesis using Z(2) by blast
  qed
qed

lemma nvme_sched_idle:
  assumes "tenant_inv free s" "queues_ok s" "num_tenants s = 0"
  shows "\<exists>s'. nvme_sched E cfg vs now tsc s = Some (0, s') \<and> tenant_inv free s' \<and> queues_ok s' \<and> tenant_swq s = [] \<and>
    tenant_swq s' = [] \<and> sq s' = sq s \<and> swqs s' = swqs s"
proof -
  have e: "tenant_swq s = []" using assms(1,3) by (simp add: tenant_inv_def)
  define s1 where "s1 = s\<lparr>last_sched_time := now, last_sched_time_be := tsc\<rparr>"
  have c: "same_core s (update_scheduled_bitvector cfg s1)" "roundrobin_start (update_scheduled_bitvector cfg s1) = roundrobin_start s"
    using update_scheduled_same_core(1) [of s1 cfg] update_scheduled_same_core(2) [of cfg s1] by (simp_all add: same_core_def s1_def)
  have "tenant_inv free (update_scheduled_bitvector cfg s1)"
    using same_core_tenant_inv [OF c(1) assms(1)] assms(1) c(2) by (simp add: tenant_inv_def)
  moreover have "queues_ok (update_scheduled_bitvector cfg s1)" using same_core_sel(2) [OF c(1)] assms(2) by simp
  moreover have "nvme_sched E cfg vs now tsc s = Some (0, update_scheduled_bitvector cfg s1)"
    using assms(3) by (simp add: nvme_sched_def s1_def)
  ultimately show ?thesis using c(1) e by (auto simp: same_core_def)
qed

text \<open>
  C1. A scheduling round on a real device (not the fake flash of the tests) never loses, repeats or reorders a request
  of a tenant: it submits first, for every latency-critical tenant in list order, exactly the
  requests \<open>Y q\<close> that its credit allows, then for the best-effort tenants, in round-robin order,
  a prefix \<open>Z q\<close> of each queue; what is not submitted stays queued, and the tenant list stays well
  formed.  The round returns exactly when SPDK accepts all these commands, which it may refuse, for one when the
  queue pair is full; at the first refusal the process panics.  SPDK is only assumed not to touch the memory pools.
\<close>

theorem nvme_sched_fifo:
  assumes "tenant_inv free s" "queues_ok s" "spdk_keeps_pools E free" "nvme_dev_model cfg \<noteq> FAKE_FLASH"
  shows "\<exists>Y Z. (\<forall>q. \<exists>zs. swq_items (swqs s q) = Y q @ Z q @ zs) \<and>
    (\<forall>q \<in> set (tenant_swq s). if is_be s q then Y q = [] else Z q = [] \<and> Y q = lc_served (now - last_sched_time s) s q) \<and>
    (case spdk_run E (map (req_cmd (ctxs s)) (concat (map Y (tenant_swq s)) @ concat (map Z (rotation s)))) (mp_world (mp s)) of
       None \<Rightarrow> nvme_sched E cfg vs now tsc s = None
     | Some w \<Rightarrow> \<exists>s'. nvme_sched E cfg vs now tsc s = Some (0, s') \<and> tenant_inv free s' \<and> queues_ok s' \<and>
         tenant_swq s' = tenant_swq s \<and>
         sq s' = sq s @ map (req_cmd (ctxs s)) (concat (map Y (tenant_swq s)) @ concat (map Z (rotation s))) \<and>
         (\<forall>q. swq_items (swqs s q) = Y q @ Z q @ swq_items (swqs s' q)))"
proof (cases "num_tenants s = 0")
  case True
  obtain s' where "nvme_sched E cfg vs now tsc s = Some (0, s')" "tenant_inv free s'" "queues_ok s'" "tenant_swq s = []"
    "tenant_swq s' = []" "sq s' = sq s" "swqs s' = swqs s"
    using nvme_sched_idle [OF assms(1,2) True] by blast
  then show ?thesis by (intro exI [of _ "\<lambda>_. []"]) (simp add: rotation_def)
next
  case False
  let ?Y = "lc_plan (now - last_sched_time s) s (tenant_swq s)"
  obtain Z where Z: "\<forall>q. \<exists>zs. swq_items (swqs s q) = ?Y q @ Z q @ zs" "\<forall>q. \<not> is_be s q \<longrightarrow> Z q = []"
    "outcome (spdk_run E (map (req_cmd (ctxs s)) (concat (map ?Y (tenant_swq s)) @ concat (map Z (rotation s)))) (world s))
      (nvme_sched E cfg vs now tsc s) (\<lambda>w z. fst z = 0 \<and> (\<exists>s1. served free (tenant_swq s) ?Y s s1 \<and> served free (rotation s) Z s1 (snd z)))"
    using nvme_sched_outcome [OF assms False refl] by blast
  have "outcome (spdk_run E (map (req_cmd (ctxs s)) (concat (map ?Y (tenant_swq s)) @ concat (map Z (rotation s)))) (world s))
      (nvme_sched E cfg vs now tsc s) (\<lambda>w z. fst z = 0 \<and> tenant_inv free (snd z) \<and> queues_ok (snd z) \<and> tenant_swq (snd z) = tenant_swq s \<and>
        sq (snd z) = sq s @ map (req_cmd (ctxs s)) (concat (map ?Y (tenant_swq s)) @ concat (map Z (rotation s))) \<and>
        (\<forall>q. swq_items (swqs s q) = ?Y q @ Z q @ swq_items (swqs (snd z) q)))"
    by (rule outcome_mono [OF Z(3)]) (auto simp: served_def)
  moreover have "\<forall>q \<in> set (tenant_swq s). if is_be s q then ?Y q = [] else Z q = [] \<and> ?Y q = lc_served (now - last_sched_time s) s q"
    using Z(2) by (simp add: lc_plan_def)
  ultimately show ?thesis using Z(1)
    by (intro exI [of _ ?Y] exI [of _ Z]) (auto simp: outcome_def split: option.splits)
qed

theorem nvme_sched_fifo_witness:
  "\<exists>Y Z. (\<forall>q. \<exists>zs. swq_items (swqs (sched_ex False) q) = Y q @ Z q @ zs) \<and>
    (\<forall>q \<in> set (tenant_swq (sched_ex False)). if is_be (sched_ex False) q then Y q = []
       else Z q = [] \<and> Y q = lc_served (10 - last_sched_time (sched_ex False)) (sched_ex False) q) \<and>
    (case spdk_run env_ex (map (req_cmd (ctxs (sched_ex False)))
         (concat (map Y (tenant_swq (sched_ex False))) @ concat (map Z (rotation (sched_ex False))))) (mp_world (mp (sched_ex False))) of
       None \<Rightarrow> nvme_sched env_ex cfg_ex [] 10 100 (sched_ex False) = None
     | Some w \<Rightarrow> \<exists>s'. nvme_sched env_ex cfg_ex [] 10 100 (sched_ex False) = Some (0, s') \<and> tenant_inv free_ex s' \<and> queues_ok s' \<and>
         tenant_swq s' = tenant_swq (sched_ex False) \<and>
         sq s' = sq (sched_ex False) @ map (req_cmd (ctxs (sched_ex False)))
           (concat (map Y (tenant_swq (sched_ex False))) @ concat (map Z (rotation (sched_ex False)))) \<and>
         (\<forall>q. swq_items (swqs (sched_ex False) q) = Y q @ Z q @ swq_items (swqs s' q)))"
  by (rule nvme_sched_fifo [OF sched_ex_inv sched_ex_queues_ok spdk_ex cfg_ex_dev])

text \<open>
  C28. The search for the next round-robin start ends, whatever the current start, and returns the
  first best-effort tenant after it in cyclic order: every best-effort tenant comes first in turn.
\<close>

theorem rr_search_next:
  assumes "tenant_inv free s" "num_best_effort_tenants s > 0"
  shows "\<exists>k < length (tenant_swq s). rr_search (nat (num_tenants s)) s rr = Some ((rr + 1 + int k) mod num_tenants s) \<and>
    be_at s ((rr + 1 + int k) mod num_tenants s) \<and> (\<forall>j<k. \<not> be_at s ((rr + 1 + int j) mod num_tenants s))"
proof -
  have "filter (is_be s) (tenant_swq s) \<noteq> []" using assms by (auto simp: tenant_inv_def)
  then have b: "\<exists>q \<in> set (tenant_swq s). is_be s q" by (simp add: filter_empty_conv)
  then have "0 < num_tenants s" "num_tenants s = int (length (tenant_swq s))" using assms(1) by (auto simp: tenant_inv_def)
  then show ?thesis by (rule rr_search_spec [OF _ _ b, of rr]) blast
qed

theorem rr_search_next_witness:
  "\<exists>k < length (tenant_swq (sched_ex False)). rr_search (nat (num_tenants (sched_ex False))) (sched_ex False) 0 =
      Some ((0 + 1 + int k) mod num_tenants (sched_ex False)) \<and>
    be_at (sched_ex False) ((0 + 1 + int k) mod num_tenants (sched_ex False)) \<and>
    (\<forall>j<k. \<not> be_at (sched_ex False) ((0 + 1 + int j) mod num_tenants (sched_ex False)))"
  by (rule rr_search_next [OF sched_ex_inv]) (simp add: sched_ex_sel)

text \<open>
  C29. A core that asks the shared bucket for tokens takes them out exactly, whatever other cores do:
  \<open>vs\<close> are the values that other cores have written when the compare-and-swaps are made.  The attempts before
  attempt \<open>k\<close> fail, because the bucket no longer holds the value just read; at attempt \<open>k\<close> the bucket still holds the value
  \<open>v\<close> that was read, the core gets what it asked for or, if that is more than \<open>v\<close>, all of \<open>v\<close>, and the
  bucket is left with the rest: no update of another core is lost.
\<close>

theorem try_acquire_exact:
  "\<exists>k v. k \<le> length vs \<and> v = (bucket # vs) ! k \<and> (\<forall>j<k. vs ! j \<noteq> (bucket # vs) ! j) \<and> (k = length vs \<or> vs ! k = v) \<and>
    try_acquire_global_tokens vs token_demand bucket = (min token_demand v, v - min token_demand v)"
proof -
  obtain k where "k \<le> length vs" "bucket_at_cas vs bucket = (bucket # vs) ! k" "\<forall>j<k. vs ! j \<noteq> (bucket # vs) ! j"
    "k < length vs \<longrightarrow> vs ! k = (bucket # vs) ! k" using bucket_at_cas_step by blast
  then show ?thesis using try_acquire_spec [of vs token_demand bucket] by (intro exI [of _ k]) auto
qed

theorem try_acquire_exact_witness: "try_acquire_global_tokens [7, 7] 5 9 = (5, 2)"
proof -
  obtain k v where k: "k \<le> length [7, 7 :: u64]" "v = (9 # [7, 7]) ! k" "\<forall>j<k. [7, 7] ! j \<noteq> ((9 :: u64) # [7, 7]) ! j"
    "k = length [7, 7 :: u64] \<or> [7, 7] ! k = v" "try_acquire_global_tokens [7, 7] 5 9 = (min 5 v, v - min 5 v)"
    using try_acquire_exact [of "[7, 7]" 9 5] by metis
  have "k \<noteq> 2" using k(3) by (auto dest!: spec [of _ 1])
  then have "k = 0 \<or> k = 1" using k(1) by auto
  moreover have "k \<noteq> 0" using k(2,4) by (cases k) auto
  ultimately show ?thesis using k(2,5) by (simp add: min_def)
qed

text \<open>
  When \<open>num_best_effort_tenants\<close> counts tenants that are not in the list, as after registering a
  tenant twice, the search for the next start runs forever.
\<close>

lemma rr_search_no_be_tenant:
  assumes "\<forall>q \<in> set (tenant_swq s). \<not> is_be s q"
  shows "rr_search fuel s rr = None"
  by (rule rr_search_diverges) (use assms in \<open>auto simp: be_at_def\<close>)

end
