(* ===== verification/NvmeRequests.thy ===== *)
theory NvmeRequests
  imports NvmeRounds
begin

text \<open>
  The properties of the I/O path of \<open>nvme/nvmedev.c\<close>: queueing a request, the pages that the
  scatter-gather callbacks hand to SPDK, and the delivery of completions to the application.
\<close>

section \<open>Queueing a request\<close>

text \<open>The request that \<open>bsys_nvme_readv\<close> and \<open>bsys_nvme_writev\<close> put in the context \<open>p\<close>.\<close>

definition req_ctx :: "nvme_cfg \<Rightarrow> int \<Rightarrow> int \<Rightarrow> u64 \<Rightarrow> int \<Rightarrow> u64 \<Rightarrow> u32 \<Rightarrow> u64 \<Rightarrow> 'w nvme_state \<Rightarrow> nvme_ctx \<Rightarrow> nvme_ctx" where
  "req_ctx cfg cmd h bf num_sgls lba lba_count cookie s c =
     c\<lparr>ctx_cookie := cookie, ub_ptr := bf, ub_num_sgls := num_sgls, ctx_tid := cpu_nr cfg, ctx_fg_handle := h,
       ctx_cmd := cmd, req_cost := nvme_compute_req_cost cfg cmd (req_bytes lba_count s), ctx_lba := lba, ctx_lba_count := lba_count\<rparr>"

lemma enqueue_ctx_spec:
  assumes "rte_mempool_ok (env_dpdk E) free" "swq_inv (swqs s (nvme_swq (nvme_fgs s h)))" "enqueue_ctx E h p s = (ret, s')"
  shows "ret = RET_OK \<and> swq_inv (swqs s' (nvme_swq (nvme_fgs s h))) \<and>
      swq_items (swqs s' (nvme_swq (nvme_fgs s h))) = swq_items (swqs s (nvme_swq (nvme_fgs s h))) @ [p] \<and>
      mp s' = mp s \<and> ctxs s' = ctxs s \<and> ctx_mempool s' = ctx_mempool s \<or>
    ret = - RET_NOMEM \<and> length (swq_items (swqs s (nvme_swq (nvme_fgs s h)))) = NVME_SW_QUEUE_SIZE \<and> swqs s' = swqs s \<and>
      mp s' = mempool_free (env_dpdk E) (ctx_mempool s) p (mp s) \<and> ctx_mempool s' = ctx_mempool s"
proof (cases "length (swq_items (swqs s (nvme_swq (nvme_fgs s h)))) < NVME_SW_QUEUE_SIZE")
  case True
  obtain q' where "nvme_sw_queue_push_back (ctxs s) (swqs s (nvme_swq (nvme_fgs s h))) p = (0, q')" "swq_inv q'"
    "swq_items q' = swq_items (swqs s (nvme_swq (nvme_fgs s h))) @ [p]"
    using swq.push_ok [OF assms(2) True] by blast
  then show ?thesis using assms(3) by (auto simp: enqueue_ctx_def Let_def)
next
  case False
  then have "count (swqs s (nvme_swq (nvme_fgs s h))) = int NVME_SW_QUEUE_SIZE"
    using assms(2) by (auto simp: swq_inv_def swq_items_def)
  then show ?thesis using assms(3)
    by (auto simp: enqueue_ctx_def Let_def nvme_sw_queue_push_back_def EAGAIN_def free_local_nvme_ctx_def swq_items_def)
qed


lemma alloc_ctx_cases:
  assumes "rte_mempool_ok (env_dpdk E) free"
  obtains (none) s1 where "alloc_local_nvme_ctx E s = (None, s1)" "s1 = s\<lparr>mp := mp s1\<rparr>"
      "mempool_avail free (ctx_mempool s) (mp s1) = mempool_avail free (ctx_mempool s) (mp s)"
  | (some) p s1 where "alloc_local_nvme_ctx E s = (Some p, s1)" "s1 = s\<lparr>mp := mp s1\<rparr>"
      "p \<in> mempool_avail free (ctx_mempool s) (mp s)"
      "mempool_avail free (ctx_mempool s) (mp s1) = mempool_avail free (ctx_mempool s) (mp s) - {p}"
proof -
  obtain r m where a: "mempool_alloc (env_dpdk E) (ctx_mempool s) (mp s) = (r, m)" by fastforce
  then have al: "alloc_local_nvme_ctx E s = (r, s\<lparr>mp := m\<rparr>)" by (simp add: alloc_local_nvme_ctx_def)
  show ?thesis
  proof (cases r)
    case None
    show ?thesis by (rule none [of "s\<lparr>mp := m\<rparr>"]) (use al None mempool_alloc_None [OF assms, of _ "mp s" m] a in simp_all)
  next
    case (Some p)
    show ?thesis
      by (rule some [of p "s\<lparr>mp := m\<rparr>"]) (use al Some mempool_alloc_Some [OF assms, of _ "mp s" p m] a in simp_all)
  qed
qed

text \<open>The common part of the two vectored requests: allocate a context, fill it and queue it.\<close>

definition queue_req ::
  "'w nvme_env \<Rightarrow> nvme_cfg \<Rightarrow> int \<Rightarrow> int \<Rightarrow> u64 \<Rightarrow> int \<Rightarrow> u64 \<Rightarrow> u32 \<Rightarrow> u64 \<Rightarrow> 'w nvme_state \<Rightarrow> int \<times> 'w nvme_state" where
  "queue_req E cfg cmd h bf n lba lba_count cookie s =
     (case alloc_local_nvme_ctx E s of
        (None, s) \<Rightarrow> (- RET_NOMEM, s)
      | (Some p, s) \<Rightarrow> enqueue_ctx E h p (upd_ctx p (req_ctx cfg cmd h bf n lba lba_count cookie s) s))"

lemma vectored_queue_req:
  assumes "nvme_sched_flag cfg"
  shows "bsys_nvme_writev E cfg h bf n lba lba_count cookie s = Some (queue_req E cfg NVME_CMD_WRITE h bf n lba lba_count cookie s)"
    "bsys_nvme_readv E cfg h bf n lba lba_count cookie s = Some (queue_req E cfg NVME_CMD_READ h bf n lba lba_count cookie s)"
  using assms by (simp_all add: bsys_nvme_writev_def bsys_nvme_readv_def queue_req_def upd_ctx_def req_ctx_def req_bytes_def
      Let_def split: prod.split option.split)

lemma queue_req_spec:
  assumes ok: "rte_mempool_ok (env_dpdk E) free" and q: "swq_inv (swqs s (nvme_swq (nvme_fgs s h)))"
    and r: "queue_req E cfg cmd h bf n lba lba_count cookie s = (ret, s')"
  shows "ret = RET_OK \<and> swq_inv (swqs s' (nvme_swq (nvme_fgs s h))) \<and>
      (\<exists>p \<in> mempool_avail free (ctx_mempool s) (mp s).
         mempool_avail free (ctx_mempool s') (mp s') = mempool_avail free (ctx_mempool s) (mp s) - {p} \<and>
         swq_items (swqs s' (nvme_swq (nvme_fgs s h))) = swq_items (swqs s (nvme_swq (nvme_fgs s h))) @ [p] \<and>
         ctxs s' p = req_ctx cfg cmd h bf n lba lba_count cookie s (ctxs s p)) \<or>
    ret = - RET_NOMEM \<and> swqs s' = swqs s \<and>
      (fst (alloc_local_nvme_ctx E s) = None \<or> length (swq_items (swqs s (nvme_swq (nvme_fgs s h)))) = NVME_SW_QUEUE_SIZE) \<and>
      mempool_avail free (ctx_mempool s') (mp s') = mempool_avail free (ctx_mempool s) (mp s)"
proof (rule alloc_ctx_cases [OF ok, of s])
  fix s1 assume al: "alloc_local_nvme_ctx E s = (None, s1)" and e: "s1 = s\<lparr>mp := mp s1\<rparr>"
    and av: "mempool_avail free (ctx_mempool s) (mp s1) = mempool_avail free (ctx_mempool s) (mp s)"
  then have "ret = - RET_NOMEM" "s' = s1" using r by (simp_all add: queue_req_def)
  moreover have "swqs s1 = swqs s" "ctx_mempool s1 = ctx_mempool s" by (subst e, simp)+
  ultimately show ?thesis using av al by simp
next
  fix p s1 assume al: "alloc_local_nvme_ctx E s = (Some p, s1)" and e: "s1 = s\<lparr>mp := mp s1\<rparr>"
    and p: "p \<in> mempool_avail free (ctx_mempool s) (mp s)"
      "mempool_avail free (ctx_mempool s) (mp s1) = mempool_avail free (ctx_mempool s) (mp s) - {p}"
  define s2 where "s2 = upd_ctx p (req_ctx cfg cmd h bf n lba lba_count cookie s) s1"
  have s1: "swqs s1 = swqs s" "ctx_mempool s1 = ctx_mempool s" "nvme_fgs s1 = nvme_fgs s" "ctxs s1 = ctxs s"
    "global_ns_sector_size s1 = global_ns_sector_size s" by (subst e, simp)+
  have s2: "swqs s2 = swqs s" "ctx_mempool s2 = ctx_mempool s" "nvme_fgs s2 = nvme_fgs s" "mp s2 = mp s1"
    "ctxs s2 p = req_ctx cfg cmd h bf n lba lba_count cookie s (ctxs s p)"
    using s1 by (simp_all add: s2_def upd_ctx_def)
  have "upd_ctx p (req_ctx cfg cmd h bf n lba lba_count cookie s1) s1 = s2"
    using s1 by (simp add: s2_def req_ctx_def req_bytes_def upd_ctx_def)
  then have en: "enqueue_ctx E h p s2 = (ret, s')" using r al by (simp add: queue_req_def)
  note sp = enqueue_ctx_spec [OF ok _ en, unfolded s2]
  have "p \<notin> mempool_avail free (ctx_mempool s) (mp s1)" using p(2) by simp
  then show ?thesis using sp [OF q] p s2 mempool_free_avail [OF ok]
    by (elim disjE) (auto simp: insert_absorb)
qed

section \<open>Properties\<close>

text \<open>
  C16. A vectored read or write with the scheduler on never stops the process and never leaks a
  context: either a free context is taken from the pool, filled with the request and its cost, and
  appended to the tenant's queue, or the call returns \<open>-RET_NOMEM\<close> with the pool and every queue as
  before.  It returns \<open>-RET_NOMEM\<close> only when there is no free context or the queue is full.
\<close>

theorem vectored_request:
  assumes "rte_mempool_ok (env_dpdk E) free" "swq_inv (swqs s (nvme_swq (nvme_fgs s h)))" "nvme_sched_flag cfg"
    "(call, cmd) \<in> {(bsys_nvme_writev, NVME_CMD_WRITE), (bsys_nvme_readv, NVME_CMD_READ)}"
  shows "\<exists>ret s'. call E cfg h bf n lba lba_count cookie s = Some (ret, s') \<and>
   (ret = RET_OK \<and> swq_inv (swqs s' (nvme_swq (nvme_fgs s h))) \<and>
      (\<exists>p \<in> mempool_avail free (ctx_mempool s) (mp s).
         mempool_avail free (ctx_mempool s') (mp s') = mempool_avail free (ctx_mempool s) (mp s) - {p} \<and>
         swq_items (swqs s' (nvme_swq (nvme_fgs s h))) = swq_items (swqs s (nvme_swq (nvme_fgs s h))) @ [p] \<and>
         ctxs s' p = req_ctx cfg cmd h bf n lba lba_count cookie s (ctxs s p)) \<or>
    ret = - RET_NOMEM \<and> swqs s' = swqs s \<and>
      (fst (alloc_local_nvme_ctx E s) = None \<or> length (swq_items (swqs s (nvme_swq (nvme_fgs s h)))) = NVME_SW_QUEUE_SIZE) \<and>
      mempool_avail free (ctx_mempool s') (mp s') = mempool_avail free (ctx_mempool s) (mp s))"
proof -
  obtain ret s' where r: "queue_req E cfg cmd h bf n lba lba_count cookie s = (ret, s')" by fastforce
  then have "call E cfg h bf n lba lba_count cookie s = Some (ret, s')"
    using assms(4) vectored_queue_req [OF assms(3), of E h bf n lba lba_count cookie s] by auto
  then show ?thesis using queue_req_spec [OF assms(1,2) r] by blast
qed

theorem vectored_request_witness:
  "\<exists>ret s'. bsys_nvme_readv env_ex cfg_ex 1 4096 1 8 8 77 (sched_ex True) = Some (ret, s') \<and>
   (ret = RET_OK \<and> swq_inv (swqs s' (nvme_swq (nvme_fgs (sched_ex True) 1))) \<and>
      (\<exists>p \<in> mempool_avail free_ex (ctx_mempool (sched_ex True)) (mp (sched_ex True)).
         mempool_avail free_ex (ctx_mempool s') (mp s') = mempool_avail free_ex (ctx_mempool (sched_ex True)) (mp (sched_ex True)) - {p} \<and>
         swq_items (swqs s' (nvme_swq (nvme_fgs (sched_ex True) 1))) = swq_items (swqs (sched_ex True) (nvme_swq (nvme_fgs (sched_ex True) 1))) @ [p] \<and>
         ctxs s' p = req_ctx cfg_ex NVME_CMD_READ 1 4096 1 8 8 77 (sched_ex True) (ctxs (sched_ex True) p)) \<or>
    ret = - RET_NOMEM \<and> swqs s' = swqs (sched_ex True) \<and>
      (fst (alloc_local_nvme_ctx env_ex (sched_ex True)) = None \<or>
       length (swq_items (swqs (sched_ex True) (nvme_swq (nvme_fgs (sched_ex True) 1)))) = NVME_SW_QUEUE_SIZE) \<and>
      mempool_avail free_ex (ctx_mempool s') (mp s') = mempool_avail free_ex (ctx_mempool (sched_ex True)) (mp (sched_ex True)))"
  by (rule vectored_request [OF env_ex_ok]) (simp_all add: sched_ex_sel sched_ex_queue cfg_ex_def)


text \<open>SPDK asks for \<open>n\<close> pieces in a row.\<close>

fun sgl_run :: "(u64 \<Rightarrow> u64) \<Rightarrow> nat \<Rightarrow> nvme_ctx \<Rightarrow> ((u64 \<times> u32) list \<times> nvme_ctx) option" where
  "sgl_run mem 0 c = Some ([], c)"
| "sgl_run mem (Suc n) c = do {
     (_, address, sz, c) \<leftarrow> sgl_next_cb mem c;
     (ps, c) \<leftarrow> sgl_run mem n c;
     Some ((address, sz) # ps, c)
   }"

lemma sgl_run_pages:
  "ub_current_sgl c = int k \<Longrightarrow> ub_num_sgls c = int (k + n) \<Longrightarrow>
   sgl_run mem n c = Some (map (\<lambda>i. (mem (ub_ptr c + 8 * of_nat i), 4096)) [k..<k + n], c\<lparr>ub_current_sgl := int (k + n)\<rparr>)"
proof (induction n arbitrary: c k)
  case (Suc n)
  let ?c = "c\<lparr>ub_current_sgl := int (Suc k)\<rparr>"
  have "sgl_run mem n ?c = Some (map (\<lambda>i. (mem (ub_ptr c + 8 * of_nat i), 4096)) [Suc k..<Suc k + n], ?c\<lparr>ub_current_sgl := int (Suc k + n)\<rparr>)"
    using Suc.IH [of ?c "Suc k"] Suc.prems by simp
  moreover have "sgl_next_cb mem c = Some (0, mem (ub_ptr c + 8 * of_nat k), 4096, ?c)"
    using Suc.prems by (simp add: sgl_next_cb_def add.commute)
  moreover have "[k..<k + Suc n] = k # [Suc k..<Suc k + n]" by (simp add: upt_conv_Cons)
  ultimately show ?case by simp
qed simp

lemma sint_small_unat:
  fixes x :: u32
  assumes "unat x < 2 ^ 31"
  shows "sint x = int (unat x)"
proof -
  have s: "sint x = (uint x + 2147483648) mod 4294967296 - 2147483648"
    using int_word_sint [of "uint x", where ?'a = 32] by simp
  have u: "uint x = int (unat x)" by simp
  have "int (unat x) < int (2 ^ 31)" using assms by (simp only: of_nat_less_iff)
  then have "uint x < 2147483648" "0 \<le> uint x" by simp_all
  then have "(uint x + 2147483648) mod 4294967296 = uint x + 2147483648" by (intro mod_pos_pos_trivial) simp_all
  then show ?thesis unfolding s by simp
qed

text \<open>
  C17. The scatter-gather callbacks hand out the pages of a request: after a reset to byte offset
  \<open>off\<close> of an \<open>n\<close>-page request, the next calls return page \<open>off / 4096\<close> up to the last page, in
  order, 4096 bytes each, and one call more than there are pages fails the assertion.
\<close>

theorem sgl_pages:
  assumes "ub_num_sgls ctx = int n" "unat off div 4096 \<le> n" "n < 2 ^ 31"
  shows "\<exists>c. sgl_run mem (n - unat off div 4096) (sgl_reset_cb ctx off) =
      Some (map (\<lambda>i. (mem (ub_ptr ctx + 8 * of_nat i), 4096)) [unat off div 4096..<n], c) \<and> sgl_next_cb mem c = None"
proof -
  let ?k = "unat off div 4096"
  have u: "unat (off div SGL_PAGE_SIZE) = ?k" by (simp add: SGL_PAGE_SIZE_def unat_div)
  then have "sint (off div SGL_PAGE_SIZE) = int ?k" using assms(2,3) by (intro sint_small_unat [THEN trans]) auto
  then have c: "ub_current_sgl (sgl_reset_cb ctx off) = int ?k" "ub_num_sgls (sgl_reset_cb ctx off) = int (?k + (n - ?k))"
    "ub_ptr (sgl_reset_cb ctx off) = ub_ptr ctx"
    using assms by (simp_all add: sgl_reset_cb_def)
  show ?thesis using sgl_run_pages [OF c(1,2), of mem] assms(1,2) c(3) by (auto simp: sgl_next_cb_def sgl_reset_cb_def)
qed

theorem sgl_pages_witness:
  "\<exists>c. sgl_run (\<lambda>a. a + 100) (3 - unat (8192 :: u32) div 4096) (sgl_reset_cb (ctx0\<lparr>ub_num_sgls := 3\<rparr>) 8192) =
      Some (map (\<lambda>i. (ub_ptr (ctx0\<lparr>ub_num_sgls := 3\<rparr>) + 8 * of_nat i + 100, 4096)) [unat (8192 :: u32) div 4096..<3], c) \<and>
    sgl_next_cb (\<lambda>a. a + 100) c = None"
  by (rule sgl_pages) simp_all

text \<open>The event that a completed command becomes, and the context that it frees.\<close>

fun cpl_ctx :: "spdk_cpl \<Rightarrow> ptr" where
  "cpl_ctx (Read_done p _) = p"
| "cpl_ctx (Write_done p _) = p"

fun cpl_sysnr :: "spdk_cpl \<Rightarrow> u64" where
  "cpl_sysnr (Read_done _ _) = USYS_NVME_RESPONSE"
| "cpl_sysnr (Write_done _ _) = USYS_NVME_WRITTEN"

definition ev :: "bsys_desc \<Rightarrow> u64 \<times> u64" where
  "ev d = (sysnr d, arga d)"

lemma len_room:
  assumes "unat (len a) + Suc k < 2 ^ 64"
  shows "len a \<noteq> - 1" "unat (len a + 1) = Suc (unat (len a))"
proof -
  show n: "len a \<noteq> - 1"
  proof
    assume "len a = - 1"
    then have "unat (len a) = 2 ^ 64 - 1" by (simp add: unsigned_minus_1_eq_mask mask_eq_exp_minus_1)
    then show False using assms by simp
  qed
  show "unat (len a + 1) = Suc (unat (len a))"
    using n by (intro unat_succ_less [where y = "- 1"]) (simp add: word_order.not_eq_extremum)
qed

lemma run_cpl_step:
  assumes "len (usys_arr s) \<noteq> - 1" "rte_mempool_ok (env_dpdk E) free" "cpl_ctx c \<notin> mempool_avail free (ctx_mempool s) (mp s)"
  shows "map ev (usys_events (usys_arr (run_cpl E c s))) = map ev (usys_events (usys_arr s)) @ [(cpl_sysnr c, ctx_cookie (ctxs s (cpl_ctx c)))]"
    "mempool_avail free (ctx_mempool s) (mp (run_cpl E c s)) = insert (cpl_ctx c) (mempool_avail free (ctx_mempool s) (mp s))"
    "ctxs (run_cpl E c s) = ctxs s" "ctx_mempool (run_cpl E c s) = ctx_mempool s" "len (usys_arr (run_cpl E c s)) = len (usys_arr s) + 1"
  using usys_events_put [OF assms(1)] mempool_free_avail [OF assms(2,3)]
  by (cases c; simp add: nvme_read_cb_def nvme_write_cb_def free_local_nvme_ctx_def usys_nvme_response_def
      usys_nvme_written_def ev_def BSYS_DESC_defs)+

lemma run_cpls:
  assumes "rte_mempool_ok (env_dpdk E) free"
  shows "unat (len (usys_arr s)) + length cs < 2 ^ 64 \<Longrightarrow> distinct (map cpl_ctx cs) \<Longrightarrow>
    cpl_ctx ` set cs \<inter> mempool_avail free (ctx_mempool s) (mp s) = {} \<Longrightarrow>
    map ev (usys_events (usys_arr (fold (run_cpl E) cs s))) =
      map ev (usys_events (usys_arr s)) @ map (\<lambda>c. (cpl_sysnr c, ctx_cookie (ctxs s (cpl_ctx c)))) cs \<and>
    mempool_avail free (ctx_mempool s) (mp (fold (run_cpl E) cs s)) = cpl_ctx ` set cs \<union> mempool_avail free (ctx_mempool s) (mp s) \<and>
    unat (len (usys_arr (fold (run_cpl E) cs s))) = unat (len (usys_arr s)) + length cs"
proof (induction cs arbitrary: s)
  case (Cons c cs)
  have "unat (len (usys_arr s)) + Suc (length cs) < 2 ^ 64" using Cons.prems by simp
  note room = len_room [OF this]
  have "cpl_ctx c \<notin> mempool_avail free (ctx_mempool s) (mp s)" using Cons.prems(3) by simp
  note st = run_cpl_step [OF room(1) assms this]
  have "unat (len (usys_arr (run_cpl E c s))) + length cs < 2 ^ 64" using Cons.prems(1) st(5) room(2) by simp
  moreover have "distinct (map cpl_ctx cs)" using Cons.prems(2) by simp
  moreover have "cpl_ctx ` set cs \<inter> mempool_avail free (ctx_mempool (run_cpl E c s)) (mp (run_cpl E c s)) = {}"
    using Cons.prems(2,3) unfolding st by auto
  ultimately show ?case using Cons.IH [of "run_cpl E c s"] room(2) unfolding st by simp
qed simp

text \<open>
  What the completions rely on: SPDK leaves the pools alone, and a result that is not negative is the
  number of callbacks it has run.  A negative result reports a failed queue pair.
\<close>

definition spdk_cpl_ok :: "'w nvme_env \<Rightarrow> (ptr option \<Rightarrow> 'w \<Rightarrow> ptr set) \<Rightarrow> bool" where
  "spdk_cpl_ok E free \<longleftrightarrow> (\<forall>k w. case spdk_nvme_qpair_process_completions E k w of (n, cs, w') \<Rightarrow>
     (0 \<le> n \<longrightarrow> n = int (length cs)) \<and> (\<forall>pool. free pool w' = free pool w))"

abbreviation open_event :: "int \<Rightarrow> 'w nvme_state \<Rightarrow> 'w nvme_state" where
  "open_event i s \<equiv> s\<lparr>usys_arr := usys_nvme_opened (usys_arr s) (open_ev s i) (global_ns_size s) (global_ns_sector_size s),
     received_nvme_completions := received_nvme_completions s + 1\<rparr>"

lemma open_events:
  "unat (len (usys_arr s)) + length js < 2 ^ 64 \<Longrightarrow> s' = fold open_event js s \<Longrightarrow>
   map ev (usys_events (usys_arr s')) = map ev (usys_events (usys_arr s)) @ map (\<lambda>i. (USYS_NVME_OPENED, word_of_int (open_ev s i))) js \<and>
   ctxs s' = ctxs s \<and> ctx_mempool s' = ctx_mempool s \<and> mp s' = mp s \<and> unat (len (usys_arr s')) = unat (len (usys_arr s)) + length js \<and>
   received_nvme_completions s' = received_nvme_completions s + int (length js)"
proof (induction js arbitrary: s)
  case (Cons j js)
  have "unat (len (usys_arr s)) + Suc (length js) < 2 ^ 64" using Cons.prems(1) by simp
  note r = len_room [OF this]
  have e: "map ev (usys_events (usys_arr (open_event j s))) = map ev (usys_events (usys_arr s)) @ [(USYS_NVME_OPENED, word_of_int (open_ev s j))]"
    using usys_events_put [OF r(1)] by (simp add: usys_nvme_opened_def ev_def BSYS_DESC_defs)
  have "unat (len (usys_arr (open_event j s))) + length js < 2 ^ 64" using Cons.prems(1) r(2) by simp
  from Cons.IH [OF this] show ?case using Cons.prems(2) e r(2) by simp
qed simp

lemma fold_run_cpl_sel: "received_nvme_completions (fold (run_cpl E) cs s) = received_nvme_completions s \<and>
  ctx_mempool (fold (run_cpl E) cs s) = ctx_mempool s \<and> open_ev_ptr (fold (run_cpl E) cs s) = open_ev_ptr s"
proof (induction cs arbitrary: s)
  case (Cons c cs)
  then show ?case by (cases c) (simp_all add: nvme_read_cb_def nvme_write_cb_def free_local_nvme_ctx_def)
qed simp

text \<open>
  C8. Every completion reaches the application exactly once, in the order of the device, after the
  events of the queues opened since the last call: the batch of events is extended by one event per
  opened queue and one per completed command, with the cookie of its request; the contexts of the
  completed commands, and nothing else, go back to the pool.  The events must fit the allocated descriptors,
  which the code does not check, and the completed commands must be outstanding ones, each reported once.
  The count of received completions grows by the number of events; when SPDK reports a failed queue pair by a negative result,
  it grows by the opened queues and that result, whatever callbacks were run.
\<close>

theorem completions_delivered:
  assumes "rte_mempool_ok (env_dpdk E) free" "spdk_cpl_ok E free" "\<not> no_nvme cfg"
    "spdk_nvme_qpair_process_completions E 4096 (mp_world (mp s)) = (n, cs, w)"
    "distinct (map cpl_ctx cs)" "cpl_ctx ` set cs \<inter> mempool_avail free (ctx_mempool s) (mp s) = {}"
    "0 \<le> open_ev_ptr s" "unat (len (usys_arr s)) + nat (open_ev_ptr s) + length cs \<le> UARR_MIN_CAPACITY"
    "s' = nvme_process_completions E cfg s"
  shows "map ev (usys_events (usys_arr s')) = map ev (usys_events (usys_arr s)) @
      map (\<lambda>i. (USYS_NVME_OPENED, word_of_int (open_ev s i))) [0..open_ev_ptr s - 1] @
      map (\<lambda>c. (cpl_sysnr c, ctx_cookie (ctxs s (cpl_ctx c)))) cs \<and> arr_ok (usys_arr s') \<and>
    mempool_avail free (ctx_mempool s') (mp s') = cpl_ctx ` set cs \<union> mempool_avail free (ctx_mempool s) (mp s) \<and>
    open_ev_ptr s' = 0 \<and>
    received_nvme_completions s' = received_nvme_completions s + open_ev_ptr s + (if n < 0 then n else int (length cs))"
proof -
  have l: "length [0..open_ev_ptr s - 1] = nat (open_ev_ptr s)" by simp
  define s1 where "s1 = fold open_event [0..open_ev_ptr s - 1] s"
  have room: "unat (len (usys_arr s)) + nat (open_ev_ptr s) + length cs < 2 ^ 64" using assms(8) by (simp add: UARR_MIN_CAPACITY_def)
  then have "unat (len (usys_arr s)) + length [0..open_ev_ptr s - 1] < 2 ^ 64" unfolding l by simp
  note o = open_events [OF this s1_def, unfolded l]
  define s2 where "s2 = s1\<lparr>open_ev_ptr := 0, mp := (mp s1)\<lparr>mp_world := w\<rparr>\<rparr>"
  have "case spdk_nvme_qpair_process_completions E 4096 (mp_world (mp s)) of (n, cs, w') \<Rightarrow>
      (0 \<le> n \<longrightarrow> n = int (length cs)) \<and> (\<forall>pool. free pool w' = free pool (mp_world (mp s)))"
    by (rule assms(2) [unfolded spdk_cpl_ok_def, THEN spec, THEN spec])
  then have w: "n = (if n < 0 then n else int (length cs))" "\<And>pool. free pool w = free pool (mp_world (mp s))" unfolding assms(4) by simp_all
  have s': "s' = (fold (run_cpl E) cs s2)\<lparr>received_nvme_completions := received_nvme_completions (fold (run_cpl E) cs s2) + n\<rparr>"
    using assms(3,4) o unfolding assms(9) nvme_process_completions_def Let_def s1_def [symmetric] by (simp add: s2_def)
  have e2: "usys_arr s2 = usys_arr s1" "ctxs s2 = ctxs s" "ctx_mempool s2 = ctx_mempool s"
    "mempool_avail free (ctx_mempool s) (mp s2) = mempool_avail free (ctx_mempool s) (mp s)"
    "received_nvme_completions s2 = received_nvme_completions s1" "open_ev_ptr s2 = 0"
    using o w(2) by (simp_all add: s2_def mempool_avail_def)
  have "unat (len (usys_arr s2)) + length cs < 2 ^ 64" using o e2(1) room by simp
  note r = run_cpls [OF assms(1) this assms(5), unfolded e2, OF assms(6)]
  have "received_nvme_completions s' = received_nvme_completions s + open_ev_ptr s + n"
    using o fold_run_cpl_sel [of E cs s2] e2 assms(7) unfolding s' by simp
  moreover have "arr_ok (usys_arr s')" using r o assms(8) unfolding s' arr_ok_def by simp
  ultimately show ?thesis using r o fold_run_cpl_sel [of E cs s2] e2 w(1) unfolding s' by simp
qed

theorem completions_delivered_witness:
  "\<exists>E :: (ptr option \<Rightarrow> ptr list) nvme_env. \<exists>s s'. s' = nvme_process_completions E cfg_ex s \<and>
     map ev (usys_events (usys_arr s')) = map ev (usys_events (usys_arr s)) @
       map (\<lambda>i. (USYS_NVME_OPENED, word_of_int (open_ev s i))) [0..open_ev_ptr s - 1] @
       map (\<lambda>c. (cpl_sysnr c, ctx_cookie (ctxs s (cpl_ctx c)))) [Read_done 14 False]"
proof -
  let ?E = "env_ex\<lparr>spdk_nvme_qpair_process_completions := \<lambda>_ w. (1, [Read_done 14 False], w)\<rparr>" and ?s = "sched_ex True"
  have "rte_mempool_ok (env_dpdk ?E) free_ex" "spdk_cpl_ok ?E free_ex" "\<not> no_nvme cfg_ex"
    "spdk_nvme_qpair_process_completions ?E 4096 (mp_world (mp ?s)) = (1, [Read_done 14 False], mp_world (mp ?s))"
    "distinct (map cpl_ctx [Read_done 14 False])"
    "cpl_ctx ` set [Read_done 14 False] \<inter> mempool_avail free_ex (ctx_mempool ?s) (mp ?s) = {}"
    "0 \<le> open_ev_ptr ?s"
    "unat (len (usys_arr ?s)) + nat (open_ev_ptr ?s) + length [Read_done 14 False] \<le> UARR_MIN_CAPACITY"
    using env_ex_ok by (simp_all add: spdk_cpl_ok_def cfg_ex_def sched_ex_def nvme_state_ex1_def nvme_state_ex_def UARR_MIN_CAPACITY_def
        mempool_avail_def pool_of_def nvme_mp_ex_def nvme_swq_datastore_def ctx_datastore_def)
  note r = completions_delivered [OF this refl]
  show ?thesis by (rule exI [of _ ?E], rule exI, rule exI, rule conjI [OF refl], rule conjunct1 [OF r])
qed

end
