(* ===== verification/TimerWheel.thy ===== *)
theory TimerWheel
  imports IxList "HOL-Library.Log_Nat"
begin

text \<open>
  The hierarchical timing wheel of \<open>core/timer.c\<close> and \<open>inc/ix/timer.h\<close>, and the user-level timers of
  \<open>core/utimer.c\<close>.  The buckets are the intrusive lists of \<open>IxList\<close>, with the pointer fields in a
  heap; the address of a timer is the address of its \<open>link\<close>, so \<open>hlist_entry\<close> is the identity.

  The handlers are function pointers: \<open>H f t fg\<close> is what calling the handler number \<open>f\<close> does.  The
  current time \<open>rdtsc() / cycles_per_us\<close> is an argument.  \<open>None\<close> is a failed assertion, a call of
  \<open>panic\<close>, a null pointer dereference or an index outside the wheels.
\<close>

unbundle bit_operations_syntax

section \<open>State\<close>

definition WHEEL_SHIFT_LOG2 :: nat where "WHEEL_SHIFT_LOG2 = 3"
definition WHEEL_SHIFT :: nat where "WHEEL_SHIFT = 8"
definition WHEEL_SIZE :: nat where "WHEEL_SIZE = 256"
definition WHEEL_MASK :: u64 where "WHEEL_MASK = 255"
definition WHEEL_COUNT :: nat where "WHEEL_COUNT = 3"
definition MIN_DELAY_SHIFT :: nat where "MIN_DELAY_SHIFT = 4"
definition MIN_DELAY_US :: u64 where "MIN_DELAY_US = 16"
definition MAX_DELAY_US :: u64 where "MAX_DELAY_US = 268435456"

lemmas wheel_consts = WHEEL_SHIFT_LOG2_def WHEEL_SHIFT_def WHEEL_SIZE_def WHEEL_MASK_def WHEEL_COUNT_def
  MIN_DELAY_SHIFT_def MIN_DELAY_US_def MAX_DELAY_US_def

definition WHEEL_IDX_TO_SHIFT :: "nat \<Rightarrow> nat" where
  "WHEEL_IDX_TO_SHIFT idx = idx * WHEEL_SHIFT + MIN_DELAY_SHIFT"

definition WHEEL_OFFSET :: "u64 \<Rightarrow> nat \<Rightarrow> u64" where
  "WHEEL_OFFSET v idx = drop_bit (WHEEL_IDX_TO_SHIFT idx) v AND WHEEL_MASK"

text \<open>\<open>__builtin_clzll\<close>: the number of leading zeros, undefined for 0.\<close>

definition clz64 :: "u64 \<Rightarrow> int" where
  "clz64 x = 64 - int (floorlog 2 (unat x))"

record timer =
  handler :: nat
  expires :: u64
  timer_fg_id :: int

text \<open>
  \<open>links\<close> holds the \<open>link\<close> fields of the timers and the heads of the buckets, \<open>fgs\<close> the array of flow
  groups and \<open>fg_ids\<close> the field \<open>fg_id\<close> of each.
\<close>

record 'w timer_state =
  now_us :: u64
  timer_pos :: u64
  links :: hheap
  timers :: "ptr \<Rightarrow> timer"
  fgs :: "int \<Rightarrow> ptr option"
  fg_ids :: "ptr \<Rightarrow> u16"
  tm_world :: 'w

text \<open>The address of \<open>tw->wheels[i][o]\<close>: the two counters take 16 bytes, a head takes 8.\<close>

definition wheel_head :: "ptr \<Rightarrow> nat \<Rightarrow> nat \<Rightarrow> ptr" where
  "wheel_head tw i off = tw + 16 + 8 * (WHEEL_SIZE * i + off)"

type_synonym 'w timer_handlers = "nat \<Rightarrow> ptr \<Rightarrow> ptr option \<Rightarrow> 'w timer_state \<Rightarrow> 'w timer_state"

section \<open>Arming and disarming\<close>

definition timer_init_entry :: "ptr \<Rightarrow> nat \<Rightarrow> 'w timer_state \<Rightarrow> 'w timer_state" where
  "timer_init_entry t h s =
     s\<lparr>links := set_hprev t None (links s), timers := (timers s)(t := (timers s t)\<lparr>handler := h\<rparr>)\<rparr>"

definition timer_pending :: "ptr \<Rightarrow> 'w timer_state \<Rightarrow> bool" where
  "timer_pending t s \<longleftrightarrow> hprev (links s) t \<noteq> None"

definition timer_del_link :: "ptr \<Rightarrow> 'w timer_state \<Rightarrow> 'w timer_state option" where
  "timer_del_link t s =
     (if hprev (links s) t = None then None
      else Some (s\<lparr>links := set_hprev t None (hlist_del t (links s))\<rparr>))"

definition timer_del :: "ptr \<Rightarrow> 'w timer_state \<Rightarrow> 'w timer_state option" where
  "timer_del t s = (if timer_pending t s then timer_del_link t s else Some s)"

definition timer_expired :: "ptr \<Rightarrow> 'w timer_state \<Rightarrow> bool" where
  "timer_expired t s \<longleftrightarrow> expires (timers s t) \<le> now_us s"

definition wheel_index :: "u64 \<Rightarrow> int" where
  "wheel_index delay_us = (63 - clz64 delay_us - int MIN_DELAY_SHIFT) div 2 ^ WHEEL_SHIFT_LOG2"

definition timer_insert :: "ptr option \<Rightarrow> ptr \<Rightarrow> ptr \<Rightarrow> 'w timer_state \<Rightarrow> 'w timer_state option" where
  "timer_insert cur_fg tw t s =
     (let expire_us = expires (timers s t) + MIN_DELAY_US;
          delay_us = expire_us - now_us s;
          index = wheel_index delay_us
      in if index < 0 \<or> int WHEEL_COUNT \<le> index then None
      else
        let offset = WHEEL_OFFSET expire_us (nat index);
            fg = (case cur_fg of Some f \<Rightarrow> uint (fg_ids s f) | None \<Rightarrow> - 1)
        in Some (s\<lparr>links := hlist_add_head (wheel_head tw (nat index) (unat offset)) t (links s),
                   timers := (timers s)(t := (timers s t)\<lparr>timer_fg_id := fg\<rparr>)\<rparr>))"

definition set_expires :: "ptr \<Rightarrow> u64 \<Rightarrow> 'w timer_state \<Rightarrow> 'w timer_state" where
  "set_expires t e s = s\<lparr>timers := (timers s)(t := (timers s t)\<lparr>expires := e\<rparr>)\<rparr>"

definition timer_add_tw :: "ptr option \<Rightarrow> ptr \<Rightarrow> ptr \<Rightarrow> u64 \<Rightarrow> u64 \<Rightarrow> 'w timer_state \<Rightarrow> (int \<times> 'w timer_state) option" where
  "timer_add_tw cur_fg tw t delay_us tsc_us s =
     (if delay_us = 0 \<or> delay_us \<ge> MAX_DELAY_US then None
      else map_option (\<lambda>s. (0, s)) (timer_insert cur_fg tw t (set_expires t (tsc_us + delay_us) s)))"

definition timer_add :: "ptr \<Rightarrow> ptr \<Rightarrow> ptr option \<Rightarrow> u64 \<Rightarrow> u64 \<Rightarrow> 'w timer_state \<Rightarrow> (int \<times> 'w timer_state) option" where
  "timer_add tw t cur_fg usecs tsc_us s = timer_add_tw cur_fg tw t usecs tsc_us s"

definition timer_mod :: "ptr \<Rightarrow> ptr \<Rightarrow> ptr option \<Rightarrow> u64 \<Rightarrow> u64 \<Rightarrow> 'w timer_state \<Rightarrow> (int \<times> 'w timer_state) option" where
  "timer_mod tw t cur_fg usecs tsc_us s = do {
     s \<leftarrow> (if timer_pending t s then timer_del_link t s else Some s);
     timer_add tw t cur_fg usecs tsc_us s
   }"

definition timer_add_abs :: "ptr \<Rightarrow> ptr \<Rightarrow> ptr option \<Rightarrow> u64 \<Rightarrow> 'w timer_state \<Rightarrow> 'w timer_state option" where
  "timer_add_abs tw t cur_fg abs_usecs s =
     (if abs_usecs \<le> timer_pos s \<or> timer_pending t s then None
      else timer_insert cur_fg tw t (set_expires t abs_usecs s))"

definition timer_add_for_next_tick :: "ptr \<Rightarrow> ptr \<Rightarrow> ptr option \<Rightarrow> 'w timer_state \<Rightarrow> 'w timer_state option" where
  "timer_add_for_next_tick tw t cur_fg s =
     timer_insert cur_fg tw t (set_expires t (now_us s + MIN_DELAY_US) s)"

definition get_ethfg_from_id :: "int \<Rightarrow> 'w timer_state \<Rightarrow> ptr option" where
  "get_ethfg_from_id fg_id s = (if fg_id < 0 then None else fgs s fg_id)"

section \<open>Running the wheel\<close>

text \<open>
  \<open>hlist_for_each_safe\<close> reads the next pointer of a node before the body runs, which may unlink the
  node.  The fuel bounds the number of nodes visited.
\<close>

fun run_bucket_loop :: "nat \<Rightarrow> 'w timer_handlers \<Rightarrow> ptr option \<Rightarrow> 'w timer_state \<Rightarrow> 'w timer_state option" where
  "run_bucket_loop fuel H None s = Some s"
| "run_bucket_loop 0 H (Some t) s = None"
| "run_bucket_loop (Suc fuel) H (Some t) s =
     (let tmp = hnext (links s) t
      in case timer_del_link t s of None \<Rightarrow> None
         | Some s \<Rightarrow>
             if timer_fg_id (timers s t) \<ge> 0 then
               (case fgs s (timer_fg_id (timers s t)) of
                  None \<Rightarrow> None
                | Some fg \<Rightarrow> run_bucket_loop fuel H tmp (H (handler (timers s t)) t (Some fg) s))
             else run_bucket_loop fuel H tmp s)"

definition timer_run_bucket :: "nat \<Rightarrow> 'w timer_handlers \<Rightarrow> ptr \<Rightarrow> 'w timer_state \<Rightarrow> 'w timer_state option" where
  "timer_run_bucket fuel H h s =
     map_option (\<lambda>s. s\<lparr>links := set_hnext h None (links s)\<rparr>) (run_bucket_loop fuel H (hnext (links s) h) s)"

text \<open>An expired timer without a flow group reads \<open>fgs[-1]\<close>, which is outside the array.\<close>

fun reinsert_loop :: "nat \<Rightarrow> 'w timer_handlers \<Rightarrow> ptr \<Rightarrow> ptr option \<Rightarrow> int \<Rightarrow> 'w timer_state \<Rightarrow> (int \<times> 'w timer_state) option" where
  "reinsert_loop fuel H tw None cnt s = Some (cnt, s)"
| "reinsert_loop 0 H tw (Some t) cnt s = None"
| "reinsert_loop (Suc fuel) H tw (Some t) cnt s =
     (let tmp = hnext (links s) t
      in case timer_del_link t s of None \<Rightarrow> None
         | Some s \<Rightarrow>
             if timer_expired t s then
               if timer_fg_id (timers s t) < 0 then None
               else reinsert_loop fuel H tw tmp (cnt + 1)
                      (H (handler (timers s t)) t (fgs s (timer_fg_id (timers s t))) s)
             else
               (case timer_insert (get_ethfg_from_id (timer_fg_id (timers s t)) s) tw t s of None \<Rightarrow> None
                | Some s \<Rightarrow> reinsert_loop fuel H tw tmp (cnt + 1) s))"

definition timer_reinsert_bucket ::
  "nat \<Rightarrow> 'w timer_handlers \<Rightarrow> ptr \<Rightarrow> ptr \<Rightarrow> 'w timer_state \<Rightarrow> (int \<times> 'w timer_state) option" where
  "timer_reinsert_bucket fuel H tw h s = reinsert_loop fuel H tw (hnext (links s) h) 0 s"

fun collapse_loop :: "nat list \<Rightarrow> nat \<Rightarrow> 'w timer_handlers \<Rightarrow> ptr \<Rightarrow> u64 \<Rightarrow> int \<Rightarrow> 'w timer_state \<Rightarrow> (int \<times> 'w timer_state) option" where
  "collapse_loop [] fuel H tw pos cnt s = Some (cnt, s)"
| "collapse_loop (wheel # ws) fuel H tw pos cnt s =
     (let off = WHEEL_OFFSET pos wheel
      in case timer_reinsert_bucket fuel H tw (wheel_head tw wheel (unat off)) s of None \<Rightarrow> None
         | Some (cnt, s) \<Rightarrow> if off \<noteq> 0 then Some (cnt, s) else collapse_loop ws fuel H tw pos cnt s)"

definition timer_collapse :: "nat \<Rightarrow> 'w timer_handlers \<Rightarrow> ptr \<Rightarrow> u64 \<Rightarrow> 'w timer_state \<Rightarrow> (int \<times> 'w timer_state) option" where
  "timer_collapse fuel H tw pos s = collapse_loop [1..<WHEEL_COUNT] fuel H tw pos 0 s"

text \<open>The loop of \<open>timer_run\<close>; \<open>n\<close> bounds the number of slots, \<open>fuel\<close> the length of a bucket.\<close>

fun timer_run_loop :: "nat \<Rightarrow> nat \<Rightarrow> 'w timer_handlers \<Rightarrow> ptr \<Rightarrow> u64 \<Rightarrow> 'w timer_state \<Rightarrow> (u64 \<times> 'w timer_state) option" where
  "timer_run_loop n fuel H tw pos s =
     (if pos \<le> now_us s then
        case n of 0 \<Rightarrow> None | Suc n \<Rightarrow> do {
          let high_off = WHEEL_OFFSET pos 0;
          s \<leftarrow> (if high_off = 0 then map_option snd (timer_collapse fuel H tw pos s) else Some s);
          s \<leftarrow> timer_run_bucket fuel H (wheel_head tw 0 (unat high_off)) s;
          timer_run_loop n fuel H tw (pos + MIN_DELAY_US) s
        }
      else Some (pos, s))"

declare timer_run_loop.simps [simp del]

definition timer_run :: "nat \<Rightarrow> nat \<Rightarrow> 'w timer_handlers \<Rightarrow> ptr \<Rightarrow> u64 \<Rightarrow> 'w timer_state \<Rightarrow> 'w timer_state option" where
  "timer_run n fuel H tw tsc_us s = do {
     let pos = timer_pos s;
     let s = s\<lparr>now_us := tsc_us\<rparr>;
     (pos, s) \<leftarrow> timer_run_loop n fuel H tw pos s;
     Some (s\<lparr>timer_pos := pos\<rparr>)
   }"

section \<open>Deadlines, migration, initialisation\<close>

text \<open>The first non-empty bucket of wheel \<open>idx\<close> among the slots \<open>sl\<close>.\<close>

fun deadline_scan :: "u64 list \<Rightarrow> nat \<Rightarrow> ptr \<Rightarrow> 'w timer_state \<Rightarrow> u64 option" where
  "deadline_scan [] idx tw s = None"
| "deadline_scan (x # xs) idx tw s =
     (if \<not> hlist_empty (wheel_head tw idx (unat (x AND WHEEL_MASK))) (links s) then Some (push_bit (WHEEL_IDX_TO_SHIFT idx) x)
      else deadline_scan xs idx tw s)"

definition slots_between :: "u64 \<Rightarrow> u64 \<Rightarrow> u64 list" where
  "slots_between a b = map word_of_nat [unat a..<Suc (unat b)]"

fun deadline_loop :: "nat list \<Rightarrow> u64 \<Rightarrow> u64 \<Rightarrow> ptr \<Rightarrow> 'w timer_state \<Rightarrow> u64 option" where
  "deadline_loop [] now future tw s = None"
| "deadline_loop (idx # is) now future tw s =
     (let start = drop_bit (WHEEL_IDX_TO_SHIFT idx) now; end = drop_bit (WHEEL_IDX_TO_SHIFT idx) future
      in if start = end then None
         else let end = min end (start + word_of_nat WHEEL_SIZE)
              in case deadline_scan (slots_between (start + 1) end) idx tw s of
                   Some d \<Rightarrow> Some d | None \<Rightarrow> deadline_loop is now future tw s)"

definition timer_deadline :: "ptr \<Rightarrow> u64 \<Rightarrow> u64 \<Rightarrow> 'w timer_state \<Rightarrow> u64" where
  "timer_deadline tw max_deadline_us tsc_us s =
     (case deadline_loop [0..<WHEEL_COUNT] (now_us s) (now_us s + max_deadline_us) tw s of
        None \<Rightarrow> max_deadline_us
      | Some deadline_us \<Rightarrow> if deadline_us \<le> tsc_us then 0 else deadline_us - tsc_us)"

text \<open>Collecting the timers of the flow groups marked in \<open>fg_vector\<close> onto the list at \<open>lst\<close>.\<close>

fun collect_loop :: "nat \<Rightarrow> (int \<Rightarrow> bool) \<Rightarrow> ptr \<Rightarrow> ptr option \<Rightarrow> int \<Rightarrow> 'w timer_state \<Rightarrow> (int \<times> 'w timer_state) option" where
  "collect_loop fuel fg_vector lst None cnt s = Some (cnt, s)"
| "collect_loop 0 fg_vector lst (Some t) cnt s = None"
| "collect_loop (Suc fuel) fg_vector lst (Some t) cnt s =
     (let tmp = hnext (links s) t
      in if timer_fg_id (timers s t) \<ge> 0 \<and> fg_vector (timer_fg_id (timers s t)) then
           collect_loop fuel fg_vector lst tmp (cnt + 1) (s\<lparr>links := hlist_add_head lst t (hlist_del t (links s))\<rparr>)
         else collect_loop fuel fg_vector lst tmp cnt s)"

fun collect_buckets :: "nat \<Rightarrow> ptr list \<Rightarrow> (int \<Rightarrow> bool) \<Rightarrow> ptr \<Rightarrow> int \<Rightarrow> 'w timer_state \<Rightarrow> (int \<times> 'w timer_state) option" where
  "collect_buckets fuel [] fg_vector lst cnt s = Some (cnt, s)"
| "collect_buckets fuel (h # hs) fg_vector lst cnt s =
     (case collect_loop fuel fg_vector lst (hnext (links s) h) cnt s of None \<Rightarrow> None
      | Some (cnt, s) \<Rightarrow> collect_buckets fuel hs fg_vector lst cnt s)"

definition all_buckets :: "ptr \<Rightarrow> ptr list" where
  "all_buckets tw = concat (map (\<lambda>i. map (wheel_head tw i) [0..<WHEEL_SIZE]) [0..<WHEEL_COUNT])"

definition timer_collect_fgs ::
  "nat \<Rightarrow> ptr \<Rightarrow> (int \<Rightarrow> bool) \<Rightarrow> ptr \<Rightarrow> 'w timer_state \<Rightarrow> (int \<times> u64 \<times> 'w timer_state) option" where
  "timer_collect_fgs fuel tw fg_vector lst s =
     map_option (\<lambda>(n, s'). (n, timer_pos s, s')) (collect_buckets fuel (all_buckets tw) fg_vector lst 0 s)"

text \<open>\<open>int64_t delay\<close> is the difference read as a signed number.\<close>

fun reinject_loop :: "nat \<Rightarrow> ptr \<Rightarrow> ptr option \<Rightarrow> u64 \<Rightarrow> u64 \<Rightarrow> 'w timer_state \<Rightarrow> 'w timer_state option" where
  "reinject_loop fuel tw None t_base tsc_us s = Some s"
| "reinject_loop 0 tw (Some t) t_base tsc_us s = None"
| "reinject_loop (Suc fuel) tw (Some t) t_base tsc_us s =
     (let tmp = hnext (links s) t; fg_id = timer_fg_id (timers s t)
      in if fg_id < 0 then None
         else let delay = expires (timers s t) - t_base
              in case (if sint delay \<le> 0 then timer_add_for_next_tick tw t (fgs s fg_id) s
                       else map_option snd (timer_add_tw (fgs s fg_id) tw t delay tsc_us s)) of
                   None \<Rightarrow> None
                 | Some s \<Rightarrow> reinject_loop fuel tw tmp t_base tsc_us s)"

definition timer_reinject_fgs :: "nat \<Rightarrow> ptr \<Rightarrow> ptr \<Rightarrow> u64 \<Rightarrow> u64 \<Rightarrow> 'w timer_state \<Rightarrow> 'w timer_state option" where
  "timer_reinject_fgs fuel tw lst pos tsc_us s =
     (let t_base = (if pos \<ge> timer_pos s then timer_pos s else pos)
      in reinject_loop fuel tw (hnext (links s) lst) t_base tsc_us s)"

definition timer_init_cpu :: "u64 \<Rightarrow> 'w timer_state \<Rightarrow> 'w timer_state" where
  "timer_init_cpu tsc_us s = s\<lparr>now_us := tsc_us, timer_pos := tsc_us\<rparr>"

section \<open>User-level timers\<close>

definition UTIMER_COUNT :: int where "UTIMER_COUNT = 32"

text \<open>\<open>next\<close> is the static variable of \<open>find_available\<close>, shared by all cores.\<close>

definition find_available :: "int \<Rightarrow> int \<times> int" where
  "find_available next = (if next \<ge> UTIMER_COUNT then (- 1, next) else (next, next + 1))"

text \<open>\<open>arr i\<close> is the address of the \<open>i\<close>-th timer of the list, \<open>gh\<close> the number of \<open>generic_handler\<close>.\<close>

definition utimer_init ::
  "nat \<Rightarrow> (int \<Rightarrow> ptr) \<Rightarrow> u64 \<Rightarrow> int \<times> (ptr \<Rightarrow> u64) \<times> 'w timer_state \<Rightarrow> int \<times> (int \<times> (ptr \<Rightarrow> u64) \<times> 'w timer_state)" where
  "utimer_init gh arr udata = (\<lambda>(next, cookies, s).
     case find_available next of (index, next) \<Rightarrow>
       if index < 0 then (- 1, (next, cookies, s))
       else (index, (next, cookies(arr index := udata), timer_init_entry (arr index) gh s)))"

definition utimer_arm :: "ptr \<Rightarrow> (int \<Rightarrow> ptr) \<Rightarrow> int \<Rightarrow> u64 \<Rightarrow> u64 \<Rightarrow> 'w timer_state \<Rightarrow> (int \<times> 'w timer_state) option" where
  "utimer_arm tw arr timer_id delay tsc_us s = timer_add tw (arr timer_id) None delay tsc_us s"

end
