(* ===== verification/TimerProps.thy ===== *)
theory TimerProps
  imports TimerWheel
begin

text \<open>
  The timing wheel keeps its promises.  \<open>wheel_rep\<close> relates the linked buckets to a family of lists
  through the contract of \<open>IxList\<close>, \<open>wheel_inv\<close> says where a timer may be before a given slot is run,
  and \<open>splits\<close> that timers are fired exactly once.  The last section shows where the code deviates.
\<close>

section \<open>The wheel as a family of lists\<close>

type_synonym bucket = "nat \<times> nat"

definition buckets :: "bucket set" where
  "buckets = {..<WHEEL_COUNT} \<times> {..<WHEEL_SIZE}"

abbreviation bhead :: "ptr \<Rightarrow> bucket \<Rightarrow> ptr" where
  "bhead tw k \<equiv> wheel_head tw (fst k) (snd k)"

definition nodes :: "(bucket \<Rightarrow> ptr list) \<Rightarrow> ptr set" where
  "nodes W = (\<Union>k \<in> buckets. set (W k))"

definition wheel_rep :: "ptr \<Rightarrow> hheap \<Rightarrow> (bucket \<Rightarrow> ptr list) \<Rightarrow> bool" where
  "wheel_rep tw hp W \<longleftrightarrow> (\<forall>k \<in> buckets. hlist_rep hp (bhead tw k) (W k)) \<and>
     nodes W \<inter> bhead tw ` buckets = {} \<and>
     (\<forall>k \<in> buckets. \<forall>l \<in> buckets. k \<noteq> l \<longrightarrow> set (W k) \<inter> set (W l) = {})"

lemma bhead_inj: "k \<in> buckets \<Longrightarrow> l \<in> buckets \<Longrightarrow> bhead tw k = bhead tw l \<Longrightarrow> k = l"
proof -
  assume k: "k \<in> buckets" "l \<in> buckets" "bhead tw k = bhead tw l"
  then have e: "256 * fst k + snd k = 256 * fst l + snd l" by (simp add: wheel_head_def wheel_consts)
  have s: "snd k < 256" "snd l < 256" using k(1,2) by (auto simp: buckets_def wheel_consts)
  have "(256 * fst k + snd k) div 256 = fst k" "(256 * fst l + snd l) div 256 = fst l" using s by simp_all
  then have "fst k = fst l" using e by simp
  then show "k = l" using e by (simp add: prod_eq_iff)
qed

lemma wheel_rep_sep:
  assumes "wheel_rep tw hp W" "k \<in> buckets" "l \<in> buckets" "k \<noteq> l"
  shows "set (bhead tw k # W k) \<inter> set (bhead tw l # W l) = {}"
proof -
  have "bhead tw k \<noteq> bhead tw l" using bhead_inj [OF assms(2,3)] assms(4) by blast
  moreover have "bhead tw k \<notin> set (W l)" "bhead tw l \<notin> set (W k)" "set (W k) \<inter> set (W l) = {}"
    using assms unfolding wheel_rep_def nodes_def by blast+
  ultimately show ?thesis by auto
qed

lemma wheel_rep_add:
  assumes "wheel_rep tw hp W" "k \<in> buckets" "t \<notin> nodes W" "t \<notin> bhead tw ` buckets"
  shows "wheel_rep tw (hlist_add_head (bhead tw k) t hp) (W(k := t # W k))"
proof -
  have k: "hlist_rep hp (bhead tw k) (W k)" using assms(1,2) by (simp add: wheel_rep_def)
  have t: "t \<notin> set (bhead tw l # W l)" if "l \<in> buckets" for l using assms(3,4) that by (auto simp: nodes_def)
  have r: "hlist_rep (hlist_add_head (bhead tw k) t hp) (bhead tw l) ((W(k := t # W k)) l)" if l: "l \<in> buckets" for l
  proof (cases "l = k")
    case True
    then show ?thesis using hl.rep_add [OF k t [OF assms(2)]] by simp
  next
    case False
    have "hlist_rep hp (bhead tw l) (W l)" using assms(1) l by (simp add: wheel_rep_def)
    then show ?thesis using hl.frame_add [OF _ k wheel_rep_sep [OF assms(1) l assms(2) False] t [OF l]] False by simp
  qed
  have "nodes (W(k := t # W k)) \<subseteq> insert t (nodes W)" by (auto simp: nodes_def split: if_splits)
  moreover have "nodes W \<inter> bhead tw ` buckets = {}" using assms(1) by (simp add: wheel_rep_def)
  ultimately have n: "nodes (W(k := t # W k)) \<inter> bhead tw ` buckets = {}" using assms(4) by blast
  have d: "set ((W(k := t # W k)) l) \<inter> set ((W(k := t # W k)) m) = {}" if "l \<in> buckets" "m \<in> buckets" "l \<noteq> m" for l m
  proof -
    have "set (W l) \<inter> set (W m) = {}" "t \<notin> set (W l)" "t \<notin> set (W m)"
      using assms(1,3) that by (auto simp: wheel_rep_def nodes_def)
    then show ?thesis using that(3) by (cases "l = k"; cases "m = k") auto
  qed
  show ?thesis unfolding wheel_rep_def using r n d by simp
qed

lemma wheel_rep_del:
  assumes "wheel_rep tw hp W" "k \<in> buckets" "t \<in> set (W k)"
  shows "wheel_rep tw (set_hprev t None (hlist_del t hp)) (W(k := remove1 t (W k)))"
proof -
  have k: "hlist_rep hp (bhead tw k) (W k)" using assms(1,2) by (simp add: wheel_rep_def)
  let ?hp = "set_hprev t None (hlist_del t hp)"
  have fr: "hlist_rep ?hp h xs" if "hlist_rep (hlist_del t hp) h xs" "t \<notin> set xs" for h xs
    using that by (intro hlist_rep_frame [OF that(1)]) auto
  have r: "hlist_rep ?hp (bhead tw l) ((W(k := remove1 t (W k))) l)" if l: "l \<in> buckets" for l
  proof (cases "l = k")
    case True
    have "distinct (W k)" using hl.rep_distinct [OF k] by simp
    then show ?thesis using fr [OF hl.rep_del [OF k assms(3)]] True by simp
  next
    case False
    have rl: "hlist_rep hp (bhead tw l) (W l)" using assms(1) l by (simp add: wheel_rep_def)
    note sep = wheel_rep_sep [OF assms(1) l assms(2) False]
    show ?thesis using fr [OF hl.frame_del [OF rl k sep assms(3)]] sep assms(3) False by auto
  qed
  have "nodes (W(k := remove1 t (W k))) \<subseteq> nodes W"
    unfolding nodes_def by (rule UN_mono [OF order_refl]) (simp add: set_remove1_subset)
  moreover have "nodes W \<inter> bhead tw ` buckets = {}" using assms(1) by (simp add: wheel_rep_def)
  ultimately have n: "nodes (W(k := remove1 t (W k))) \<inter> bhead tw ` buckets = {}" by blast
  have d: "set ((W(k := remove1 t (W k))) l) \<inter> set ((W(k := remove1 t (W k))) m) = {}"
    if "l \<in> buckets" "m \<in> buckets" "l \<noteq> m" for l m
  proof -
    have "set ((W(k := remove1 t (W k))) l) \<subseteq> set (W l)" "set ((W(k := remove1 t (W k))) m) \<subseteq> set (W m)"
      using set_remove1_subset [of t "W k"] by simp_all
    moreover have "set (W l) \<inter> set (W m) = {}" using assms(1) that by (simp add: wheel_rep_def)
    ultimately show ?thesis by blast
  qed
  show ?thesis unfolding wheel_rep_def using r n d by simp
qed

lemma wheel_rep_hd:
  assumes "wheel_rep tw hp W" "k \<in> buckets" "W k = x # xs"
  shows "hnext hp (bhead tw k) = Some x" "hprev hp x \<noteq> None"
    "hnext (set_hprev x None (hlist_del x hp)) (bhead tw k) = hnext hp x"
proof -
  have r: "hlist_rep hp (bhead tw k) (x # xs)" using assms by (force simp: wheel_rep_def)
  then show "hnext hp (bhead tw k) = Some x" "hprev hp x \<noteq> None" by (simp_all add: hlist_rep_def)
  show "hnext (set_hprev x None (hlist_del x hp)) (bhead tw k) = hnext hp x"
    using r by (auto simp: hlist_rep_def hlist_del_def Let_def split: option.splits)
qed

lemma wheel_rep_nil: "wheel_rep tw hp W \<Longrightarrow> k \<in> buckets \<Longrightarrow> W k = [] \<Longrightarrow> hnext hp (bhead tw k) = None"
  by (force simp: wheel_rep_def hlist_rep_def)

section \<open>Running and reinserting a bucket\<close>

text \<open>Handlers that leave the wheel alone: they only change the rest of the world.\<close>

definition world_handlers :: "(nat \<Rightarrow> ptr \<Rightarrow> ptr option \<Rightarrow> 'w \<Rightarrow> 'w) \<Rightarrow> 'w timer_handlers" where
  "world_handlers g f t fg s = s\<lparr>tm_world := g f t fg (tm_world s)\<rparr>"

definition fire :: "(nat \<Rightarrow> ptr \<Rightarrow> ptr option \<Rightarrow> 'w \<Rightarrow> 'w) \<Rightarrow> 'w timer_state \<Rightarrow> ptr \<Rightarrow> 'w \<Rightarrow> 'w" where
  "fire g s t w = g (handler (timers s t)) t (fgs s (timer_fg_id (timers s t))) w"

text \<open>Every timer has a flow group, and the flow group knows its number.\<close>

definition fg_ok :: "'w timer_state \<Rightarrow> ptr \<Rightarrow> bool" where
  "fg_ok s t \<longleftrightarrow> 0 \<le> timer_fg_id (timers s t) \<and>
     (\<exists>f. fgs s (timer_fg_id (timers s t)) = Some f \<and> uint (fg_ids s f) = timer_fg_id (timers s t))"

lemma run_bucket_loop_spec:
  assumes "k \<in> buckets"
  shows "wheel_rep tw l W \<Longrightarrow> \<forall>t \<in> set (W k). fg_ok s t \<Longrightarrow> length (W k) \<le> fuel \<Longrightarrow>
    \<exists>l'. run_bucket_loop fuel (world_handlers g) (hnext l (bhead tw k)) (s\<lparr>links := l, tm_world := w\<rparr>) =
        Some (s\<lparr>links := l', tm_world := fold (fire g s) (W k) w\<rparr>) \<and> wheel_rep tw l' (W(k := []))"
proof (induction "W k" arbitrary: W l w fuel)
  case Nil
  have e: "W(k := []) = W" using Nil.hyps by (simp add: fun_upd_idem)
  show ?case using wheel_rep_nil [OF Nil.prems(1) assms Nil.hyps [symmetric]] Nil.prems(1) Nil.hyps
    by (intro exI [of _ l]) (simp add: e)
next
  case (Cons x xs)
  note wk = Cons.hyps(2) [symmetric]
  obtain m where m: "fuel = Suc m" "length xs \<le> m" using Cons.prems(3) wk by (cases fuel) auto
  note hd = wheel_rep_hd [OF Cons.prems(1) assms wk]
  define l1 where "l1 = set_hprev x None (hlist_del x l)"
  define w1 where "w1 = fire g s x w"
  have r1: "wheel_rep tw l1 (W(k := xs))" using wheel_rep_del [OF Cons.prems(1) assms, of x] wk by (simp add: l1_def)
  obtain f where f: "0 \<le> timer_fg_id (timers s x)" "fgs s (timer_fg_id (timers s x)) = Some f"
    using Cons.prems(2) wk by (auto simp: fg_ok_def)
  have e: "run_bucket_loop fuel (world_handlers g) (hnext l (bhead tw k)) (s\<lparr>links := l, tm_world := w\<rparr>) =
    run_bucket_loop m (world_handlers g) (hnext l1 (bhead tw k)) (s\<lparr>links := l1, tm_world := w1\<rparr>)"
    using hd(1,3) f hd(2) [THEN not_None_eq [THEN iffD1]] by (auto simp: m(1) timer_del_link_def world_handlers_def l1_def w1_def fire_def Let_def)
  have ih: "\<exists>l'. run_bucket_loop m (world_handlers g) (hnext l1 (bhead tw k)) (s\<lparr>links := l1, tm_world := w1\<rparr>) =
        Some (s\<lparr>links := l', tm_world := fold (fire g s) ((W(k := xs)) k) w1\<rparr>) \<and> wheel_rep tw l' ((W(k := xs))(k := []))"
    by (rule Cons.hyps(1)) (use r1 m(2) Cons.prems(2) wk in \<open>simp_all add: fun_upd_same del: fun_upd_apply\<close>)
  then show ?case unfolding e wk by (simp add: w1_def)
qed

lemma timer_run_bucket_spec:
  assumes "k \<in> buckets" "wheel_rep tw l W" "\<forall>t \<in> set (W k). fg_ok s t" "length (W k) \<le> fuel"
  shows "\<exists>l'. timer_run_bucket fuel (world_handlers g) (bhead tw k) (s\<lparr>links := l, tm_world := w\<rparr>) =
        Some (s\<lparr>links := l', tm_world := fold (fire g s) (W k) w\<rparr>) \<and> wheel_rep tw l' (W(k := []))"
proof -
  obtain l' where l': "run_bucket_loop fuel (world_handlers g) (hnext l (bhead tw k)) (s\<lparr>links := l, tm_world := w\<rparr>) =
        Some (s\<lparr>links := l', tm_world := fold (fire g s) (W k) w\<rparr>)" "wheel_rep tw l' (W(k := []))"
    using run_bucket_loop_spec [OF assms] by blast
  have "hnext l' (bhead tw k) = None" using wheel_rep_nil [OF l'(2) assms(1)] by simp
  then have "set_hnext (bhead tw k) None l' = l'" by (simp add: set_hnext_def fun_upd_idem)
  then show ?thesis using l' by (intro exI [of _ l']) (simp add: timer_run_bucket_def)
qed

section \<open>Placing a timer\<close>

lemma floorlog2_range:
  assumes "2 ^ a \<le> n" "n < 2 ^ b"
  shows "a < floorlog 2 n" "floorlog 2 n \<le> b"
  using floorlog_geI [of 2 "Suc a" n] floorlog_leI [of n 2 b] assms by simp_all

lemma wheel_index_range:
  assumes "2 ^ (8 * i + 4) \<le> unat d" "unat d < 2 ^ (8 * i + 12)"
  shows "wheel_index d = int i"
proof -
  note f = floorlog2_range [OF assms]
  have "(int (floorlog 2 (unat d)) - 5) div 8 = int i" using f by (intro int_div_pos_eq [of _ _ _ "int (floorlog 2 (unat d)) - 5 - 8 * int i"]) auto
  then show ?thesis by (simp add: wheel_index_def clz64_def wheel_consts)
qed

lemma unat_WHEEL_OFFSET: "unat (WHEEL_OFFSET v i) = unat v div 2 ^ (8 * i + 4) mod 256"
proof -
  have "(255 :: u64) = mask 8" by (simp add: mask_numeral)
  then have "WHEEL_OFFSET v i = take_bit 8 (drop_bit (i * 8 + 4) v)"
    by (simp only: WHEEL_OFFSET_def WHEEL_IDX_TO_SHIFT_def WHEEL_SHIFT_def MIN_DELAY_SHIFT_def WHEEL_MASK_def take_bit_eq_mask)
  then have "unat (WHEEL_OFFSET v i) = take_bit 8 (drop_bit (i * 8 + 4) (unat v))"
    by (simp add: unsigned_take_bit_eq unsigned_drop_bit_eq take_bit_nat_eq_self)
  then show ?thesis by (simp only: take_bit_eq_mod drop_bit_eq_div mult.commute) simp
qed

definition slot :: "'w timer_state \<Rightarrow> ptr \<Rightarrow> nat" where
  "slot s t = unat (expires (timers s t)) div 16 + 1"

definition time_ok :: "'w timer_state \<Rightarrow> ptr \<Rightarrow> bool" where
  "time_ok s t \<longleftrightarrow> unat (expires (timers s t)) < 2 ^ 63"

lemma expire_us:
  assumes "time_ok s t"
  shows "unat (expires (timers s t) + MIN_DELAY_US) = unat (expires (timers s t)) + 16"
  using assms unat_add_lem [of "expires (timers s t)" 16] by (simp add: time_ok_def wheel_consts)

lemma timer_insert_place:
  assumes t: "time_ok s t" "unat (now_us s) \<le> unat (expires (timers s t)) + 16"
    and d: "2 ^ (8 * i + 4) \<le> unat (expires (timers s t)) + 16 - unat (now_us s)"
      "unat (expires (timers s t)) + 16 - unat (now_us s) < 2 ^ (8 * i + 12)" "i < 3"
    and k: "k = (i, (unat (expires (timers s t)) + 16) div 2 ^ (8 * i + 4) mod 256)"
  shows "timer_insert (Some f) tw t s = Some (s\<lparr>links := hlist_add_head (bhead tw k) t (links s),
      timers := (timers s)(t := (timers s t)\<lparr>timer_fg_id := uint (fg_ids s f)\<rparr>)\<rparr>)" "k \<in> buckets"
proof -
  note e = expire_us [OF t(1)]
  have "unat (expires (timers s t) + MIN_DELAY_US - now_us s) = unat (expires (timers s t)) + 16 - unat (now_us s)"
    using unat_sub [of "now_us s" "expires (timers s t) + MIN_DELAY_US"] t(2) e by (simp add: word_le_nat_alt)
  then have i: "wheel_index (expires (timers s t) + MIN_DELAY_US - now_us s) = int i" using d by (intro wheel_index_range) simp_all
  have o: "unat (WHEEL_OFFSET (expires (timers s t) + MIN_DELAY_US) i) = snd k" unfolding unat_WHEEL_OFFSET e k by simp
  show "timer_insert (Some f) tw t s = Some (s\<lparr>links := hlist_add_head (bhead tw k) t (links s),
      timers := (timers s)(t := (timers s t)\<lparr>timer_fg_id := uint (fg_ids s f)\<rparr>)\<rparr>)"
    using d(3) o unfolding timer_insert_def Let_def i option.case by (simp add: WHEEL_COUNT_def k)
  show "k \<in> buckets" using d(3) by (simp add: k buckets_def wheel_consts)
qed

text \<open>The invariant of the wheel before slot \<open>S\<close> is run.\<close>

definition wheel_inv :: "'w timer_state \<Rightarrow> nat \<Rightarrow> (bucket \<Rightarrow> ptr list) \<Rightarrow> bool" where
  "wheel_inv s S W \<longleftrightarrow> (\<forall>t \<in> nodes W. fg_ok s t \<and> time_ok s t) \<and>
     (\<forall>off < 256. \<forall>t \<in> set (W (0, off)). slot s t mod 256 = off \<and> S \<le> slot s t \<and> slot s t < S + 256) \<and>
     (\<forall>off < 256. \<forall>t \<in> set (W (1, off)). slot s t div 256 mod 256 = off \<and> S \<le> 256 * (slot s t div 256) \<and>
        slot s t div 256 < (S + 255) div 256 + 256) \<and>
     (\<forall>off < 256. W (2, off) = [])"

lemma wheel_rep_fresh:
  assumes "wheel_rep tw l W" "k \<in> buckets" "W k = x # xs"
  shows "x \<notin> nodes (W(k := xs))" "x \<notin> bhead tw ` buckets"
proof -
  have "hlist_rep l (bhead tw k) (x # xs)" using assms by (force simp: wheel_rep_def)
  then have "x \<notin> set xs" using hl.rep_distinct by fastforce
  moreover have "x \<notin> set (W j)" if "j \<in> buckets" "j \<noteq> k" for j
    using wheel_rep_sep [OF assms(1) that(1) assms(2) that(2)] assms(3) by auto
  ultimately show "x \<notin> nodes (W(k := xs))" by (auto simp: nodes_def split: if_splits)
  have "x \<in> nodes W" unfolding nodes_def using assms(2,3) by (intro UN_I [of k]) auto
  then show "x \<notin> bhead tw ` buckets" using assms(1) by (auto simp: wheel_rep_def)
qed

lemma reinsert_loop_spec:
  assumes k: "k = (1, off)" "off < 256"
  shows "wheel_rep tw l W \<Longrightarrow> length (W k) \<le> fuel \<Longrightarrow>
    \<forall>t \<in> set (W k). fg_ok s t \<and> time_ok s t \<and> unat (expires (timers s t)) + 16 < unat (now_us s) + 4096 \<Longrightarrow>
    \<exists>l' W' c. reinsert_loop fuel (world_handlers g) tw (hnext l (bhead tw k)) cnt (s\<lparr>links := l, tm_world := w\<rparr>) =
        Some (c, s\<lparr>links := l', tm_world := fold (fire g s) (filter (\<lambda>t. expires (timers s t) \<le> now_us s) (W k)) w\<rparr>) \<and>
      wheel_rep tw l' W' \<and> W' k = [] \<and>
      (\<forall>j. j \<noteq> k \<longrightarrow> set (W' j) = set (W j) \<union> {t \<in> set (W k). now_us s < expires (timers s t) \<and> j = (0, slot s t mod 256)})"
proof (induction "W k" arbitrary: W l w fuel cnt)
  case Nil
  have kb: "k \<in> buckets" using k by (simp add: buckets_def wheel_consts)
  show ?case using wheel_rep_nil [OF Nil.prems(1) kb Nil.hyps [symmetric]] Nil.prems(1) Nil.hyps
    by (intro exI [of _ l] exI [of _ W]) simp
next
  case (Cons x xs)
  have kb: "k \<in> buckets" using k by (simp add: buckets_def wheel_consts)
  note wk = Cons.hyps(2) [symmetric]
  obtain m where m: "fuel = Suc m" "length xs \<le> m" using Cons.prems(2) wk by (cases fuel) auto
  note hd = wheel_rep_hd [OF Cons.prems(1) kb wk]
  define l1 where "l1 = set_hprev x None (hlist_del x l)"
  define W1 where "W1 = W(k := xs)"
  have r1: "wheel_rep tw l1 W1" using wheel_rep_del [OF Cons.prems(1) kb, of x] wk by (simp add: l1_def W1_def)
  obtain f where f: "0 \<le> timer_fg_id (timers s x)" "fgs s (timer_fg_id (timers s x)) = Some f"
    "uint (fg_ids s f) = timer_fg_id (timers s x)"
    using Cons.prems(3) wk by (auto simp: fg_ok_def)
  have xs: "\<forall>t \<in> set xs. fg_ok s t \<and> time_ok s t \<and> unat (expires (timers s t)) + 16 < unat (now_us s) + 4096"
    using Cons.prems(3) wk by simp
  show ?case
  proof (cases "expires (timers s x) \<le> now_us s")
    case True
    have e: "reinsert_loop fuel (world_handlers g) tw (hnext l (bhead tw k)) cnt (s\<lparr>links := l, tm_world := w\<rparr>) =
      reinsert_loop m (world_handlers g) tw (hnext l1 (bhead tw k)) (cnt + 1) (s\<lparr>links := l1, tm_world := fire g s x w\<rparr>)"
      using hd f True hd(2) [THEN not_None_eq [THEN iffD1]]
      by (auto simp: m(1) timer_del_link_def timer_expired_def world_handlers_def l1_def fire_def Let_def)
    have "W1 k = xs" by (simp add: W1_def)
    then obtain l' W' c where "reinsert_loop m (world_handlers g) tw (hnext l1 (bhead tw k)) (cnt + 1) (s\<lparr>links := l1, tm_world := fire g s x w\<rparr>) =
        Some (c, s\<lparr>links := l', tm_world := fold (fire g s) (filter (\<lambda>t. expires (timers s t) \<le> now_us s) xs) (fire g s x w)\<rparr>)"
      "wheel_rep tw l' W'" "W' k = []"
      "\<forall>j. j \<noteq> k \<longrightarrow> set (W' j) = set (W1 j) \<union> {t \<in> set xs. now_us s < expires (timers s t) \<and> j = (0, slot s t mod 256)}"
      using Cons.hyps(1) [of W1 l1 m "cnt + 1" "fire g s x w"] r1 m(2) xs by auto
    then show ?thesis using True unfolding e wk
      by (intro exI [of _ l'] exI [of _ W'] exI [of _ c]) (auto simp: W1_def)
  next
    case False
    define j0 where "j0 = (0 :: nat, slot s x mod 256)"
    define l2 where "l2 = hlist_add_head (bhead tw j0) x l1"
    define W2 where "W2 = W1(j0 := x # W1 j0)"
    let ?s = "s\<lparr>links := l1, tm_world := w\<rparr>"
    have u: "unat (now_us s) < unat (expires (timers s x))" using False by (simp add: word_le_nat_alt)
    have xt: "unat (expires (timers s x)) < 2 ^ 63" "unat (expires (timers s x)) + 16 < unat (now_us s) + 4096"
      using Cons.prems(3) wk by (simp_all add: time_ok_def)
    then have "unat (expires (timers s x)) + 16 - unat (now_us s) < 4096" using u by linarith
    note xt = xt this
    have j0: "j0 = (0, (unat (expires (timers s x)) + 16) div 2 ^ (8 * 0 + 4) mod 256)" by (simp add: j0_def slot_def)
    have p: "time_ok ?s x" "unat (now_us ?s) \<le> unat (expires (timers ?s x)) + 16"
      "2 ^ (8 * 0 + 4) \<le> unat (expires (timers ?s x)) + 16 - unat (now_us ?s)"
      "unat (expires (timers ?s x)) + 16 - unat (now_us ?s) < 2 ^ (8 * 0 + 12)"
      "j0 = (0, (unat (expires (timers ?s x)) + 16) div 2 ^ (8 * 0 + 4) mod 256)"
      using u xt by (simp_all add: time_ok_def j0)
    have ins: "timer_insert (Some f) tw x ?s = Some (s\<lparr>links := l2, tm_world := w\<rparr>)" "j0 \<in> buckets"
      using timer_insert_place(1) [OF p(1-4) _ p(5), of f tw] timer_insert_place(2) [OF p(1-4) _ p(5)] f(3)
      by (simp_all add: l2_def fun_upd_idem)
    have e: "reinsert_loop fuel (world_handlers g) tw (hnext l (bhead tw k)) cnt (s\<lparr>links := l, tm_world := w\<rparr>) =
      reinsert_loop m (world_handlers g) tw (hnext l1 (bhead tw k)) (cnt + 1) (s\<lparr>links := l2, tm_world := w\<rparr>)"
    proof -
      have "timer_del_link x (s\<lparr>links := l, tm_world := w\<rparr>) = Some ?s"
        using hd(2) by (simp add: timer_del_link_def l1_def)
      then show ?thesis using hd(1,3) f False ins(1)
        by (simp add: m(1) timer_expired_def get_ethfg_from_id_def Let_def) (simp add: l1_def)
    qed
    have jk: "j0 \<noteq> k" by (simp add: j0_def k)
    have xn: "x \<notin> nodes W1" "x \<notin> bhead tw ` buckets"
      using wheel_rep_fresh [OF Cons.prems(1) kb wk] by (simp_all add: W1_def)
    have r2: "wheel_rep tw l2 W2" unfolding l2_def W2_def by (rule wheel_rep_add [OF r1 ins(2) xn])
    have hn: "hnext l2 (bhead tw k) = hnext l1 (bhead tw k)"
    proof -
      have "bhead tw k \<noteq> bhead tw j0" "bhead tw k \<noteq> x" using jk bhead_inj [OF kb ins(2)] xn(2) kb by blast+
      then show ?thesis unfolding l2_def by (auto simp: hlist_add_head_def Let_def split: option.splits)
    qed
    have "W2 k = xs" using jk by (simp add: W2_def W1_def)
    then obtain l' W' c where "reinsert_loop m (world_handlers g) tw (hnext l2 (bhead tw k)) (cnt + 1) (s\<lparr>links := l2, tm_world := w\<rparr>) =
        Some (c, s\<lparr>links := l', tm_world := fold (fire g s) (filter (\<lambda>t. expires (timers s t) \<le> now_us s) xs) w\<rparr>)"
      "wheel_rep tw l' W'" "W' k = []"
      "\<forall>j. j \<noteq> k \<longrightarrow> set (W' j) = set (W2 j) \<union> {t \<in> set xs. now_us s < expires (timers s t) \<and> j = (0, slot s t mod 256)}"
      using Cons.hyps(1) [of W2 l2 m "cnt + 1" w] r2 m(2) xs by auto
    then show ?thesis using False jk unfolding e wk hn [symmetric]
      by (intro exI [of _ l'] exI [of _ W'] exI [of _ c]) (auto simp: W1_def W2_def j0_def)
  qed
qed

section \<open>One slot\<close>

text \<open>The timers of \<open>W\<close> are those fired, each once, and those still in the wheel.\<close>

definition splits :: "(bucket \<Rightarrow> ptr list) \<Rightarrow> ptr list \<Rightarrow> (bucket \<Rightarrow> ptr list) \<Rightarrow> bool" where
  "splits W F W' \<longleftrightarrow> distinct F \<and> set F \<inter> nodes W' = {} \<and> set F \<union> nodes W' = nodes W"

lemma splits_trans: "splits W F W1 \<Longrightarrow> splits W1 G W2 \<Longrightarrow> splits W (F @ G) W2"
  unfolding splits_def by auto

lemma splits_refl: "splits W [] W"
  by (simp add: splits_def)

lemma wheel_rep_distinct: "wheel_rep tw l W \<Longrightarrow> k \<in> buckets \<Longrightarrow> distinct (W k)"
  using hl.rep_distinct by (fastforce simp: wheel_rep_def)

lemma finite_nodes: "finite (nodes W)"
  by (simp add: nodes_def buckets_def)

lemma bucket_le_nodes:
  assumes "wheel_rep tw l W" "k \<in> buckets" "card (nodes W) \<le> fuel"
  shows "length (W k) \<le> fuel"
proof -
  have "set (W k) \<subseteq> nodes W" using assms(2) by (auto simp: nodes_def)
  then have "card (set (W k)) \<le> card (nodes W)" by (rule card_mono [OF finite_nodes])
  then show ?thesis using distinct_card [OF wheel_rep_distinct [OF assms(1,2)]] assms(3) by simp
qed

lemma splits_card: "splits W F W' \<Longrightarrow> card (nodes W') \<le> card (nodes W)"
  by (rule card_mono [OF finite_nodes]) (auto simp: splits_def)

lemma splits_run:
  assumes "wheel_rep tw l W" "k \<in> buckets"
  shows "splits W (W k) (W(k := []))"
proof -
  have "nodes (W(k := [])) = (\<Union>j \<in> buckets - {k}. set (W j))" by (auto simp: nodes_def split: if_splits)
  moreover have "set (W k) \<inter> set (W j) = {}" if "j \<in> buckets" "j \<noteq> k" for j
    using wheel_rep_sep [OF assms(1) that(1) assms(2) that(2)] by auto
  moreover have "nodes W = set (W k) \<union> (\<Union>j \<in> buckets - {k}. set (W j))" using assms(2) by (auto simp: nodes_def)
  ultimately show ?thesis using wheel_rep_distinct [OF assms] unfolding splits_def by auto
qed

lemma wheel_inv_w1:
  assumes "wheel_inv s S W" "off < 256" "t \<in> set (W (1, off))"
  shows "slot s t div 256 mod 256 = off" "S \<le> 256 * (slot s t div 256)" "slot s t div 256 < (S + 255) div 256 + 256"
  using assms unfolding wheel_inv_def by blast+

lemma wheel_inv_run:
  assumes inv: "wheel_inv s S W" and c: "S mod 256 = 0 \<Longrightarrow> W (1, S div 256 mod 256) = []"
  shows "wheel_inv s (Suc S) (W((0, S mod 256) := []))" "t \<in> set (W (0, S mod 256)) \<Longrightarrow> slot s t = S"
proof -
  have w0: "\<And>off t. off < 256 \<Longrightarrow> t \<in> set (W (0, off)) \<Longrightarrow> slot s t mod 256 = off \<and> S \<le> slot s t \<and> slot s t < S + 256"
    and w1: "\<And>off t. off < 256 \<Longrightarrow> t \<in> set (W (1, off)) \<Longrightarrow> slot s t div 256 mod 256 = off \<and> S \<le> 256 * (slot s t div 256) \<and>
        slot s t div 256 < (S + 255) div 256 + 256"
    using inv by (simp_all add: wheel_inv_def)
  have eq: "a = S" if "a mod 256 = S mod 256" "S \<le> a" "a < S + 256" for a :: nat
  proof -
    have "(a - S) mod 256 = 0" using that(1,2) by (simp add: mod_eq_dvd_iff_nat)
    moreover have "a - S < 256" using that(2,3) by linarith
    ultimately show ?thesis using that(2) by simp
  qed
  show "t \<in> set (W (0, S mod 256)) \<Longrightarrow> slot s t = S" using w0 [of "S mod 256" t] eq by simp
  have "nodes (W((0, S mod 256) := [])) \<subseteq> nodes W" by (auto simp: nodes_def split: if_splits)
  moreover have "slot s t mod 256 = off \<and> Suc S \<le> slot s t \<and> slot s t < Suc S + 256"
    if "off < 256" "t \<in> set ((W((0, S mod 256) := [])) (0, off))" for off t
    using w0 [of off t] that by (auto split: if_splits simp: Suc_le_eq order.strict_iff_order)
  moreover have "slot s t div 256 mod 256 = off \<and> Suc S \<le> 256 * (slot s t div 256) \<and> slot s t div 256 < (Suc S + 255) div 256 + 256"
    if t: "off < 256" "t \<in> set ((W((0, S mod 256) := [])) (1, off))" for off t
  proof -
    have *: "slot s t div 256 mod 256 = off" "S \<le> 256 * (slot s t div 256)" "slot s t div 256 < (S + 255) div 256 + 256"
      using w1 [of off t] t by simp_all
    have "S \<noteq> 256 * (slot s t div 256)"
    proof
      assume e: "S = 256 * (slot s t div 256)"
      then have "S mod 256 = 0" "S div 256 = slot s t div 256" by simp_all
      then have "W (1, off) = []" using c *(1) by simp
      then show False using t by simp
    qed
    moreover have "(S + 255) div 256 \<le> (Suc S + 255) div 256" by (rule div_le_mono) simp
    ultimately show ?thesis using * by linarith
  qed
  ultimately show "wheel_inv s (Suc S) (W((0, S mod 256) := []))" using inv unfolding wheel_inv_def by auto
qed

lemma wheel_inv_bucket1:
  assumes "wheel_inv s S W" "S mod 256 = 0" "t \<in> set (W (1, S div 256 mod 256))"
  shows "S \<le> slot s t" "slot s t < S + 256"
proof -
  let ?q = "slot s t div 256" and ?C = "S div 256"
  have q: "?q mod 256 = ?C mod 256" "S \<le> 256 * ?q" "?q < (S + 255) div 256 + 256"
    using wheel_inv_w1 [OF assms(1) _ assms(3)] by simp_all
  have S: "S = 256 * ?C" using assms(2) by auto
  then have "?C \<le> ?q" using q(2) by linarith
  moreover have "(S + 255) div 256 = ?C" by (subst S) simp
  then have "?q < ?C + 256" using q(3) by simp
  moreover have "(?q - ?C) mod 256 = 0" using q(1) \<open>?C \<le> ?q\<close> by (simp add: mod_eq_dvd_iff_nat)
  ultimately have "?q = ?C" by simp
  then show "S \<le> slot s t" "slot s t < S + 256" using S by linarith+
qed


lemma slot_bounds: "16 * slot s t \<le> unat (expires (timers s t)) + 16" "unat (expires (timers s t)) < 16 * slot s t"
  by (simp_all add: slot_def)

lemma splits_collapse:
  assumes "wheel_rep tw l W" "k \<in> buckets" "F = filter (\<lambda>t. expires (timers s t) \<le> now_us s) (W k)" "W' k = []"
    "\<forall>j. j \<noteq> k \<longrightarrow> set (W' j) = set (W j) \<union> {t \<in> set (W k). now_us s < expires (timers s t) \<and> j = (0, slot s t mod 256)}"
    "fst k \<noteq> 0"
  shows "splits W F W'"
proof -
  let ?R = "{t \<in> set (W k). now_us s < expires (timers s t)}" and ?O = "\<Union>j \<in> buckets - {k}. set (W j)"
  have "nodes W' = (\<Union>j \<in> buckets - {k}. set (W' j))" using assms(4) by (force simp: nodes_def)
  also have "\<dots> = ?O \<union> ?R"
  proof -
    have "(0, slot s t mod 256) \<in> buckets - {k}" for t using assms(6) by (auto simp: buckets_def wheel_consts)
    then have "x \<in> (\<Union>j \<in> buckets - {k}. set (W' j))" if "x \<in> ?R" for x
      using that assms(5) by (intro UN_I [of "(0, slot s x mod 256)"]) auto
    moreover have "?O \<subseteq> (\<Union>j \<in> buckets - {k}. set (W' j))" "(\<Union>j \<in> buckets - {k}. set (W' j)) \<subseteq> ?O \<union> ?R"
      using assms(5) by auto
    ultimately show ?thesis by blast
  qed
  finally have n: "nodes W' = ?O \<union> ?R" .
  have d: "set (W k) \<inter> ?O = {}"
  proof -
    have "set (W k) \<inter> set (W j) = {}" if "j \<in> buckets" "j \<noteq> k" for j
      using wheel_rep_sep [OF assms(1) that(1) assms(2) that(2)] by auto
    then show ?thesis by auto
  qed
  have "nodes W = set (W k) \<union> ?O" using assms(2) by (auto simp: nodes_def)
  moreover have "set (W k) = set F \<union> ?R" unfolding assms(3) by (auto simp: not_le)
  moreover have "set F \<inter> ?R = {}" unfolding assms(3) by auto
  ultimately show ?thesis using d n wheel_rep_distinct [OF assms(1,2)] unfolding splits_def by (auto simp: assms(3))
qed

lemma wheel_inv_collapse:
  assumes inv: "wheel_inv s S W" "S mod 256 = 0" and k: "k = (1, S div 256 mod 256)" and e: "W' k = []"
    and st: "\<forall>j. j \<noteq> k \<longrightarrow> set (W' j) = set (W j) \<union> {t \<in> set (W k). now_us s < expires (timers s t) \<and> j = (0, slot s t mod 256)}"
    and sp: "splits W F W'"
  shows "wheel_inv s S W'"
proof -
  have "nodes W' \<subseteq> nodes W" using sp by (auto simp: splits_def)
  then have n: "\<forall>t \<in> nodes W'. fg_ok s t \<and> time_ok s t" using inv(1) by (auto simp: wheel_inv_def)
  have w0: "slot s t mod 256 = off \<and> S \<le> slot s t \<and> slot s t < S + 256" if t: "off < 256" "t \<in> set (W' (0, off))" for off t
  proof -
    have "t \<in> set (W (0, off)) \<or> t \<in> set (W k) \<and> off = slot s t mod 256" using st [rule_format, of "(0, off)"] t k by auto
    then show ?thesis using inv(1) t(1) wheel_inv_bucket1 [OF inv, of t] k unfolding wheel_inv_def by blast
  qed
  have w1: "slot s t div 256 mod 256 = off \<and> S \<le> 256 * (slot s t div 256) \<and> slot s t div 256 < (S + 255) div 256 + 256"
    if t: "off < 256" "t \<in> set (W' (1, off))" for off t
  proof -
    have "(1, off) \<noteq> k" using t e by auto
    then have "t \<in> set (W (1, off))" using st [rule_format, of "(1, off)"] t(2) by auto
    then show ?thesis using wheel_inv_w1 [OF inv(1) t(1)] by blast
  qed
  have "W' (2, off) = []" if "off < 256" for off
  proof -
    have "set (W' (2, off)) = set (W (2, off))" using st [rule_format, of "(2, off)"] k by auto
    then show ?thesis using inv(1) that by (simp add: wheel_inv_def)
  qed
  then show ?thesis using n w0 w1 unfolding wheel_inv_def by blast
qed

lemma collapse_spec:
  assumes inv: "wheel_inv s S W" "wheel_rep tw l W" and S: "S mod 256 = 0" "unat pos div 16 = S" "pos \<le> now_us s"
    and fuel: "card (nodes W) \<le> fuel"
  obtains l' W' c F where "timer_collapse fuel (world_handlers g) tw pos (s\<lparr>links := l, tm_world := w\<rparr>) =
      Some (c, s\<lparr>links := l', tm_world := fold (fire g s) F w\<rparr>)"
    "wheel_rep tw l' W'" "wheel_inv s S W'" "W' (1, S div 256 mod 256) = []" "splits W F W'"
    "\<forall>t \<in> set F. expires (timers s t) \<le> now_us s"
proof -
  let ?off = "S div 256 mod 256" let ?k = "(1 :: nat, S div 256 mod 256)"
  have kb: "?k \<in> buckets" by (simp add: buckets_def wheel_consts)
  have o1: "unat (WHEEL_OFFSET pos 1) = ?off" unfolding unat_WHEEL_OFFSET S(2) [symmetric] by (simp flip: div_mult2_eq)
  have p: "16 * S \<le> unat (now_us s)" using S(2,3) by (simp add: word_le_nat_alt)
  have b: "\<forall>t \<in> set (W ?k). fg_ok s t \<and> time_ok s t \<and> unat (expires (timers s t)) + 16 < unat (now_us s) + 4096"
  proof
    fix t assume t: "t \<in> set (W ?k)"
    have "t \<in> nodes W" unfolding nodes_def using kb t by (intro UN_I) auto
    then have "fg_ok s t" "time_ok s t" using inv(1) by (auto simp: wheel_inv_def)
    moreover have "unat (expires (timers s t)) + 16 < unat (now_us s) + 4096"
      using slot_bounds [of s t] wheel_inv_bucket1 [OF inv(1) S(1) t] p by linarith
    ultimately show "fg_ok s t \<and> time_ok s t \<and> unat (expires (timers s t)) + 16 < unat (now_us s) + 4096" by simp
  qed
  define F where "F = filter (\<lambda>t. expires (timers s t) \<le> now_us s) (W ?k)"
  obtain l' W' c where r: "reinsert_loop fuel (world_handlers g) tw (hnext l (bhead tw ?k)) 0 (s\<lparr>links := l, tm_world := w\<rparr>) =
        Some (c, s\<lparr>links := l', tm_world := fold (fire g s) F w\<rparr>)" "wheel_rep tw l' W'" "W' ?k = []"
      "\<forall>j. j \<noteq> ?k \<longrightarrow> set (W' j) = set (W j) \<union> {t \<in> set (W ?k). now_us s < expires (timers s t) \<and> j = (0, slot s t mod 256)}"
    using reinsert_loop_spec [OF refl _ inv(2) bucket_le_nodes [OF inv(2) kb fuel] b, of g 0 w] unfolding F_def by auto
  have sp: "splits W F W'" by (rule splits_collapse [OF inv(2) kb F_def r(3,4)]) simp
  have iv: "wheel_inv s S W'" by (rule wheel_inv_collapse [OF inv(1) S(1) refl r(3,4) sp])
  have w2: "W' (2, unat (WHEEL_OFFSET pos 2)) = []" "(2, unat (WHEEL_OFFSET pos 2)) \<in> buckets"
    using iv by (simp_all add: wheel_inv_def unat_WHEEL_OFFSET buckets_def wheel_consts)
  have "hnext l' (bhead tw (2, unat (WHEEL_OFFSET pos 2))) = None" by (rule wheel_rep_nil [OF r(2) w2(2,1)])
  moreover have "[1..<WHEEL_COUNT] = [1, 2]" by (simp add: WHEEL_COUNT_def upt_conv_Cons)
  ultimately have "\<exists>c. timer_collapse fuel (world_handlers g) tw pos (s\<lparr>links := l, tm_world := w\<rparr>) =
      Some (c, s\<lparr>links := l', tm_world := fold (fire g s) F w\<rparr>)"
    using r(1) o1 by (auto simp: timer_collapse_def timer_reinsert_bucket_def Let_def)
  then show ?thesis using that r(2,3) iv sp by (auto simp: F_def)
qed

section \<open>A pass over the wheel\<close>

lemma wheel_inv_slot:
  assumes "wheel_inv s S W" "t \<in> nodes W"
  shows "S \<le> slot s t"
proof -
  obtain i off where k: "i < 3" "off < 256" "t \<in> set (W (i, off))" using assms(2) by (auto simp: nodes_def buckets_def wheel_consts)
  then consider "i = 0" | "i = 1" | "i = 2" by linarith
  then show ?thesis
  proof cases
    case 1
    then show ?thesis using assms(1) k by (auto simp: wheel_inv_def)
  next
    case 2
    then have "S \<le> 256 * (slot s t div 256)" using wheel_inv_w1(2) [OF assms(1) k(2)] k(3) by simp
    also have "\<dots> \<le> slot s t" by simp
    finally show ?thesis .
  next
    case 3
    then show ?thesis using assms(1) k by (auto simp: wheel_inv_def)
  qed
qed

lemma slot_step:
  assumes inv: "wheel_inv s S W" "wheel_rep tw l W" and S: "unat pos div 16 = S" "pos \<le> now_us s" and fuel: "card (nodes W) \<le> fuel"
  obtains l' W' F where "(if WHEEL_OFFSET pos 0 = 0 then map_option snd (timer_collapse fuel (world_handlers g) tw pos (s\<lparr>links := l, tm_world := w\<rparr>))
        else Some (s\<lparr>links := l, tm_world := w\<rparr>)) \<bind>
      timer_run_bucket fuel (world_handlers g) (wheel_head tw 0 (unat (WHEEL_OFFSET pos 0))) =
      Some (s\<lparr>links := l', tm_world := fold (fire g s) F w\<rparr>)"
    "wheel_rep tw l' W'" "wheel_inv s (Suc S) W'" "splits W F W'" "\<forall>t \<in> set F. expires (timers s t) \<le> now_us s"
proof -
  let ?k = "(0 :: nat, S mod 256)"
  have kb: "?k \<in> buckets" by (simp add: buckets_def wheel_consts)
  have o: "unat (WHEEL_OFFSET pos 0) = S mod 256" unfolding unat_WHEEL_OFFSET using S(1) by simp
  have o0: "WHEEL_OFFSET pos 0 = 0 \<longleftrightarrow> S mod 256 = 0" unfolding o [symmetric] by (simp only: unat_eq_zero)
  obtain la Wa Fa where 1: "(if WHEEL_OFFSET pos 0 = 0 then map_option snd (timer_collapse fuel (world_handlers g) tw pos (s\<lparr>links := l, tm_world := w\<rparr>))
        else Some (s\<lparr>links := l, tm_world := w\<rparr>)) = Some (s\<lparr>links := la, tm_world := fold (fire g s) Fa w\<rparr>)"
    "wheel_rep tw la Wa" "wheel_inv s S Wa" "S mod 256 = 0 \<longrightarrow> Wa (1, S div 256 mod 256) = []" "splits W Fa Wa"
    "\<forall>t \<in> set Fa. expires (timers s t) \<le> now_us s"
  proof (cases "S mod 256 = 0")
    case True
    obtain l' W' c F where "timer_collapse fuel (world_handlers g) tw pos (s\<lparr>links := l, tm_world := w\<rparr>) =
        Some (c, s\<lparr>links := l', tm_world := fold (fire g s) F w\<rparr>)"
      "wheel_rep tw l' W'" "wheel_inv s S W'" "W' (1, S div 256 mod 256) = []" "splits W F W'"
      "\<forall>t \<in> set F. expires (timers s t) \<le> now_us s"
      by (rule collapse_spec [OF inv True S fuel])
    then show ?thesis using that [where la = l' and Fa = F and Wa = W'] True o0 by simp
  next
    case False
    then show ?thesis using that [where la = l and Fa = "[]" and Wa = W] inv o0 splits_refl by simp
  qed
  have c1: "card (nodes Wa) \<le> fuel" using splits_card [OF 1(5)] fuel by simp
  have fg: "\<forall>t \<in> set (Wa ?k). fg_ok s t"
  proof
    fix t assume "t \<in> set (Wa ?k)"
    then have "t \<in> nodes Wa" unfolding nodes_def using kb by (rule UN_I [rotated])
    then show "fg_ok s t" using 1(3) by (simp add: wheel_inv_def)
  qed
  obtain l' where l': "timer_run_bucket fuel (world_handlers g) (bhead tw ?k) (s\<lparr>links := la, tm_world := fold (fire g s) Fa w\<rparr>) =
        Some (s\<lparr>links := l', tm_world := fold (fire g s) (Wa ?k) (fold (fire g s) Fa w)\<rparr>)" "wheel_rep tw l' (Wa(?k := []))"
    using timer_run_bucket_spec [OF kb 1(2) fg bucket_le_nodes [OF 1(2) kb c1]] by blast
  have due: "expires (timers s t) \<le> now_us s" if "t \<in> set (Wa ?k)" for t
  proof -
    have "slot s t = S" using wheel_inv_run(2) [OF 1(3) _ that] 1(4) by blast
    then have "unat (expires (timers s t)) < 16 * S" using slot_bounds(2) [of s t] by simp
    also have "16 * S \<le> unat (now_us s)" using S by (auto simp: word_le_nat_alt)
    finally show ?thesis by (simp add: word_le_nat_alt)
  qed
  show ?thesis
  proof (rule that [where l' = l' and F = "Fa @ Wa ?k" and W' = "Wa(?k := [])"])
    show "wheel_inv s (Suc S) (Wa(?k := []))" using wheel_inv_run(1) [OF 1(3)] 1(4) by blast
    show "splits W (Fa @ Wa ?k) (Wa(?k := []))" by (rule splits_trans [OF 1(5) splits_run [OF 1(2) kb]])
  qed (use 1(1,6) l' due o in auto)
qed

lemma timer_run_loop_spec:
  "wheel_inv s (unat pos div 16) W \<Longrightarrow> wheel_rep tw l W \<Longrightarrow> card (nodes W) \<le> fuel \<Longrightarrow> unat (now_us s) < 2 ^ 62 \<Longrightarrow>
   unat pos \<le> unat (now_us s) + 16 \<Longrightarrow> unat (now_us s) + 16 < unat pos + 16 * Suc n \<Longrightarrow>
   \<exists>l' W' F pos'. timer_run_loop n fuel (world_handlers g) tw pos (s\<lparr>links := l, tm_world := w\<rparr>) =
       Some (pos', s\<lparr>links := l', tm_world := fold (fire g s) F w\<rparr>) \<and> wheel_rep tw l' W' \<and> wheel_inv s (unat pos' div 16) W' \<and>
     splits W F W' \<and> (\<forall>t \<in> set F. expires (timers s t) \<le> now_us s) \<and> now_us s < pos'"
proof (induction n arbitrary: pos W l w)
  case 0
  then have "\<not> pos \<le> now_us s" by (simp add: word_le_nat_alt)
  then show ?case using 0 splits_refl
    by (intro exI [of _ l] exI [of _ W] exI [of _ "[]"] exI [of _ pos]) (simp add: timer_run_loop.simps)
next
  case (Suc n)
  show ?case
  proof (cases "pos \<le> now_us s")
    case False
    then show ?thesis using Suc.prems splits_refl
      by (intro exI [of _ l] exI [of _ W] exI [of _ "[]"] exI [of _ pos]) (simp add: timer_run_loop.simps)
  next
    case True
    obtain l1 W1 F1 where 1: "(if WHEEL_OFFSET pos 0 = 0 then map_option snd (timer_collapse fuel (world_handlers g) tw pos (s\<lparr>links := l, tm_world := w\<rparr>))
          else Some (s\<lparr>links := l, tm_world := w\<rparr>)) \<bind>
        timer_run_bucket fuel (world_handlers g) (wheel_head tw 0 (unat (WHEEL_OFFSET pos 0))) =
        Some (s\<lparr>links := l1, tm_world := fold (fire g s) F1 w\<rparr>)"
      "wheel_rep tw l1 W1" "wheel_inv s (Suc (unat pos div 16)) W1" "splits W F1 W1" "\<forall>t \<in> set F1. expires (timers s t) \<le> now_us s"
      by (rule slot_step [OF Suc.prems(1,2) refl True Suc.prems(3)])
    have p: "unat (pos + MIN_DELAY_US) = unat pos + 16"
      using Suc.prems(4,5) unat_add_lem [of pos 16] by (simp add: wheel_consts)
    have e: "timer_run_loop (Suc n) fuel (world_handlers g) tw pos (s\<lparr>links := l, tm_world := w\<rparr>) =
      timer_run_loop n fuel (world_handlers g) tw (pos + MIN_DELAY_US) (s\<lparr>links := l1, tm_world := fold (fire g s) F1 w\<rparr>)"
      using True 1(1) by (subst timer_run_loop.simps) (simp add: bind_eq_Some_conv Let_def, auto)
    have "\<exists>l' W' F pos'. timer_run_loop n fuel (world_handlers g) tw (pos + MIN_DELAY_US) (s\<lparr>links := l1, tm_world := fold (fire g s) F1 w\<rparr>) =
        Some (pos', s\<lparr>links := l', tm_world := fold (fire g s) F (fold (fire g s) F1 w)\<rparr>) \<and> wheel_rep tw l' W' \<and> wheel_inv s (unat pos' div 16) W' \<and>
      splits W1 F W' \<and> (\<forall>t \<in> set F. expires (timers s t) \<le> now_us s) \<and> now_us s < pos'"
    proof (rule Suc.IH)
      show "card (nodes W1) \<le> fuel" using splits_card [OF 1(4)] Suc.prems(3) by simp
      show "unat (pos + MIN_DELAY_US) \<le> unat (now_us s) + 16" using True p by (simp add: word_le_nat_alt)
      show "wheel_inv s (unat (pos + MIN_DELAY_US) div 16) W1" using 1(3) p by simp
      show "unat (now_us s) + 16 < unat (pos + MIN_DELAY_US) + 16 * Suc n" using Suc.prems(6) p by simp
    qed (use 1 Suc.prems in auto)
    then obtain l' W' F pos' where "timer_run_loop n fuel (world_handlers g) tw (pos + MIN_DELAY_US) (s\<lparr>links := l1, tm_world := fold (fire g s) F1 w\<rparr>) =
        Some (pos', s\<lparr>links := l', tm_world := fold (fire g s) F (fold (fire g s) F1 w)\<rparr>)" "wheel_rep tw l' W'" "wheel_inv s (unat pos' div 16) W'"
      "splits W1 F W'" "\<forall>t \<in> set F. expires (timers s t) \<le> now_us s" "now_us s < pos'" by blast
    then show ?thesis using splits_trans [OF 1(4)] 1(5) unfolding e
      by (intro exI [of _ l'] exI [of _ W'] exI [of _ "F1 @ F"] exI [of _ pos']) auto
  qed
qed

section \<open>Properties\<close>

lemma timer_inv_cong:
  assumes "timers s' = timers s" "fgs s' = fgs s" "fg_ids s' = fg_ids s"
  shows "wheel_inv s' = wheel_inv s" "fire g s' = fire g s"
  using assms by (simp_all add: wheel_inv_def fun_eq_iff fg_ok_def time_ok_def slot_def fire_def)

text \<open>
  C7. A pass of \<open>timer_run\<close> over a well-formed wheel ends, fires only timers that are due, fires each
  of them exactly once, and leaves in the wheel only timers that are less than 32 microseconds
  overdue: \<open>F\<close> are the timers fired, in this order, and the wheel is again well formed.  Handlers
  here are those that do not touch the wheel, and no timer is more than a second away.
\<close>

theorem timer_run_exact:
  assumes "wheel_rep tw (links s) W" "wheel_inv s (unat (timer_pos s) div 16) W" "card (nodes W) \<le> fuel"
    "unat tsc_us < 2 ^ 62" "unat (timer_pos s) \<le> unat tsc_us + 16" "unat tsc_us + 16 < unat (timer_pos s) + 16 * Suc n"
  shows "\<exists>s' W' F. timer_run n fuel (world_handlers g) tw tsc_us s = Some s' \<and> wheel_rep tw (links s') W' \<and>
    wheel_inv s' (unat (timer_pos s') div 16) W' \<and> splits W F W' \<and> tm_world s' = fold (fire g s) F (tm_world s) \<and>
    (\<forall>t \<in> set F. expires (timers s t) \<le> tsc_us) \<and>
    (\<forall>t \<in> nodes W'. unat tsc_us < unat (expires (timers s t)) + 32)"
proof -
  define s1 where "s1 = s\<lparr>now_us := tsc_us\<rparr>"
  have s1: "s1 = s1\<lparr>links := links s, tm_world := tm_world s\<rparr>" "now_us s1 = tsc_us" by (simp_all add: s1_def)
  have inv: "wheel_inv s1 (unat (timer_pos s) div 16) W" using assms(2) timer_inv_cong(1) [of s1 s] by (simp add: s1_def)
  obtain l' W' F pos' where r: "timer_run_loop n fuel (world_handlers g) tw (timer_pos s) s1 =
       Some (pos', s1\<lparr>links := l', tm_world := fold (fire g s1) F (tm_world s)\<rparr>)" "wheel_rep tw l' W'"
     "wheel_inv s1 (unat pos' div 16) W'" "splits W F W'" "\<forall>t \<in> set F. expires (timers s1 t) \<le> tsc_us" "tsc_us < pos'"
    using timer_run_loop_spec [OF inv assms(1,3), of n g "tm_world s"] assms(4-6) unfolding s1(1) [symmetric] s1(2) by auto
  define s' where "s' = s1\<lparr>links := l', tm_world := fold (fire g s1) F (tm_world s), timer_pos := pos'\<rparr>"
  have run: "timer_run n fuel (world_handlers g) tw tsc_us s = Some s'"
    using r(1) by (simp add: timer_run_def Let_def s'_def s1_def [symmetric])
  have inv': "wheel_inv s' (unat (timer_pos s') div 16) W'" using r(3) timer_inv_cong(1) [of s' s1] by (simp add: s'_def)
  have f: "fire g s1 = fire g s" by (rule timer_inv_cong(2)) (simp_all add: s1_def)
  have late: "unat tsc_us < unat (expires (timers s t)) + 32" if t: "t \<in> nodes W'" for t
  proof -
    have "unat pos' div 16 \<le> slot s1 t" by (rule wheel_inv_slot [OF r(3) t])
    moreover have "unat tsc_us < unat pos'" using r(6) by (simp add: word_less_nat_alt)
    ultimately show ?thesis using slot_bounds(1) [of s1 t] by (simp add: s1_def)
  qed
  show ?thesis using run r(2,4,5) inv' f late by (intro exI [of _ s'] exI [of _ W'] exI [of _ F]) (simp add: s'_def s1_def)
qed


lemma wheel_rep_empty: "wheel_rep tw \<lparr>hnext = \<lambda>_. None, hprev = \<lambda>_. None\<rparr> (\<lambda>_. [])"
  by (simp add: wheel_rep_def hlist_rep_def nodes_def)

definition timer_ex :: "u64 \<Rightarrow> ptr list timer_state" where
  "timer_ex e = \<lparr>now_us = 19, timer_pos = 32, links = hlist_add_head (wheel_head 1000 0 3) 5 \<lparr>hnext = \<lambda>_. None, hprev = \<lambda>_. None\<rparr>,
     timers = \<lambda>_. \<lparr>handler = 0, expires = e, timer_fg_id = 0\<rparr>, fgs = (\<lambda>_. None)(0 := Some 7), fg_ids = \<lambda>_. 0, tm_world = []\<rparr>"

definition wheel_ex :: "bucket \<Rightarrow> ptr list" where
  "wheel_ex = (\<lambda>_. [])((0, 3) := [5])"

lemma wheel_ex_rep: "wheel_rep 1000 (links (timer_ex e)) wheel_ex"
proof -
  have "5 \<notin> bhead 1000 ` buckets" by (auto simp: wheel_head_def)
  then show ?thesis using wheel_rep_add [OF wheel_rep_empty, of "(0, 3)" 5 1000]
    by (simp add: timer_ex_def wheel_ex_def buckets_def WHEEL_SIZE_def WHEEL_COUNT_def nodes_def)
qed

lemma wheel_ex_nodes: "nodes wheel_ex = {5}"
proof
  show "nodes wheel_ex \<subseteq> {5}" by (auto simp: nodes_def wheel_ex_def split: if_splits)
  have "(0, 3) \<in> buckets" by (simp add: buckets_def wheel_consts)
  then show "{5} \<subseteq> nodes wheel_ex" unfolding nodes_def by (force simp: wheel_ex_def)
qed

lemma wheel_ex_inv: "wheel_inv (timer_ex 40) 2 wheel_ex"
  by (auto simp: wheel_inv_def wheel_ex_nodes fg_ok_def time_ok_def slot_def timer_ex_def wheel_ex_def split: if_splits)

theorem timer_run_exact_witness:
  "\<exists>s' W' F. timer_run 10 5 (world_handlers (\<lambda>_ t _ w. w @ [t])) 1000 100 (timer_ex 40) = Some s' \<and> wheel_rep 1000 (links s') W' \<and>
    wheel_inv s' (unat (timer_pos s') div 16) W' \<and> splits wheel_ex F W' \<and>
    tm_world s' = fold (fire (\<lambda>_ t _ w. w @ [t]) (timer_ex 40)) F (tm_world (timer_ex 40)) \<and>
    (\<forall>t \<in> set F. expires (timers (timer_ex 40) t) \<le> 100) \<and>
    (\<forall>t \<in> nodes W'. unat (100 :: u64) < unat (expires (timers (timer_ex 40) t)) + 32)"
proof (rule timer_run_exact [OF wheel_ex_rep])
  have p: "timer_pos (timer_ex 40) = 32" by (simp add: timer_ex_def)
  show "wheel_inv (timer_ex 40) (unat (timer_pos (timer_ex 40)) div 16) wheel_ex" unfolding p using wheel_ex_inv by simp
  show "card (nodes wheel_ex) \<le> 5" by (simp add: wheel_ex_nodes)
  show "unat (timer_pos (timer_ex 40)) \<le> unat (100 :: u64) + 16"
    "unat (100 :: u64) + 16 < unat (timer_pos (timer_ex 40)) + 16 * Suc 10" unfolding p by simp_all
qed simp

text \<open>What arming a timer needs: its delay is within a second and its slot within the laps of the wheels.\<close>

definition arm_ok :: "'w timer_state \<Rightarrow> nat \<Rightarrow> bool" where
  "arm_ok s e \<longleftrightarrow> unat (now_us s) < unat (timer_pos s) \<and> unat (timer_pos s) \<le> unat (now_us s) + 16 \<and> unat (now_us s) < e \<and>
     e < 2 ^ 62 \<and> e + 16 < unat (now_us s) + 2 ^ 20 \<and> (e + 16) div 16 < unat (timer_pos s) div 16 + 65536 \<and>
     (e + 16 < unat (now_us s) + 4096 \<longrightarrow> (e + 16) div 16 < unat (timer_pos s) div 16 + 256)"

lemma arm_bucket1:
  fixes e n p :: nat
  assumes "n < p" "p \<le> n + 16" "n + 4096 \<le> e + 16" "(e + 16) div 16 < p div 16 + 65536"
  shows "p div 16 \<le> 256 * ((e + 16) div 16 div 256)" "(e + 16) div 16 div 256 < (p div 16 + 255) div 256 + 256"
proof -
  let ?T = "(e + 16) div 16 div 256"
  have T: "?T = (e + 16) div 4096" by (simp flip: div_mult2_eq)
  have "e + 16 < 4096 * ?T + 4096" unfolding T using mod_less_divisor [of 4096 "e + 16"] mult_div_mod_eq [of 4096 "e + 16"] by linarith
  then have "n < 16 * (256 * ?T)" using assms(3) by linarith
  then have "n div 16 < 256 * ?T" by (simp add: less_mult_imp_div_less mult.commute)
  moreover have "p div 16 \<le> n div 16 + 1" using assms(2) div_le_mono [of p "n + 16" 16] by simp
  ultimately show "p div 16 \<le> 256 * ?T" by linarith
  have "(e + 16) div 16 \<le> p div 16 + 65535" using assms(4) by linarith
  then have "?T \<le> (p div 16 + 65535) div 256" by (rule div_le_mono)
  also have "\<dots> = (p div 16 + 255 + 255 * 256) div 256" by simp
  also have "\<dots> = (p div 16 + 255) div 256 + 255" by (simp only: div_mult_self1 add.commute)
  finally show "?T < (p div 16 + 255) div 256 + 256" by linarith
qed


lemma wheel_inv_add:
  assumes inv: "wheel_inv s S W" and t: "t \<notin> nodes W" "fg_ok s' t" "time_ok s' t"
    and s': "\<forall>x. x \<noteq> t \<longrightarrow> timers s' x = timers s x" "fgs s' = fgs s" "fg_ids s' = fg_ids s"
    and k: "k \<in> buckets"
      "k = (0, slot s' t mod 256) \<and> S \<le> slot s' t \<and> slot s' t < S + 256 \<or>
       k = (1, slot s' t div 256 mod 256) \<and> S \<le> 256 * (slot s' t div 256) \<and> slot s' t div 256 < (S + 255) div 256 + 256"
  shows "wheel_inv s' S (W(k := t # W k))"
proof -
  have same: "fg_ok s' x = fg_ok s x" "time_ok s' x = time_ok s x" "slot s' x = slot s x" if "x \<in> nodes W" for x
  proof -
    have "x \<noteq> t" using t(1) that by auto
    then have "timers s' x = timers s x" using s'(1) by simp
    then show "fg_ok s' x = fg_ok s x" "time_ok s' x = time_ok s x" "slot s' x = slot s x"
      by (simp_all add: fg_ok_def time_ok_def slot_def s'(2,3))
  qed
  have n: "x \<in> nodes W" if "i < 3" "off < 256" "x \<in> set (W (i, off))" for x i off
    using that by (auto simp: nodes_def buckets_def wheel_consts intro!: bexI [of _ "(i, off)"])
  have "nodes (W(k := t # W k)) \<subseteq> insert t (nodes W)" by (auto simp: nodes_def split: if_splits)
  then have 0: "\<forall>x \<in> nodes (W(k := t # W k)). fg_ok s' x \<and> time_ok s' x"
    using t(2,3) same inv unfolding wheel_inv_def by blast
  have 1: "slot s' x mod 256 = off \<and> S \<le> slot s' x \<and> slot s' x < S + 256"
    if x: "off < 256" "x \<in> set ((W(k := t # W k)) (0, off))" for off x
  proof (cases "x \<in> set (W (0, off))")
    case True
    then show ?thesis using inv x(1) same(3) [OF n [OF _ x(1) True]] by (auto simp: wheel_inv_def)
  next
    case False
    then show ?thesis using x k(2) by (auto split: if_splits)
  qed
  have 2: "slot s' x div 256 mod 256 = off \<and> S \<le> 256 * (slot s' x div 256) \<and> slot s' x div 256 < (S + 255) div 256 + 256"
    if x: "off < 256" "x \<in> set ((W(k := t # W k)) (1, off))" for off x
  proof (cases "x \<in> set (W (1, off))")
    case True
    then show ?thesis using wheel_inv_w1 [OF inv x(1) True] same(3) [OF n [OF _ x(1) True]] by simp
  next
    case False
    then show ?thesis using x k(2) by (auto split: if_splits)
  qed
  have "(W(k := t # W k)) (2, off) = []" if "off < 256" for off using inv k(2) that by (auto simp: wheel_inv_def)
  then show ?thesis using 0 1 2 unfolding wheel_inv_def by blast
qed

text \<open>
  C18. Arming a timer: \<open>timer_add\<close> succeeds, puts the timer in one bucket of the wheel and keeps the
  wheel well formed, so the next passes fire it when it is due.  The condition \<open>arm_ok\<close> says that the
  wheel has just been run, that the delay is below one second and that the slot of the timer is less
  than one lap ahead of the slot that is run next.
\<close>

theorem timer_add_keeps:
  assumes "wheel_rep tw (links s) W" "wheel_inv s (unat (timer_pos s) div 16) W"
    "t \<notin> nodes W" "t \<notin> bhead tw ` buckets" "fgs s (uint (fg_ids s f)) = Some f"
    "0 < delay" "delay < MAX_DELAY_US" "arm_ok s (unat tsc_us + unat delay)"
  shows "\<exists>s' k. timer_add tw t (Some f) delay tsc_us s = Some (0, s') \<and> k \<in> buckets \<and>
    wheel_rep tw (links s') (W(k := t # W k)) \<and> wheel_inv s' (unat (timer_pos s') div 16) (W(k := t # W k)) \<and>
    unat (expires (timers s' t)) = unat tsc_us + unat delay"
proof -
  let ?e = "unat tsc_us + unat delay" and ?n = "unat (now_us s)" and ?S = "unat (timer_pos s) div 16"
  note a = assms(8) [unfolded arm_ok_def]
  have ue: "unat (tsc_us + delay) = ?e" using a unat_add_lem [of tsc_us delay] by simp
  define s1 where "s1 = set_expires t (tsc_us + delay) s"
  have s1: "unat (expires (timers s1 t)) = ?e" "now_us s1 = now_us s" "links s1 = links s" "timer_pos s1 = timer_pos s"
    "fg_ids s1 = fg_ids s" "fgs s1 = fgs s" using ue by (simp_all add: s1_def set_expires_def)
  have t1: "time_ok s1 t" using a by (simp add: time_ok_def s1)
  define i where "i = (if ?e + 16 < ?n + 4096 then 0 else 1 :: nat)"
  define k where "k = (i, (unat (expires (timers s1 t)) + 16) div 2 ^ (8 * i + 4) mod 256)"
  have le: "unat (now_us s1) \<le> unat (expires (timers s1 t)) + 16" using a by (simp add: s1)
  have d: "2 ^ (8 * i + 4) \<le> unat (expires (timers s1 t)) + 16 - unat (now_us s1)"
    "unat (expires (timers s1 t)) + 16 - unat (now_us s1) < 2 ^ (8 * i + 12)" "i < 3"
    using a by (auto simp: i_def s1)
  note ins = timer_insert_place(1) [OF t1 le d k_def, of f tw] timer_insert_place(2) [OF t1 le d k_def]
  define s' where "s' = s1\<lparr>links := hlist_add_head (bhead tw k) t (links s1),
      timers := (timers s1)(t := (timers s1 t)\<lparr>timer_fg_id := uint (fg_ids s1 f)\<rparr>)\<rparr>"
  have r: "timer_add tw t (Some f) delay tsc_us s = Some (0, s')"
    using assms(6,7) ins(1) by (simp add: word_gt_0 not_le timer_add_def timer_add_tw_def s1_def [symmetric] s'_def)
  have rep: "wheel_rep tw (links s') (W(k := t # W k))" using wheel_rep_add [OF assms(1) ins(2) assms(3,4)] by (simp add: s'_def s1)
  have sl: "slot s' t = (?e + 16) div 16" using s1(1) by (simp add: slot_def s'_def)
  have kk: "k = (0, slot s' t mod 256) \<and> ?S \<le> slot s' t \<and> slot s' t < ?S + 256 \<or>
       k = (1, slot s' t div 256 mod 256) \<and> ?S \<le> 256 * (slot s' t div 256) \<and> slot s' t div 256 < (?S + 255) div 256 + 256"
  proof (cases "?e + 16 < ?n + 4096")
    case True
    have "?S \<le> (?e + 16) div 16" using a by (intro div_le_mono) linarith
    then show ?thesis using True a sl by (simp add: k_def i_def s1(1))
  next
    case False
    have "k = (1, slot s' t div 256 mod 256)" using False unfolding sl k_def i_def s1(1) div_mult2_eq [symmetric] by simp
    moreover have "?n < unat (timer_pos s)" "unat (timer_pos s) \<le> ?n + 16" "(?e + 16) div 16 < ?S + 65536" using a by simp_all
    ultimately show ?thesis using arm_bucket1 [of ?n "unat (timer_pos s)" ?e] False sl by simp
  qed
  have "wheel_inv s' ?S (W(k := t # W k))"
    by (rule wheel_inv_add [OF assms(2,3) _ _ _ _ _ ins(2) kk])
      (use assms(5) t1 s1 in \<open>auto simp: s'_def s1_def fg_ok_def time_ok_def set_expires_def\<close>)
  then show ?thesis using r rep ins(2) s1 by (intro exI [of _ s'] exI [of _ k]) (simp add: s'_def)
qed

theorem timer_add_keeps_witness:
  "\<exists>s' k. timer_add 1000 6 (Some 7) 100 20 (timer_ex 40) = Some (0, s') \<and> k \<in> buckets \<and>
    wheel_rep 1000 (links s') (wheel_ex(k := 6 # wheel_ex k)) \<and>
    wheel_inv s' (unat (timer_pos s') div 16) (wheel_ex(k := 6 # wheel_ex k)) \<and>
    unat (expires (timers s' 6)) = unat (20 :: u64) + unat (100 :: u64)"
proof (rule timer_add_keeps [OF wheel_ex_rep])
  have p: "timer_pos (timer_ex 40) = 32" "now_us (timer_ex 40) = 19" by (simp_all add: timer_ex_def)
  show "wheel_inv (timer_ex 40) (unat (timer_pos (timer_ex 40)) div 16) wheel_ex" unfolding p using wheel_ex_inv by simp
  show "arm_ok (timer_ex 40) (unat (20 :: u64) + unat (100 :: u64))" by (simp add: arm_ok_def p)
  show "(6 :: ptr) \<notin> bhead 1000 ` buckets" by (auto simp: wheel_head_def)
qed (simp_all add: wheel_ex_nodes timer_ex_def MAX_DELAY_US_def)


text \<open>
  C19. The bucket index computed with a count of leading zeros is the wheel whose range holds the
  delay: wheel 0 below 4096 microseconds, wheel 1 below 2 to the 20, wheel 2 below 2 to the 28.
\<close>

theorem wheel_index_reference:
  assumes "16 \<le> delay_us" "delay_us < 268435456"
  shows "wheel_index delay_us = (if delay_us < 4096 then 0 else if delay_us < 1048576 then 1 else 2)"
proof -
  have u: "16 \<le> unat delay_us" "unat delay_us < 268435456" "delay_us < 4096 \<longleftrightarrow> unat delay_us < 4096"
    "delay_us < 1048576 \<longleftrightarrow> unat delay_us < 1048576"
    using assms by (simp_all add: word_le_nat_alt word_less_nat_alt)
  show ?thesis using u wheel_index_range [of 0 delay_us] wheel_index_range [of 1 delay_us] wheel_index_range [of 2 delay_us]
    by (auto simp: u(3,4))
qed

theorem wheel_index_reference_witness:
  "wheel_index 5000 = (if (5000 :: u64) < 4096 then 0 else if (5000 :: u64) < 1048576 then 1 else 2)"
  by (rule wheel_index_reference) simp_all

section \<open>Deviations\<close>

text \<open>
  The range check of \<open>timer_add\<close> admits delays for which the bucket lies outside the three wheels:
  the delay is rounded up by \<open>MIN_DELAY_US\<close> after the check.
\<close>

lemma timer_add_out_of_wheels:
  assumes "now_us s = tsc_us" "unat tsc_us < 2 ^ 62"
  shows "timer_add tw t fg (MAX_DELAY_US - 1) tsc_us s = None"
proof -
  have "expires (timers (set_expires t (tsc_us + (MAX_DELAY_US - 1)) s) t) + MIN_DELAY_US - now_us (set_expires t (tsc_us + (MAX_DELAY_US - 1)) s)
    = 268435471" by (simp add: set_expires_def assms(1) wheel_consts)
  moreover have "wheel_index 268435471 = 3" using wheel_index_range [of 3 268435471] by simp
  ultimately show ?thesis
    by (simp add: timer_add_def timer_add_tw_def timer_insert_def Let_def WHEEL_COUNT_def)
qed

text \<open>
  A timer that was armed without a flow group, as the ARP and the user-level timers are, is taken
  out of the wheel when it is due but its handler is not called.
\<close>

lemma timer_without_fg_dropped:
  assumes "hnext (links s) h = Some t" "hnext (links s) t = None" "hprev (links s) t = Some h" "timer_fg_id (timers s t) < 0"
  shows "\<exists>l. timer_run_bucket 1 H h s = Some (s\<lparr>links := l\<rparr>)"
  using assms by (simp add: timer_run_bucket_def timer_del_link_def Let_def) (rule exI, rule refl)

text \<open>
  A timer whose slot is exactly one lap ahead is put in the bucket that is run next: it fires about
  four milliseconds too early.  Here it is armed for 4098 and fires at 40.
\<close>

lemma timer_fires_early:
  assumes "s = (timer_ex 40)\<lparr>timer_pos := 31, links := \<lparr>hnext = \<lambda>_. None, hprev = \<lambda>_. None\<rparr>\<rparr>"
  shows "\<exists>s1 s2. timer_add 1000 6 (Some 7) 4079 19 s = Some (0, s1) \<and> expires (timers s1 6) = 4098 \<and>
    timer_run (Suc (Suc 0)) (Suc 0) (world_handlers (\<lambda>_ t _ w. w @ [t])) 1000 40 s1 = Some s2 \<and> tm_world s2 = [6]"
proof -
  have i: "wheel_index 4095 = 0" using wheel_index_range [of 0 4095] by simp
  have o: "WHEEL_OFFSET 4114 0 = 1" "WHEEL_OFFSET 31 0 = 1" by (simp_all add: WHEEL_OFFSET_def WHEEL_IDX_TO_SHIFT_def wheel_consts)
  define s1 where "s1 = s\<lparr>links := hlist_add_head (wheel_head 1000 0 1) 6 (links s),
    timers := (timers s)(6 := \<lparr>handler = 0, expires = 4098, timer_fg_id = 0\<rparr>)\<rparr>"
  have a: "timer_add 1000 6 (Some 7) 4079 19 s = Some (0, s1)"
    by (simp add: timer_add_def timer_add_tw_def timer_insert_def set_expires_def assms timer_ex_def MAX_DELAY_US_def
        MIN_DELAY_US_def Let_def i o WHEEL_COUNT_def s1_def)
  have "\<exists>s2. timer_run (Suc (Suc 0)) (Suc 0) (world_handlers (\<lambda>_ t _ w. w @ [t])) 1000 40 s1 = Some s2 \<and> tm_world s2 = [6]"
    by (simp add: timer_run_def timer_run_loop.simps o s1_def assms timer_ex_def timer_run_bucket_def hlist_add_head_def
        timer_del_link_def world_handlers_def wheel_head_def WHEEL_SIZE_def Let_def MIN_DELAY_US_def)
  then show ?thesis using a by (simp add: s1_def)
qed

end
