(* ===== verification/ByteOrder.thy ===== *)
theory ByteOrder
  imports Prelude
begin

text \<open>
  Bytes, words and network order (\<open>inc/ix/byteorder.h\<close>): the swaps, memory as lists of bytes, and the
  fields of a packet as slices of such a list.
\<close>

unbundle bit_operations_syntax

section \<open>Swapping bytes\<close>

definition bswap16 :: "u16 \<Rightarrow> u16" where
  "bswap16 val = push_bit 8 (val AND 0x00ff) OR drop_bit 8 (val AND 0xff00)"

definition bswap32 :: "u32 \<Rightarrow> u32" where
  "bswap32 val = push_bit 24 (val AND 0x000000ff) OR push_bit 8 (val AND 0x0000ff00) OR
     drop_bit 8 (val AND 0x00ff0000) OR drop_bit 24 (val AND 0xff000000)"

definition bswap64 :: "u64 \<Rightarrow> u64" where
  "bswap64 val =
     push_bit 56 (val AND 0x00000000000000ff) OR push_bit 40 (val AND 0x000000000000ff00) OR
     push_bit 24 (val AND 0x0000000000ff0000) OR push_bit 8 (val AND 0x00000000ff000000) OR
     drop_bit 8 (val AND 0x000000ff00000000) OR drop_bit 24 (val AND 0x0000ff0000000000) OR
     drop_bit 40 (val AND 0x00ff000000000000) OR drop_bit 56 (val AND 0xff00000000000000)"

text \<open>The targets are little endian: network order is the swapped order.\<close>

definition ntoh16 :: "u16 \<Rightarrow> u16" where "ntoh16 x = bswap16 x"
definition ntoh32 :: "u32 \<Rightarrow> u32" where "ntoh32 x = bswap32 x"
definition ntoh64 :: "u64 \<Rightarrow> u64" where "ntoh64 x = bswap64 x"
definition hton16 :: "u16 \<Rightarrow> u16" where "hton16 x = bswap16 x"
definition hton32 :: "u32 \<Rightarrow> u32" where "hton32 x = bswap32 x"
definition hton64 :: "u64 \<Rightarrow> u64" where "hton64 x = bswap64 x"

section \<open>Memory as bytes\<close>

text \<open>A load of a \<open>uintN_t\<close> reads the bytes with the least significant one first.\<close>

fun le_nat :: "u8 list \<Rightarrow> nat" where
  "le_nat [] = 0"
| "le_nat (b # bs) = unat b + 256 * le_nat bs"

primrec le_bytes :: "nat \<Rightarrow> nat \<Rightarrow> u8 list" where
  "le_bytes 0 n = []"
| "le_bytes (Suc k) n = of_nat n # le_bytes k (n div 256)"

text \<open>A field of a packet: \<open>n\<close> bytes at an offset, and the bytes \<open>v\<close> written there.\<close>

definition get :: "nat \<Rightarrow> nat \<Rightarrow> u8 list \<Rightarrow> u8 list" where "get off n bs = take n (drop off bs)"
definition put :: "nat \<Rightarrow> u8 list \<Rightarrow> u8 list \<Rightarrow> u8 list" where
  "put off v bs = take off bs @ v @ drop (off + length v) bs"

lemma length_le_bytes [simp]: "length (le_bytes k n) = k"
  by (induction k arbitrary: n) simp_all

lemma le_nat_le_bytes: "le_nat (le_bytes k n) = n mod 256 ^ k"
proof (induction k arbitrary: n)
  case (Suc k)
  have "unat (of_nat n :: u8) = n mod 256" by (simp add: unsigned_of_nat take_bit_eq_mod)
  then show ?case using Suc [of "n div 256"] by (simp add: mod_mult2_eq)
qed simp

lemma le_nat_less: "le_nat bs < 256 ^ length bs"
proof (induction bs)
  case (Cons b bs)
  have "unat b < 256" by simp
  then have "unat b + 256 * le_nat bs < 256 * 256 ^ length bs" using Cons by linarith
  then show ?case by simp
qed simp

lemma le_bytes_le_nat: "le_bytes (length bs) (le_nat bs) = bs"
proof (induction bs)
  case (Cons b bs)
  have "(unat b + 256 * le_nat bs) div 256 = le_nat bs" by simp
  moreover have "(of_nat (unat b + 256 * le_nat bs) :: u8) = b"
  proof -
    have "(256 :: u8) = 0" by simp
    then show ?thesis by (simp only: of_nat_add of_nat_mult of_nat_numeral) simp
  qed
  ultimately show ?case using Cons by simp
qed simp

lemma bit_byte_plus: "a < 256 \<Longrightarrow> bit (a + 256 * m) n \<longleftrightarrow> (if n < 8 then bit a n else bit m (n - 8))"
  for a m :: nat
proof -
  assume a: "a < 256"
  have l: "take_bit 8 (a + 256 * m) = a" using a by (simp add: take_bit_eq_mod)
  have h: "drop_bit 8 (a + 256 * m) = m" using a by (simp add: drop_bit_eq_div)
  show ?thesis
  proof (cases "n < 8")
    case True
    have "bit (take_bit 8 (a + 256 * m)) n = bit (a + 256 * m) n" using True by (simp add: bit_take_bit_iff)
    then show ?thesis using True l by simp
  next
    case False
    have "bit (drop_bit 8 (a + 256 * m)) (n - 8) = bit (a + 256 * m) n" using False by (simp add: bit_drop_bit_eq)
    then show ?thesis using False h by simp
  qed
qed

lemma bit_le_nat: "bit (le_nat bs) n \<longleftrightarrow> n div 8 < length bs \<and> bit (bs ! (n div 8)) (n mod 8)"
proof (induction bs arbitrary: n)
  case (Cons b bs)
  have b: "bit (unat b) n \<longleftrightarrow> bit b n" for n by (simp add: bit_unsigned_iff)
  show ?case
  proof (cases "n < 8")
    case False
    then obtain m where "n = m + 8" by (metis add.commute le_Suc_ex not_less)
    moreover have "(m + 8) div 8 = Suc (m div 8)" by simp
    ultimately show ?thesis using Cons [of m] by (simp add: bit_byte_plus)
  qed (simp add: bit_byte_plus b)
qed simp

lemma nth_le_bytes: "i < k \<Longrightarrow> j < 8 \<Longrightarrow> bit (le_bytes k n ! i) j \<longleftrightarrow> bit n (8 * i + j)"
proof (induction k arbitrary: n i)
  case (Suc k)
  show ?case
  proof (cases i)
    case 0
    then show ?thesis using Suc.prems by (simp add: bit_of_nat_iff)
  next
    case (Suc i')
    have "n div 256 = drop_bit 8 n" by (simp add: drop_bit_eq_div)
    then show ?thesis using Suc.IH [of i' "n div 256"] Suc.prems Suc by (simp add: bit_drop_bit_eq add.commute add.left_commute)
  qed
qed simp

lemma masks16: "(0x00ff :: u16) = mask 8" "(0xff00 :: u16) = push_bit 8 (mask 8)"
  by (simp_all add: mask_eq_exp_minus_1 push_bit_eq_mult)

lemma masks32: "(0x000000ff :: u32) = mask 8" "(0x0000ff00 :: u32) = push_bit 8 (mask 8)"
  "(0x00ff0000 :: u32) = push_bit 16 (mask 8)" "(0xff000000 :: u32) = push_bit 24 (mask 8)"
  by (simp_all add: mask_eq_exp_minus_1 push_bit_eq_mult)

lemma masks64: "(0x00000000000000ff :: u64) = mask 8" "(0x000000000000ff00 :: u64) = push_bit 8 (mask 8)"
  "(0x0000000000ff0000 :: u64) = push_bit 16 (mask 8)" "(0x00000000ff000000 :: u64) = push_bit 24 (mask 8)"
  "(0x000000ff00000000 :: u64) = push_bit 32 (mask 8)" "(0x0000ff0000000000 :: u64) = push_bit 40 (mask 8)"
  "(0x00ff000000000000 :: u64) = push_bit 48 (mask 8)" "(0xff00000000000000 :: u64) = push_bit 56 (mask 8)"
  by (simp_all add: mask_eq_exp_minus_1 push_bit_eq_mult)

lemma bit_bswap16: "bit (bswap16 x) n \<longleftrightarrow> n < 16 \<and> bit x (8 * (1 - n div 8) + n mod 8)"
proof (cases "n < 16")
  case True
  then consider "n < 8" | "8 \<le> n" "n < 16" by linarith
  then show ?thesis
  proof cases
    case 1
    then show ?thesis unfolding bswap16_def masks16 by (simp add: bit_simps)
  next
    case 2
    then obtain m where "n = m + 8" "m < 8" by (metis add.commute le_Suc_ex nat_add_left_cancel_less numeral_Bit0)
    then show ?thesis unfolding bswap16_def masks16 by (simp add: bit_simps)
  qed
qed (simp add: bit_word.rep_eq)

text \<open>The byte a bit of a word lies in.\<close>

lemma byte_cases:
  fixes n k :: nat
  assumes "n < 8 * k"
  obtains i j where "n = 8 * i + j" "i < k" "j < 8"
proof (rule that [of "n div 8" "n mod 8"])
  show "n div 8 < k" using assms by (simp add: div_less_iff_less_mult mult.commute)
qed simp_all

lemma bit_bswap32: "bit (bswap32 x) n \<longleftrightarrow> n < 32 \<and> bit x (8 * (3 - n div 8) + n mod 8)"
proof (cases "n < 8 * 4")
  case True
  then obtain i j where n: "n = 8 * i + j" "i < 4" "j < 8" by (rule byte_cases)
  then have d: "n div 8 = i" "n mod 8 = j" by simp_all
  from n(2) consider "i = 0" | "i = 1" | "i = 2" | "i = 3" by linarith
  then show ?thesis using n(3) unfolding d unfolding n(1) bswap32_def masks32
    by cases (simp_all add: bit_simps add.commute)
qed (simp add: bit_word.rep_eq)

lemma bit_bswap64: "bit (bswap64 x) n \<longleftrightarrow> n < 64 \<and> bit x (8 * (7 - n div 8) + n mod 8)"
proof (cases "n < 8 * 8")
  case True
  then obtain i j where n: "n = 8 * i + j" "i < 8" "j < 8" by (rule byte_cases)
  then have d: "n div 8 = i" "n mod 8 = j" by simp_all
  from n(2) consider "i = 0" | "i = 1" | "i = 2" | "i = 3" | "i = 4" | "i = 5" | "i = 6" | "i = 7" by linarith
  then show ?thesis using n(3) unfolding d unfolding n(1) bswap64_def masks64
    by cases (simp_all add: bit_simps add.commute)
qed (simp add: bit_word.rep_eq)

lemma bswap16_invol [simp]: "bswap16 (bswap16 x) = x"
proof (rule bit_word_eqI)
  fix n assume "n < LENGTH(16)"
  then have "n < 8 * 2" by simp
  then obtain i j where n: "n = 8 * i + j" "i < 2" "j < 8" by (rule byte_cases)
  moreover have "8 * (1 - i) + j < 16" using n by linarith
  ultimately show "bit (bswap16 (bswap16 x)) n = bit x n" by (simp add: bit_bswap16)
qed

lemma bswap32_invol [simp]: "bswap32 (bswap32 x) = x"
proof (rule bit_word_eqI)
  fix n assume "n < LENGTH(32)"
  then have "n < 8 * 4" by simp
  then obtain i j where n: "n = 8 * i + j" "i < 4" "j < 8" by (rule byte_cases)
  moreover have "8 * (3 - i) + j < 32" using n by linarith
  ultimately show "bit (bswap32 (bswap32 x)) n = bit x n" by (simp add: bit_bswap32)
qed

lemma bswap64_invol [simp]: "bswap64 (bswap64 x) = x"
proof (rule bit_word_eqI)
  fix n assume "n < LENGTH(64)"
  then have "n < 8 * 8" by simp
  then obtain i j where n: "n = 8 * i + j" "i < 8" "j < 8" by (rule byte_cases)
  moreover have "8 * (7 - i) + j < 64" using n by linarith
  ultimately show "bit (bswap64 (bswap64 x)) n = bit x n" by (simp add: bit_bswap64)
qed

text \<open>A swapped word lies in memory with its bytes reversed.\<close>

lemma bswap16_bytes: "unat (bswap16 x) = le_nat (rev (le_bytes 2 (unat x)))"
proof (rule bit_eqI)
  fix n
  show "bit (unat (bswap16 x)) n = bit (le_nat (rev (le_bytes 2 (unat x)))) n"
  proof (cases "n < 8 * 2")
    case True
    then obtain i j where "n = 8 * i + j" "i < 2" "j < 8" by (rule byte_cases)
    then show ?thesis by (simp add: bit_le_nat bit_unsigned_iff bit_bswap16 rev_nth nth_le_bytes)
  qed (simp add: bit_le_nat bit_unsigned_iff bit_bswap16 div_less_iff_less_mult)
qed

lemma bswap32_bytes: "unat (bswap32 x) = le_nat (rev (le_bytes 4 (unat x)))"
proof (rule bit_eqI)
  fix n
  show "bit (unat (bswap32 x)) n = bit (le_nat (rev (le_bytes 4 (unat x)))) n"
  proof (cases "n < 8 * 4")
    case True
    then obtain i j where "n = 8 * i + j" "i < 4" "j < 8" by (rule byte_cases)
    then show ?thesis by (simp add: bit_le_nat bit_unsigned_iff bit_bswap32 rev_nth nth_le_bytes)
  qed (simp add: bit_le_nat bit_unsigned_iff bit_bswap32 div_less_iff_less_mult)
qed


section \<open>Words cut into pieces\<close>

lemma unat_take_bit: "unat (take_bit k x) = unat x mod 2 ^ k" for x :: "'a::len word"
  unfolding unsigned_take_bit_eq by (rule take_bit_eq_mod)

lemma unat_drop_bit: "unat (drop_bit k x) = unat x div 2 ^ k" for x :: "'a::len word"
  unfolding unat_drop_bit_eq by (rule drop_bit_eq_div)

lemma unat_of_nat_mod: "unat (of_nat n :: 'a::len word) = n mod 2 ^ LENGTH('a)"
  unfolding unsigned_of_nat of_nat_id by (rule take_bit_eq_mod)

lemma unat_of_nat_small: "n < 2 ^ LENGTH('a) \<Longrightarrow> unat (of_nat n :: 'a::len word) = n"
  unfolding unat_of_nat_mod by simp

lemma unat_ucast_mod: "unat (ucast x :: 'b::len word) = unat x mod 2 ^ LENGTH('b)"
  unfolding unsigned_ucast_eq by (rule take_bit_eq_mod)

lemma unat_ucast_up: "LENGTH('a::len) \<le> LENGTH('b::len) \<Longrightarrow> unat (ucast (x :: 'a word) :: 'b word) = unat x"
proof -
  assume "LENGTH('a) \<le> LENGTH('b)"
  then have "(2 :: nat) ^ LENGTH('a) \<le> 2 ^ LENGTH('b)" by (rule power_increasing) simp
  with unsigned_less [of x, where ?'a = nat] have "unat x < 2 ^ LENGTH('b)" by (rule less_le_trans)
  then show ?thesis unfolding unat_ucast_mod by (rule mod_less)
qed

lemma and_ffff: "x AND 0xffff = take_bit 16 x" for x :: "'a::len word"
proof -
  have "(0xffff :: 'a word) = mask 16" by (simp add: mask_eq_exp_minus_1)
  then show ?thesis by (simp only: take_bit_eq_mask)
qed

section \<open>Fields\<close>

definition load16 :: "nat \<Rightarrow> u8 list \<Rightarrow> u16" where "load16 off bs = of_nat (le_nat (get off 2 bs))"
definition load32 :: "nat \<Rightarrow> u8 list \<Rightarrow> u32" where "load32 off bs = of_nat (le_nat (get off 4 bs))"
definition store16 :: "nat \<Rightarrow> u16 \<Rightarrow> u8 list \<Rightarrow> u8 list" where "store16 off v bs = put off (le_bytes 2 (unat v)) bs"
definition store32 :: "nat \<Rightarrow> u32 \<Rightarrow> u8 list \<Rightarrow> u8 list" where "store32 off v bs = put off (le_bytes 4 (unat v)) bs"

lemma length_put: "off + length v \<le> length bs \<Longrightarrow> length (put off v bs) = length bs"
  by (simp add: put_def)

lemma get_put_same: "off + length v \<le> length bs \<Longrightarrow> n = length v \<Longrightarrow> get off n (put off v bs) = v"
  by (simp add: get_def put_def)

lemma get_put_other:
  assumes "off + n \<le> off' \<or> off' + length v \<le> off" "off' + length v \<le> length bs"
  shows "get off n (put off' v bs) = get off n bs"
proof (rule nth_equalityI)
  show "length (get off n (put off' v bs)) = length (get off n bs)"
    using assms by (simp add: get_def length_put)
  fix i assume "i < length (get off n (put off' v bs))"
  then show "get off n (put off' v bs) ! i = get off n bs ! i"
    using assms by (auto simp: get_def put_def nth_append)
qed

lemma length_store16: "off + 2 \<le> length bs \<Longrightarrow> length (store16 off v bs) = length bs"
  by (simp add: store16_def length_put)

lemma length_store32: "off + 4 \<le> length bs \<Longrightarrow> length (store32 off v bs) = length bs"
  by (simp add: store32_def length_put)

lemma get_store16_other:
  "off + n \<le> off' \<or> off' + 2 \<le> off \<Longrightarrow> off' + 2 \<le> length bs \<Longrightarrow> get off n (store16 off' v bs) = get off n bs"
  by (simp add: store16_def get_put_other)

lemma get_store32_other:
  "off + n \<le> off' \<or> off' + 4 \<le> off \<Longrightarrow> off' + 4 \<le> length bs \<Longrightarrow> get off n (store32 off' v bs) = get off n bs"
  by (simp add: store32_def get_put_other)

lemma load16_store16: "off + 2 \<le> length bs \<Longrightarrow> load16 off (store16 off v bs) = v"
  unfolding load16_def store16_def by (simp add: get_put_same le_nat_le_bytes)

lemma load32_store32: "off + 4 \<le> length bs \<Longrightarrow> load32 off (store32 off v bs) = v"
  unfolding load32_def store32_def by (simp add: get_put_same le_nat_le_bytes)

lemma load16_cong: "get off 2 bs = get off 2 bs' \<Longrightarrow> load16 off bs = load16 off bs'" by (simp add: load16_def)
lemma load32_cong: "get off 4 bs = get off 4 bs' \<Longrightarrow> load32 off bs = load32 off bs'" by (simp add: load32_def)

lemmas field_simps_net = length_put get_put_same get_put_other length_store16 length_store32
  get_store16_other get_store32_other load16_store16 load32_store32

end
