(* ===== verification/Checksum.thy ===== *)
theory Checksum
  imports ByteOrder
begin

text \<open>
  The Internet checksum: \<open>chksum_internet\<close> of \<open>inc/arch/chksum.h\<close> in its portable and its x86 form, and the
  routines of \<open>lwip/inet_chksum.c\<close>.  The reference is the sum of the 16-bit words of a buffer reduced to 16
  bits with end-around carry (\<open>fold16\<close> of \<open>wsum\<close>).
\<close>

unbundle bit_operations_syntax

section \<open>One's complement sums\<close>

text \<open>\<open>wsum\<close> adds a buffer up as 16-bit words in memory order, the last byte alone if the length is odd.
  \<open>fold16\<close> is the one's complement reduction of such a sum to 16 bits: a representative of the sum modulo
  65535 that is zero only for a zero sum.\<close>

fun wsum :: "u8 list \<Rightarrow> nat" where
  "wsum [] = 0"
| "wsum [a] = unat a"
| "wsum (a # b # bs) = unat a + 256 * unat b + wsum bs"

definition fold_oc :: "nat \<Rightarrow> nat \<Rightarrow> nat" where
  "fold_oc M n = (if n = 0 then 0 else Suc ((n - 1) mod M))"

abbreviation fold16 :: "nat \<Rightarrow> nat" where "fold16 n \<equiv> fold_oc 65535 n"

lemma fold_oc_le: "0 < M \<Longrightarrow> fold_oc M n \<le> M"
  by (simp add: fold_oc_def Suc_leI)

lemma fold_oc_0 [simp]: "fold_oc M n = 0 \<longleftrightarrow> n = 0"
  by (simp add: fold_oc_def)

lemma fold_oc_mod: "0 < M \<Longrightarrow> fold_oc M n mod M = n mod M"
  unfolding fold_oc_def by (cases n) (simp_all add: mod_Suc_eq)

lemma fold_oc_unique: "x \<le> M \<Longrightarrow> (x = 0 \<longleftrightarrow> n = 0) \<Longrightarrow> x mod M = n mod M \<Longrightarrow> x = fold_oc M n"
proof (cases "n = 0")
  case False
  assume x: "x \<le> M" "x = 0 \<longleftrightarrow> n = 0" "x mod M = n mod M"
  then have "0 < M" "x \<noteq> 0" using False by auto
  have "fold_oc M n \<le> M" "fold_oc M n \<noteq> 0" "fold_oc M n mod M = x mod M"
    using fold_oc_le [of M n] fold_oc_mod [of M n] \<open>0 < M\<close> x False by auto
  then show "x = fold_oc M n" using x(1) \<open>x \<noteq> 0\<close>
    by (metis le_neq_implies_less mod_less mod_self)
qed (simp add: fold_oc_def)

lemma fold_oc_eqI: "0 < M \<Longrightarrow> (a = 0 \<longleftrightarrow> b = 0) \<Longrightarrow> a mod M = b mod M \<Longrightarrow> fold_oc M a = fold_oc M b"
  by (rule fold_oc_unique) (simp_all add: fold_oc_le fold_oc_mod)

lemma fold_oc_small: "n \<le> M \<Longrightarrow> fold_oc M n = n"
  by (rule fold_oc_unique [symmetric]) simp_all

lemma fold_oc_add: "0 < M \<Longrightarrow> fold_oc M (a + fold_oc M b) = fold_oc M (a + b)"
proof (rule fold_oc_eqI)
  assume "0 < M"
  then show "(a + fold_oc M b) mod M = (a + b) mod M" by (metis fold_oc_mod mod_add_right_eq)
qed simp_all

lemma fold_oc_add_left: "0 < M \<Longrightarrow> fold_oc M (fold_oc M a + b) = fold_oc M (a + b)"
  using fold_oc_add [of M b a] by (simp add: add.commute)

lemma fold_oc_cong: "0 < M \<Longrightarrow> fold_oc M a = fold_oc M b \<Longrightarrow> fold_oc M (a + c) = fold_oc M (b + c)"
  by (metis fold_oc_add_left)

lemma fold_oc_mult: "0 < M \<Longrightarrow> fold_oc M a = fold_oc M b \<Longrightarrow> 0 < k \<Longrightarrow> fold_oc M (k * a) = fold_oc M (k * b)"
proof (rule fold_oc_eqI)
  assume M: "0 < M" and e: "fold_oc M a = fold_oc M b"
  then show "k * a mod M = k * b mod M" by (metis fold_oc_mod mod_mult_right_eq)
  have "a = 0 \<longleftrightarrow> b = 0" using e by (metis fold_oc_0)
  then show "0 < k \<Longrightarrow> (k * a = 0) = (k * b = 0)" by auto
qed simp

text \<open>A sum with end-around carry, once: the two summands fit, so does the result.\<close>

lemma fold_oc_carry: "a \<le> M \<Longrightarrow> b \<le> M \<Longrightarrow> fold_oc M (a + b) = (if a + b \<le> M then a + b else a + b - M)"
proof (cases "a + b \<le> M")
  case False
  assume ab: "a \<le> M" "b \<le> M"
  have "a + b - M = fold_oc M (a + b)"
  proof (rule fold_oc_unique)
    have "(a + b - M + M) mod M = (a + b - M) mod M" by simp
    then show "(a + b - M) mod M = (a + b) mod M" using False by simp
  qed (use ab False in auto)
  then show ?thesis using False by simp
qed (simp add: fold_oc_small)

text \<open>Coarser sums reduce to finer ones, because \<open>2 ^ 16 - 1\<close> divides \<open>2 ^ 32 - 1\<close> and \<open>2 ^ 64 - 1\<close>.\<close>

lemma fold_oc_dvd: "0 < N \<Longrightarrow> M dvd N \<Longrightarrow> fold_oc M (fold_oc N n) = fold_oc M n"
proof (rule fold_oc_eqI)
  assume N: "0 < N" and d: "M dvd N"
  then show "0 < M" by (auto intro: Nat.gr0I)
  show "fold_oc N n mod M = n mod M" using fold_oc_mod [OF N, of n] d by (metis mod_mod_cancel)
qed simp

lemma fold16_shift: "fold16 (65536 * a) = fold16 a"
proof (rule fold_oc_eqI)
  have "65536 * a = a + 65535 * a" by simp
  then show "65536 * a mod 65535 = a mod 65535" by (metis mod_mult_self2)
qed simp_all

lemma fold16_split: "fold16 (n mod 65536 + n div 65536) = fold16 n"
proof -
  have "fold16 (n mod 65536 + 65536 * (n div 65536)) = fold16 (n mod 65536 + n div 65536)"
    using fold_oc_cong [of 65535 "65536 * (n div 65536)" "n div 65536" "n mod 65536"] fold16_shift
    by (simp add: add.commute)
  then show ?thesis by simp
qed

section \<open>The checksum of IP and ICMP headers: \<open>inc/arch/chksum.h\<close>\<close>

text \<open>A buffer and its length are the list of its bytes.  The loop that adds 16-bit words leaves at
  most one byte.\<close>

fun add_words :: "u8 list \<Rightarrow> 'a::len word \<Rightarrow> 'a word \<times> u8 list" where
  "add_words (a # b # bs) acc = add_words bs (acc + of_nat (le_nat [a, b]))"
| "add_words bs acc = (acc, bs)"

function fold_loop :: "u64 \<Rightarrow> u64" where
  "fold_loop acc = (if drop_bit 16 acc \<noteq> 0 then fold_loop ((acc AND 0xFFFF) + drop_bit 16 acc) else acc)"
  by pat_completeness auto

lemma unat_fold_step:
  fixes u :: "'a::len word"
  assumes "16 \<le> LENGTH('a)"
  shows "unat ((u AND 0xFFFF) + drop_bit 16 u) = unat u mod 65536 + unat u div 65536"
proof -
  have p: "unat u mod 65536 + unat u div 65536 \<le> unat u"
    using div_mult_mod_eq [of "unat u" 65536] by linarith
  also have "unat u < 2 ^ LENGTH('a)" by (rule unsigned_less)
  finally show ?thesis unfolding and_ffff
    using unat_add_small [of "take_bit 16 u" "drop_bit 16 u"] by (simp add: unat_take_bit unat_drop_bit)
qed

lemma drop16_eq_0: "drop_bit 16 u = 0 \<longleftrightarrow> unat u < 65536" for u :: "'a::len word"
proof -
  have "drop_bit 16 u = 0 \<longleftrightarrow> unat (drop_bit 16 u) = 0" by (simp only: unat_eq_zero)
  then show ?thesis unfolding unat_drop_bit by (simp add: div_eq_0_iff)
qed

termination fold_loop
proof (relation "measure unat")
  fix acc :: u64
  assume "drop_bit 16 acc \<noteq> 0"
  then have "65536 \<le> unat acc" by (simp add: drop16_eq_0 not_less)
  then have "unat acc mod 65536 + unat acc div 65536 < unat acc"
    using div_mult_mod_eq [of "unat acc" 65536] by linarith
  then show "((acc AND 0xFFFF) + drop_bit 16 acc, acc) \<in> measure unat" by (simp add: unat_fold_step)
qed simp

declare fold_loop.simps [simp del]

definition chksum_internet :: "u8 list \<Rightarrow> u16" where
  "chksum_internet buf =
     (let (acc, rest) = add_words buf 0;
          acc = (if length rest = 1 then acc + ucast (hd rest) else acc)
      in ucast (NOT (fold_loop acc)))"

text \<open>The x86 path, instruction by instruction: \<open>adc\<close> adds with the carry flag and sets it.\<close>

definition adc :: "'a::len word \<Rightarrow> 'a word \<Rightarrow> bool \<Rightarrow> 'a word \<times> bool" where
  "adc x y cf = (x + y + of_bool cf, 2 ^ LENGTH('a) \<le> unat x + unat y + of_bool cf)"

definition add_adc0 :: "'a::len word \<Rightarrow> 'a word \<Rightarrow> 'a word" where
  "add_adc0 x y = (let (s, cf) = adc x y False in fst (adc s 0 cf))"

primrec adcq_loop :: "nat \<Rightarrow> u8 list \<Rightarrow> u64 \<Rightarrow> bool \<Rightarrow> u64 \<times> bool \<times> u8 list" where
  "adcq_loop 0 buf acc cf = (acc, cf, buf)"
| "adcq_loop (Suc edx) buf acc cf =
     (let (acc', cf') = adc acc (of_nat (le_nat (take 8 buf))) cf in adcq_loop edx (drop 8 buf) acc' cf')"

definition x86_chunks :: "u8 list \<Rightarrow> u64 \<times> u8 list" where
  "x86_chunks buf = (if length buf div 8 = 0 then (0, buf)
     else let (acc, cf, b) = adcq_loop (length buf div 8) buf 0 False in (fst (adc acc 0 cf), b))"

definition x86_piece :: "nat \<Rightarrow> bool \<Rightarrow> u64 \<times> u8 list \<Rightarrow> u64 \<times> u8 list" where
  "x86_piece k left st = (if left then (add_adc0 (fst st) (of_nat (le_nat (take k (snd st)))), drop k (snd st)) else st)"

definition x86_fold :: "u64 \<Rightarrow> u16" where
  "x86_fold acc =
     (let k0 = add_adc0 (ucast (drop_bit 32 acc) :: u32) (ucast acc)
      in NOT (add_adc0 (ucast (drop_bit 16 k0)) (ucast k0)))"

definition chksum_internet_x86 :: "u8 list \<Rightarrow> u16" where
  "chksum_internet_x86 buf =
     (let n = length buf;
          st = x86_chunks buf;
          st = x86_piece 4 (bit n 2) st;
          st = x86_piece 2 (bit n 1) st;
          st = x86_piece 1 (bit n 0) st
      in x86_fold (fst st))"

section \<open>The checksum of lwIP: \<open>lwip/inet_chksum.c\<close>\<close>

definition FOLD_U32T :: "u32 \<Rightarrow> u32" where
  "FOLD_U32T u = drop_bit 16 u + (u AND 0x0000ffff)"

definition SWAP_BYTES_IN_WORD :: "u32 \<Rightarrow> u32" where
  "SWAP_BYTES_IN_WORD w = ucast (hton16 (ucast w))"

text \<open>Writing one byte of the two-byte variable \<open>t\<close>.\<close>

definition set_byte0 :: "u16 \<Rightarrow> u8 \<Rightarrow> u16" where "set_byte0 t b = (t AND 0xff00) OR ucast b"
definition set_byte1 :: "u16 \<Rightarrow> u8 \<Rightarrow> u16" where "set_byte1 t b = (t AND 0x00ff) OR push_bit 8 (ucast b)"

text \<open>Algorithm 1: network order, an octet at a time.\<close>

fun add_octets :: "u8 list \<Rightarrow> u32 \<Rightarrow> u32 \<times> u8 list" where
  "add_octets (a # b # bs) acc = add_octets bs (acc + ucast (push_bit 8 (ucast a) OR ucast b :: u16))"
| "add_octets bs acc = (acc, bs)"

definition lwip_standard_chksum_1 :: "u8 list \<Rightarrow> u16" where
  "lwip_standard_chksum_1 bs =
     (let (acc, rest) = add_octets bs 0;
          acc = (if rest \<noteq> [] then acc + ucast (push_bit 8 (ucast (hd rest)) :: u16) else acc);
          acc = drop_bit 16 acc + (acc AND 0x0000ffff);
          acc = (if (acc AND 0xffff0000) \<noteq> 0 then drop_bit 16 acc + (acc AND 0x0000ffff) else acc)
      in hton16 (ucast acc))"

text \<open>Algorithm 2, the one that is compiled in: \<open>pb\<close> is the address of the buffer.\<close>

definition lwip_standard_chksum :: "ptr \<Rightarrow> u8 list \<Rightarrow> u16" where
  "lwip_standard_chksum pb bs =
     (let is_odd = odd pb;
          (t, bs) = (if is_odd \<and> bs \<noteq> [] then (set_byte1 0 (hd bs), tl bs) else (0, bs));
          (acc, rest) = add_words bs 0;
          t = (if rest \<noteq> [] then set_byte0 t (hd rest) else t);
          acc = FOLD_U32T (FOLD_U32T (acc + ucast t));
          acc = (if is_odd then SWAP_BYTES_IN_WORD acc else acc)
      in ucast acc)"

text \<open>Algorithm 3: eight bytes per turn.\<close>

definition carry_add :: "u32 \<Rightarrow> u32 \<Rightarrow> u32" where
  "carry_add acc w = (let tmp = acc + w in if tmp < acc then tmp + 1 else tmp)"

function add_longs :: "u8 list \<Rightarrow> u32 \<Rightarrow> u32 \<times> u8 list" where
  "add_longs bs acc =
     (if 7 < length bs
      then add_longs (drop 8 bs)
             (carry_add (carry_add acc (of_nat (le_nat (take 4 bs)))) (of_nat (le_nat (take 4 (drop 4 bs)))))
      else (acc, bs))"
  by pat_completeness auto
termination by (relation "measure (\<lambda>(bs, _). length bs)") auto
declare add_longs.simps [simp del]

definition lwip_standard_chksum_3 :: "ptr \<Rightarrow> u8 list \<Rightarrow> u16" where
  "lwip_standard_chksum_3 pb bs =
     (let is_odd = odd pb;
          (t, ps, bs) = (if is_odd \<and> bs \<noteq> [] then (set_byte1 0 (hd bs), pb + 1, tl bs) else (0, pb, bs));
          (acc, bs) = (if ps mod 4 \<noteq> 0 \<and> 1 < length bs then (of_nat (le_nat (take 2 bs)), drop 2 bs) else (0, bs));
          (acc, bs) = add_longs bs acc;
          (acc, rest) = add_words bs (FOLD_U32T acc);
          t = (if rest \<noteq> [] then set_byte0 t (hd rest) else t);
          acc = FOLD_U32T (FOLD_U32T (acc + ucast t));
          acc = (if is_odd then SWAP_BYTES_IN_WORD acc else acc)
      in ucast acc)"

text \<open>Checksums over a chain of buffers, each with its address and bytes.\<close>

type_synonym seg = "ptr \<times> u8 list"

definition inet_chksum :: "ptr \<Rightarrow> u8 list \<Rightarrow> u16" where
  "inet_chksum dataptr bs = NOT (lwip_standard_chksum dataptr bs)"

fun chksum_pbuf_loop :: "seg list \<Rightarrow> u32 \<Rightarrow> bool \<Rightarrow> u32 \<times> bool" where
  "chksum_pbuf_loop [] acc swapped = (acc, swapped)"
| "chksum_pbuf_loop ((payload, bs) # q) acc swapped =
     (let acc = FOLD_U32T (acc + ucast (lwip_standard_chksum payload bs))
      in if length bs mod 2 \<noteq> 0 then chksum_pbuf_loop q (SWAP_BYTES_IN_WORD acc) (\<not> swapped)
         else chksum_pbuf_loop q acc swapped)"

definition inet_chksum_pbuf :: "seg list \<Rightarrow> u16" where
  "inet_chksum_pbuf p =
     (let (acc, swapped) = chksum_pbuf_loop p 0 False;
          acc = (if swapped then SWAP_BYTES_IN_WORD acc else acc)
      in ucast (NOT (acc AND 0xffff)))"

fun chksum_partial_loop :: "seg list \<Rightarrow> u16 \<Rightarrow> u32 \<Rightarrow> bool \<Rightarrow> u32 \<times> bool" where
  "chksum_partial_loop [] chksum_len acc swapped = (acc, swapped)"
| "chksum_partial_loop ((payload, bs) # q) chksum_len acc swapped =
     (if chksum_len = 0 then (acc, swapped)
      else let chklen = of_nat (length bs);
               chklen = (if chklen > chksum_len then chksum_len else chklen);
               acc = FOLD_U32T (acc + ucast (lwip_standard_chksum payload (take (unat chklen) bs)))
           in if length bs mod 2 \<noteq> 0
              then chksum_partial_loop q (chksum_len - chklen) (SWAP_BYTES_IN_WORD acc) (\<not> swapped)
              else chksum_partial_loop q (chksum_len - chklen) acc swapped)"

definition inet_cksum_pseudo_partial_base :: "seg list \<Rightarrow> u8 \<Rightarrow> u16 \<Rightarrow> u16 \<Rightarrow> u32 \<Rightarrow> u16" where
  "inet_cksum_pseudo_partial_base p proto proto_len chksum_len acc =
     (let (acc, swapped) = chksum_partial_loop p chksum_len acc False;
          acc = (if swapped then SWAP_BYTES_IN_WORD acc else acc);
          acc = acc + ucast (hton16 (ucast proto)) + ucast (hton16 proto_len)
      in ucast (NOT (FOLD_U32T (FOLD_U32T acc) AND 0xffff)))"

definition inet_chksum_pseudo_partial :: "seg list \<Rightarrow> u8 \<Rightarrow> u16 \<Rightarrow> u16 \<Rightarrow> u32 \<Rightarrow> u32 \<Rightarrow> u16" where
  "inet_chksum_pseudo_partial p proto proto_len chksum_len src dest =
     (let acc = (src AND 0xffff) + (drop_bit 16 src AND 0xffff) + (dest AND 0xffff) + (drop_bit 16 dest AND 0xffff)
      in inet_cksum_pseudo_partial_base p proto proto_len chksum_len (FOLD_U32T (FOLD_U32T acc)))"

text \<open>The sum of the pseudo header alone, for a card that completes it: the two assembly versions add with the
  carry, the C version in 64 bits.\<close>

definition in_pseudo :: "u32 \<Rightarrow> u32 \<Rightarrow> u32 \<Rightarrow> u16" where
  "in_pseudo acc b c =
     (let (acc, cf) = adc acc b False;
          (acc, cf) = adc acc c cf;
          acc = fst (adc acc 0 cf);
          acc = (acc AND 0xffff) + drop_bit 16 acc
      in ucast (if acc > 0xffff then acc - 0xffff else acc))"

definition in_pseudo_c :: "u32 \<Rightarrow> u32 \<Rightarrow> u32 \<Rightarrow> u16" where
  "in_pseudo_c acc b c =
     (let chksum = ucast acc + ucast b + ucast c :: u64;
          chksum = (chksum AND 0xffffffff) + drop_bit 32 chksum;
          chksum = (chksum AND 0xffff) + drop_bit 16 chksum
      in ucast (if chksum > 0xffff then chksum - 0xffff else chksum))"

definition inet_chksum_pseudo :: "u16 \<Rightarrow> u8 \<Rightarrow> u32 \<Rightarrow> u32 \<Rightarrow> u16" where
  "inet_chksum_pseudo tot_len proto src dest = in_pseudo src dest (hton32 (ucast proto + ucast tot_len))"

section \<open>What the loops compute\<close>

lemma add_words_spec:
  obtains n r where "add_words bs acc = (acc + of_nat n, r)" "n + le_nat r = wsum bs"
    "n \<le> 65535 * (length bs div 2)" "r = (if even (length bs) then [] else [last bs])"
proof (induction bs arbitrary: acc thesis rule: wsum.induct)
  case (3 a b bs)
  obtain n r where r: "add_words bs (acc + of_nat (le_nat [a, b])) = (acc + of_nat (le_nat [a, b]) + of_nat n, r)"
    "n + le_nat r = wsum bs" "n \<le> 65535 * (length bs div 2)" "r = (if even (length bs) then [] else [last bs])"
    by (rule "3.IH")
  have "unat a < 256" "unat b < 256" by simp_all
  then have "unat a + 256 * unat b + n \<le> 65535 + 65535 * (length bs div 2)" using r(3) by linarith
  then have "unat a + 256 * unat b + n \<le> 65535 * (length (a # b # bs) div 2)" by simp
  moreover have "bs = [] \<Longrightarrow> even (length bs)" by simp
  ultimately show ?case using r by (intro "3.prems" [of "unat a + 256 * unat b + n" r]) (auto simp: add.assoc)
qed (simp_all)

lemma wsum_append_even: "even (length xs) \<Longrightarrow> wsum (xs @ ys) = wsum xs + wsum ys"
  by (induction xs rule: wsum.induct) auto

lemma wsum_Cons: "fold16 (wsum (b # bs)) = fold16 (unat b + 256 * wsum bs)"
proof (induction bs arbitrary: b rule: wsum.induct)
  case (3 c d bs)
  have "fold16 (wsum (d # bs) + (unat b + 256 * unat c)) = fold16 (unat d + 256 * wsum bs + (unat b + 256 * unat c))"
    by (rule fold_oc_cong) (use "3"[of d] in simp_all)
  moreover have "fold16 (65536 * unat d + (256 * wsum bs + (unat b + 256 * unat c))) =
      fold16 (unat d + (256 * wsum bs + (unat b + 256 * unat c)))"
    by (rule fold_oc_cong) (simp_all add: fold16_shift)
  ultimately show ?case by (simp add: algebra_simps)
qed simp_all

lemma wsum_append: "fold16 (wsum (xs @ ys)) = fold16 (wsum xs + (if even (length xs) then 1 else 256) * wsum ys)"
proof (induction xs rule: wsum.induct)
  case (2 a)
  then show ?case using wsum_Cons [of a ys] by simp
next
  case (3 a b xs)
  show ?case using fold_oc_cong [OF _ "3", of "unat a + 256 * unat b"] by (simp add: add.commute add.left_commute)
qed simp

lemma wsum_0: "wsum bs = 0 \<longleftrightarrow> (\<forall>b \<in> set bs. b = 0)"
  by (induction bs rule: wsum.induct) (auto simp: unat_eq_zero)

lemma wsum_le: "wsum bs \<le> 65535 * ((length bs + 1) div 2)"
proof (induction bs rule: wsum.induct)
  case (2 a)
  have "unat a < 256" by simp
  then have "unat a \<le> 65535" by linarith
  then show ?case by simp
next
  case (3 a b bs)
  have "unat a < 256" "unat b < 256" by simp_all
  then have "unat a + 256 * unat b + wsum bs \<le> 65535 + 65535 * ((length bs + 1) div 2)" using 3 by linarith
  then show ?case by simp
qed simp

text \<open>The bytes of a buffer read as one number have the same one's complement sum.\<close>

lemma wsum_le_nat: "fold16 (le_nat bs) = fold16 (wsum bs)"
proof (induction bs rule: wsum.induct)
  case (3 a b bs)
  have "fold16 (65536 * le_nat bs) = fold16 (wsum bs)" using 3 fold16_shift by simp
  then have "fold16 (65536 * le_nat bs + (unat a + 256 * unat b)) = fold16 (wsum bs + (unat a + 256 * unat b))"
    by (intro fold_oc_cong) simp_all
  then show ?case by (simp add: algebra_simps)
qed simp_all

lemma wsum_split: "even n \<Longrightarrow> fold16 (le_nat (take n bs) + wsum (drop n bs)) = fold16 (wsum bs)"
proof -
  assume e: "even n"
  have "fold16 (le_nat (take n bs) + wsum (drop n bs)) = fold16 (wsum (take n bs) + wsum (drop n bs))"
    by (rule fold_oc_cong) (simp_all add: wsum_le_nat)
  also have "\<dots> = fold16 (wsum (take n bs @ drop n bs))"
  proof (cases "n \<le> length bs")
    case True
    then show ?thesis using e by (simp only: wsum_append length_take min_absorb2 if_True) simp
  qed simp
  finally show ?thesis by simp
qed

section \<open>Folding and swapping machine words\<close>

lemma unat_FOLD_U32T: "unat (FOLD_U32T u) = unat u div 65536 + unat u mod 65536"
  unfolding FOLD_U32T_def using unat_fold_step [of u] by (simp add: add.commute)

lemma fold_small: "n \<le> 131070 \<Longrightarrow> n div 65536 + n mod 65536 \<le> 65535" for n :: nat
proof (cases "n < 65536")
  case False
  assume "n \<le> 131070"
  then have "n div 65536 = 1" using False by simp
  then show ?thesis using div_mult_mod_eq [of n 65536] \<open>n \<le> 131070\<close> by linarith
qed simp

lemma fold16_fold_twice:
  assumes "n < 4294967296"
  shows "(n div 65536 + n mod 65536) div 65536 + (n div 65536 + n mod 65536) mod 65536 = fold16 n"
proof -
  let ?m = "n div 65536 + n mod 65536"
  have "n div 65536 < 65536" using assms by (simp add: div_less_iff_less_mult)
  moreover have "n mod 65536 < 65536" by simp
  ultimately have "?m \<le> 131070" by linarith
  then have "?m div 65536 + ?m mod 65536 \<le> 65535" by (rule fold_small)
  moreover have "fold16 (?m div 65536 + ?m mod 65536) = fold16 n"
    using fold16_split [of ?m] fold16_split [of n] by (simp add: add.commute)
  ultimately show ?thesis using fold_oc_small [of "?m div 65536 + ?m mod 65536" 65535] by simp
qed

lemma FOLD_twice: "unat (FOLD_U32T (FOLD_U32T u)) = fold16 (unat u)"
  using fold16_fold_twice [of "unat u"] by (simp add: unat_FOLD_U32T)

lemma FOLD_once: "unat u \<le> 131070 \<Longrightarrow> unat (FOLD_U32T u) = fold16 (unat u)"
proof -
  assume u: "unat u \<le> 131070"
  have "unat u div 65536 + unat u mod 65536 \<le> 65535" using u by (rule fold_small)
  then show ?thesis using fold16_split [of "unat u"] fold_oc_small [of "unat u div 65536 + unat u mod 65536" 65535]
    by (simp add: unat_FOLD_U32T add.commute)
qed

lemma unat_bswap16: "unat (bswap16 x) = 256 * (unat x mod 256) + unat x div 256"
proof -
  have "unat x < 65536" by simp
  then have "unat x div 256 < 256" by (simp add: div_less_iff_less_mult)
  then have "unat (of_nat (unat x div 256) :: u8) = unat x div 256" by (intro unat_of_nat_small) simp
  moreover have "unat (of_nat (unat x) :: u8) = unat x mod 256" by (simp only: unat_of_nat_mod) simp
  ultimately show ?thesis unfolding bswap16_bytes by (simp add: numeral_2_eq_2)
qed

lemma bswap16_fold: "unat (bswap16 x) = fold16 (256 * unat x)"
proof -
  let ?l = "unat x mod 256" let ?h = "unat x div 256"
  have x: "unat x = ?l + 256 * ?h" by simp
  have h: "?h < 256" using unat_lt16 [of x] by (simp add: div_less_iff_less_mult)
  have "fold16 (65536 * ?h + 256 * ?l) = fold16 (?h + 256 * ?l)"
    by (rule fold_oc_cong) (simp_all add: fold16_shift)
  moreover have "256 * unat x = 65536 * ?h + 256 * ?l" using x by linarith
  moreover have "?h + 256 * ?l \<le> 65535" using h mod_less_divisor [of 256 "unat x"] by linarith
  ultimately show ?thesis by (simp add: unat_bswap16 fold_oc_small add.commute)
qed

section \<open>The portable and the x86 header checksum\<close>

lemma fold_loop_spec: "unat (fold_loop u) = fold16 (unat u)"
proof (induction u rule: fold_loop.induct)
  case (1 u)
  show ?case
  proof (cases "drop_bit 16 u = 0")
    case True
    then have "unat u \<le> 65535" by (simp add: drop16_eq_0)
    then show ?thesis using True by (subst fold_loop.simps) (simp add: fold_oc_small)
  next
    case False
    then have "unat (fold_loop u) = fold16 (unat ((u AND 0xFFFF) + drop_bit 16 u))"
      using 1 by (subst fold_loop.simps) simp
    then show ?thesis by (simp add: unat_fold_step fold16_split)
  qed
qed

lemma ucast_not: "LENGTH('b::len) \<le> LENGTH('a::len) \<Longrightarrow> (ucast (NOT (x :: 'a word)) :: 'b word) = NOT (ucast x)"
  by (rule bit_word_eqI) (simp add: bit_simps)

lemma ucast_of_unat: "ucast x = of_nat (unat x)"
  by simp

lemma add_last_byte:
  assumes w: "unat acc + n + le_nat r < 2 ^ LENGTH('a::len)" and r: "length r \<le> 1"
  shows "unat (if length r = 1 then (acc :: 'a word) + of_nat n + ucast (hd r) else acc + of_nat n) = unat acc + n + le_nat r"
proof -
  have n: "unat (of_nat n :: 'a word) = n" using w by (intro unat_of_nat_small) simp
  then have a: "unat (acc + of_nat n) = unat acc + n" using w by (subst unat_add_small) simp_all
  show ?thesis
  proof (cases r)
    case Nil
    then show ?thesis using a by simp
  next
    case (Cons b r')
    then have r': "r = [b]" using r by simp
    have b: "unat (ucast b :: 'a word) = unat b" using w r' by (simp add: unat_ucast_mod)
    have "unat (acc + of_nat n + ucast b) = unat (acc + of_nat n) + unat (ucast b :: 'a word)"
      using w a b r' by (intro unat_add_small) simp
    then show ?thesis using a b r' by simp
  qed
qed

lemma chksum_internet_spec:
  assumes "length buf < 2147483648"
  shows "chksum_internet buf = NOT (of_nat (fold16 (wsum buf)))"
proof -
  obtain n r where w: "add_words buf (0 :: u64) = (0 + of_nat n, r)" "n + le_nat r = wsum buf"
    "n \<le> 65535 * (length buf div 2)" "r = (if even (length buf) then [] else [last buf])" by (rule add_words_spec)
  have l: "length r \<le> 1" using w(4) by simp
  have "wsum buf \<le> 65535 * ((length buf + 1) div 2)" by (rule wsum_le)
  also have "\<dots> < 18446744073709551616" using assms by simp
  finally have b: "unat (0 :: u64) + n + le_nat r < 2 ^ LENGTH(64)" using w(2) by simp
  let ?s = "if length r = 1 then (0 :: u64) + of_nat n + ucast (hd r) else 0 + of_nat n"
  have s: "unat ?s = wsum buf" using add_last_byte [OF b l] w(2) by simp
  have "chksum_internet buf = ucast (NOT (fold_loop ?s))" unfolding chksum_internet_def w(1) Let_def by simp
  also have "\<dots> = NOT (ucast (fold_loop ?s))" by (rule ucast_not) simp
  also have "(ucast (fold_loop ?s) :: u16) = of_nat (fold16 (wsum buf))"
    by (simp only: ucast_of_unat [of "fold_loop ?s"] fold_loop_spec s)
  finally show ?thesis .
qed

text \<open>A running sum with the carry kept aside: the sum never is all ones when the carry is set.\<close>

lemma carry_nat: "a < P \<Longrightarrow> y < P \<Longrightarrow> (a + y) mod P + of_bool (P \<le> a + y) = fold_oc (P - 1) (a + y)" for a P y :: nat
proof (cases "P \<le> a + y")
  case True
  assume p: "a < P" "y < P"
  have "(a + y) mod P = a + y - P" using p True by (simp add: mod_if)
  moreover have "fold_oc (P - 1) (a + y) = a + y - (P - 1)" using p True fold_oc_carry [of a "P - 1" y] by simp
  ultimately show ?thesis using True p by simp
next
  case False
  assume p: "a < P" "y < P"
  have "fold_oc (P - 1) (a + y) = a + y" using False by (intro fold_oc_small) simp
  then show ?thesis using False by simp
qed

lemma adc_step:
  fixes x y :: "'a::len word"
  assumes x: "unat x + of_bool c < 2 ^ LENGTH('a)" and a: "adc x y c = (x', c')"
  shows "unat x' + of_bool c' = fold_oc (2 ^ LENGTH('a) - 1) (unat x + of_bool c + unat y)"
proof -
  have y: "unat y < 2 ^ LENGTH('a)" by (rule unsigned_less)
  have c: "unat (of_bool c :: 'a word) = of_bool c" by (cases c) simp_all
  have x': "unat x' = (unat x + of_bool c + unat y) mod 2 ^ LENGTH('a)"
    using a c unfolding adc_def by (auto simp: unat_word_ariths mod_simps ac_simps)
  have c': "c' \<longleftrightarrow> 2 ^ LENGTH('a) \<le> unat x + of_bool c + unat y" using a unfolding adc_def by (auto simp: ac_simps)
  show ?thesis unfolding x' c' by (rule carry_nat [OF x y])
qed

lemma adc_0: "unat x + of_bool c < 2 ^ LENGTH('a) \<Longrightarrow> unat (fst (adc x 0 c)) = unat x + of_bool c"
  for x :: "'a::len word"
  unfolding adc_def by (cases c) (simp_all add: unat_word_ariths)

lemma carry_bound: "unat x + of_bool c = fold_oc (2 ^ LENGTH('a) - 1) n \<Longrightarrow> unat x + of_bool c < 2 ^ LENGTH('a)"
  for x :: "'a::len word"
proof -
  assume "unat x + of_bool c = fold_oc (2 ^ LENGTH('a) - 1) n"
  moreover have "0 < (2 :: nat) ^ LENGTH('a) - 1" using one_less_power [of "2::nat" "LENGTH('a)"] by simp
  ultimately have "unat x + of_bool c \<le> 2 ^ LENGTH('a) - 1" using fold_oc_le by simp
  moreover have "0 < (2 :: nat) ^ LENGTH('a)" by simp
  ultimately show ?thesis by linarith
qed

lemma unat_add_adc0: "unat (add_adc0 x y) = fold_oc (2 ^ LENGTH('a) - 1) (unat x + unat y)" for x y :: "'a::len word"
proof -
  obtain s c where s: "adc x y False = (s, c)" by force
  have "unat x + of_bool False < 2 ^ LENGTH('a)" by (simp add: unsigned_less)
  then have "unat s + of_bool c = fold_oc (2 ^ LENGTH('a) - 1) (unat x + unat y)" using adc_step [OF _ s] by simp
  then show ?thesis unfolding add_adc0_def s using adc_0 [OF carry_bound, of s c "unat x + unat y"] by simp
qed

lemma adcq_loop_spec:
  assumes "unat acc + of_bool cf = fold_oc 18446744073709551615 n" "8 * edx \<le> length buf"
  obtains acc' cf' m where "adcq_loop edx buf acc cf = (acc', cf', drop (8 * edx) buf)"
    "unat acc' + of_bool cf' = fold_oc 18446744073709551615 m" "fold16 (m + wsum (drop (8 * edx) buf)) = fold16 (n + wsum buf)"
  using assms
proof (induction edx arbitrary: buf acc cf n thesis)
  case (Suc edx)
  let ?w = "le_nat (take 8 buf)"
  obtain s c where s: "adc acc (of_nat ?w) cf = (s, c)" by force
  have "?w < 256 ^ 8" using le_nat_less [of "take 8 buf"] Suc.prems(3) by simp
  then have w: "unat (of_nat ?w :: u64) = ?w" by (intro unat_of_nat_small) simp
  have "unat acc + of_bool cf < 2 ^ LENGTH(64)" by (rule carry_bound [of _ _ n]) (use Suc.prems(2) in simp)
  from adc_step [OF this s] have i: "unat s + of_bool c = fold_oc 18446744073709551615 (n + ?w)"
    using Suc.prems(2) w by (simp add: fold_oc_add_left)
  obtain acc' cf' m where m: "adcq_loop edx (drop 8 buf) s c = (acc', cf', drop (8 * edx) (drop 8 buf))"
    "unat acc' + of_bool cf' = fold_oc 18446744073709551615 m"
    "fold16 (m + wsum (drop (8 * edx) (drop 8 buf))) = fold16 (n + ?w + wsum (drop 8 buf))"
    by (rule Suc.IH [OF _ i, of "drop 8 buf"]) (use Suc.prems(3) in simp_all)
  have "fold16 (?w + wsum (drop 8 buf) + n) = fold16 (wsum buf + n)"
    by (intro fold_oc_cong wsum_split) simp_all
  then have "fold16 (n + ?w + wsum (drop 8 buf)) = fold16 (n + wsum buf)" by (simp add: add.commute add.left_commute)
  then show ?case using m s by (intro Suc.prems(1) [of acc' cf' m]) (simp_all add: add.commute)
qed simp

lemma dvd_16_32: "(65535 :: nat) dvd 4294967295" and dvd_16_64: "(65535 :: nat) dvd 18446744073709551615"
  by simp_all

text \<open>Adding a piece of the buffer: the one's complement sum of what is left completes it.\<close>

lemma add_piece:
  fixes acc :: u64
  assumes "k < 8" "even k \<or> drop k buf = []" "fold16 (unat acc + wsum buf) = S"
  shows "fold16 (unat (add_adc0 acc (of_nat (le_nat (take k buf)))) + wsum (drop k buf)) = S"
proof -
  let ?w = "le_nat (take k buf)"
  have "?w < 256 ^ length (take k buf)" by (rule le_nat_less)
  also have "\<dots> \<le> 256 ^ 8" by (rule power_increasing) (use assms(1) in simp_all)
  finally have w: "unat (of_nat ?w :: u64) = ?w" by (intro unat_of_nat_small) simp
  have u: "unat (add_adc0 acc (of_nat ?w)) = fold_oc 18446744073709551615 (unat acc + ?w)"
    using unat_add_adc0 [of acc "of_nat ?w"] w by simp
  have "fold16 (unat (add_adc0 acc (of_nat ?w))) = fold16 (unat acc + ?w)"
    unfolding u by (rule fold_oc_dvd) simp_all
  then have "fold16 (unat (add_adc0 acc (of_nat ?w)) + wsum (drop k buf)) = fold16 (unat acc + ?w + wsum (drop k buf))"
    by (intro fold_oc_cong) simp_all
  also have "\<dots> = fold16 (?w + wsum (drop k buf) + unat acc)" by (simp add: ac_simps)
  also have "\<dots> = fold16 (wsum buf + unat acc)"
  proof (rule fold_oc_cong)
    show "fold16 (?w + wsum (drop k buf)) = fold16 (wsum buf)"
      using assms(2) wsum_split [of k buf] by (cases "even k") (simp_all add: wsum_le_nat)
  qed simp
  finally show ?thesis using assms(3) by (simp add: add.commute)
qed

lemma x86_fold_spec: "x86_fold s = NOT (of_nat (fold16 (unat s)))"
proof -
  let ?k = "add_adc0 (ucast (drop_bit 32 s) :: u32) (ucast s)"
  have s: "unat s < 18446744073709551616" by simp
  then have h: "unat s div 4294967296 < 4294967296" by (simp add: div_less_iff_less_mult)
  have k: "unat ?k = fold_oc 4294967295 (unat s div 4294967296 + unat s mod 4294967296)"
    using unat_add_adc0 [of "ucast (drop_bit 32 s) :: u32" "ucast s"] h by (simp add: unat_ucast_mod unat_drop_bit)
  have "fold16 (unat ?k) = fold16 (unat s div 4294967296 + unat s mod 4294967296)"
    unfolding k by (rule fold_oc_dvd) simp_all
  also have "\<dots> = fold16 (unat s mod 4294967296 + 4294967296 * (unat s div 4294967296))"
    using fold_oc_cong [of 65535 "4294967296 * (unat s div 4294967296)" "unat s div 4294967296" "unat s mod 4294967296"]
      fold16_shift [of "65536 * (unat s div 4294967296)"] fold16_shift [of "unat s div 4294967296"]
    by (simp add: add.commute)
  also have "\<dots> = fold16 (unat s)" by simp
  finally have f: "fold16 (unat ?k) = fold16 (unat s)" .
  have "unat ?k < 4294967296" by simp
  then have "unat ?k div 65536 < 65536" by (simp add: div_less_iff_less_mult)
  then have "unat (add_adc0 (ucast (drop_bit 16 ?k) :: u16) (ucast ?k)) = fold16 (unat ?k div 65536 + unat ?k mod 65536)"
    using unat_add_adc0 [of "ucast (drop_bit 16 ?k) :: u16" "ucast ?k"] by (simp add: unat_ucast_mod unat_drop_bit)
  then have "unat (add_adc0 (ucast (drop_bit 16 ?k) :: u16) (ucast ?k)) = fold16 (unat s)"
    using fold16_split [of "unat ?k"] f by (simp add: add.commute)
  then have "add_adc0 (ucast (drop_bit 16 ?k) :: u16) (ucast ?k) = of_nat (fold16 (unat s))"
    by (metis of_nat_unat ucast_id)
  then show ?thesis by (simp only: x86_fold_def Let_def)
qed

lemma bits_of_mod8:
  fixes n :: nat
  obtains "n mod 8 = (if bit n 2 then 4 else 0) + (if bit n 1 then 2 else 0) + (if bit n 0 then 1 else 0)"
proof (rule that)
  have b: "bit n k \<longleftrightarrow> bit (n mod 8) k" if "k < 3" for k
    using that bit_take_bit_iff [of 3 n k] by (simp add: take_bit_eq_mod)
  have "n mod 8 < 8" by simp
  then consider "n mod 8 = 0" | "n mod 8 = 1" | "n mod 8 = 2" | "n mod 8 = 3" | "n mod 8 = 4" | "n mod 8 = 5"
    | "n mod 8 = 6" | "n mod 8 = 7" by linarith
  then show "n mod 8 = (if bit n 2 then 4 else 0) + (if bit n 1 then 2 else 0) + (if bit n 0 then 1 else 0)"
    using b [of 0] b [of 1] b [of 2] by cases (simp_all add: bit_iff_odd)
qed

lemma x86_chunks_spec:
  "fold16 (unat (fst (x86_chunks buf)) + wsum (snd (x86_chunks buf))) = fold16 (wsum buf)"
  "length (snd (x86_chunks buf)) = length buf mod 8"
proof -
  define n where "n = length buf div 8"
  obtain s cf m where l: "adcq_loop n buf 0 False = (s, cf, drop (8 * n) buf)"
    "unat s + of_bool cf = fold_oc 18446744073709551615 m"
    "fold16 (m + wsum (drop (8 * n) buf)) = fold16 (0 + wsum buf)"
    by (rule adcq_loop_spec [of 0 False 0 n buf]) (simp_all add: n_def)
  have s0: "snd (x86_chunks buf) = drop (8 * n) buf" "fst (x86_chunks buf) = (if n = 0 then 0 else fst (adc s 0 cf))"
    using l(1) by (simp_all add: x86_chunks_def n_def [symmetric])
  have "unat (fst (adc s 0 cf)) = fold_oc 18446744073709551615 m"
    using adc_0 [OF carry_bound, of s cf m] l(2) by simp
  moreover have "n = 0 \<Longrightarrow> s = 0 \<and> \<not> cf" using l(1) by simp
  ultimately have "unat (fst (x86_chunks buf)) = fold_oc 18446744073709551615 m" using l(2) by (auto simp: s0)
  then have "fold16 (unat (fst (x86_chunks buf))) = fold16 m" by (simp add: fold_oc_dvd)
  then show "fold16 (unat (fst (x86_chunks buf)) + wsum (snd (x86_chunks buf))) = fold16 (wsum buf)"
    using l(3) fold_oc_cong [of 65535 "unat (fst (x86_chunks buf))" m] by (simp add: s0(1))
  show "length (snd (x86_chunks buf)) = length buf mod 8"
    by (simp add: s0(1) n_def minus_div_mult_eq_mod [symmetric] mult.commute)
qed

lemma x86_piece_spec:
  assumes "k < 8" "even k \<or> drop k (snd st) = []" "fold16 (unat (fst st) + wsum (snd st)) = S"
    "length (snd st) = (if left then k else 0) + j"
  shows "fold16 (unat (fst (x86_piece k left st)) + wsum (snd (x86_piece k left st))) = S"
    "length (snd (x86_piece k left st)) = j"
  using assms add_piece [of k "snd st" "fst st" S] by (simp_all add: x86_piece_def)

lemma chksum_internet_x86_spec: "chksum_internet_x86 buf = NOT (of_nat (fold16 (wsum buf)))"
proof -
  let ?n = "length buf"
  let ?s0 = "x86_chunks buf" let ?s1 = "x86_piece 4 (bit ?n 2) ?s0"
  let ?s2 = "x86_piece 2 (bit ?n 1) ?s1" let ?s3 = "x86_piece 1 (bit ?n 0) ?s2"
  have l: "length (snd ?s0) = (if bit ?n 2 then 4 else 0) + ((if bit ?n 1 then 2 else 0) + (if bit ?n 0 then 1 else 0))"
    using bits_of_mod8 [of ?n] x86_chunks_spec(2) [of buf] by (metis add.assoc)
  note s1 = x86_piece_spec [of 4 ?s0, OF _ _ x86_chunks_spec(1) l]
  note s2 = x86_piece_spec [of 2 ?s1, OF _ _ s1(1) s1(2)]
  have "length (snd ?s2) = (if bit ?n 0 then 1 else 0) + 0" using s2(2) by simp
  moreover have "drop 1 (snd ?s2) = []" using s2(2) by simp
  ultimately have s3: "fold16 (unat (fst ?s3) + wsum (snd ?s3)) = fold16 (wsum buf)" "length (snd ?s3) = 0"
    using x86_piece_spec [of 1 ?s2 "fold16 (wsum buf)" "bit ?n 0" 0] s2(1) by simp_all
  then have "fold16 (unat (fst ?s3)) = fold16 (wsum buf)" by simp
  then show ?thesis unfolding chksum_internet_x86_def Let_def x86_fold_spec by simp
qed

section \<open>The three algorithms of lwIP\<close>

lemma make_u16: "unat (push_bit 8 (ucast a) OR ucast b :: u16) = unat b + 256 * unat a" for a b :: u8
proof (rule bit_eqI)
  fix n
  have "bit a (n - 8) \<Longrightarrow> n - 8 < 8" "bit b n \<Longrightarrow> n < 8"
    using bit_imp_le_length [of a "n - 8"] bit_imp_le_length [of b n] by simp_all
  then show "bit (unat (push_bit 8 (ucast a) OR ucast b :: u16)) n = bit (unat b + 256 * unat a) n"
    by (auto simp: bit_byte_plus bit_unsigned_iff bit_simps)
qed

lemma set_bytes:
  "unat (set_byte1 0 a) = 256 * unat a" "unat (set_byte0 0 b) = unat b"
  "unat (set_byte0 (set_byte1 0 a) b) = unat b + 256 * unat a"
proof -
  have a: "set_byte1 0 a = push_bit 8 (ucast a) OR ucast (0 :: u8)" by (simp add: set_byte1_def)
  then show "unat (set_byte1 0 a) = 256 * unat a" using make_u16 [of a 0] by simp
  have "set_byte0 0 b = push_bit 8 (ucast (0 :: u8)) OR ucast b" by (simp add: set_byte0_def)
  then show "unat (set_byte0 0 b) = unat b" using make_u16 [of 0 b] by simp
  have "(push_bit 8 (ucast a) :: u16) AND 0xff00 = push_bit 8 (ucast a)"
    unfolding masks16 by (rule bit_word_eqI) (auto simp: bit_simps)
  then have "set_byte0 (set_byte1 0 a) b = push_bit 8 (ucast a) OR ucast b" by (simp add: set_byte0_def a)
  then show "unat (set_byte0 (set_byte1 0 a) b) = unat b + 256 * unat a" by (simp only: make_u16)
qed

text \<open>The odd-address trick: a buffer that starts at an odd address is summed shifted by one byte, which
  multiplies its sum by 256, and swapping the bytes of the result multiplies it by 256 again.\<close>

lemma odd_start: "bs \<noteq> [] \<Longrightarrow> fold16 (256 * (256 * unat (hd bs) + wsum (tl bs))) = fold16 (wsum bs)"
proof (cases bs)
  case (Cons b r)
  have "fold16 (65536 * unat b + 256 * wsum r) = fold16 (unat b + 256 * wsum r)"
    by (rule fold_oc_cong) (simp_all add: fold16_shift)
  then show ?thesis using Cons wsum_Cons [of b r] by (simp add: algebra_simps)
qed simp

lemma unat_ucast16_32: "unat (ucast (x :: u16) :: u32) = unat x"
  by (rule unat_ucast_up) simp

lemma unat_SWAP: "unat u \<le> 65535 \<Longrightarrow> unat (SWAP_BYTES_IN_WORD u) = fold16 (256 * unat u)"
proof -
  assume "unat u \<le> 65535"
  then have "unat (ucast u :: u16) = unat u" by (simp add: unat_ucast_mod)
  moreover have "unat (SWAP_BYTES_IN_WORD u) = unat (bswap16 (ucast u))"
    unfolding SWAP_BYTES_IN_WORD_def hton16_def by (rule unat_ucast16_32)
  ultimately show ?thesis by (simp add: bswap16_fold)
qed

lemma fold16_le: "fold16 n \<le> 65535"
  by (rule fold_oc_le) simp

text \<open>The common tail of algorithms 2 and 3.\<close>

definition chk_tail :: "bool \<Rightarrow> u32 \<Rightarrow> u16" where
  "chk_tail is_odd acc = ucast (let acc = FOLD_U32T (FOLD_U32T acc) in if is_odd then SWAP_BYTES_IN_WORD acc else acc)"

lemma chk_tail_spec:
  assumes "fold16 (unat acc) = fold16 m" "fold16 ((if is_odd then 256 else 1) * m) = fold16 (wsum bs)"
  shows "chk_tail is_odd acc = of_nat (fold16 (wsum bs))"
proof -
  let ?f = "FOLD_U32T (FOLD_U32T acc)"
  have f: "unat ?f = fold16 m" using assms(1) by (simp add: FOLD_twice)
  have "unat (if is_odd then SWAP_BYTES_IN_WORD ?f else ?f) = fold16 (wsum bs)"
  proof (cases is_odd)
    case True
    have "fold16 (256 * fold16 m) = fold16 (256 * m)" by (rule fold_oc_mult) (simp_all add: fold_oc_dvd)
    then show ?thesis using True assms(2) f unat_SWAP [of ?f] fold16_le [of m] by simp
  next
    case False
    then show ?thesis using assms(2) f by simp
  qed
  then show ?thesis unfolding chk_tail_def Let_def ucast_of_unat by simp
qed

text \<open>The end bytes: \<open>t\<close> holds the byte at the odd start in its high half, the byte left over in its low half.\<close>

lemma end_bytes:
  assumes "length r \<le> 1" "t = (if b then set_byte1 0 a else 0)"
  shows "unat (if r \<noteq> [] then set_byte0 t (hd r) else t) = le_nat r + (if b then 256 * unat a else 0)"
  using assms by (cases r) (auto simp: set_bytes)

lemma lwip_chk2_aux:
  assumes len: "length bs \<le> 0x20000" and t: "t = (if b then set_byte1 0 a else 0)"
    and w: "add_words bs (0 :: u32) = (acc, r)" and b: "b \<Longrightarrow> length bs < 0x20000"
  shows "unat (acc + ucast (if r \<noteq> [] then set_byte0 t (hd r) else t)) = wsum bs + (if b then 256 * unat a else 0)"
proof -
  obtain n where n: "acc = of_nat n" "n + le_nat r = wsum bs" "n \<le> 65535 * (length bs div 2)"
      "r = (if even (length bs) then [] else [last bs])"
    by (rule add_words_spec [of bs "0 :: u32"]) (use w in auto)
  let ?t = "if r \<noteq> [] then set_byte0 t (hd r) else t"
  have r: "length r \<le> 1" using n(4) by simp
  have tt: "unat ?t = le_nat r + (if b then 256 * unat a else 0)" by (rule end_bytes [OF r t])
  have "le_nat r + (if b then 256 * unat a else 0) \<le> 65535" using tt unat_lt16 [of ?t] by linarith
  moreover have "n \<le> 65535 * 65536" using n(3) len by simp
  ultimately have bd: "n + (le_nat r + (if b then 256 * unat a else 0)) < 4294967296" by linarith
  then have un: "unat (of_nat n :: u32) = n" by (intro unat_of_nat_small) simp
  have "unat (acc + ucast ?t) = unat acc + unat (ucast ?t :: u32)"
    by (rule unat_add_small) (use bd un n(1) tt in \<open>simp add: unat_ucast16_32\<close>)
  then show ?thesis using n(1,2) un tt by (simp add: unat_ucast16_32)
qed

lemma lwip_standard_chksum_spec:
  assumes "length bs \<le> 0x20000"
  shows "lwip_standard_chksum pb bs = of_nat (fold16 (wsum bs))"
proof -
  define b where "b \<longleftrightarrow> odd pb \<and> bs \<noteq> []"
  define bs' where "bs' = (if b then tl bs else bs)"
  define t where "t = (if b then set_byte1 0 (hd bs) else 0)"
  obtain acc r where w: "add_words bs' (0 :: u32) = (acc, r)" by force
  let ?s = "acc + ucast (if r \<noteq> [] then set_byte0 t (hd r) else t)"
  have u: "unat ?s = wsum bs' + (if b then 256 * unat (hd bs) else 0)"
    by (rule lwip_chk2_aux [OF _ t_def w]) (use assms in \<open>auto simp: bs'_def b_def\<close>)
  have e: "(if odd pb \<and> bs \<noteq> [] then (set_byte1 0 (hd bs), tl bs) else (0, bs)) = (t, bs')"
    by (auto simp: t_def bs'_def b_def)
  have "lwip_standard_chksum pb bs = chk_tail (odd pb) ?s"
    unfolding lwip_standard_chksum_def Let_def [of "odd pb"] e chk_tail_def by (simp add: w Let_def)
  also have "\<dots> = of_nat (fold16 (wsum bs))"
  proof (rule chk_tail_spec [of _ "wsum bs' + (if b then 256 * unat (hd bs) else 0)"])
    show "fold16 ((if odd pb then 256 else 1) * (wsum bs' + (if b then 256 * unat (hd bs) else 0))) = fold16 (wsum bs)"
      using odd_start [of bs] by (auto simp: b_def bs'_def add.commute)
  qed (simp only: u)
  finally show ?thesis .
qed

lemma mod_once: "P \<le> n \<Longrightarrow> n < 2 * P \<Longrightarrow> n mod P = n - P" for n P :: nat
  by (metis le_mod_geq mod_less mult_2 less_diff_conv2)

lemma unat_carry_add: "unat (carry_add x y) = fold_oc 4294967295 (unat x + unat y)"
proof -
  have x: "unat x < 4294967296" and y: "unat y < 4294967296" by simp_all
  have f: "(unat x + unat y) mod 4294967296 + of_bool (4294967296 \<le> unat x + unat y) = fold_oc 4294967295 (unat x + unat y)"
    using carry_nat [OF x y] by simp
  have s: "unat (x + y) = (unat x + unat y) mod 4294967296" by (simp add: unat_word_ariths)
  show ?thesis
  proof (cases "4294967296 \<le> unat x + unat y")
    case True
    then have "(unat x + unat y) mod 4294967296 = unat x + unat y - 4294967296"
      using x y by (intro mod_once) linarith+
    then have u: "unat (x + y) = unat x + unat y - 4294967296" using s by simp
    then have "unat (x + y) < unat x" using y True by linarith
    then have lt: "x + y < x" by (simp add: word_less_nat_alt)
    have "unat (x + y + 1) = unat (x + y) + 1"
    proof -
      have "unat (x + y) + 1 < 4294967296" using u x y True by linarith
      then show ?thesis using unat_add_small [of "x + y" 1] by simp
    qed
    then show ?thesis unfolding carry_add_def Let_def using lt f True s by simp
  next
    case False
    then have "unat (x + y) = unat x + unat y" using s by simp
    then have "\<not> x + y < x" by (simp add: word_less_nat_alt)
    then show ?thesis unfolding carry_add_def Let_def using f False s by simp
  qed
qed

lemma unat_load32: "unat (of_nat (le_nat (take 4 bs)) :: u32) = le_nat (take 4 bs)"
proof (rule unat_of_nat_small)
  have "le_nat (take 4 bs) < 256 ^ length (take 4 bs)" by (rule le_nat_less)
  also have "\<dots> \<le> 256 ^ 4" by (rule power_increasing) simp_all
  finally show "le_nat (take 4 bs) < 2 ^ LENGTH(32)" by simp
qed

lemma carry_add_piece: "fold16 (unat (carry_add acc (of_nat (le_nat (take 4 bs)))) + m) = fold16 (unat acc + le_nat (take 4 bs) + m)"
proof (rule fold_oc_cong)
  show "fold16 (unat (carry_add acc (of_nat (le_nat (take 4 bs))))) = fold16 (unat acc + le_nat (take 4 bs))"
    unfolding unat_carry_add unat_load32 by (rule fold_oc_dvd) simp_all
qed simp

lemma add_longs_spec:
  obtains acc' bs' where "add_longs bs acc = (acc', bs')" "length bs' < 8" "odd (length bs') = odd (length bs)"
    "fold16 (unat acc' + wsum bs') = fold16 (unat acc + wsum bs)"
proof (induction bs acc arbitrary: thesis rule: add_longs.induct)
  case (1 bs acc)
  let ?a = "carry_add acc (of_nat (le_nat (take 4 bs)))"
  let ?a2 = "carry_add ?a (of_nat (le_nat (take 4 (drop 4 bs))))"
  show ?case
  proof (cases "7 < length bs")
    case True
    obtain acc' bs' where r: "add_longs (drop 8 bs) ?a2 = (acc', bs')" "length bs' < 8"
      "odd (length bs') = odd (length (drop 8 bs))" "fold16 (unat acc' + wsum bs') = fold16 (unat ?a2 + wsum (drop 8 bs))"
      by (rule "1.IH" [OF True])
    have w8: "drop 8 bs = drop 4 (drop 4 bs)" by simp
    have "fold16 (unat ?a2 + wsum (drop 8 bs)) = fold16 (unat ?a + (le_nat (take 4 (drop 4 bs)) + wsum (drop 4 (drop 4 bs))))"
      unfolding w8 using carry_add_piece [of ?a "drop 4 bs" "wsum (drop 4 (drop 4 bs))"] by (simp only: add.assoc)
    also have "\<dots> = fold16 (unat ?a + wsum (drop 4 bs))"
      using fold_oc_cong [OF _ wsum_split [of 4 "drop 4 bs"], of "unat ?a"] by (simp add: add.commute)
    also have "\<dots> = fold16 (unat acc + (le_nat (take 4 bs) + wsum (drop 4 bs)))"
      unfolding carry_add_piece by (simp only: add.assoc)
    also have "\<dots> = fold16 (unat acc + wsum bs)"
      using fold_oc_cong [OF _ wsum_split [of 4 bs], of "unat acc"] by (simp add: add.commute)
    finally show ?thesis using r True by (intro "1.prems" [of acc' bs']) (simp_all add: add_longs.simps [of bs])
  next
    case False
    then show ?thesis by (intro "1.prems" [of acc bs]) (simp_all add: add_longs.simps [of bs])
  qed
qed

lemma chk_acc_bound:
  assumes "length bs < 8" "unat (acc0 :: u32) \<le> 131070" and t: "t = (if b then set_byte1 0 a else 0)"
    and w: "add_words bs acc0 = (acc, r)"
  shows "unat (acc + ucast (if r \<noteq> [] then set_byte0 t (hd r) else t)) = unat acc0 + wsum bs + (if b then 256 * unat a else 0)"
proof -
  obtain n where n: "acc = acc0 + of_nat n" "n + le_nat r = wsum bs" "n \<le> 65535 * (length bs div 2)"
      "r = (if even (length bs) then [] else [last bs])"
    by (rule add_words_spec [of bs acc0]) (use w in auto)
  let ?t = "if r \<noteq> [] then set_byte0 t (hd r) else t"
  have r: "length r \<le> 1" using n(4) by simp
  have tt: "unat ?t = le_nat r + (if b then 256 * unat a else 0)" by (rule end_bytes [OF r t])
  have tb: "unat ?t < 65536" by simp
  have "length bs div 2 \<le> 3" using assms(1) by linarith
  then have nb: "n \<le> 65535 * 3" using n(3) by linarith
  then have un: "unat (of_nat n :: u32) = n" by (intro unat_of_nat_small) simp
  have a: "unat acc = unat acc0 + n" unfolding n(1) using assms(2) nb un by (subst unat_add_small) simp_all
  have "unat (acc + ucast ?t) = unat acc + unat ?t"
  proof -
    have "unat acc + unat ?t < 4294967296" using a nb assms(2) tb by linarith
    then show ?thesis using unat_add_small [of acc "ucast ?t"] by (simp add: unat_ucast16_32)
  qed
  then show ?thesis using a n(2) tt by linarith
qed

lemma lwip_standard_chksum_3_spec: "lwip_standard_chksum_3 pb bs = of_nat (fold16 (wsum bs))"
proof -
  define b where "b \<longleftrightarrow> odd pb \<and> bs \<noteq> []"
  define bs1 where "bs1 = (if b then tl bs else bs)"
  define ps where "ps = (if b then pb + 1 else pb)"
  define t where "t = (if b then set_byte1 0 (hd bs) else 0)"
  have e1: "(if odd pb \<and> bs \<noteq> [] then (set_byte1 0 (hd bs), pb + 1, tl bs) else (0, pb, bs)) = (t, ps, bs1)"
    by (auto simp: t_def bs1_def b_def ps_def)
  define c where "c \<longleftrightarrow> ps mod 4 \<noteq> 0 \<and> 1 < length bs1"
  define acc2 where "acc2 = (if c then of_nat (le_nat (take 2 bs1)) else 0 :: u32)"
  define bs2 where "bs2 = (if c then drop 2 bs1 else bs1)"
  have e2: "(if ps mod 4 \<noteq> 0 \<and> 1 < length bs1 then (of_nat (le_nat (take 2 bs1)), drop 2 bs1) else (0, bs1)) = (acc2, bs2)"
    by (auto simp: acc2_def bs2_def c_def)
  have "le_nat (take 2 bs1) < 256 ^ length (take 2 bs1)" by (rule le_nat_less)
  also have "\<dots> \<le> 256 ^ 2" by (rule power_increasing) simp_all
  finally have "unat (of_nat (le_nat (take 2 bs1)) :: u32) = le_nat (take 2 bs1)" by (intro unat_of_nat_small) simp
  then have f2: "fold16 (unat acc2 + wsum bs2) = fold16 (wsum bs1)"
    using wsum_split [of 2 bs1] by (simp add: acc2_def bs2_def)
  obtain acc3 bs3 where l: "add_longs bs2 acc2 = (acc3, bs3)" "length bs3 < 8" "odd (length bs3) = odd (length bs2)"
    "fold16 (unat acc3 + wsum bs3) = fold16 (unat acc2 + wsum bs2)" by (rule add_longs_spec)
  have fb: "unat (FOLD_U32T acc3) \<le> 131070"
  proof -
    have "unat acc3 < 4294967296" by simp
    then have "unat acc3 div 65536 < 65536" by (simp add: div_less_iff_less_mult)
    moreover have "unat acc3 mod 65536 < 65536" by simp
    ultimately show ?thesis unfolding unat_FOLD_U32T by linarith
  qed
  obtain acc4 r where w: "add_words bs3 (FOLD_U32T acc3) = (acc4, r)" by force
  let ?s = "acc4 + ucast (if r \<noteq> [] then set_byte0 t (hd r) else t)"
  have u: "unat ?s = unat (FOLD_U32T acc3) + wsum bs3 + (if b then 256 * unat (hd bs) else 0)"
    by (rule chk_acc_bound [OF l(2) fb t_def w])
  have "fold16 (unat (FOLD_U32T acc3)) = fold16 (unat acc3)"
    using fold16_split [of "unat acc3"] by (simp add: unat_FOLD_U32T add.commute)
  then have "fold16 (unat (FOLD_U32T acc3) + wsum bs3) = fold16 (wsum bs1)"
    using fold_oc_cong [of 65535 "unat (FOLD_U32T acc3)" "unat acc3" "wsum bs3"] l(4) f2 by simp
  then have f: "fold16 (unat ?s) = fold16 (wsum bs1 + (if b then 256 * unat (hd bs) else 0))"
    unfolding u by (intro fold_oc_cong) simp_all
  have "lwip_standard_chksum_3 pb bs = chk_tail (odd pb) ?s"
    unfolding lwip_standard_chksum_3_def Let_def [of "odd pb"] e1 chk_tail_def
    by (simp only: prod.case e2 l(1) w Let_def)
  also have "\<dots> = of_nat (fold16 (wsum bs))"
  proof (rule chk_tail_spec [OF f])
    show "fold16 ((if odd pb then 256 else 1) * (wsum bs1 + (if b then 256 * unat (hd bs) else 0))) = fold16 (wsum bs)"
      using odd_start [of bs] by (auto simp: b_def bs1_def add.commute)
  qed
  finally show ?thesis .
qed

lemma add_octets_spec:
  obtains n r where "add_octets bs acc = (acc + of_nat n, r)" "fold16 (n + 256 * le_nat r) = fold16 (256 * wsum bs)"
    "n \<le> 65535 * (length bs div 2)" "length r \<le> 1"
proof (induction bs arbitrary: acc thesis rule: wsum.induct)
  case (3 a b bs)
  let ?w = "push_bit 8 (ucast a) OR ucast b :: u16"
  obtain n r where r: "add_octets bs (acc + ucast ?w) = (acc + ucast ?w + of_nat n, r)"
    "fold16 (n + 256 * le_nat r) = fold16 (256 * wsum bs)" "n \<le> 65535 * (length bs div 2)" "length r \<le> 1"
    by (rule "3.IH")
  have w: "unat ?w = unat b + 256 * unat a" by (rule make_u16)
  have wb: "unat ?w < 65536" by simp
  have e: "acc + ucast ?w + of_nat n = acc + of_nat (unat ?w + n)" by (simp add: add.assoc)
  have "fold16 (n + 256 * le_nat r + unat ?w) = fold16 (256 * wsum bs + unat ?w)"
    by (rule fold_oc_cong) (simp_all add: r(2))
  also have "\<dots> = fold16 (256 * wsum (a # b # bs))"
    using fold_oc_cong [OF _ fold16_shift, of "unat b" "256 * wsum bs + 256 * unat a"] w
    by (simp add: algebra_simps)
  finally have f: "fold16 (unat ?w + n + 256 * le_nat r) = fold16 (256 * wsum (a # b # bs))"
    by (simp add: add.commute add.left_commute)
  have "unat ?w + n \<le> 65535 + 65535 * (length bs div 2)" using r(3) wb by linarith
  then have "unat ?w + n \<le> 65535 * (length (a # b # bs) div 2)" by simp
  moreover have "add_octets (a # b # bs) acc = (acc + of_nat (unat ?w + n), r)" using r(1) e by simp
  ultimately show ?case using "3.prems" [of "unat ?w + n" r] f r(4) by blast
qed (simp_all)

lemma and_high16: "(u AND 0xffff0000 = 0) \<longleftrightarrow> unat u < 65536" for u :: u32
proof -
  have m: "(0xffff0000 :: u32) = push_bit 16 (mask 16)" by (simp add: mask_eq_exp_minus_1 push_bit_eq_mult)
  have "u AND 0xffff0000 = push_bit 16 (drop_bit 16 u)" unfolding m
    by (rule bit_word_eqI) (auto simp: bit_simps)
  also have "\<dots> = 0 \<longleftrightarrow> drop_bit 16 u = 0"
  proof
    assume p: "push_bit 16 (drop_bit 16 u) = 0"
    have "drop_bit 16 (push_bit 16 (drop_bit 16 u)) = drop_bit 16 u"
      by (rule bit_word_eqI) (auto simp: bit_simps dest: bit_imp_le_length)
    then show "drop_bit 16 u = 0" using p by simp
  qed simp
  finally show ?thesis by (simp only: drop16_eq_0)
qed

lemma lwip_standard_chksum_1_spec:
  assumes "length bs \<le> 0xffff"
  shows "lwip_standard_chksum_1 bs = of_nat (fold16 (wsum bs))"
proof -
  obtain n r where r: "add_octets bs 0 = (0 + of_nat n, r)" "fold16 (n + 256 * le_nat r) = fold16 (256 * wsum bs)"
    "n \<le> 65535 * (length bs div 2)" "length r \<le> 1" by (rule add_octets_spec)
  let ?s = "if r \<noteq> [] then of_nat n + ucast (push_bit 8 (ucast (hd r)) :: u16) else of_nat n :: u32"
  have nb: "n \<le> 65535 * 32767" proof -
    have "length bs div 2 \<le> 32767" using assms by linarith
    then show ?thesis using r(3) by linarith
  qed
  have un: "unat (of_nat n :: u32) = n" using nb by (intro unat_of_nat_small) simp
  have u: "unat ?s = n + 256 * le_nat r"
  proof (cases r)
    case (Cons b r')
    then have b: "r = [b]" using r(4) by simp
    have w: "unat (push_bit 8 (ucast b) :: u16) = 256 * unat b" using make_u16 [of b 0] by simp
    have "256 * unat b < 65536" using unat_lt8 [of b] by linarith
    then have "n + 256 * unat b < 4294967296" using nb by linarith
    then have "unat (of_nat n + ucast (push_bit 8 (ucast b) :: u16) :: u32) = n + 256 * unat b"
      using unat_add_small [of "of_nat n" "ucast (push_bit 8 (ucast b) :: u16) :: u32"] un w
      by (simp only: unat_ucast16_32) simp
    then show ?thesis using b by simp
  qed (use un in simp)
  let ?f = "drop_bit 16 ?s + (?s AND 0x0000ffff)"
  let ?g = "if ?f AND 0xffff0000 \<noteq> 0 then drop_bit 16 ?f + (?f AND 0x0000ffff) else ?f"
  have F: "drop_bit 16 v + (v AND 0x0000ffff) = FOLD_U32T v" for v by (simp add: FOLD_U32T_def)
  have "unat ?g = unat (FOLD_U32T ?f)"
    using unat_FOLD_U32T [of ?f] and_high16 [of ?f] unfolding F by simp
  then have g: "unat ?g = fold16 (256 * wsum bs)" unfolding F FOLD_twice u r(2) .
  then have "unat (ucast ?g :: u16) = fold16 (256 * wsum bs)"
    using fold16_le [of "256 * wsum bs"] unfolding unat_ucast_mod by simp
  then have "unat (bswap16 (ucast ?g)) = fold16 (256 * fold16 (256 * wsum bs))" by (simp only: bswap16_fold)
  also have "\<dots> = fold16 (256 * (256 * wsum bs))" by (rule fold_oc_mult) (simp_all add: fold_oc_dvd)
  also have "\<dots> = fold16 (wsum bs)" using fold16_shift [of "wsum bs"] by simp
  finally have "bswap16 (ucast ?g) = of_nat (fold16 (wsum bs))" by (metis of_nat_unat ucast_id)
  then show ?thesis unfolding lwip_standard_chksum_1_def r(1) hton16_def Let_def by simp
qed

text \<open>C20. The checksum routines agree: the byte-wise, the alternating and the unrolled version of
  \<open>lwip_standard_chksum\<close> give the same value on every buffer and for every alignment, the one's complement
  sum of the 16-bit words of the buffer; the x86 and the portable \<open>chksum_internet\<close> give its complement.\<close>

theorem checksum_algorithms_agree:
  assumes "length bs \<le> 0xffff"
  shows "lwip_standard_chksum pb bs = of_nat (fold16 (wsum bs)) \<and>
    lwip_standard_chksum_1 bs = lwip_standard_chksum pb bs \<and>
    lwip_standard_chksum_3 pb bs = lwip_standard_chksum pb bs \<and>
    chksum_internet bs = NOT (lwip_standard_chksum pb bs) \<and>
    chksum_internet_x86 bs = chksum_internet bs"
  using assms by (simp add: lwip_standard_chksum_spec lwip_standard_chksum_1_spec lwip_standard_chksum_3_spec
      chksum_internet_spec chksum_internet_x86_spec)

theorem checksum_algorithms_agree_witness:
  "lwip_standard_chksum 3 [1, 2, 3] = 0x0204 \<and> lwip_standard_chksum_1 [1, 2, 3] = 0x0204 \<and>
   lwip_standard_chksum_3 3 [1, 2, 3] = 0x0204 \<and> chksum_internet_x86 [1, 2, 3] = 0xfdfb"
  using checksum_algorithms_agree [of "[1, 2, 3]" 3] by (simp add: fold_oc_def)

section \<open>Checksums over a chain\<close>

abbreviation par :: "bool \<Rightarrow> nat" where "par sw \<equiv> (if sw then 256 else 1)"

lemma par_sq: "fold16 (par sw * (par sw * n)) = fold16 n"
  using fold16_shift [of n] by simp

lemma fold16_mult_fold: "fold16 (par sw * fold16 n) = fold16 (par sw * n)"
  by (rule fold_oc_mult) (simp_all add: fold_oc_dvd)

text \<open>One buffer of a chain: \<open>acc\<close> holds the sum so far, shifted by a byte if an odd number of bytes has been
  summed, and the swap after an odd buffer keeps it so.\<close>

lemma chain_step:
  fixes payload :: ptr
  assumes acc: "unat acc = fold16 (par (odd (length pre)) * (base + wsum pre))" and len: "length bs \<le> 0xffff"
  defines "acc' \<equiv> FOLD_U32T (acc + ucast (lwip_standard_chksum payload bs))"
  shows "unat acc' = fold16 (par (odd (length pre)) * (base + wsum (pre @ bs)))"
    and "unat (SWAP_BYTES_IN_WORD acc') = fold16 (par (\<not> odd (length pre)) * (base + wsum (pre @ bs)))"
proof -
  let ?c = "par (odd (length pre))"
  have chk: "unat (ucast (lwip_standard_chksum payload bs) :: u32) = fold16 (wsum bs)"
    using fold16_le [of "wsum bs"] len
    by (simp only: unat_ucast16_32 lwip_standard_chksum_spec) (simp add: lwip_standard_chksum_spec unat_of_nat_small)
  have ab: "unat acc \<le> 65535" using acc fold16_le by simp
  then have s: "unat (acc + ucast (lwip_standard_chksum payload bs)) = unat acc + fold16 (wsum bs)"
    using fold16_le [of "wsum bs"] chk by (subst unat_add_small) simp_all
  then have "unat acc' = fold16 (unat acc + fold16 (wsum bs))"
    unfolding acc'_def using FOLD_once [of "acc + ucast (lwip_standard_chksum payload bs)"] ab fold16_le [of "wsum bs"] by simp
  also have "\<dots> = fold16 (?c * (base + wsum pre) + wsum bs)"
    unfolding acc by (simp add: fold_oc_add fold_oc_add_left)
  also have "\<dots> = fold16 (?c * (?c * wsum bs) + ?c * (base + wsum pre))"
    using fold_oc_cong [OF _ par_sq, of "odd (length pre)" "wsum bs" "?c * (base + wsum pre)"] by (simp add: add.commute)
  also have "\<dots> = fold16 (?c * (wsum pre + ?c * wsum bs + base))" by (simp only: distrib_left add.commute add.left_commute)
  also have "\<dots> = fold16 (?c * (wsum (pre @ bs) + base))"
  proof (rule fold_oc_mult)
    have "fold16 (wsum pre + ?c * wsum bs) = fold16 (wsum (pre @ bs))" using wsum_append [of pre bs] by (cases "even (length pre)") simp_all
    then show "fold16 (wsum pre + ?c * wsum bs + base) = fold16 (wsum (pre @ bs) + base)" by (intro fold_oc_cong) simp_all
  qed simp_all
  finally show a': "unat acc' = fold16 (?c * (base + wsum (pre @ bs)))" by (simp add: add.commute)
  then have "unat (SWAP_BYTES_IN_WORD acc') = fold16 (par True * fold16 (?c * (base + wsum (pre @ bs))))"
    using unat_SWAP [of acc'] fold16_le by simp
  also have "\<dots> = fold16 (par True * (?c * (base + wsum (pre @ bs))))" by (rule fold16_mult_fold)
  also have "\<dots> = fold16 (par (\<not> odd (length pre)) * (base + wsum (pre @ bs)))"
    using par_sq [of True "base + wsum (pre @ bs)"] by simp
  finally show "unat (SWAP_BYTES_IN_WORD acc') = fold16 (par (\<not> odd (length pre)) * (base + wsum (pre @ bs)))" .
qed

abbreviation chain_ok :: "seg list \<Rightarrow> bool" where "chain_ok p \<equiv> \<forall>q \<in> set p. length (snd q) \<le> 0xffff"
abbreviation chain_bytes :: "seg list \<Rightarrow> u8 list" where "chain_bytes p \<equiv> concat (map snd p)"

lemma chksum_pbuf_loop_spec:
  assumes "unat acc = fold16 (par (odd (length pre)) * (base + wsum pre))" "chain_ok p" "sw = odd (length pre)"
  obtains acc' where "chksum_pbuf_loop p acc sw = (acc', odd (length (pre @ chain_bytes p)))"
    "unat acc' = fold16 (par (odd (length (pre @ chain_bytes p))) * (base + wsum (pre @ chain_bytes p)))"
  using assms
proof (induction p acc sw arbitrary: pre thesis rule: chksum_pbuf_loop.induct)
  case (2 payload bs q acc sw)
  let ?a = "FOLD_U32T (acc + ucast (lwip_standard_chksum payload bs))"
  have len: "length bs \<le> 0xffff" using 2(5) by simp
  note st = chain_step [OF 2(4) len]
  have ok: "chain_ok q" using 2(5) by simp
  show ?case
  proof (cases "length bs mod 2 \<noteq> 0")
    case True
    have o: "odd (length (pre @ bs)) = (\<not> odd (length pre))" using True
      by (simp only: length_append even_add) (simp add: odd_iff_mod_2_eq_one [of "length bs"])
    have a: "unat (SWAP_BYTES_IN_WORD ?a) = fold16 (par (odd (length (pre @ bs))) * (base + wsum (pre @ bs)))"
      unfolding o by (rule st(2))
    obtain acc' where r: "chksum_pbuf_loop q (SWAP_BYTES_IN_WORD ?a) (\<not> sw) = (acc', odd (length ((pre @ bs) @ chain_bytes q)))"
      "unat acc' = fold16 (par (odd (length ((pre @ bs) @ chain_bytes q))) * (base + wsum ((pre @ bs) @ chain_bytes q)))"
      by (rule 2(1) [OF refl True _ a ok]) (use 2(6) o in blast)+
    show ?thesis by (rule 2(3) [of acc']) (use r True in \<open>simp_all add: Let_def\<close>)
  next
    case False
    have o: "odd (length (pre @ bs)) = odd (length pre)" using False
      by (simp only: length_append even_add) (simp add: even_iff_mod_2_eq_zero [of "length bs"])
    have a: "unat ?a = fold16 (par (odd (length (pre @ bs))) * (base + wsum (pre @ bs)))"
      unfolding o by (rule st(1))
    obtain acc' where r: "chksum_pbuf_loop q ?a sw = (acc', odd (length ((pre @ bs) @ chain_bytes q)))"
      "unat acc' = fold16 (par (odd (length ((pre @ bs) @ chain_bytes q))) * (base + wsum ((pre @ bs) @ chain_bytes q)))"
      by (rule 2(2) [OF refl False _ a ok]) (use 2(6) o in blast)+
    show ?thesis by (rule 2(3) [of acc']) (use r False in \<open>simp_all add: Let_def\<close>)
  qed
qed simp

lemma unswap:
  assumes "unat acc = fold16 (par sw * m)"
  shows "unat (if sw then SWAP_BYTES_IN_WORD acc else acc) = fold16 m"
proof (cases sw)
  case True
  then have "unat (SWAP_BYTES_IN_WORD acc) = fold16 (par True * fold16 (par True * m))"
    using assms unat_SWAP [of acc] fold16_le [of "256 * m"] by simp
  then show ?thesis using True fold16_mult_fold [of True "par True * m"] par_sq [of True m] by simp
qed (use assms in simp)

lemma not_low16:
  fixes u :: u32
  assumes "unat u = fold16 m"
  shows "(ucast (NOT (u AND 0xffff)) :: u16) = NOT (of_nat (fold16 m))"
proof -
  have "unat (take_bit 16 u) = unat u" using assms fold16_le [of m] by (simp add: unat_take_bit)
  then have "u AND 0xffff = u" unfolding and_ffff by (metis of_nat_unat ucast_id)
  then have "(ucast (NOT (u AND 0xffff)) :: u16) = NOT (ucast u)" using ucast_not [of u, where ?'b = 16] by simp
  also have "(ucast u :: u16) = of_nat (fold16 m)" using assms by (metis ucast_of_unat)
  finally show ?thesis .
qed

text \<open>C21. The checksum of a chain of buffers is the checksum of the bytes of the chain, however they are cut
  into buffers, of odd or even length, at odd or even addresses.\<close>

theorem inet_chksum_pbuf_concat:
  assumes "\<forall>q \<in> set p. length (snd q) \<le> 0xffff"
  shows "inet_chksum_pbuf p = NOT (of_nat (fold16 (wsum (concat (map snd p)))))"
proof -
  obtain acc where r: "chksum_pbuf_loop p 0 False = (acc, odd (length (chain_bytes p)))"
    "unat acc = fold16 (par (odd (length (chain_bytes p))) * (0 + wsum (chain_bytes p)))"
    by (rule chksum_pbuf_loop_spec [of 0 "[]" 0 p False]) (use assms in simp_all)
  have "unat (if odd (length (chain_bytes p)) then SWAP_BYTES_IN_WORD acc else acc) = fold16 (wsum (chain_bytes p))"
    by (rule unswap) (use r(2) in simp)
  from not_low16 [OF this] show ?thesis unfolding inet_chksum_pbuf_def r(1) Let_def by simp
qed

theorem inet_chksum_pbuf_concat_witness:
  "inet_chksum_pbuf [(1000, [1, 2, 3]), (2001, [4, 5])] = NOT 0x0609"
  using inet_chksum_pbuf_concat [of "[(1000, [1, 2, 3]), (2001, [4, 5])]"] by (simp add: fold_oc_def)

section \<open>The pseudo header\<close>

text \<open>The pseudo header of TCP and UDP as it would lie in memory: the two addresses (held in network order),
  a zero byte, the protocol and the length in network order.\<close>

definition pseudo_header :: "u32 \<Rightarrow> u32 \<Rightarrow> u8 \<Rightarrow> u16 \<Rightarrow> u8 list" where
  "pseudo_header src dest proto len16 =
     le_bytes 4 (unat src) @ le_bytes 4 (unat dest) @ [0, proto] @ rev (le_bytes 2 (unat len16))"

lemma wsum_rev: "even (length bs) \<Longrightarrow> fold16 (wsum (rev bs)) = fold16 (256 * wsum bs)"
proof (induction bs rule: wsum.induct)
  case (3 a b bs)
  have "wsum (rev (a # b # bs)) = wsum (rev bs) + (unat b + 256 * unat a)"
    using 3(2) by (simp add: wsum_append_even)
  then have "fold16 (wsum (rev (a # b # bs))) = fold16 (256 * wsum bs + (unat b + 256 * unat a))"
    using fold_oc_cong [of 65535 "wsum (rev bs)" "256 * wsum bs" "unat b + 256 * unat a"] 3 by simp
  also have "\<dots> = fold16 (256 * wsum (a # b # bs))"
    using fold_oc_cong [OF _ fold16_shift, of "unat b" "256 * wsum bs + 256 * unat a"] by (simp add: algebra_simps)
  finally show ?case .
qed simp_all

lemma wsum_le_bytes: "n < 256 ^ k \<Longrightarrow> fold16 (wsum (le_bytes k n)) = fold16 n"
  using wsum_le_nat [of "le_bytes k n"] by (simp add: le_nat_le_bytes)

lemma wsum_be: "n < 256 ^ k \<Longrightarrow> even k \<Longrightarrow> fold16 (wsum (rev (le_bytes k n))) = fold16 (256 * n)"
  using wsum_rev [of "le_bytes k n"] wsum_le_bytes [of n k] fold_oc_mult [of 65535 "wsum (le_bytes k n)" n 256] by simp

lemma fold16_cong2: "fold16 a = fold16 a' \<Longrightarrow> fold16 b = fold16 b' \<Longrightarrow> fold16 (a + b) = fold16 (a' + b')"
  using fold_oc_cong [of 65535 a a' b] fold_oc_cong [of 65535 b b' a'] by (simp add: add.commute)

lemma wsum_pseudo_header:
  "fold16 (wsum (pseudo_header src dest proto len16)) = fold16 (unat src + unat dest + 256 * unat proto + 256 * unat len16)"
proof -
  have s: "fold16 (wsum (le_bytes 4 (unat x))) = fold16 (unat x)" for x :: u32
    by (rule wsum_le_bytes) simp
  have l: "fold16 (wsum (rev (le_bytes 2 (unat len16)))) = fold16 (256 * unat len16)"
    by (rule wsum_be) simp_all
  have "wsum (pseudo_header src dest proto len16) =
      wsum (le_bytes 4 (unat src)) + (wsum (le_bytes 4 (unat dest)) + (256 * unat proto + wsum (rev (le_bytes 2 (unat len16)))))"
    unfolding pseudo_header_def by (simp add: wsum_append_even)
  also have "fold16 \<dots> = fold16 (unat src + (unat dest + (256 * unat proto + 256 * unat len16)))"
    by (intro fold16_cong2 s l refl)
  finally show ?thesis by (simp only: add.assoc)
qed

lemma fold16_bswap16: "fold16 (unat (bswap16 x)) = fold16 (256 * unat x)"
  by (simp add: bswap16_fold fold_oc_dvd)

lemma fold16_bswap32: "fold16 (unat (bswap32 x)) = fold16 (256 * unat x)"
proof -
  have "fold16 (unat (bswap32 x)) = fold16 (wsum (rev (le_bytes 4 (unat x))))"
    unfolding bswap32_bytes by (rule wsum_le_nat)
  also have "\<dots> = fold16 (256 * unat x)" by (rule wsum_be) simp_all
  finally show ?thesis .
qed

text \<open>The last step of \<open>in_pseudo\<close>: one addition of the halves and one subtraction finish the reduction.\<close>

lemma finish16:
  fixes u :: "'a::len word"
  assumes w: "16 < LENGTH('a)" and b: "unat u mod 65536 + unat u div 65536 \<le> 131070"
  defines "v \<equiv> (u AND 0xffff) + drop_bit 16 u"
  shows "(ucast (if v > 0xffff then v - 0xffff else v) :: u16) = of_nat (fold16 (unat u))"
proof -
  have v: "unat v = unat u mod 65536 + unat u div 65536" unfolding v_def using w by (intro unat_fold_step) simp
  have f: "fold16 (unat v) = fold16 (unat u)" unfolding v by (rule fold16_split)
  have "(65536 :: nat) = 2 ^ 16" by simp
  also have "\<dots> < 2 ^ LENGTH('a)" using w by (rule power_strict_increasing) simp
  finally have m: "unat (0xffff :: 'a word) = 65535" using unat_of_nat_small [of 65535, where ?'a = 'a] by simp
  have "unat (if v > 0xffff then v - 0xffff else v) = fold16 (unat u)"
  proof (cases "v > 0xffff")
    case True
    then have g: "65535 < unat v" using m by (simp add: word_less_nat_alt)
    have "(0xffff :: 'a word) \<le> v" using True by simp
    then have "unat (v - 0xffff) = unat v - 65535" using unat_sub [of "0xffff" v] m by simp
    also have "\<dots> = fold16 (unat v)"
      using fold_oc_carry [of 65535 65535 "unat v - 65535"] g b v by simp
    finally show ?thesis using True f by simp
  next
    case False
    then have "unat v \<le> 65535" using m by (simp add: word_less_nat_alt)
    then show ?thesis using False f fold_oc_small [of "unat v" 65535] by simp
  qed
  then show ?thesis by (metis ucast_of_unat)
qed

lemma in_pseudo_spec: "in_pseudo a b c = of_nat (fold16 (unat a + unat b + unat c))"
proof -
  obtain s1 c1 where s1: "adc a b False = (s1, c1)" by force
  obtain s2 c2 where s2: "adc s1 c c1 = (s2, c2)" by force
  have "unat a + of_bool False < 2 ^ LENGTH(32)" by (simp only: of_bool_eq add_0_right) (rule unsigned_less)
  from adc_step [OF this s1] have e1: "unat s1 + of_bool c1 = fold_oc 4294967295 (unat a + unat b)" by simp
  then have "unat s1 + of_bool c1 < 2 ^ LENGTH(32)" by (intro carry_bound [of _ _ "unat a + unat b"]) simp
  from adc_step [OF this s2] e1 have e2: "unat s2 + of_bool c2 = fold_oc 4294967295 (unat a + unat b + unat c)"
    by (simp add: fold_oc_add_left)
  then have "unat s2 + of_bool c2 < 2 ^ LENGTH(32)" by (intro carry_bound [of _ _ "unat a + unat b + unat c"]) simp
  from adc_0 [OF this] e2 have e3: "unat (fst (adc s2 0 c2)) = fold_oc 4294967295 (unat a + unat b + unat c)" by simp
  let ?u = "fst (adc s2 0 c2)"
  have "unat ?u < 4294967296" by simp
  then have "unat ?u div 65536 < 65536" by (simp add: div_less_iff_less_mult)
  moreover have "unat ?u mod 65536 < 65536" by simp
  ultimately have "unat ?u mod 65536 + unat ?u div 65536 \<le> 131070" by linarith
  from finish16 [OF _ this] have "in_pseudo a b c = of_nat (fold16 (unat ?u))"
    unfolding in_pseudo_def s1 Let_def prod.case s2 by simp
  also have "fold16 (unat ?u) = fold16 (unat a + unat b + unat c)" unfolding e3 by (rule fold_oc_dvd) simp_all
  finally show ?thesis .
qed

lemma in_pseudo_c_spec: "in_pseudo_c a b c = of_nat (fold16 (unat a + unat b + unat c))"
proof -
  define s where "s = (ucast a + ucast b + ucast c :: u64)"
  have lt: "unat a < 4294967296" "unat b < 4294967296" "unat c < 4294967296" by simp_all
  have s: "unat s = unat a + unat b + unat c"
  proof -
    have l2: "unat a + unat b < 18446744073709551616" "unat a + unat b + unat c < 18446744073709551616"
      using lt by linarith+
    have "unat (ucast a + ucast b :: u64) = unat a + unat b"
      using l2(1) unat_add_small [of "ucast a :: u64" "ucast b"] by simp
    then show ?thesis using l2(2) unat_add_small [of "ucast a + ucast b :: u64" "ucast c"] by (simp add: s_def)
  qed
  define u where "u = (s AND 0xffffffff) + drop_bit 32 s"
  have m: "s AND 0xffffffff = take_bit 32 s" by (simp add: take_bit_eq_mask mask_eq_exp_minus_1)
  have hs: "unat s < 3 * 4294967296" using lt s by linarith
  then have hd: "unat s div 4294967296 \<le> 2" by (simp add: less_Suc_eq_le [symmetric] div_less_iff_less_mult)
  have u: "unat u = unat s mod 4294967296 + unat s div 4294967296"
  proof -
    have "unat s mod 4294967296 < 4294967296" by simp
    then have "unat s mod 4294967296 + unat s div 4294967296 < 18446744073709551616" using hd by linarith
    then show ?thesis unfolding u_def m using unat_add_small [of "take_bit 32 s" "drop_bit 32 s"]
      by (simp add: unat_take_bit unat_drop_bit)
  qed
  have ub: "unat u \<le> 4294967297" using u hd mod_less_divisor [of 4294967296 "unat s"] by linarith
  have "unat u mod 65536 + unat u div 65536 \<le> 131070"
  proof (cases "unat u < 4294967296")
    case True
    then have "unat u div 65536 < 65536" by (simp add: div_less_iff_less_mult)
    moreover have "unat u mod 65536 < 65536" by simp
    ultimately show ?thesis by linarith
  next
    case False
    then have "unat u = 4294967296 \<or> unat u = 4294967297" using ub by linarith
    then show ?thesis by auto
  qed
  from finish16 [OF _ this] have "in_pseudo_c a b c = of_nat (fold16 (unat u))"
    unfolding in_pseudo_c_def Let_def s_def [symmetric] u_def [symmetric] by simp
  also have "fold16 (unat u) = fold16 (unat s)"
  proof -
    have "fold16 (4294967296 * (unat s div 4294967296)) = fold16 (unat s div 4294967296)"
      using fold16_shift [of "65536 * (unat s div 4294967296)"] fold16_shift [of "unat s div 4294967296"] by simp
    from fold_oc_cong [OF _ this, of "unat s mod 4294967296"] show ?thesis unfolding u by (simp add: add.commute)
  qed
  finally show ?thesis by (simp only: s)
qed

text \<open>C22. The value the stack leaves in the checksum field for the card to complete is the one's complement sum
  of the pseudo header, and the assembly and the C version of \<open>in_pseudo\<close> agree on all inputs.\<close>

theorem inet_chksum_pseudo_header:
  "inet_chksum_pseudo tot_len proto src dest = of_nat (fold16 (wsum (pseudo_header src dest proto tot_len))) \<and>
   in_pseudo a b c = in_pseudo_c a b c"
proof
  have v: "unat (ucast proto + ucast tot_len :: u32) = unat proto + unat tot_len"
  proof -
    have p: "unat (ucast proto :: u32) = unat proto" "unat (ucast tot_len :: u32) = unat tot_len"
      by (rule unat_ucast_up; simp)+
    have "unat proto + unat tot_len < 4294967296" using unat_lt8 [of proto] unat_lt16 [of tot_len] by linarith
    then show ?thesis using p unat_add_small [of "ucast proto :: u32" "ucast tot_len"] by simp
  qed
  have "fold16 (unat (hton32 (ucast proto + ucast tot_len)) + (unat src + unat dest)) =
      fold16 (256 * (unat proto + unat tot_len) + (unat src + unat dest))"
    unfolding hton32_def v [symmetric] by (intro fold_oc_cong fold16_bswap32) simp
  also have "\<dots> = fold16 (wsum (pseudo_header src dest proto tot_len))"
    unfolding wsum_pseudo_header by (simp add: algebra_simps)
  finally show "inet_chksum_pseudo tot_len proto src dest = of_nat (fold16 (wsum (pseudo_header src dest proto tot_len)))"
    unfolding inet_chksum_pseudo_def in_pseudo_spec by (simp add: ac_simps)
  show "in_pseudo a b c = in_pseudo_c a b c" by (simp only: in_pseudo_spec in_pseudo_c_spec)
qed

section \<open>The checksum of part of a segment\<close>

lemma chksum_partial_loop_stop: "chksum_partial_loop p 0 acc sw = (acc, sw)"
  by (cases p) auto

lemma chksum_partial_loop_spec:
  assumes "unat acc = fold16 (par (odd (length pre)) * (base + wsum pre))" "chain_ok p" "sw = odd (length pre)"
  obtains acc' sw' where "chksum_partial_loop p n acc sw = (acc', sw')"
    "unat acc' = fold16 (par sw' * (base + wsum (pre @ take (unat n) (chain_bytes p))))"
  using assms
proof (induction p n acc sw arbitrary: pre thesis rule: chksum_partial_loop.induct)
  case (2 payload bs q n acc sw)
  show ?case
  proof (cases "n = 0")
    case True
    then show ?thesis using 2(4,6) by (intro 2(3) [of acc sw]) simp_all
  next
    case n0: False
    have len: "length bs \<le> 0xffff" using 2(5) by simp
    define cl where "cl = (if of_nat (length bs) > n then n else of_nat (length bs))"
    have ul: "unat (of_nat (length bs) :: u16) = length bs" using len by (intro unat_of_nat_small) simp
    then have cl: "unat cl = min (length bs) (unat n)" by (auto simp: cl_def word_less_nat_alt)
    then have nx: "unat (n - cl) = unat n - length bs"
      using unat_sub [of cl n] by (auto simp: word_le_nat_alt)
    let ?bs = "take (unat cl) bs"
    let ?a = "FOLD_U32T (acc + ucast (lwip_standard_chksum payload ?bs))"
    have tk: "?bs = take (unat n) bs" using cl by (simp add: min_def)
    have len': "length ?bs \<le> 0xffff" using len by simp
    note st = chain_step [OF 2(4) len', of payload]
    have ok: "chain_ok q" using 2(5) by simp
    have body: "chksum_partial_loop ((payload, bs) # q) n acc sw =
        (if length bs mod 2 \<noteq> 0 then chksum_partial_loop q (n - cl) (SWAP_BYTES_IN_WORD ?a) (\<not> sw)
         else chksum_partial_loop q (n - cl) ?a sw)"
      using n0 by (simp add: cl_def Let_def)
    define sw1 where "sw1 = (if length bs mod 2 \<noteq> 0 then \<not> sw else sw)"
    define a1 where "a1 = (if length bs mod 2 \<noteq> 0 then SWAP_BYTES_IN_WORD ?a else ?a)"
    have a1: "unat a1 = fold16 (par sw1 * (base + wsum (pre @ ?bs)))"
      using st 2(6) by (auto simp: a1_def sw1_def)
    have body': "chksum_partial_loop ((payload, bs) # q) n acc sw = chksum_partial_loop q (n - cl) a1 sw1"
      unfolding body a1_def sw1_def by simp
    show ?thesis
    proof (cases "unat n \<le> length bs")
      case True
      then have "unat (n - cl) = 0" using nx by simp
      then have "n - cl = 0" by (simp only: unat_eq_zero)
      then have "chksum_partial_loop ((payload, bs) # q) n acc sw = (a1, sw1)"
        unfolding body' by (simp only: chksum_partial_loop_stop)
      then show ?thesis using a1 True tk by (intro 2(3) [of a1 sw1]) simp_all
    next
      case False
      then have f: "?bs = bs" using tk by simp
      have o: "sw1 = odd (length (pre @ bs))" unfolding sw1_def 2(6)
        by (simp only: length_append even_add) (simp add: odd_iff_mod_2_eq_one [of "length bs"])
      have a1': "unat a1 = fold16 (par (odd (length (pre @ bs))) * (base + wsum (pre @ bs)))"
        using a1 unfolding f o .
      obtain acc' sw' where r: "chksum_partial_loop q (n - cl) a1 sw1 = (acc', sw')"
        "unat acc' = fold16 (par sw' * (base + wsum ((pre @ bs) @ take (unat (n - cl)) (chain_bytes q))))"
      proof (cases "length bs mod 2 \<noteq> 0")
        case t: True
        show ?thesis by (rule 2(1) [OF n0 refl cl_def refl t _ a1' [unfolded a1_def if_P [OF t]] ok])
           (use that o t in \<open>auto simp: a1_def sw1_def\<close>)
      next
        case t: False
        show ?thesis by (rule 2(2) [OF n0 refl cl_def refl t _ a1' [unfolded a1_def if_not_P [OF t]] ok])
           (use that o t in \<open>auto simp: a1_def sw1_def\<close>)
      qed
      have "(pre @ bs) @ take (unat (n - cl)) (chain_bytes q) = pre @ take (unat n) (chain_bytes ((payload, bs) # q))"
        using nx False by simp
      with r(2) have "unat acc' = fold16 (par sw' * (base + wsum (pre @ take (unat n) (chain_bytes ((payload, bs) # q)))))"
        by (simp only:)
      then show ?thesis using r(1) body' by (intro 2(3) [of acc' sw']) (simp_all only:)
    qed
  qed
qed simp

lemma fold_halves: "fold16 (unat x mod 65536 + unat x div 65536) = fold16 (unat x)"
  by (rule fold16_split)

lemma addr_sum:
  fixes src dest :: u32
  shows "unat ((src AND 0xffff) + (drop_bit 16 src AND 0xffff) + (dest AND 0xffff) + (drop_bit 16 dest AND 0xffff)) =
    unat src mod 65536 + unat src div 65536 + unat dest mod 65536 + unat dest div 65536"
proof -
  have lo: "unat (x AND 0xffff) = unat x mod 65536" for x :: u32 by (simp add: and_ffff unat_take_bit)
  have hi: "unat (drop_bit 16 x AND 0xffff) = unat x div 65536" for x :: u32
  proof -
    have "unat x < 4294967296" by simp
    then have "unat x div 65536 < 65536" by (simp add: div_less_iff_less_mult)
    then show ?thesis by (simp add: and_ffff unat_take_bit unat_drop_bit)
  qed
  have b: "unat (x AND 0xffff) < 65536" for x :: u32 unfolding lo by simp
  note bs = b [of src] b [of "drop_bit 16 src"] b [of dest] b [of "drop_bit 16 dest"]
  have s1: "unat ((src AND 0xffff) + (drop_bit 16 src AND 0xffff)) = unat (src AND 0xffff) + unat (drop_bit 16 src AND 0xffff)"
    by (rule unat_add_small) (use bs in simp)
  have s2: "unat ((src AND 0xffff) + (drop_bit 16 src AND 0xffff) + (dest AND 0xffff)) =
      unat ((src AND 0xffff) + (drop_bit 16 src AND 0xffff)) + unat (dest AND 0xffff)"
    by (rule unat_add_small) (use s1 bs in simp)
  have "unat ((src AND 0xffff) + (drop_bit 16 src AND 0xffff) + (dest AND 0xffff) + (drop_bit 16 dest AND 0xffff)) =
      unat ((src AND 0xffff) + (drop_bit 16 src AND 0xffff) + (dest AND 0xffff)) + unat (drop_bit 16 dest AND 0xffff)"
    by (rule unat_add_small) (use s1 s2 bs in simp)
  then show ?thesis by (simp only: s2 s1 hi) (simp only: lo)
qed

lemma inet_chksum_pseudo_partial_spec:
  assumes "chain_ok p"
  shows "inet_chksum_pseudo_partial p proto proto_len n src dest =
    NOT (of_nat (fold16 (wsum (pseudo_header src dest proto proto_len @ take (unat n) (chain_bytes p)))))"
proof -
  let ?A = "unat src mod 65536 + unat src div 65536 + unat dest mod 65536 + unat dest div 65536"
  let ?acc0 = "FOLD_U32T (FOLD_U32T ((src AND 0xffff) + (drop_bit 16 src AND 0xffff) + (dest AND 0xffff) + (drop_bit 16 dest AND 0xffff)))"
  let ?W = "wsum (take (unat n) (chain_bytes p))"
  have a0: "unat ?acc0 = fold16 (par (odd (length [])) * (?A + wsum []))" by (simp only: FOLD_twice addr_sum) simp
  have o: "False = odd (length ([] :: u8 list))" by simp
  obtain acc sw where l: "chksum_partial_loop p n ?acc0 False = (acc, sw)"
    "unat acc = fold16 (par sw * (?A + wsum ([] @ take (unat n) (chain_bytes p))))"
    by (rule chksum_partial_loop_spec [OF a0 assms o])
  let ?u = "if sw then SWAP_BYTES_IN_WORD acc else acc"
  have u: "unat ?u = fold16 (?A + ?W)" by (rule unswap) (use l(2) in simp)
  let ?v = "?u + ucast (hton16 (ucast proto)) + ucast (hton16 proto_len)"
  have v: "unat ?v = fold16 (?A + ?W) + unat (hton16 (ucast proto)) + unat (hton16 proto_len)"
  proof -
    note b = fold16_le [of "?A + ?W"] unat_lt16 [of "hton16 (ucast proto)"] unat_lt16 [of "hton16 proto_len"]
    have b1: "fold16 (?A + ?W) + unat (hton16 (ucast proto)) < 4294967296" using b by linarith
    have b2: "fold16 (?A + ?W) + unat (hton16 (ucast proto)) + unat (hton16 proto_len) < 4294967296" using b by linarith
    have "unat (?u + ucast (hton16 (ucast proto))) = unat ?u + unat (ucast (hton16 (ucast proto)) :: u32)"
      by (rule unat_add_small) (use b1 u in \<open>simp add: unat_ucast16_32\<close>)
    then have v1: "unat (?u + ucast (hton16 (ucast proto))) = fold16 (?A + ?W) + unat (hton16 (ucast proto))"
      unfolding u unat_ucast16_32 .
    have "unat ?v = unat (?u + ucast (hton16 (ucast proto))) + unat (ucast (hton16 proto_len) :: u32)"
      by (rule unat_add_small) (use b2 v1 in \<open>simp add: unat_ucast16_32\<close>)
    then show ?thesis unfolding v1 unat_ucast16_32 .
  qed
  have pr: "unat (ucast proto :: u16) = unat proto" by (rule unat_ucast_up) simp
  have A: "fold16 ?A = fold16 (unat src + unat dest)"
    using fold16_cong2 [OF fold_halves fold_halves, of src dest] by (simp add: add.assoc)
  have "fold16 (unat ?v) = fold16 (unat src + unat dest + ?W + 256 * unat proto + 256 * unat proto_len)"
    unfolding v
    by (intro fold16_cong2) (simp_all add: fold_oc_dvd hton16_def fold16_bswap16 pr fold16_cong2 [OF A])
  also have "\<dots> = fold16 (unat src + unat dest + 256 * unat proto + 256 * unat proto_len + ?W)" by (simp add: ac_simps)
  also have "\<dots> = fold16 (wsum (pseudo_header src dest proto proto_len) + ?W)"
    by (rule fold16_cong2) (simp_all only: wsum_pseudo_header)
  also have "\<dots> = fold16 (wsum (pseudo_header src dest proto proto_len @ take (unat n) (chain_bytes p)))"
    by (simp add: wsum_append_even pseudo_header_def add.assoc)
  finally have "unat (FOLD_U32T (FOLD_U32T ?v)) =
      fold16 (wsum (pseudo_header src dest proto proto_len @ take (unat n) (chain_bytes p)))" unfolding FOLD_twice .
  from not_low16 [OF this] show ?thesis
    unfolding inet_chksum_pseudo_partial_def inet_cksum_pseudo_partial_base_def Let_def l(1) prod.case .
qed

section \<open>A checksum in place verifies\<close>

lemma unat_not16: "unat (NOT x) = 65535 - unat x" for x :: u16
proof -
  have "NOT x = of_nat (65535 - unat x)"
  proof -
    have "unat x \<le> 65535" using unat_lt16 [of x] by linarith
    then have "(of_nat (65535 - unat x) :: u16) = of_nat 65535 - of_nat (unat x)" by (simp only: of_nat_diff)
    also have "\<dots> = - 1 - x" by simp
    also have "\<dots> = NOT x" by (simp add: not_eq_complement)
    finally show ?thesis by simp
  qed
  then show ?thesis by (simp only:) (rule unat_of_nat_small, simp)
qed

lemma chksum_internet_verifies:
  assumes "even k" "k + 2 \<le> length bs" "length bs < 2147483648"
  shows "chksum_internet (put k (le_bytes 2 (unat (chksum_internet (put k [0, 0] bs)))) bs) = 0"
proof -
  let ?z = "put k [0, 0] bs" let ?c = "chksum_internet ?z" let ?d = "put k (le_bytes 2 (unat ?c)) bs"
  let ?s = "wsum (take k bs) + wsum (drop (k + 2) bs)"
  have e: "even (length (take k bs))" using assms by simp
  have z: "wsum ?z = ?s" unfolding put_def using e by (simp add: wsum_append_even)
  have "wsum (le_bytes 2 (unat ?c)) = le_nat (le_bytes 2 (unat ?c))" by (simp add: numeral_2_eq_2)
  also have "\<dots> = unat ?c" by (simp add: le_nat_le_bytes)
  finally have d: "wsum ?d = ?s + unat ?c" unfolding put_def using e by (simp add: wsum_append_even)
  have ln: "length ?z < 2147483648" "length ?d < 2147483648" using assms(2,3) by (simp_all add: put_def)
  have "?c = NOT (of_nat (fold16 ?s))" using chksum_internet_spec [OF ln(1)] z by simp
  moreover have "unat (of_nat (fold16 ?s) :: u16) = fold16 ?s"
    using fold16_le [of ?s] by (intro unat_of_nat_small) simp
  ultimately have c: "unat ?c = 65535 - fold16 ?s"
    by (simp only: unat_not16)
  have "fold16 (?s + unat ?c) = fold16 (fold16 ?s + unat ?c)" by (simp add: fold_oc_add_left)
  also have "\<dots> = 65535" using c fold16_le [of ?s] by (simp add: fold_oc_small)
  finally have "chksum_internet ?d = NOT (of_nat 65535)" using chksum_internet_spec [OF ln(2)] d by simp
  then show ?thesis by simp
qed

end
