(* ===== verification/NetState.thy ===== *)
theory NetState
  imports ByteOrder Mempool TimerWheel
begin

text \<open>
  The state of the network stack and its lowest layers: packet buffers (\<open>inc/ix/mbuf.h\<close>,
  \<open>core/mbuf.c\<close>), the hash functions of \<open>inc/ix/hash.h\<close>, spin locks as seen by one core
  (\<open>inc/ix/lock.h\<close>) and the lists of functions to run on another core (\<open>core/cpu.c\<close>).

  DPDK and \<open>malloc\<close> are the fields of \<open>net_env\<close>, over the state \<open>'w\<close> that the memory pools also
  use.  The contents of a packet buffer are part of the model; the device gets them when a
  packet is handed over.  The intrusive lists of the ARP table are the lists that
  \<open>hlist_rep\<close> of \<open>IxList\<close> relates to the linked nodes.
\<close>

unbundle bit_operations_syntax

section \<open>Packet buffers\<close>

text \<open>\<open>mb_data\<close> are the bytes from \<open>buf_addr + data_off\<close> to the end of the buffer.\<close>

record rte_mbuf =
  mb_data :: "u8 list"
  data_len :: u16
  pkt_len :: u32
  ol_flags :: u64
  l2_len :: nat
  l3_len :: nat

record 'w net_env =
  net_dpdk :: "'w dpdk"
  rte_pktmbuf_alloc :: "ptr option \<Rightarrow> 'w \<Rightarrow> ptr option \<times> 'w"
  rte_pktmbuf_free :: "ptr \<Rightarrow> 'w \<Rightarrow> 'w"
  rte_eth_tx_buffer :: "nat \<Rightarrow> ptr \<Rightarrow> rte_mbuf \<Rightarrow> 'w \<Rightarrow> int \<times> 'w"
  malloc_runner :: "'w \<Rightarrow> bool \<times> 'w"
  PKT_TX_IP_CKSUM :: u64
  PKT_TX_TCP_CKSUM :: u64
  PKT_TX_IPV4 :: u64

record net_cfg =
  cfg_host_addr :: u32
  cfg_gateway_addr :: u32
  cfg_mask :: u32
  cfg_mac :: "u8 list"

record arp_entry =
  ae_addr :: u32
  ae_mac :: "u8 list"
  ae_flags :: u8
  ae_retries :: u8
  pending_pkts :: "ptr list"

record pending_pkt =
  pp_dst_addr :: u32
  pp_fg :: ptr
  pp_mbuf :: ptr
  pp_len :: int
  pp_cpu :: u32
  pp_dispatched :: bool

text \<open>A runner is a function, here its number, and its argument.\<close>

record 'w net_state =
  mbufs :: "ptr \<Rightarrow> rte_mbuf"
  mbuf_mempool :: mempool
  arp_tbl :: "nat \<Rightarrow> ptr list"
  arp_entries :: "ptr \<Rightarrow> arp_entry"
  arp_mempool :: mempool
  pendings :: "ptr \<Rightarrow> pending_pkt"
  pending_pkt_mempool :: mempool
  arp_lock :: bool
  pending_pkt_lock :: bool
  arp_send_pkt_lock :: bool
  net_tm :: "unit timer_state"
  net_tw :: ptr
  net_mp :: "'w mp_state"
  runlists :: "u32 \<Rightarrow> (nat \<times> ptr) list"
  cpu_count :: u32
  cpu_id :: u32

definition net_world :: "'w net_state \<Rightarrow> 'w" where "net_world s = mp_world (net_mp s)"

definition set_net_world :: "'w \<Rightarrow> 'w net_state \<Rightarrow> 'w net_state" where
  "set_net_world w s = s\<lparr>net_mp := (net_mp s)\<lparr>mp_world := w\<rparr>\<rparr>"

definition upd_mbuf :: "ptr \<Rightarrow> (rte_mbuf \<Rightarrow> rte_mbuf) \<Rightarrow> 'w net_state \<Rightarrow> 'w net_state" where
  "upd_mbuf p f s = s\<lparr>mbufs := (mbufs s)(p := f (mbufs s p))\<rparr>"

definition mbuf_enough_space :: "rte_mbuf \<Rightarrow> nat \<Rightarrow> nat \<Rightarrow> bool" where
  "mbuf_enough_space m pos sz \<longleftrightarrow> pos + sz \<le> unat (data_len m)"

definition mbuf_alloc :: "'w net_env \<Rightarrow> mempool \<Rightarrow> 'w net_state \<Rightarrow> ptr option \<times> 'w net_state" where
  "mbuf_alloc E pool s =
     (case rte_pktmbuf_alloc E (ds_pool (dss (net_mp s) (m_datastore pool))) (net_world s) of
        (None, w) \<Rightarrow> (None, set_net_world w s)
      | (Some p, w) \<Rightarrow> (Some p, upd_mbuf p (\<lambda>m. m\<lparr>data_len := 0, pkt_len := 0\<rparr>) (set_net_world w s)))"

definition mbuf_alloc_local :: "'w net_env \<Rightarrow> 'w net_state \<Rightarrow> ptr option \<times> 'w net_state" where
  "mbuf_alloc_local E s = mbuf_alloc E (mbuf_mempool s) s"

definition mbuf_free :: "'w net_env \<Rightarrow> ptr \<Rightarrow> 'w net_state \<Rightarrow> 'w net_state" where
  "mbuf_free E p s = set_net_world (rte_pktmbuf_free E p (net_world s)) s"

text \<open>Handing a packet to the device queue \<open>q\<close>.\<close>

definition tx_buffer :: "'w net_env \<Rightarrow> nat \<Rightarrow> ptr \<Rightarrow> 'w net_state \<Rightarrow> int \<times> 'w net_state" where
  "tx_buffer E q p s =
     (case rte_eth_tx_buffer E q p (mbufs s p) (net_world s) of (ret, w) \<Rightarrow> (ret, set_net_world w s))"

definition MBUF_DATA_LEN :: nat where "MBUF_DATA_LEN = 9000"
definition MBUF_CAPACITY :: int where "MBUF_CAPACITY = 20480"

text \<open>\<open>RTE_PKTMBUF_HEADROOM\<close> is a build option of DPDK.\<close>

definition mbuf_init :: "'w dpdk \<Rightarrow> nat \<Rightarrow> ptr \<Rightarrow> 'w mp_state \<Rightarrow> (int \<times> 'w mp_state) option" where
  "mbuf_init E headroom mds s = do {
     (ret, s) \<leftarrow> mempool_create_mbuf_datastore E mds MBUF_CAPACITY (of_nat (MBUF_DATA_LEN + headroom)) ''mbuf'' s;
     if ret \<noteq> 0 then None else Some (0, s)
   }"

definition mbuf_init_cpu :: "mempool \<Rightarrow> ptr \<Rightarrow> int \<Rightarrow> 'w mp_state \<Rightarrow> (int \<times> mempool) option" where
  "mbuf_init_cpu m mds cpu s = mempool_create m mds MEMPOOL_SANITY_PERCPU cpu s"

section \<open>Hash functions\<close>

text \<open>The CRC-32C instructions take a bit at a time, the lowest first, with the polynomial reflected.\<close>

definition crc32c_bit :: "bool \<Rightarrow> u32 \<Rightarrow> u32" where
  "crc32c_bit b crc =
     (if bit crc 0 \<noteq> b then drop_bit 1 crc XOR 0x82F63B78 else drop_bit 1 crc)"

definition mm_crc32_u64 :: "u32 \<Rightarrow> u64 \<Rightarrow> u32" where
  "mm_crc32_u64 crc v = fold (\<lambda>i. crc32c_bit (bit v i)) [0..<64] crc"

definition hash_crc32c_one :: "u32 \<Rightarrow> u64 \<Rightarrow> u32" where
  "hash_crc32c_one seed v = mm_crc32_u64 seed v"

definition hash_crc32c_two :: "u32 \<Rightarrow> u64 \<Rightarrow> u64 \<Rightarrow> u32" where
  "hash_crc32c_two seed a b = mm_crc32_u64 (mm_crc32_u64 seed a) b"

definition HASH_CITY_K2 :: u64 where "HASH_CITY_K2 = 0x9ae16a3b2f90404f"

definition hash_city_len16 :: "u64 \<Rightarrow> u64 \<Rightarrow> u64 \<Rightarrow> u64" where
  "hash_city_len16 u v mul =
     (let a = (u XOR v) * mul;
          a = a XOR drop_bit 47 a;
          b = (v XOR a) * mul;
          b = b XOR drop_bit 47 b
      in b * mul)"

definition hash_city_rotate :: "u64 \<Rightarrow> nat \<Rightarrow> u64" where
  "hash_city_rotate v shift = drop_bit shift v OR push_bit (64 - shift) v"

definition hash_city_one :: "u64 \<Rightarrow> u64" where
  "hash_city_one v =
     (let mul = HASH_CITY_K2 + 16;
          a = v + HASH_CITY_K2;
          b = v;
          c = hash_city_rotate b 37 * mul + a;
          d = (hash_city_rotate a 25 + b) * mul
      in hash_city_len16 c d mul)"

definition hash_city_two :: "u64 \<Rightarrow> u64 \<Rightarrow> u64" where
  "hash_city_two val_a val_b =
     (let mul = HASH_CITY_K2 + 32;
          a = val_a + HASH_CITY_K2;
          b = val_b;
          c = hash_city_rotate b 37 * mul + a;
          d = (hash_city_rotate a 25 + b) * mul
      in hash_city_len16 c d mul)"

section \<open>Functions for another core\<close>

definition cpu_run_on_one :: "'w net_env \<Rightarrow> nat \<Rightarrow> ptr \<Rightarrow> u32 \<Rightarrow> 'w net_state \<Rightarrow> int \<times> 'w net_state" where
  "cpu_run_on_one E func dat cpu s =
     (if cpu \<ge> cpu_count s then (- EINVAL, s)
      else case malloc_runner E (net_world s) of
             (False, w) \<Rightarrow> (- ENOMEM, set_net_world w s)
           | (True, w) \<Rightarrow>
               (0, (set_net_world w s)\<lparr>runlists := (runlists s)(cpu := (func, dat) # runlists s cpu)\<rparr>))"

text \<open>The runners detached from the list run in its order, the last one added first.\<close>

fun run_runners :: "(nat \<Rightarrow> ptr \<Rightarrow> 'w net_state \<Rightarrow> 'w net_state option) \<Rightarrow> (nat \<times> ptr) list \<Rightarrow>
    'w net_state \<Rightarrow> 'w net_state option" where
  "run_runners F [] s = Some s"
| "run_runners F ((func, dat) # rs) s = do { s \<leftarrow> F func dat s; run_runners F rs s }"

definition cpu_do_bookkeeping ::
  "(nat \<Rightarrow> ptr \<Rightarrow> 'w net_state \<Rightarrow> 'w net_state option) \<Rightarrow> 'w net_state \<Rightarrow> 'w net_state option" where
  "cpu_do_bookkeeping F s =
     run_runners F (runlists s (cpu_id s)) (s\<lparr>runlists := (runlists s)(cpu_id s := [])\<rparr>)"

end
