(* ===== verification/Arp.thy ===== *)
theory Arp
  imports NetState
begin

text \<open>
  Address resolution, \<open>net/arp.c\<close>: the table of entries hashed by address, the packets that wait for
  an address, the requests and replies, and the timer that retires an entry.  Packets are byte
  lists; the offsets are those of the packed structures \<open>eth_hdr\<close>, \<open>lwip_arp_hdr\<close> and
  \<open>arp_hdr_ethip\<close>.  \<open>None\<close> means that the call does not return: a lock that is never released, or
  a failed assertion of the timer code.
\<close>

unbundle bit_operations_syntax

section \<open>Constants and layout\<close>

definition ETHTYPE_IP :: u16 where "ETHTYPE_IP = 0x0800"
definition ETHTYPE_ARP :: u16 where "ETHTYPE_ARP = 0x0806"
definition ARP_HTYPE_ETHER :: u16 where "ARP_HTYPE_ETHER = 1"
definition ARP_OP_REQUEST :: u16 where "ARP_OP_REQUEST = 1"
definition ARP_OP_REPLY :: u16 where "ARP_OP_REPLY = 2"
definition ETH_ADDR_BROADCAST :: "u8 list" where "ETH_ADDR_BROADCAST = replicate 6 0xFF"
definition ETH_ADDR_GROUP :: u8 where "ETH_ADDR_GROUP = 1"

definition ARP_FLAG_RESOLVING :: u8 where "ARP_FLAG_RESOLVING = 1"
definition ARP_FLAG_VALID :: u8 where "ARP_FLAG_VALID = 2"
definition ARP_FLAG_STATIC :: u8 where "ARP_FLAG_STATIC = 4"
definition ARP_REFRESH_TIMEOUT :: u64 where "ARP_REFRESH_TIMEOUT = 10000000"
definition ARP_RESOLVE_TIMEOUT :: u64 where "ARP_RESOLVE_TIMEOUT = 1000000"
definition ARP_MAX_ATTEMPTS :: u8 where "ARP_MAX_ATTEMPTS = 3"
definition ARP_MAX_ENTRIES :: int where "ARP_MAX_ENTRIES = 65536"
definition ARP_HASH_SEED :: u32 where "ARP_HASH_SEED = 0xa36bdcbe"
definition MAX_PENDING_PKTS :: int where "MAX_PENDING_PKTS = 1024"

definition ETH_HDR_LEN :: nat where "ETH_HDR_LEN = 14"
definition ARP_HDR_LEN :: nat where "ARP_HDR_LEN = 8"
definition ARP_ETHIP_LEN :: nat where "ARP_ETHIP_LEN = 20"
definition ARP_PKT_SIZE :: nat where "ARP_PKT_SIZE = ETH_HDR_LEN + ARP_HDR_LEN + ARP_ETHIP_LEN"

lemmas arp_consts = ETHTYPE_IP_def ETHTYPE_ARP_def ARP_HTYPE_ETHER_def ARP_OP_REQUEST_def ARP_OP_REPLY_def
  ETH_ADDR_BROADCAST_def ETH_ADDR_GROUP_def ARP_FLAG_RESOLVING_def ARP_FLAG_VALID_def ARP_FLAG_STATIC_def
  ARP_REFRESH_TIMEOUT_def ARP_RESOLVE_TIMEOUT_def ARP_MAX_ATTEMPTS_def ETH_HDR_LEN_def ARP_HDR_LEN_def
  ARP_ETHIP_LEN_def ARP_PKT_SIZE_def

text \<open>The numbers of the timer handlers (0 is the null pointer) and of the function run on another core.\<close>

definition ARP_TIMER_HANDLER :: nat where "ARP_TIMER_HANDLER = 1"
definition SEND_PENDING_PKT :: nat where "SEND_PENDING_PKT = 1"

definition eth_addr_is_multicast :: "u8 list \<Rightarrow> bool" where
  "eth_addr_is_multicast mac \<longleftrightarrow> hd mac AND ETH_ADDR_GROUP \<noteq> 0"

definition eth_addr_is_zero :: "u8 list \<Rightarrow> bool" where
  "eth_addr_is_zero mac \<longleftrightarrow> (\<forall>b \<in> set mac. b = 0)"

section \<open>The table\<close>

definition arp_ip_to_idx :: "u32 \<Rightarrow> nat" where
  "arp_ip_to_idx addr = unat (hash_crc32c_one ARP_HASH_SEED (ucast addr) AND 0xffff)"

definition upd_arp :: "ptr \<Rightarrow> (arp_entry \<Rightarrow> arp_entry) \<Rightarrow> 'w net_state \<Rightarrow> 'w net_state" where
  "upd_arp e f s = s\<lparr>arp_entries := (arp_entries s)(e := f (arp_entries s e))\<rparr>"

definition upd_pending :: "ptr \<Rightarrow> (pending_pkt \<Rightarrow> pending_pkt) \<Rightarrow> 'w net_state \<Rightarrow> 'w net_state" where
  "upd_pending p f s = s\<lparr>pendings := (pendings s)(p := f (pendings s p))\<rparr>"

definition arp_find :: "nat \<Rightarrow> u32 \<Rightarrow> 'w net_state \<Rightarrow> ptr option" where
  "arp_find h addr s = List.find (\<lambda>e. ae_addr (arp_entries s e) = addr) (arp_tbl s h)"

definition arp_alloc :: "'w net_env \<Rightarrow> 'w net_state \<Rightarrow> ptr option \<times> 'w net_state" where
  "arp_alloc E s = (case mempool_alloc (net_dpdk E) (arp_mempool s) (net_mp s) of (e, mp) \<Rightarrow> (e, s\<lparr>net_mp := mp\<rparr>))"

text \<open>Linking a fresh entry at the head of its bucket.  The list of waiting packets is not initialised.\<close>

definition arp_link :: "ptr \<Rightarrow> nat \<Rightarrow> u32 \<Rightarrow> u8 \<Rightarrow> nat \<Rightarrow> 'w net_state \<Rightarrow> 'w net_state" where
  "arp_link e h addr flags hnd s =
     (let s = upd_arp e (\<lambda>a. a\<lparr>ae_addr := addr, ae_flags := flags, ae_retries := 0\<rparr>) s;
          s = s\<lparr>net_tm := timer_init_entry e hnd (net_tm s)\<rparr>
      in s\<lparr>arp_tbl := (arp_tbl s)(h := e # arp_tbl s h)\<rparr>)"

definition arp_lookup :: "'w net_env \<Rightarrow> u32 \<Rightarrow> bool \<Rightarrow> 'w net_state \<Rightarrow> (ptr option \<times> 'w net_state) option" where
  "arp_lookup E addr create_okay s =
     (let h = arp_ip_to_idx addr
      in case arp_find h addr s of
           Some e \<Rightarrow> Some (Some e, s)
         | None \<Rightarrow>
             if \<not> create_okay then Some (None, s)
             else if arp_lock s then None
             else
               let s = s\<lparr>arp_lock := True\<rparr>
               in case arp_find h addr s of
                    Some e \<Rightarrow> Some (Some e, s\<lparr>arp_lock := False\<rparr>)
                  | None \<Rightarrow>
                      (case arp_alloc E s of
                         (None, s) \<Rightarrow> Some (None, s)
                       | (Some e, s) \<Rightarrow>
                           Some (Some e, (arp_link e h addr 0 ARP_TIMER_HANDLER s)\<lparr>arp_lock := False\<rparr>)))"

section \<open>Waiting packets\<close>

text \<open>\<open>dispatch_loop\<close> hands every packet not yet dispatched to the core it was queued on.\<close>

fun dispatch_loop :: "'w net_env \<Rightarrow> ptr list \<Rightarrow> 'w net_state \<Rightarrow> 'w net_state" where
  "dispatch_loop E [] s = s"
| "dispatch_loop E (p # ps) s =
     (if pp_dispatched (pendings s p) then dispatch_loop E ps s
      else
        let (_, s) = cpu_run_on_one E SEND_PENDING_PKT p (pp_cpu (pendings s p)) s
        in dispatch_loop E ps (upd_pending p (\<lambda>k. k\<lparr>pp_dispatched := True\<rparr>) s))"

definition net_timer_mod :: "ptr \<Rightarrow> u64 \<Rightarrow> u64 \<Rightarrow> 'w net_state \<Rightarrow> 'w net_state option" where
  "net_timer_mod e usecs tsc_us s =
     map_option (\<lambda>(_, tm). s\<lparr>net_tm := tm\<rparr>) (timer_mod (net_tw s) e None usecs tsc_us (net_tm s))"

definition net_timer_add :: "ptr \<Rightarrow> u64 \<Rightarrow> u64 \<Rightarrow> 'w net_state \<Rightarrow> 'w net_state option" where
  "net_timer_add e usecs tsc_us s =
     map_option (\<lambda>(_, tm). s\<lparr>net_tm := tm\<rparr>) (timer_add (net_tw s) e None usecs tsc_us (net_tm s))"

definition arp_update_mac ::
  "'w net_env \<Rightarrow> u64 \<Rightarrow> u32 \<Rightarrow> u8 list \<Rightarrow> bool \<Rightarrow> 'w net_state \<Rightarrow> (int \<times> 'w net_state) option" where
  "arp_update_mac E tsc_us addr mac create_okay s = do {
     (e, s) \<leftarrow> arp_lookup E addr create_okay s;
     case e of
       None \<Rightarrow> Some (- ENOMEM, s)
     | Some e \<Rightarrow>
         if ae_flags (arp_entries s e) AND ARP_FLAG_STATIC \<noteq> 0 then Some (0, s)
         else do {
           let s = upd_arp e (\<lambda>a. a\<lparr>ae_mac := mac, ae_flags := ARP_FLAG_VALID, ae_retries := 0\<rparr>) s;
           s \<leftarrow> net_timer_mod e ARP_REFRESH_TIMEOUT tsc_us s;
           if pending_pkt_lock s then None
           else Some (0, dispatch_loop E (pending_pkts (arp_entries s e)) s)
         }
   }"

section \<open>Requests and replies\<close>

definition arp_packet :: "net_cfg \<Rightarrow> u16 \<Rightarrow> u32 \<Rightarrow> u8 list \<Rightarrow> u8 list \<Rightarrow> u8 list" where
  "arp_packet C op target_ip target_mac d =
     (let d = put 0 target_mac d;
          d = put 6 (cfg_mac C) d;
          d = store16 12 (hton16 ETHTYPE_ARP) d;
          d = store16 14 (hton16 ARP_HTYPE_ETHER) d;
          d = store16 16 (hton16 ETHTYPE_IP) d;
          d = put 18 [6] d;
          d = put 19 [4] d;
          d = store16 20 (hton16 op) d;
          d = put 22 (cfg_mac C) d;
          d = store32 28 (hton32 (cfg_host_addr C)) d;
          d = put 32 target_mac d
      in store32 38 (hton32 target_ip) d)"

definition arp_send_pkt ::
  "'w net_env \<Rightarrow> net_cfg \<Rightarrow> u16 \<Rightarrow> u32 \<Rightarrow> u8 list \<Rightarrow> 'w net_state \<Rightarrow> int \<times> 'w net_state" where
  "arp_send_pkt E C op target_ip target_mac s =
     (case mbuf_alloc_local E s of
        (None, s) \<Rightarrow> (- ENOMEM, s)
      | (Some pkt, s) \<Rightarrow>
          let s = upd_mbuf pkt (\<lambda>m. m\<lparr>mb_data := arp_packet C op target_ip target_mac (mb_data m), ol_flags := 0,
                    pkt_len := of_nat ARP_PKT_SIZE, data_len := of_nat ARP_PKT_SIZE\<rparr>) s;
              (ret, s) = tx_buffer E 0 pkt s
          in if ret < 0 then (- EIO, mbuf_free E pkt s) else (0, s))"

definition arp_reply :: "net_cfg \<Rightarrow> u8 list \<Rightarrow> u8 list" where
  "arp_reply C d =
     (let d = put 0 (get 6 6 d) d;
          d = store16 20 (hton16 ARP_OP_REPLY) d;
          d = put 32 (get 22 6 d) d;
          d = put 38 (get 28 4 d) d;
          d = put 6 (cfg_mac C) d;
          d = store32 28 (hton32 (cfg_host_addr C)) d
      in put 22 (cfg_mac C) d)"

definition arp_send_response_reuse :: "'w net_env \<Rightarrow> net_cfg \<Rightarrow> ptr \<Rightarrow> 'w net_state \<Rightarrow> int \<times> 'w net_state" where
  "arp_send_response_reuse E C pkt s =
     (let s = upd_mbuf pkt (\<lambda>m. m\<lparr>mb_data := arp_reply C (mb_data m), ol_flags := 0,
                pkt_len := of_nat ARP_PKT_SIZE, data_len := of_nat ARP_PKT_SIZE\<rparr>) s;
          (ret, s) = tx_buffer E 0 pkt s
      in if ret < 0 then (- EIO, mbuf_free E pkt s) else (0, s))"

text \<open>The checks of \<open>arp_input\<close> on a packet whose ARP header is at offset 14.\<close>

definition arp_valid :: "rte_mbuf \<Rightarrow> bool" where
  "arp_valid m \<longleftrightarrow>
     (let d = mb_data m
      in mbuf_enough_space m ETH_HDR_LEN ARP_HDR_LEN \<and>
         \<not> (ntoh16 (load16 14 d) \<noteq> ARP_HTYPE_ETHER \<or> ntoh16 (load16 16 d) \<noteq> ETHTYPE_IP \<or>
            hd (get 18 1 d) \<noteq> 6 \<or> hd (get 19 1 d) \<noteq> 4) \<and>
         mbuf_enough_space m (ETH_HDR_LEN + ARP_HDR_LEN) ARP_ETHIP_LEN \<and>
         \<not> eth_addr_is_multicast (get 22 6 d))"

definition arp_input :: "'w net_env \<Rightarrow> net_cfg \<Rightarrow> u64 \<Rightarrow> ptr \<Rightarrow> 'w net_state \<Rightarrow> 'w net_state option" where
  "arp_input E C tsc_us pkt s =
     (let m = mbufs s pkt; d = mb_data m
      in if \<not> arp_valid m then Some (mbuf_free E pkt s)
         else
           let op = ntoh16 (load16 20 d);
               sender_ip = ntoh32 (load32 28 d);
               target_ip = ntoh32 (load32 38 d);
               am_target = (cfg_host_addr C = target_ip)
           in do {
                (_, s) \<leftarrow> arp_update_mac E tsc_us sender_ip (get 22 6 d) am_target s;
                if am_target \<and> op = ARP_OP_REQUEST then Some (snd (arp_send_response_reuse E C pkt s))
                else Some (mbuf_free E pkt s)
              })"

section \<open>The interface of the other layers\<close>

text \<open>On success the address is in the second component; otherwise the caller's buffer is not written.\<close>

definition arp_lookup_mac ::
  "'w net_env \<Rightarrow> net_cfg \<Rightarrow> u64 \<Rightarrow> u32 \<Rightarrow> 'w net_state \<Rightarrow> (int \<times> u8 list option \<times> 'w net_state) option" where
  "arp_lookup_mac E C tsc_us addr s = do {
     (e, s) \<leftarrow> arp_lookup E addr True s;
     case e of
       None \<Rightarrow> Some (- ENOENT, None, s)
     | Some e \<Rightarrow>
         if ae_flags (arp_entries s e) AND ARP_FLAG_VALID = 0 then
           if arp_send_pkt_lock s then None
           else if timer_pending e (net_tm s) then Some (- EAGAIN, None, s)
           else do {
             let s = upd_arp e (\<lambda>a. a\<lparr>ae_flags := ae_flags a OR ARP_FLAG_RESOLVING\<rparr>) s;
             let s = snd (arp_send_pkt E C ARP_OP_REQUEST addr ETH_ADDR_BROADCAST s);
             s \<leftarrow> net_timer_add e ARP_RESOLVE_TIMEOUT tsc_us s;
             Some (- EAGAIN, None, s)
           }
         else Some (0, Some (ae_mac (arp_entries s e)), s)
   }"

definition arp_insert :: "'w net_env \<Rightarrow> u32 \<Rightarrow> u8 list \<Rightarrow> 'w net_state \<Rightarrow> (int \<times> 'w net_state) option" where
  "arp_insert E addr mac s = do {
     (e, s) \<leftarrow> arp_lookup E addr False s;
     let fin = (\<lambda>e s. map_option (\<lambda>tm. (0, upd_arp e (\<lambda>a. a\<lparr>ae_mac := mac\<rparr>) (s\<lparr>net_tm := tm\<rparr>))) (timer_del e (net_tm s)));
     case e of
       Some e \<Rightarrow> fin e s
     | None \<Rightarrow>
         (case arp_alloc E s of
            (None, s) \<Rightarrow> Some (- ENOMEM, s)
          | (Some e, s) \<Rightarrow>
              fin e (arp_link e (arp_ip_to_idx addr) addr (ARP_FLAG_VALID OR ARP_FLAG_STATIC) 0 s))
   }"

fun drop_pending :: "'w net_env \<Rightarrow> ptr \<Rightarrow> ptr list \<Rightarrow> 'w net_state \<Rightarrow> 'w net_state" where
  "drop_pending E e [] s = s"
| "drop_pending E e (p # ps) s =
     (let s = mbuf_free E (pp_mbuf (pendings s p)) s;
          s = upd_arp e (\<lambda>a. a\<lparr>pending_pkts := remove1 p (pending_pkts a)\<rparr>) s;
          s = s\<lparr>net_mp := mempool_free (net_dpdk E) (pending_pkt_mempool s) p (net_mp s)\<rparr>
      in drop_pending E e ps s)"

definition arp_timer_handler :: "'w net_env \<Rightarrow> net_cfg \<Rightarrow> ptr \<Rightarrow> 'w net_state \<Rightarrow> 'w net_state option" where
  "arp_timer_handler E C e s =
     (let s = upd_arp e (\<lambda>a. a\<lparr>ae_retries := ae_retries a + 1\<rparr>) s
      in if ae_retries (arp_entries s e) \<ge> ARP_MAX_ATTEMPTS then
           if pending_pkt_lock s then None
           else
             let s = drop_pending E e (pending_pkts (arp_entries s e)) s;
                 h = arp_ip_to_idx (ae_addr (arp_entries s e));
                 s = s\<lparr>arp_tbl := (arp_tbl s)(h := remove1 e (arp_tbl s h))\<rparr>
             in Some (s\<lparr>net_mp := mempool_free (net_dpdk E) (arp_mempool s) e (net_mp s)\<rparr>)
         else
           let s = upd_arp e (\<lambda>a. a\<lparr>ae_flags := ae_flags a OR ARP_FLAG_RESOLVING\<rparr>) s;
               a = arp_entries s e
           in Some (snd (arp_send_pkt E C ARP_OP_REQUEST (ae_addr a)
                (if ae_flags a AND ARP_FLAG_VALID \<noteq> 0 then ae_mac a else ETH_ADDR_BROADCAST) s)))"

definition arp_add_pending_pkt ::
  "'w net_env \<Rightarrow> u32 \<Rightarrow> ptr \<Rightarrow> ptr \<Rightarrow> nat \<Rightarrow> 'w net_state \<Rightarrow> (int \<times> 'w net_state) option" where
  "arp_add_pending_pkt E dst_addr fg mbuf plen s = do {
     (e, s) \<leftarrow> arp_lookup E dst_addr False s;
     case e of
       None \<Rightarrow> Some (- ENOENT, s)
     | Some e \<Rightarrow>
         if pending_pkt_lock s then None
         else
           (case mempool_alloc (net_dpdk E) (pending_pkt_mempool s) (net_mp s) of
              (None, mp) \<Rightarrow> Some (- ENOMEM, s\<lparr>net_mp := mp\<rparr>)
            | (Some pkt, mp) \<Rightarrow>
                let s = s\<lparr>net_mp := mp\<rparr>;
                    s = upd_pending pkt (\<lambda>k. k\<lparr>pp_dst_addr := dst_addr, pp_fg := fg, pp_mbuf := mbuf,
                          pp_len := int plen, pp_cpu := cpu_id s, pp_dispatched := False\<rparr>) s
                in Some (0, upd_arp e (\<lambda>a. a\<lparr>pending_pkts := pkt # pending_pkts a\<rparr>) s))
   }"

definition arp_init ::
  "'w net_env \<Rightarrow> ptr \<Rightarrow> ptr \<Rightarrow> nat \<Rightarrow> nat \<Rightarrow> 'w net_state \<Rightarrow> (int \<times> 'w net_state) option" where
  "arp_init E pending_ds arp_ds pending_size entry_size s = do {
     let s = s\<lparr>pending_pkt_lock := False\<rparr>;
     (ret, mp) \<leftarrow> mempool_create_datastore (net_dpdk E) pending_ds MAX_PENDING_PKTS (of_nat pending_size) ''pending_pkt'' (net_mp s);
     let s = s\<lparr>net_mp := mp\<rparr>;
     if ret \<noteq> 0 then Some (ret, s) else do {
     (ret, m) \<leftarrow> mempool_create (pending_pkt_mempool s) pending_ds MEMPOOL_SANITY_GLOBAL 0 (net_mp s);
     let s = s\<lparr>pending_pkt_mempool := m\<rparr>;
     if ret \<noteq> 0 then Some (ret, s) else do {
     (ret, mp) \<leftarrow> mempool_create_datastore (net_dpdk E) arp_ds ARP_MAX_ENTRIES (of_nat entry_size) ''arp'' (net_mp s);
     let s = s\<lparr>net_mp := mp\<rparr>;
     if ret \<noteq> 0 then Some (ret, s) else do {
     (ret, m) \<leftarrow> mempool_create (arp_mempool s) arp_ds MEMPOOL_SANITY_GLOBAL 0 (net_mp s);
     Some (ret, s\<lparr>arp_mempool := m\<rparr>)
   }}}}"

end
