(* ===== verification/IpStack.thy ===== *)
theory IpStack
  imports Arp Checksum
begin

text \<open>
  The IP layer, \<open>net/ip.c\<close> and \<open>net/net.h\<close>, and the ICMP layer, \<open>net/icmp.c\<close>.  A packet that arrives is
  checked, dispatched by protocol and either answered, handed over or freed.  The IP header lies at
  offset 14 of a packet, after the Ethernet header.  The receive path of TCP is an argument.
\<close>

unbundle bit_operations_syntax

section \<open>Headers\<close>

definition IP_HDR_LEN :: nat where "IP_HDR_LEN = 20"
definition ICMP_HDR_LEN :: nat where "ICMP_HDR_LEN = 4"
definition ICMP_MINLEN :: nat where "ICMP_MINLEN = 8"
definition ICMP_ECHOREPLY :: u8 where "ICMP_ECHOREPLY = 0"
definition ICMP_ECHO :: u8 where "ICMP_ECHO = 8"
definition IPPROTO_ICMP :: u8 where "IPPROTO_ICMP = 1"
definition IPPROTO_TCP :: u8 where "IPPROTO_TCP = 6"
definition IP_MF :: u16 where "IP_MF = 0x2000"
definition IP_OFFMASK :: u16 where "IP_OFFMASK = 0x1fff"

lemmas ip_consts = IP_HDR_LEN_def ICMP_HDR_LEN_def ICMP_MINLEN_def ICMP_ECHOREPLY_def ICMP_ECHO_def
  IPPROTO_ICMP_def IPPROTO_TCP_def IP_MF_def IP_OFFMASK_def

text \<open>\<open>header_len\<close> and \<open>version\<close> are the low and the high half of the first byte.\<close>

definition ip_header_len :: "u8 list \<Rightarrow> u8" where "ip_header_len d = hd (get 14 1 d) AND 0x0f"
definition ip_version :: "u8 list \<Rightarrow> u8" where "ip_version d = drop_bit 4 (hd (get 14 1 d))"
definition ip_proto :: "u8 list \<Rightarrow> u8" where "ip_proto d = hd (get 23 1 d)"

definition ip_setup_header :: "u8 \<Rightarrow> u32 \<Rightarrow> u32 \<Rightarrow> u16 \<Rightarrow> u8 list \<Rightarrow> u8 list" where
  "ip_setup_header proto saddr daddr l4len d =
     (let d = put 14 [0x45] d;
          d = put 15 [0] d;
          d = store16 16 (hton16 (of_nat IP_HDR_LEN + l4len)) d;
          d = store16 18 0 d;
          d = store16 20 0 d;
          d = put 22 [64] d;
          d = put 23 [proto] d;
          d = store16 24 0 d;
          d = store32 26 (hton32 saddr) d
      in store32 30 (hton32 daddr) d)"

section \<open>Sending\<close>

definition ip_next_hop :: "net_cfg \<Rightarrow> u32 \<Rightarrow> u32" where
  "ip_next_hop C dst_addr =
     (if dst_addr AND cfg_mask C = cfg_host_addr C AND cfg_mask C then dst_addr else cfg_gateway_addr C)"

definition ip_send_one ::
  "'w net_env \<Rightarrow> net_cfg \<Rightarrow> u64 \<Rightarrow> ptr \<Rightarrow> u32 \<Rightarrow> ptr \<Rightarrow> nat \<Rightarrow> 'w net_state \<Rightarrow> (int \<times> 'w net_state) option" where
  "ip_send_one E C tsc_us cur_fg dst_addr pkt plen s = do {
     let s = upd_mbuf pkt (\<lambda>m. m\<lparr>mb_data := store16 12 (hton16 ETHTYPE_IP) (put 6 (cfg_mac C) (mb_data m))\<rparr>) s;
     let hop = ip_next_hop C dst_addr;
     (ret, mac, s) \<leftarrow> arp_lookup_mac E C tsc_us hop s;
     if ret \<noteq> 0 then do {
       (_, s) \<leftarrow> arp_add_pending_pkt E hop cur_fg pkt plen s;
       Some (0, s)
     } else do {
       let s = upd_mbuf pkt (\<lambda>m. m\<lparr>mb_data := put 0 (the mac) (mb_data m),
                 data_len := of_nat plen, pkt_len := of_nat plen\<rparr>) s;
       let (ret, s) = tx_buffer E (unat (cpu_id s)) pkt s;
       Some (if ret < 0 then - EIO else 0, s)
     }
   }"

text \<open>A packet whose address has been resolved; run on the core that queued it.\<close>

definition send_pending_pkt :: "'w net_env \<Rightarrow> net_cfg \<Rightarrow> u64 \<Rightarrow> ptr \<Rightarrow> 'w net_state \<Rightarrow> 'w net_state option" where
  "send_pending_pkt E C tsc_us p s = do {
     let k = pendings s p;
     (_, s) \<leftarrow> ip_send_one E C tsc_us (pp_fg k) (pp_dst_addr k) (pp_mbuf k) (nat (pp_len k)) s;
     if pending_pkt_lock s then None
     else
       let s = s\<lparr>arp_entries := (\<lambda>e. (arp_entries s e)\<lparr>pending_pkts := remove1 p (pending_pkts (arp_entries s e))\<rparr>)\<rparr>
       in Some (s\<lparr>net_mp := mempool_free (net_dpdk E) (pending_pkt_mempool s) p (net_mp s)\<rparr>)
   }"

definition net_runner :: "'w net_env \<Rightarrow> net_cfg \<Rightarrow> u64 \<Rightarrow> nat \<Rightarrow> ptr \<Rightarrow> 'w net_state \<Rightarrow> 'w net_state option" where
  "net_runner E C tsc_us func dat s = (if func = SEND_PENDING_PKT then send_pending_pkt E C tsc_us dat s else None)"

text \<open>The chain of buffers of a TCP segment is the list of their bytes.\<close>

definition ip_output_hinted ::
  "'w net_env \<Rightarrow> net_cfg \<Rightarrow> u64 \<Rightarrow> ptr \<Rightarrow> u8 list list \<Rightarrow> u16 \<Rightarrow> u32 \<Rightarrow> u32 \<Rightarrow> u8 \<Rightarrow> u8 \<Rightarrow> u8 \<Rightarrow>
     'w net_state \<Rightarrow> (int \<times> 'w net_state) option" where
  "ip_output_hinted E C tsc_us cur_fg p tot_len src dest ttl tos proto s =
     (case mbuf_alloc_local E s of
        (None, s) \<Rightarrow> Some (- ENOMEM, s)
      | (Some pkt, s) \<Rightarrow> do {
          let s = upd_mbuf pkt (\<lambda>m. m\<lparr>mb_data :=
                    put (ETH_HDR_LEN + IP_HDR_LEN) (concat p)
                      (put 22 [ttl] (put 15 [tos] (ip_setup_header proto (ntoh32 src) (ntoh32 dest) tot_len (mb_data m)))),
                    ol_flags := PKT_TX_IP_CKSUM E OR PKT_TX_TCP_CKSUM E OR PKT_TX_IPV4 E,
                    l2_len := ETH_HDR_LEN, l3_len := IP_HDR_LEN\<rparr>) s;
          (ret, s) \<leftarrow> ip_send_one E C tsc_us cur_fg (ntoh32 dest) pkt (ETH_HDR_LEN + IP_HDR_LEN + unat tot_len) s;
          if ret \<noteq> 0 then Some (- EIO, mbuf_free E pkt s) else Some (0, s)
        })"

section \<open>ICMP\<close>

text \<open>\<open>hdr\<close> is the offset of the ICMP header, \<open>n\<close> the length of the message.\<close>

definition icmp_reply :: "net_cfg \<Rightarrow> nat \<Rightarrow> nat \<Rightarrow> u8 list \<Rightarrow> u8 list" where
  "icmp_reply C hdr n d =
     (let d = put 0 (get 6 6 d) d;
          d = put 6 (cfg_mac C) d;
          d = put 30 (get 26 4 d) d;
          d = store32 26 (hton32 (cfg_host_addr C)) d;
          d = store16 (hdr + 2) 0 d
      in store16 (hdr + 2) (chksum_internet (get hdr n d)) d)"

definition icmp_reflect :: "'w net_env \<Rightarrow> net_cfg \<Rightarrow> ptr \<Rightarrow> nat \<Rightarrow> nat \<Rightarrow> 'w net_state \<Rightarrow> int \<times> 'w net_state" where
  "icmp_reflect E C pkt hdr n s =
     (let s = upd_mbuf pkt (\<lambda>m. m\<lparr>mb_data := icmp_reply C hdr n (mb_data m), ol_flags := 0,
                data_len := ucast (pkt_len m)\<rparr>) s;
          (ret, s) = tx_buffer E 0 pkt s
      in if ret < 0 then (- EIO, mbuf_free E pkt s) else (0, s))"

definition icmp_input :: "'w net_env \<Rightarrow> net_cfg \<Rightarrow> ptr \<Rightarrow> nat \<Rightarrow> nat \<Rightarrow> 'w net_state \<Rightarrow> 'w net_state" where
  "icmp_input E C pkt hdr n s =
     (let d = mb_data (mbufs s pkt)
      in if n < ICMP_MINLEN then mbuf_free E pkt s
         else if chksum_internet (get hdr n d) \<noteq> 0 then mbuf_free E pkt s
         else if hd (get hdr 1 d) = ICMP_ECHO then
           snd (icmp_reflect E C pkt hdr n
             (upd_mbuf pkt (\<lambda>m. m\<lparr>mb_data := put hdr [ICMP_ECHOREPLY] (mb_data m)\<rparr>) s))
         else mbuf_free E pkt s)"

definition icmp_echo_packet :: "net_cfg \<Rightarrow> u32 \<Rightarrow> u16 \<Rightarrow> u16 \<Rightarrow> u64 \<Rightarrow> u8 list \<Rightarrow> u8 list" where
  "icmp_echo_packet C dest ident seqno timestamp d =
     (let n = ICMP_HDR_LEN + 4 + 8;
          d = ip_setup_header IPPROTO_ICMP (cfg_host_addr C) dest (of_nat n) d;
          d = store16 24 (chksum_internet (get 14 IP_HDR_LEN d)) d;
          d = put 34 [ICMP_ECHO] d;
          d = put 35 [ICMP_ECHOREPLY] d;
          d = store16 36 0 d;
          d = store16 38 (hton16 ident) d;
          d = store16 40 (hton16 seqno) d;
          d = put 42 (le_bytes 8 (unat timestamp)) d
      in store16 36 (chksum_internet (get 34 n d)) d)"

definition icmp_echo ::
  "'w net_env \<Rightarrow> net_cfg \<Rightarrow> u64 \<Rightarrow> ptr \<Rightarrow> u32 \<Rightarrow> u16 \<Rightarrow> u16 \<Rightarrow> u64 \<Rightarrow> 'w net_state \<Rightarrow> (int \<times> 'w net_state) option" where
  "icmp_echo E C tsc_us cur_fg dest ident seqno timestamp s =
     (case mbuf_alloc_local E s of
        (None, s) \<Rightarrow> Some (- ENOMEM, s)
      | (Some pkt, s) \<Rightarrow> do {
          let s = upd_mbuf pkt (\<lambda>m. m\<lparr>mb_data := icmp_echo_packet C dest ident seqno timestamp (mb_data m), ol_flags := 0\<rparr>) s;
          (ret, s) \<leftarrow> ip_send_one E C tsc_us cur_fg dest pkt (ETH_HDR_LEN + IP_HDR_LEN + (ICMP_HDR_LEN + 4 + 8)) s;
          if ret \<noteq> 0 then Some (- EIO, mbuf_free E pkt s) else Some (0, s)
        })"

section \<open>Receiving\<close>

definition ip_valid :: "rte_mbuf \<Rightarrow> bool" where
  "ip_valid m \<longleftrightarrow>
     (let d = mb_data m; hdrlen = unat (ip_header_len d) * 4; pktlen = unat (ntoh16 (load16 16 d))
      in mbuf_enough_space m ETH_HDR_LEN IP_HDR_LEN \<and> ip_version d = 4 \<and> \<not> ip_header_len d < 5 \<and>
         ntoh16 (load16 20 d) AND (IP_OFFMASK OR IP_MF) = 0 \<and> \<not> pktlen < hdrlen \<and>
         mbuf_enough_space m ETH_HDR_LEN pktlen)"

text \<open>\<open>tcp_input_tmp pkt off\<close> is the receive path of TCP with the TCP header at offset \<open>off\<close>.\<close>

definition ip_input ::
  "(ptr \<Rightarrow> nat \<Rightarrow> 'w net_state \<Rightarrow> 'w net_state option) \<Rightarrow> 'w net_env \<Rightarrow> net_cfg \<Rightarrow> ptr \<Rightarrow> 'w net_state \<Rightarrow> 'w net_state option" where
  "ip_input tcp_input_tmp E C pkt s =
     (let m = mbufs s pkt; d = mb_data m
      in if \<not> ip_valid m then Some (mbuf_free E pkt s)
         else
           let hdrlen = unat (ip_header_len d) * 4;
               pktlen = unat (ntoh16 (load16 16 d)) - hdrlen
           in if ip_proto d = IPPROTO_TCP then tcp_input_tmp pkt (ETH_HDR_LEN + hdrlen) s
              else if ip_proto d = IPPROTO_ICMP then Some (icmp_input E C pkt (ETH_HDR_LEN + hdrlen) pktlen s)
              else Some (mbuf_free E pkt s))"

definition eth_input_process ::
  "(ptr \<Rightarrow> nat \<Rightarrow> 'w net_state \<Rightarrow> 'w net_state option) \<Rightarrow> 'w net_env \<Rightarrow> net_cfg \<Rightarrow> u64 \<Rightarrow> ptr \<Rightarrow> int \<Rightarrow>
     'w net_state \<Rightarrow> 'w net_state option" where
  "eth_input_process tcp_input_tmp E C tsc_us pkt nb_pkts s =
     (let ty = load16 12 (mb_data (mbufs s pkt))
      in if nb_pkts \<noteq> 1 then None
         else if ty = hton16 ETHTYPE_IP then ip_input tcp_input_tmp E C pkt s
         else if ty = hton16 ETHTYPE_ARP then arp_input E C tsc_us pkt s
         else Some (mbuf_free E pkt s))"

end
