(* ===== verification/NetProps.thy ===== *)
theory NetProps
  imports IpStack TimerProps
begin

text \<open>
  What the network stack does with packets: every received packet has one fate, address
  resolution between two hosts works in both directions, packets that wait for an address are
  sent in order, and echo requests are answered with a correct checksum.

  The device is \<open>net_env\<close>; \<open>eth_ok\<close> states what is used of DPDK, and \<open>clock_ok\<close> bounds how far
  the cached time of the timer wheel may lag behind the clock.
\<close>

unbundle bit_operations_syntax

section \<open>What the stack relies on\<close>

text \<open>
  \<open>sent w\<close> are the packets handed to the device with their contents, \<open>freed w\<close> the buffers given
  back, both in order.  \<open>rte_eth_tx_buffer\<close> queues the packet and returns the number of packets
  flushed, \<open>rte_pktmbuf_free\<close> frees one buffer, and no other call sends or frees.
\<close>

definition eth_ok :: "'w net_env \<Rightarrow> ('w \<Rightarrow> (nat \<times> ptr \<times> rte_mbuf) list) \<Rightarrow> ('w \<Rightarrow> ptr list) \<Rightarrow> bool" where
  "eth_ok E sent freed \<longleftrightarrow>
     (\<forall>q p m w. 0 \<le> fst (rte_eth_tx_buffer E q p m w) \<and>
        sent (snd (rte_eth_tx_buffer E q p m w)) = sent w @ [(q, p, m)] \<and>
        freed (snd (rte_eth_tx_buffer E q p m w)) = freed w) \<and>
     (\<forall>p w. sent (rte_pktmbuf_free E p w) = sent w \<and> freed (rte_pktmbuf_free E p w) = freed w @ [p]) \<and>
     (\<forall>pool w. sent (snd (rte_pktmbuf_alloc E pool w)) = sent w \<and> freed (snd (rte_pktmbuf_alloc E pool w)) = freed w) \<and>
     (\<forall>w. sent (snd (malloc_runner E w)) = sent w \<and> freed (snd (malloc_runner E w)) = freed w) \<and>
     (\<forall>pool w. sent (snd (snd (rte_mempool_get (net_dpdk E) pool w))) = sent w \<and>
        freed (snd (snd (rte_mempool_get (net_dpdk E) pool w))) = freed w) \<and>
     (\<forall>pool p w. sent (rte_mempool_put (net_dpdk E) pool p w) = sent w \<and>
        freed (rte_mempool_put (net_dpdk E) pool p w) = freed w)"

text \<open>The cached time of the wheel is not more than 134 seconds behind the clock.\<close>

definition clock_ok :: "unit timer_state \<Rightarrow> u64 \<Rightarrow> bool" where
  "clock_ok tm tsc_us \<longleftrightarrow>
     unat (now_us tm) \<le> unat tsc_us \<and> unat tsc_us - unat (now_us tm) < 2 ^ 27 \<and> unat tsc_us < 2 ^ 63"

lemmas net_defs = net_world_def set_net_world_def upd_mbuf_def upd_arp_def upd_pending_def

section \<open>Arming the timer of an entry\<close>

lemma wheel_index_3: "16 \<le> unat d \<Longrightarrow> unat d < 2 ^ 28 \<Longrightarrow> 0 \<le> wheel_index d \<and> wheel_index d < 3"
proof -
  assume d: "16 \<le> unat d" "unat d < 2 ^ 28"
  consider "unat d < 4096" | "4096 \<le> unat d" "unat d < 1048576" | "1048576 \<le> unat d" by linarith
  then show ?thesis
  proof cases
    case 1
    then have "wheel_index d = int 0" using d by (intro wheel_index_range) simp_all
    then show ?thesis by simp
  next
    case 2
    then have "wheel_index d = int 1" by (intro wheel_index_range) simp_all
    then show ?thesis by simp
  next
    case 3
    then have "wheel_index d = int 2" using d by (intro wheel_index_range) simp_all
    then show ?thesis by simp
  qed
qed

lemma hprev_add_head: "\<exists>y. hprev (hlist_add_head h n l) n = Some y"
  by (auto simp: hlist_add_head_def Let_def split: option.splits)

lemma timer_add_none_fg:
  assumes "clock_ok tm tsc_us" "0 < unat usecs" "unat usecs + 16 \<le> 2 ^ 27"
  obtains tm' where "timer_add tw e None usecs tsc_us tm = Some (0, tm')" "now_us tm' = now_us tm" "timer_pending e tm'"
proof -
  note c = assms(1) [unfolded clock_ok_def]
  let ?x = "expires (timers (set_expires e (tsc_us + usecs) tm) e) + MIN_DELAY_US"
  let ?d = "?x - now_us tm"
  have "unat (tsc_us + usecs) = unat tsc_us + unat usecs" using c assms(3) by (intro unat_add_small) simp
  moreover have "unat (tsc_us + usecs + 16) = unat (tsc_us + usecs) + 16"
    using c assms(3) calculation unat_add_small [of "tsc_us + usecs" 16] by simp
  ultimately have x: "unat ?x = unat tsc_us + unat usecs + 16" by (simp add: set_expires_def MIN_DELAY_US_def)
  then have d: "unat ?d = unat tsc_us + unat usecs + 16 - unat (now_us tm)"
    using unat_sub [of "now_us tm" ?x] c by (simp add: word_le_nat_alt)
  have i: "0 \<le> wheel_index ?d \<and> wheel_index ?d < 3"
  proof (rule wheel_index_3)
    show "16 \<le> unat ?d" using d c by linarith
    have "(2 :: nat) ^ 27 + 2 ^ 27 = 2 ^ 28" by simp
    then show "unat ?d < 2 ^ 28" using d c assms(3) by linarith
  qed
  have u: "usecs \<noteq> 0" "\<not> MAX_DELAY_US \<le> usecs"
    using assms(2,3) by (auto simp: MAX_DELAY_US_def word_le_nat_alt)
  have n: "now_us (set_expires e (tsc_us + usecs) tm) = now_us tm" by (simp add: set_expires_def)
  have "\<exists>tm'. timer_insert None tw e (set_expires e (tsc_us + usecs) tm) = Some tm' \<and> now_us tm' = now_us tm \<and> timer_pending e tm'"
    unfolding timer_insert_def n Let_def using i
    by (simp add: WHEEL_COUNT_def n timer_pending_def hprev_add_head)
  then show ?thesis using u by (auto simp: timer_add_def timer_add_tw_def intro: that)
qed

lemma net_timer_mod_Some:
  assumes "clock_ok (net_tm s) tsc_us" "0 < unat usecs" "unat usecs + 16 \<le> 2 ^ 27"
  obtains tm' where "net_timer_mod e usecs tsc_us s = Some (s\<lparr>net_tm := tm'\<rparr>)" "now_us tm' = now_us (net_tm s)"
    "timer_pending e tm'"
proof -
  obtain tm0 where t0: "(if timer_pending e (net_tm s) then timer_del_link e (net_tm s) else Some (net_tm s)) = Some tm0"
    "now_us tm0 = now_us (net_tm s)"
  proof (cases "timer_pending e (net_tm s)")
    case True
    then show ?thesis
      by (intro that [of "(net_tm s)\<lparr>links := set_hprev e None (hlist_del e (links (net_tm s)))\<rparr>"])
        (auto simp: timer_pending_def timer_del_link_def)
  next
    case False
    then show ?thesis by (intro that [of "net_tm s"]) simp_all
  qed
  have "clock_ok tm0 tsc_us" using assms(1) t0(2) by (simp add: clock_ok_def)
  then obtain tm' where "timer_add (net_tw s) e None usecs tsc_us tm0 = Some (0, tm')" "now_us tm' = now_us tm0" "timer_pending e tm'"
    by (rule timer_add_none_fg [OF _ assms(2,3)])
  then show ?thesis using t0 by (intro that [of tm']) (simp_all add: net_timer_mod_def timer_mod_def)
qed

lemma net_timer_add_Some:
  assumes "clock_ok (net_tm s) tsc_us" "0 < unat usecs" "unat usecs + 16 \<le> 2 ^ 27"
  obtains tm' where "net_timer_add e usecs tsc_us s = Some (s\<lparr>net_tm := tm'\<rparr>)" "now_us tm' = now_us (net_tm s)"
    "timer_pending e tm'"
  by (rule timer_add_none_fg [OF assms, of "net_tw s" e]) (auto simp: net_timer_add_def intro: that)

section \<open>Looking an address up\<close>

lemma arp_lookup_found: "arp_find (arp_ip_to_idx addr) addr s = Some e \<Longrightarrow> arp_lookup E addr c s = Some (Some e, s)"
  by (simp add: arp_lookup_def Let_def)

text \<open>A lookup that may create an entry returns if the lock is free; it changes nothing but the table, the fresh
  entry and its timer, and a found or created entry has the address.\<close>

lemma arp_lookup_spec:
  assumes "eth_ok E sent freed" "\<not> arp_lock s"
  obtains r s' where "arp_lookup E addr c s = Some (r, s')"
    "sent (net_world s') = sent (net_world s)" "freed (net_world s') = freed (net_world s)"
    "mbufs s' = mbufs s" "pending_pkt_lock s' = pending_pkt_lock s" "arp_send_pkt_lock s' = arp_send_pkt_lock s"
    "now_us (net_tm s') = now_us (net_tm s)" "net_tw s' = net_tw s" "cpu_id s' = cpu_id s"
    "\<forall>e. r = Some e \<longrightarrow> arp_find (arp_ip_to_idx addr) addr s' = Some e \<and> arp_lock s' = arp_lock s"
    "r = None \<longrightarrow> arp_find (arp_ip_to_idx addr) addr s' = None \<and> arp_lock s' = c"
proof (cases "arp_find (arp_ip_to_idx addr) addr s")
  case (Some e)
  show ?thesis by (rule that [of "Some e" s]) (use Some in \<open>simp_all add: arp_lookup_found\<close>)
next
  case None
  show ?thesis
  proof (cases c)
    case False
    show ?thesis by (rule that [of None s]) (use None False assms(2) in \<open>simp_all add: arp_lookup_def Let_def\<close>)
  next
    case True
    let ?h = "arp_ip_to_idx addr"
    let ?s = "s\<lparr>arp_lock := True\<rparr>"
    have f: "arp_find ?h addr ?s = None" using None by (simp add: arp_find_def)
    obtain r mp where a: "mempool_alloc (net_dpdk E) (arp_mempool s) (net_mp s) = (r, mp)" by force
    have w: "mp_world mp = snd (snd (rte_mempool_get (net_dpdk E) (ds_pool (dss (net_mp s) (m_datastore (arp_mempool s)))) (mp_world (net_mp s))))"
      using a by (auto simp: mempool_alloc_def split: prod.splits)
    have sf: "sent (mp_world mp) = sent (net_world s)" "freed (mp_world mp) = freed (net_world s)"
      using assms(1) unfolding w net_world_def eth_ok_def by blast+
    show ?thesis
    proof (cases r)
      case r: None
      show ?thesis
        by (rule that [of None "?s\<lparr>net_mp := mp\<rparr>"])
          (use None True assms(2) f a r sf in \<open>simp_all add: arp_lookup_def Let_def arp_alloc_def arp_find_def net_world_def\<close>)
    next
      case r: (Some e)
      let ?s' = "(arp_link e ?h addr 0 ARP_TIMER_HANDLER (?s\<lparr>net_mp := mp\<rparr>))\<lparr>arp_lock := False\<rparr>"
      show ?thesis
        by (rule that [of "Some e" ?s'])
          (use None True assms(2) f a r sf in \<open>simp_all add: arp_lookup_def Let_def arp_alloc_def arp_find_def net_world_def
             arp_link_def upd_arp_def timer_init_entry_def\<close>)
    qed
  qed
qed

section \<open>Learning an address\<close>

lemma cpu_run_frame:
  assumes "eth_ok E sent freed"
  shows "sent (net_world (snd (cpu_run_on_one E f d c s))) = sent (net_world s)"
    "freed (net_world (snd (cpu_run_on_one E f d c s))) = freed (net_world s)"
    "mbufs (snd (cpu_run_on_one E f d c s)) = mbufs s" "arp_tbl (snd (cpu_run_on_one E f d c s)) = arp_tbl s"
    "arp_entries (snd (cpu_run_on_one E f d c s)) = arp_entries s" "pendings (snd (cpu_run_on_one E f d c s)) = pendings s"
    "pending_pkt_lock (snd (cpu_run_on_one E f d c s)) = pending_pkt_lock s"
    "arp_lock (snd (cpu_run_on_one E f d c s)) = arp_lock s"
    "arp_send_pkt_lock (snd (cpu_run_on_one E f d c s)) = arp_send_pkt_lock s"
    "net_tm (snd (cpu_run_on_one E f d c s)) = net_tm s" "cpu_id (snd (cpu_run_on_one E f d c s)) = cpu_id s"
    "cpu_count (snd (cpu_run_on_one E f d c s)) = cpu_count s"
proof -
  have w: "sent (snd (malloc_runner E (net_world s))) = sent (net_world s)" "freed (snd (malloc_runner E (net_world s))) = freed (net_world s)"
    using assms unfolding eth_ok_def by simp_all
  define b where "b = fst (malloc_runner E (net_world s))"
  define v where "v = snd (malloc_runner E (net_world s))"
  have m: "malloc_runner E (net_world s) = (b, v)" by (simp add: b_def v_def)
  have e: "snd (cpu_run_on_one E f d c s) = (if cpu_count s \<le> c then s
     else if b then (set_net_world v s)\<lparr>runlists := (runlists s)(c := (f, d) # runlists s c)\<rparr> else set_net_world v s)"
    by (simp add: cpu_run_on_one_def m split: bool.splits)
  have w: "sent v = sent (net_world s)" "freed v = freed (net_world s)" using w by (simp_all add: v_def)
  show "sent (net_world (snd (cpu_run_on_one E f d c s))) = sent (net_world s)"
    "freed (net_world (snd (cpu_run_on_one E f d c s))) = freed (net_world s)"
    "mbufs (snd (cpu_run_on_one E f d c s)) = mbufs s" "arp_tbl (snd (cpu_run_on_one E f d c s)) = arp_tbl s"
    "arp_entries (snd (cpu_run_on_one E f d c s)) = arp_entries s" "pendings (snd (cpu_run_on_one E f d c s)) = pendings s"
    "pending_pkt_lock (snd (cpu_run_on_one E f d c s)) = pending_pkt_lock s"
    "arp_lock (snd (cpu_run_on_one E f d c s)) = arp_lock s"
    "arp_send_pkt_lock (snd (cpu_run_on_one E f d c s)) = arp_send_pkt_lock s"
    "net_tm (snd (cpu_run_on_one E f d c s)) = net_tm s" "cpu_id (snd (cpu_run_on_one E f d c s)) = cpu_id s"
    "cpu_count (snd (cpu_run_on_one E f d c s)) = cpu_count s"
    unfolding e using w by (simp_all add: set_net_world_def net_world_def)
qed

lemma dispatch_frame:
  assumes "eth_ok E sent freed"
  shows "sent (net_world (dispatch_loop E ps s)) = sent (net_world s) \<and>
    freed (net_world (dispatch_loop E ps s)) = freed (net_world s) \<and>
    mbufs (dispatch_loop E ps s) = mbufs s \<and> arp_tbl (dispatch_loop E ps s) = arp_tbl s \<and>
    arp_entries (dispatch_loop E ps s) = arp_entries s \<and>
    pending_pkt_lock (dispatch_loop E ps s) = pending_pkt_lock s \<and> arp_lock (dispatch_loop E ps s) = arp_lock s \<and>
    arp_send_pkt_lock (dispatch_loop E ps s) = arp_send_pkt_lock s \<and>
    net_tm (dispatch_loop E ps s) = net_tm s \<and> cpu_id (dispatch_loop E ps s) = cpu_id s"
proof (induction ps arbitrary: s)
  case (Cons p ps)
  let ?s = "snd (cpu_run_on_one E SEND_PENDING_PKT p (pp_cpu (pendings s p)) s)"
  let ?s' = "upd_pending p (\<lambda>k. k\<lparr>pp_dispatched := True\<rparr>) ?s"
  have e: "dispatch_loop E (p # ps) s = (if pp_dispatched (pendings s p) then dispatch_loop E ps s else dispatch_loop E ps ?s')"
    by (simp add: Let_def case_prod_unfold)
  have w: "net_world ?s' = net_world ?s" by (simp add: upd_pending_def net_world_def)
  note f = cpu_run_frame [OF assms, of SEND_PENDING_PKT p "pp_cpu (pendings s p)" s]
  show ?case
  proof (cases "pp_dispatched (pendings s p)")
    case True
    then show ?thesis using Cons [of s] unfolding e by simp
  next
    case False
    then show ?thesis using Cons [of ?s'] f w unfolding e by (simp add: upd_pending_def)
  qed
qed simp

lemma arp_update_mac_found:
  assumes "eth_ok E sent freed" "arp_find (arp_ip_to_idx addr) addr s = Some e"
    "ae_flags (arp_entries s e) AND ARP_FLAG_STATIC = 0" "\<not> pending_pkt_lock s" "clock_ok (net_tm s) tsc_us"
  obtains tm' where "arp_update_mac E tsc_us addr mac c s = Some (0, dispatch_loop E (pending_pkts (arp_entries s e))
      ((upd_arp e (\<lambda>a. a\<lparr>ae_mac := mac, ae_flags := ARP_FLAG_VALID, ae_retries := 0\<rparr>) s)\<lparr>net_tm := tm'\<rparr>))"
    "now_us tm' = now_us (net_tm s)"
proof -
  let ?s = "upd_arp e (\<lambda>a. a\<lparr>ae_mac := mac, ae_flags := ARP_FLAG_VALID, ae_retries := 0\<rparr>) s"
  have ck: "clock_ok (net_tm ?s) tsc_us" using assms(5) by (simp add: upd_arp_def)
  have u: "0 < unat ARP_REFRESH_TIMEOUT" "unat ARP_REFRESH_TIMEOUT + 16 \<le> 2 ^ 27" by (simp_all add: ARP_REFRESH_TIMEOUT_def)
  obtain tm' where t: "net_timer_mod e ARP_REFRESH_TIMEOUT tsc_us ?s = Some (?s\<lparr>net_tm := tm'\<rparr>)"
    "now_us tm' = now_us (net_tm ?s)" "timer_pending e tm'"
    by (rule net_timer_mod_Some [OF ck u])
  have pe: "pending_pkts (arp_entries (?s\<lparr>net_tm := tm'\<rparr>) e) = pending_pkts (arp_entries s e)" "pending_pkt_lock (?s\<lparr>net_tm := tm'\<rparr>) = pending_pkt_lock s"
    by (simp_all add: upd_arp_def)
  show ?thesis
  proof (rule that [of tm'])
    show "arp_update_mac E tsc_us addr mac c s = Some (0, dispatch_loop E (pending_pkts (arp_entries s e)) (?s\<lparr>net_tm := tm'\<rparr>))"
      unfolding arp_update_mac_def arp_lookup_found [OF assms(2)] using assms(3,4) t(1) pe by (simp add: Let_def)
    show "now_us tm' = now_us (net_tm s)" using t(2) by (simp add: upd_arp_def)
  qed
qed

lemma arp_update_mac_returns:
  assumes "eth_ok E sent freed" "\<not> arp_lock s" "\<not> pending_pkt_lock s" "clock_ok (net_tm s) tsc_us"
  obtains ret s' where "arp_update_mac E tsc_us addr mac c s = Some (ret, s')"
    "sent (net_world s') = sent (net_world s)" "freed (net_world s') = freed (net_world s)" "mbufs s' = mbufs s"
proof -
  obtain r s1 where l: "arp_lookup E addr c s = Some (r, s1)"
    "sent (net_world s1) = sent (net_world s)" "freed (net_world s1) = freed (net_world s)"
    "mbufs s1 = mbufs s" "pending_pkt_lock s1 = pending_pkt_lock s" "arp_send_pkt_lock s1 = arp_send_pkt_lock s"
    "now_us (net_tm s1) = now_us (net_tm s)" "net_tw s1 = net_tw s" "cpu_id s1 = cpu_id s"
    "\<forall>e. r = Some e \<longrightarrow> arp_find (arp_ip_to_idx addr) addr s1 = Some e \<and> arp_lock s1 = arp_lock s"
    "r = None \<longrightarrow> arp_find (arp_ip_to_idx addr) addr s1 = None \<and> arp_lock s1 = c"
    by (rule arp_lookup_spec [OF assms(1,2)])
  show ?thesis
  proof (cases r)
    case None
    show ?thesis by (rule that [of "- ENOMEM" s1]) (use None l in \<open>simp_all add: arp_update_mac_def\<close>)
  next
    case (Some e)
    have fnd: "arp_find (arp_ip_to_idx addr) addr s1 = Some e" using l(10) Some by simp
    have u: "arp_update_mac E tsc_us addr mac c s = arp_update_mac E tsc_us addr mac c s1"
      unfolding arp_update_mac_def l(1) arp_lookup_found [OF fnd] Some by simp
    show ?thesis
    proof (cases "ae_flags (arp_entries s1 e) AND ARP_FLAG_STATIC = 0")
      case False
      show ?thesis by (rule that [of 0 s1]) (use False l Some in \<open>simp_all add: arp_update_mac_def\<close>)
    next
      case True
      have ck: "clock_ok (net_tm s1) tsc_us" using assms(4) l(7) by (simp add: clock_ok_def)
      have pl: "\<not> pending_pkt_lock s1" using assms(3) l(5) by simp
      let ?s2 = "\<lambda>tm'. (upd_arp e (\<lambda>a. a\<lparr>ae_mac := mac, ae_flags := ARP_FLAG_VALID, ae_retries := 0\<rparr>) s1)\<lparr>net_tm := tm'\<rparr>"
      obtain tm' where m: "arp_update_mac E tsc_us addr mac c s1 = Some (0, dispatch_loop E (pending_pkts (arp_entries s1 e)) (?s2 tm'))"
        "now_us tm' = now_us (net_tm s1)"
        by (rule arp_update_mac_found [OF assms(1) fnd True pl ck])
      note fr = dispatch_frame [OF assms(1), of "pending_pkts (arp_entries s1 e)" "?s2 tm'"]
      have w: "net_world (?s2 tm') = net_world s1" "mbufs (?s2 tm') = mbufs s1" by (simp_all add: upd_arp_def net_world_def)
      show ?thesis by (rule that [OF u [unfolded m(1)]]) (use fr w l in simp_all)
    qed
  qed
qed

section \<open>The fate of a packet\<close>

lemma tx_ok:
  assumes "eth_ok E sent freed"
  shows "fst (tx_buffer E q p s) \<ge> 0" "sent (net_world (snd (tx_buffer E q p s))) = sent (net_world s) @ [(q, p, mbufs s p)]"
    "freed (net_world (snd (tx_buffer E q p s))) = freed (net_world s)" "mbufs (snd (tx_buffer E q p s)) = mbufs s"
  using assms unfolding eth_ok_def tx_buffer_def net_world_def set_net_world_def by (simp_all add: case_prod_unfold)

lemma mbuf_free_ok:
  assumes "eth_ok E sent freed"
  shows "sent (net_world (mbuf_free E p s)) = sent (net_world s)" "freed (net_world (mbuf_free E p s)) = freed (net_world s) @ [p]"
  using assms unfolding eth_ok_def mbuf_free_def net_world_def set_net_world_def by simp_all

text \<open>
  The packets that get an answer: a request for the address of this host, and an echo request
  whose checksum is right.
\<close>

definition arp_answered :: "net_cfg \<Rightarrow> rte_mbuf \<Rightarrow> bool" where
  "arp_answered C m \<longleftrightarrow> arp_valid m \<and> ntoh16 (load16 20 (mb_data m)) = ARP_OP_REQUEST \<and>
     ntoh32 (load32 38 (mb_data m)) = cfg_host_addr C"

definition icmp_answered :: "nat \<Rightarrow> nat \<Rightarrow> u8 list \<Rightarrow> bool" where
  "icmp_answered hdr n d \<longleftrightarrow> ICMP_MINLEN \<le> n \<and> chksum_internet (get hdr n d) = 0 \<and> hd (get hdr 1 d) = ICMP_ECHO"

definition ip_answered :: "rte_mbuf \<Rightarrow> bool" where
  "ip_answered m \<longleftrightarrow> (let d = mb_data m; hdrlen = unat (ip_header_len d) * 4
     in ip_valid m \<and> ip_proto d = IPPROTO_ICMP \<and> icmp_answered (ETH_HDR_LEN + hdrlen) (unat (ntoh16 (load16 16 d)) - hdrlen) d)"

definition answered :: "net_cfg \<Rightarrow> rte_mbuf \<Rightarrow> bool" where
  "answered C m \<longleftrightarrow>
     (if load16 12 (mb_data m) = hton16 ETHTYPE_IP then ip_answered m
      else load16 12 (mb_data m) = hton16 ETHTYPE_ARP \<and> arp_answered C m)"

definition fate :: "bool \<Rightarrow> ('w \<Rightarrow> (nat \<times> ptr \<times> rte_mbuf) list) \<Rightarrow> ('w \<Rightarrow> ptr list) \<Rightarrow> ptr \<Rightarrow> 'w net_state \<Rightarrow> 'w net_state \<Rightarrow> bool" where
  "fate a sent freed pkt s s' \<longleftrightarrow>
     (if a then sent (net_world s') = sent (net_world s) @ [(0, pkt, mbufs s' pkt)] \<and> freed (net_world s') = freed (net_world s)
      else sent (net_world s') = sent (net_world s) \<and> freed (net_world s') = freed (net_world s) @ [pkt])"

lemma fate_free: "eth_ok E sent freed \<Longrightarrow> fate False sent freed pkt s (mbuf_free E pkt s)"
  by (simp add: fate_def mbuf_free_ok)

lemma fate_tx:
  assumes "eth_ok E sent freed" "net_world s1 = net_world s"
  shows "fate True sent freed pkt s (snd (case tx_buffer E 0 pkt s1 of (ret, s2) \<Rightarrow> if ret < 0 then (x, mbuf_free E pkt s2) else (0, s2)))"
  using tx_ok [OF assms(1), of 0 pkt s1] assms(2) by (simp add: fate_def case_prod_unfold)

lemma fate_trans:
  assumes "fate a sent freed pkt s1 s2" "sent (net_world s1) = sent (net_world s)" "freed (net_world s1) = freed (net_world s)"
  shows "fate a sent freed pkt s s2"
  using assms by (simp add: fate_def)

lemma net_world_upd_mbuf [simp]: "net_world (upd_mbuf p f s) = net_world s" by (simp add: upd_mbuf_def net_world_def)

lemma icmp_input_fate:
  assumes e: "eth_ok E sent freed"
  shows "fate (icmp_answered hdr n (mb_data (mbufs s pkt))) sent freed pkt s (icmp_input E C pkt hdr n s)"
proof (cases "icmp_answered hdr n (mb_data (mbufs s pkt))")
  case True
  then show ?thesis unfolding icmp_input_def icmp_reflect_def Let_def
    by (simp only: icmp_answered_def not_less [symmetric] if_False if_True simp_thms) (rule fate_tx [OF e], simp)
next
  case False
  then have "icmp_input E C pkt hdr n s = mbuf_free E pkt s" by (auto simp: icmp_input_def icmp_answered_def Let_def)
  then show ?thesis using False fate_free [OF e] by simp
qed

lemma arp_input_fate:
  assumes e: "eth_ok E sent freed" and "\<not> arp_lock s" "\<not> pending_pkt_lock s" "clock_ok (net_tm s) tsc_us"
  shows "\<exists>s'. arp_input E C tsc_us pkt s = Some s' \<and> fate (arp_answered C (mbufs s pkt)) sent freed pkt s s'"
proof (cases "arp_valid (mbufs s pkt)")
  case False
  then show ?thesis by (simp add: arp_input_def fate_free [OF e] Let_def arp_answered_def)
next
  case True
  let ?d = "mb_data (mbufs s pkt)"
  let ?am = "cfg_host_addr C = ntoh32 (load32 38 ?d)"
  obtain ret s1 where u: "arp_update_mac E tsc_us (ntoh32 (load32 28 ?d)) (get 22 6 ?d) ?am s = Some (ret, s1)"
    "sent (net_world s1) = sent (net_world s)" "freed (net_world s1) = freed (net_world s)" "mbufs s1 = mbufs s"
    by (rule arp_update_mac_returns [OF assms])
  have r: "fate True sent freed pkt s1 (snd (arp_send_response_reuse E C pkt s1))"
    unfolding arp_send_response_reuse_def Let_def by (rule fate_tx [OF e]) simp
  have i: "arp_input E C tsc_us pkt s = Some (if arp_answered C (mbufs s pkt) then snd (arp_send_response_reuse E C pkt s1) else mbuf_free E pkt s1)"
    using True u(1) by (auto simp: arp_input_def Let_def arp_answered_def)
  show ?thesis unfolding i by (cases "arp_answered C (mbufs s pkt)") (simp_all add: fate_trans [OF r u(2,3)] fate_trans [OF fate_free [OF e] u(2,3)])
qed

lemma input_fate:
  assumes "eth_ok E sent freed" "\<not> arp_lock s" "\<not> pending_pkt_lock s" "clock_ok (net_tm s) tsc_us"
    "\<not> (load16 12 (mb_data (mbufs s pkt)) = hton16 ETHTYPE_IP \<and> ip_valid (mbufs s pkt) \<and>
        ip_proto (mb_data (mbufs s pkt)) = IPPROTO_TCP)"
  shows "\<exists>s'. eth_input_process T E C tsc_us pkt 1 s = Some s' \<and> fate (answered C (mbufs s pkt)) sent freed pkt s s'"
proof (cases "load16 12 (mb_data (mbufs s pkt)) = hton16 ETHTYPE_IP")
  case False
  then show ?thesis using arp_input_fate [OF assms(1-4), of C pkt] fate_free [OF assms(1)]
    by (simp add: eth_input_process_def Let_def answered_def)
next
  case ip: True
  note f = fate_free [OF assms(1), of pkt s]
  show ?thesis
  proof (cases "ip_valid (mbufs s pkt) \<and> ip_proto (mb_data (mbufs s pkt)) = IPPROTO_ICMP")
    case True
    then show ?thesis using ip icmp_input_fate [OF assms(1)]
      by (simp add: eth_input_process_def ip_input_def Let_def answered_def ip_answered_def ip_consts)
  next
    case False
    then have "ip_input T E C pkt s = Some (mbuf_free E pkt s)" using ip assms(5) by (auto simp: ip_input_def Let_def)
    moreover have "\<not> ip_answered (mbufs s pkt)" using False by (auto simp: ip_answered_def Let_def)
    ultimately show ?thesis using ip f by (simp add: eth_input_process_def Let_def answered_def)
  qed
qed

text \<open>
  C9. Every packet that arrives and is not for TCP has exactly one fate, and receiving it returns
  when no lock is held: a request for the address of this host and an echo request with a right
  checksum are sent back once, in their own buffer, and not freed; every other packet is freed once
  and nothing is sent.
\<close>

theorem packet_fate:
  assumes "eth_ok E sent freed" "\<not> arp_lock s" "\<not> pending_pkt_lock s" "clock_ok (net_tm s) tsc_us"
    "\<not> (load16 12 (mb_data (mbufs s pkt)) = hton16 ETHTYPE_IP \<and> ip_valid (mbufs s pkt) \<and>
        ip_proto (mb_data (mbufs s pkt)) = IPPROTO_TCP)"
  shows "\<exists>s'. eth_input_process T E C tsc_us pkt 1 s = Some s' \<and>
    (if answered C (mbufs s pkt)
     then sent (net_world s') = sent (net_world s) @ [(0, pkt, mbufs s' pkt)] \<and> freed (net_world s') = freed (net_world s)
     else sent (net_world s') = sent (net_world s) \<and> freed (net_world s') = freed (net_world s) @ [pkt])"
  using input_fate [OF assms, of T C] unfolding fate_def .

section \<open>The contents of ARP packets\<close>

lemma load_put_other:
  assumes "off' + length v \<le> length bs"
  shows "off + 2 \<le> off' \<or> off' + length v \<le> off \<Longrightarrow> load16 off (put off' v bs) = load16 off bs"
    "off + 4 \<le> off' \<or> off' + length v \<le> off \<Longrightarrow> load32 off (put off' v bs) = load32 off bs"
  using assms by (simp_all add: load16_def load32_def get_put_other)

lemma load_store16_other:
  assumes "off' + 2 \<le> length bs"
  shows "off + 2 \<le> off' \<or> off' + 2 \<le> off \<Longrightarrow> load16 off (store16 off' v bs) = load16 off bs"
    "off + 4 \<le> off' \<or> off' + 2 \<le> off \<Longrightarrow> load32 off (store16 off' v bs) = load32 off bs"
  using assms by (simp_all add: store16_def load_put_other)

lemma load_store32_other:
  assumes "off' + 4 \<le> length bs"
  shows "off + 2 \<le> off' \<or> off' + 4 \<le> off \<Longrightarrow> load16 off (store32 off' v bs) = load16 off bs"
    "off + 4 \<le> off' \<or> off' + 4 \<le> off \<Longrightarrow> load32 off (store32 off' v bs) = load32 off bs"
  using assms by (simp_all add: store32_def load_put_other)

lemma length_get: "off + n \<le> length bs \<Longrightarrow> length (get off n bs) = n" by (simp add: get_def)

lemma load32_put_get: "off + 4 \<le> length bs \<Longrightarrow> off' + 4 \<le> length bs' \<Longrightarrow> load32 off (put off (get off' 4 bs') bs) = load32 off' bs'"
  by (simp add: load32_def get_put_same length_get)

lemma le_length_put: "n \<le> length bs \<Longrightarrow> n \<le> length (put off v bs)"
  by (simp add: put_def)

lemma le_length_store: "n \<le> length bs \<Longrightarrow> n \<le> length (store16 off x bs)" "n \<le> length bs \<Longrightarrow> n \<le> length (store32 off y bs)"
  by (simp_all add: store16_def store32_def le_length_put)

lemmas packet_simps = le_length_put le_length_store get_put_same get_put_other
  get_store16_other get_store32_other load16_store16 load32_store32 load_put_other load_store16_other load_store32_other length_get load32_put_get

lemma ntoh_hton [simp]: "ntoh16 (hton16 x) = x" "ntoh32 (hton32 y) = y"
  by (simp_all add: ntoh16_def hton16_def ntoh32_def hton32_def)

lemma arp_packet_fields:
  assumes "length d \<ge> 42" "length (cfg_mac C) = 6" "length mac = 6"
  shows "length (arp_packet C op ip mac d) \<ge> 42"
    "get 0 6 (arp_packet C op ip mac d) = mac"
    "get 6 6 (arp_packet C op ip mac d) = cfg_mac C"
    "load16 12 (arp_packet C op ip mac d) = hton16 ETHTYPE_ARP"
    "load16 14 (arp_packet C op ip mac d) = hton16 ARP_HTYPE_ETHER"
    "load16 16 (arp_packet C op ip mac d) = hton16 ETHTYPE_IP"
    "get 18 1 (arp_packet C op ip mac d) = [6]"
    "get 19 1 (arp_packet C op ip mac d) = [4]"
    "load16 20 (arp_packet C op ip mac d) = hton16 op"
    "get 22 6 (arp_packet C op ip mac d) = cfg_mac C"
    "load32 28 (arp_packet C op ip mac d) = hton32 (cfg_host_addr C)"
    "load32 38 (arp_packet C op ip mac d) = hton32 ip"
  using assms by (simp_all add: arp_packet_def packet_simps)

text \<open>A reply is addressed to the sender of the request and carries the addresses of this host.\<close>

lemma arp_reply_fields:
  assumes "length d \<ge> 42" "length (cfg_mac C) = 6"
  shows "length (arp_reply C d) \<ge> 42"
    "get 0 6 (arp_reply C d) = get 6 6 d"
    "get 6 6 (arp_reply C d) = cfg_mac C"
    "load16 12 (arp_reply C d) = load16 12 d"
    "load16 14 (arp_reply C d) = load16 14 d"
    "load16 16 (arp_reply C d) = load16 16 d"
    "get 18 1 (arp_reply C d) = get 18 1 d"
    "get 19 1 (arp_reply C d) = get 19 1 d"
    "load16 20 (arp_reply C d) = hton16 ARP_OP_REPLY"
    "get 22 6 (arp_reply C d) = cfg_mac C"
    "load32 28 (arp_reply C d) = hton32 (cfg_host_addr C)"
    "get 32 6 (arp_reply C d) = get 22 6 d"
    "load32 38 (arp_reply C d) = load32 28 d"
  using assms by (simp_all add: arp_reply_def packet_simps)

lemma tx_nonneg: "eth_ok E sent freed \<Longrightarrow> \<not> fst (tx_buffer E q p s) < 0"
  using tx_ok(1) [of E sent freed q p s] by simp

section \<open>Learning from a packet\<close>

text \<open>
  \<open>arp_learns\<close>: the sender of the packet has an entry, or gets one because this host is asked, and
  the entry is not a static one.
\<close>

definition arp_learns :: "'w net_env \<Rightarrow> u32 \<Rightarrow> 'w net_state \<Rightarrow> bool" where
  "arp_learns E addr s \<longleftrightarrow> (case arp_lookup E addr True s of
     Some (Some e, s1) \<Rightarrow> ae_flags (arp_entries s1 e) AND ARP_FLAG_STATIC = 0 | _ \<Rightarrow> False)"

lemma arp_lookup_mac_valid:
  assumes "arp_find (arp_ip_to_idx addr) addr s = Some e" "ae_flags (arp_entries s e) = ARP_FLAG_VALID"
  shows "arp_lookup_mac E C t addr s = Some (0, Some (ae_mac (arp_entries s e)), s)"
  using assms by (simp add: arp_lookup_mac_def arp_lookup_found arp_consts)

lemma arp_find_cong: "arp_tbl s' = arp_tbl s \<Longrightarrow> (\<And>e. ae_addr (arp_entries s' e) = ae_addr (arp_entries s e)) \<Longrightarrow>
    arp_find h addr s' = arp_find h addr s"
  by (simp add: arp_find_def)

lemma arp_update_mac_learns:
  assumes "eth_ok E sent freed" "\<not> arp_lock s" "\<not> pending_pkt_lock s" "clock_ok (net_tm s) tsc_us" "arp_learns E addr s"
  obtains s' e where "arp_update_mac E tsc_us addr mac True s = Some (0, s')"
    "arp_find (arp_ip_to_idx addr) addr s' = Some e" "ae_flags (arp_entries s' e) = ARP_FLAG_VALID" "ae_mac (arp_entries s' e) = mac"
    "sent (net_world s') = sent (net_world s)" "mbufs s' = mbufs s"
proof -
  obtain r s1 where l: "arp_lookup E addr True s = Some (r, s1)"
    "sent (net_world s1) = sent (net_world s)" "freed (net_world s1) = freed (net_world s)"
    "mbufs s1 = mbufs s" "pending_pkt_lock s1 = pending_pkt_lock s" "arp_send_pkt_lock s1 = arp_send_pkt_lock s"
    "now_us (net_tm s1) = now_us (net_tm s)" "net_tw s1 = net_tw s" "cpu_id s1 = cpu_id s"
    "\<forall>e. r = Some e \<longrightarrow> arp_find (arp_ip_to_idx addr) addr s1 = Some e \<and> arp_lock s1 = arp_lock s"
    "r = None \<longrightarrow> arp_find (arp_ip_to_idx addr) addr s1 = None \<and> arp_lock s1 = True"
    by (rule arp_lookup_spec [OF assms(1,2)])
  obtain e where e: "r = Some e" "ae_flags (arp_entries s1 e) AND ARP_FLAG_STATIC = 0"
    using assms(5) unfolding arp_learns_def l(1) by (cases r) auto
  have fnd: "arp_find (arp_ip_to_idx addr) addr s1 = Some e" using l(10) e(1) by simp
  have ck: "clock_ok (net_tm s1) tsc_us" using assms(4) l(7) by (simp add: clock_ok_def)
  have pl: "\<not> pending_pkt_lock s1" using assms(3) l(5) by simp
  let ?s2 = "\<lambda>tm'. (upd_arp e (\<lambda>a. a\<lparr>ae_mac := mac, ae_flags := ARP_FLAG_VALID, ae_retries := 0\<rparr>) s1)\<lparr>net_tm := tm'\<rparr>"
  obtain tm' where m: "arp_update_mac E tsc_us addr mac True s1 = Some (0, dispatch_loop E (pending_pkts (arp_entries s1 e)) (?s2 tm'))"
    "now_us tm' = now_us (net_tm s1)"
    by (rule arp_update_mac_found [OF assms(1) fnd e(2) pl ck])
  have u: "arp_update_mac E tsc_us addr mac True s = arp_update_mac E tsc_us addr mac True s1"
    unfolding arp_update_mac_def l(1) arp_lookup_found [OF fnd] e(1) by simp
  note fr = dispatch_frame [OF assms(1), of "pending_pkts (arp_entries s1 e)" "?s2 tm'"]
  have f2: "arp_find (arp_ip_to_idx addr) addr (dispatch_loop E (pending_pkts (arp_entries s1 e)) (?s2 tm')) = Some e"
    unfolding fnd [symmetric] by (rule arp_find_cong) (use fr in \<open>simp_all add: upd_arp_def\<close>)
  have w: "net_world (?s2 tm') = net_world s1" "mbufs (?s2 tm') = mbufs s1" by (simp_all add: upd_arp_def net_world_def)
  show ?thesis by (rule that [OF u [unfolded m(1)] f2]) (use fr w l in \<open>simp_all add: upd_arp_def\<close>)
qed

text \<open>A valid packet for this host: its sender is known afterwards, under the address it gave.\<close>

lemma arp_input_learns:
  assumes "eth_ok E sent freed" "\<not> arp_lock s" "\<not> pending_pkt_lock s" "clock_ok (net_tm s) tsc_us"
    "arp_learns E (ntoh32 (load32 28 (mb_data (mbufs s pkt)))) s" "arp_valid (mbufs s pkt)"
    "ntoh32 (load32 38 (mb_data (mbufs s pkt))) = cfg_host_addr C"
  obtains s' where "arp_input E C tsc_us pkt s = Some s'"
    "arp_lookup_mac E C t (ntoh32 (load32 28 (mb_data (mbufs s pkt)))) s' = Some (0, Some (get 22 6 (mb_data (mbufs s pkt))), s')"
    "ntoh16 (load16 20 (mb_data (mbufs s pkt))) = ARP_OP_REQUEST \<longrightarrow>
       sent (net_world s') = sent (net_world s) @ [(0, pkt, (mbufs s pkt)\<lparr>mb_data := arp_reply C (mb_data (mbufs s pkt)), ol_flags := 0,
                pkt_len := of_nat ARP_PKT_SIZE, data_len := of_nat ARP_PKT_SIZE\<rparr>)]"
proof -
  let ?d = "mb_data (mbufs s pkt)" let ?a = "ntoh32 (load32 28 ?d)"
  obtain s1 e where u: "arp_update_mac E tsc_us ?a (get 22 6 ?d) True s = Some (0, s1)"
    "arp_find (arp_ip_to_idx ?a) ?a s1 = Some e" "ae_flags (arp_entries s1 e) = ARP_FLAG_VALID" "ae_mac (arp_entries s1 e) = get 22 6 ?d"
    "sent (net_world s1) = sent (net_world s)" "mbufs s1 = mbufs s"
    by (rule arp_update_mac_learns [OF assms(1-5)])
  let ?r = "snd (arp_send_response_reuse E C pkt s1)" let ?q = "ntoh16 (load16 20 ?d) = ARP_OP_REQUEST"
  let ?s' = "if ?q then ?r else mbuf_free E pkt s1"
  have i: "arp_input E C tsc_us pkt s = Some ?s'" using assms(6,7) u(1) by (simp add: arp_input_def Let_def)
  have t: "arp_tbl ?s' = arp_tbl s1" "arp_entries ?s' = arp_entries s1"
    by (simp_all add: arp_send_response_reuse_def Let_def tx_buffer_def mbuf_free_def set_net_world_def upd_mbuf_def split: prod.splits)
  have f: "arp_find (arp_ip_to_idx ?a) ?a ?s' = Some e" unfolding u(2) [symmetric] using t by (intro arp_find_cong) simp_all
  have l: "arp_lookup_mac E C t ?a ?s' = Some (0, Some (ae_mac (arp_entries ?s' e)), ?s')"
    by (rule arp_lookup_mac_valid [OF f]) (use u(3) t(2) in simp)
  have x: "?q \<longrightarrow> sent (net_world ?s') = sent (net_world s) @ [(0, pkt, (mbufs s pkt)\<lparr>mb_data := arp_reply C ?d, ol_flags := 0,
                pkt_len := of_nat ARP_PKT_SIZE, data_len := of_nat ARP_PKT_SIZE\<rparr>)]"
    using u(5,6) by (simp add: arp_send_response_reuse_def Let_def case_prod_unfold tx_ok [OF assms(1)] tx_nonneg [OF assms(1)])
      (simp add: upd_mbuf_def)
  show ?thesis by (rule that [OF i l [unfolded t(2) u(4)] x])
qed

section \<open>The exchange of two hosts\<close>

definition unicast_mac :: "u8 list \<Rightarrow> bool" where
  "unicast_mac mac \<longleftrightarrow> length mac = 6 \<and> \<not> eth_addr_is_multicast mac"

text \<open>The state of a host that can take a packet: no lock is held, the clock is not behind.\<close>

definition net_ready :: "u64 \<Rightarrow> 'w net_state \<Rightarrow> bool" where
  "net_ready tsc_us s \<longleftrightarrow> \<not> arp_lock s \<and> \<not> pending_pkt_lock s \<and> clock_ok (net_tm s) tsc_us"

lemma arp_valid_request:
  assumes "length d \<ge> 42" "unicast_mac (cfg_mac C)" "length mac = 6" "mb_data m = arp_packet C op ip mac d" "data_len m = of_nat ARP_PKT_SIZE"
  shows "arp_valid m"
  using assms by (simp add: arp_valid_def unicast_mac_def arp_packet_fields mbuf_enough_space_def arp_consts Let_def del: One_nat_def)

lemma arp_valid_reply:
  assumes "length d \<ge> 42" "unicast_mac (cfg_mac C)" "arp_valid m" "mb_data m = d" "mb_data m' = arp_reply C d" "data_len m' = of_nat ARP_PKT_SIZE"
  shows "arp_valid m'"
  using assms by (simp add: arp_valid_def unicast_mac_def arp_reply_fields mbuf_enough_space_def arp_consts Let_def del: One_nat_def)

text \<open>
  C10. Address resolution is a round trip.  The request that host A broadcasts for the address of host B
  makes B answer once, with a packet addressed to A, and B knows A afterwards; when this answer arrives
  at A, A resolves B's address to B's hardware address.
\<close>

theorem arp_round_trip:
  assumes A: "eth_ok EA sentA freedA" "net_ready tA sA" "unicast_mac (cfg_mac CA)" "arp_learns EA (cfg_host_addr CB) sA"
    and B: "eth_ok EB sentB freedB" "net_ready tB sB" "unicast_mac (cfg_mac CB)" "arp_learns EB (cfg_host_addr CA) sB"
    and request: "mb_data (mbufs sB pB) = arp_packet CA ARP_OP_REQUEST (cfg_host_addr CB) ETH_ADDR_BROADCAST d"
      "data_len (mbufs sB pB) = of_nat ARP_PKT_SIZE" "length d \<ge> ARP_PKT_SIZE"
  shows "\<exists>sB' r. eth_input_process T EB CB tB pB 1 sB = Some sB' \<and>
    sentB (net_world sB') = sentB (net_world sB) @ [(0, pB, r)] \<and> get 0 6 (mb_data r) = cfg_mac CA \<and>
    arp_lookup_mac EB CB t (cfg_host_addr CA) sB' = Some (0, Some (cfg_mac CA), sB') \<and>
    (mbufs sA pA = r \<longrightarrow>
      (\<exists>sA'. eth_input_process T' EA CA tA pA 1 sA = Some sA' \<and>
        arp_lookup_mac EA CA t (cfg_host_addr CB) sA' = Some (0, Some (cfg_mac CB), sA')))"
proof -
  have l: "length d \<ge> 42" "length (cfg_mac CA) = 6" "length (cfg_mac CB) = 6" "length ETH_ADDR_BROADCAST = 6"
    using request(3) A(3) B(3) by (simp_all add: arp_consts unicast_mac_def)
  note f = arp_packet_fields [OF l(1,2,4), of ARP_OP_REQUEST "cfg_host_addr CB"]
  let ?q = "arp_packet CA ARP_OP_REQUEST (cfg_host_addr CB) ETH_ADDR_BROADCAST d"
  have lq: "length ?q \<ge> 42" by (rule f(1))
  note g = arp_reply_fields [OF lq l(3)]
  have v: "arp_valid (mbufs sB pB)" by (rule arp_valid_request [OF l(1) A(3) l(4) request(1,2)])
  have nr: "\<not> arp_lock sB" "\<not> pending_pkt_lock sB" "clock_ok (net_tm sB) tB" using B(2) by (simp_all add: net_ready_def)
  let ?r = "(mbufs sB pB)\<lparr>mb_data := arp_reply CB ?q, ol_flags := 0, pkt_len := of_nat ARP_PKT_SIZE, data_len := of_nat ARP_PKT_SIZE\<rparr>"
  have lb: "arp_learns EB (ntoh32 (load32 28 (mb_data (mbufs sB pB)))) sB" using B(4) by (simp add: request f)
  have tb: "ntoh32 (load32 38 (mb_data (mbufs sB pB))) = cfg_host_addr CB" by (simp add: request f)
  have ty: "hton16 ETHTYPE_ARP \<noteq> hton16 ETHTYPE_IP" by (simp add: hton16_def arp_consts bswap16_def)
  obtain sB' where b: "arp_input EB CB tB pB sB = Some sB'"
    "arp_lookup_mac EB CB t (ntoh32 (load32 28 (mb_data (mbufs sB pB)))) sB' = Some (0, Some (get 22 6 (mb_data (mbufs sB pB))), sB')"
    "ntoh16 (load16 20 (mb_data (mbufs sB pB))) = ARP_OP_REQUEST \<longrightarrow>
       sentB (net_world sB') = sentB (net_world sB) @ [(0, pB, (mbufs sB pB)\<lparr>mb_data := arp_reply CB (mb_data (mbufs sB pB)), ol_flags := 0,
                pkt_len := of_nat ARP_PKT_SIZE, data_len := of_nat ARP_PKT_SIZE\<rparr>)]"
    by (rule arp_input_learns [OF B(1) nr lb v tb])
  have i: "eth_input_process T EB CB tB pB 1 sB = Some sB'"
    using b(1) ty by (simp add: eth_input_process_def request f)
  have home: "\<exists>sA'. eth_input_process T' EA CA tA pA 1 sA = Some sA' \<and>
        arp_lookup_mac EA CA t (cfg_host_addr CB) sA' = Some (0, Some (cfg_mac CB), sA')" if r: "mbufs sA pA = ?r"
  proof -
    have va: "arp_valid (mbufs sA pA)" by (rule arp_valid_reply [OF lq B(3) v request(1)]) (simp_all add: r)
    have nra: "\<not> arp_lock sA" "\<not> pending_pkt_lock sA" "clock_ok (net_tm sA) tA" using A(2) by (simp_all add: net_ready_def)
    have la: "arp_learns EA (ntoh32 (load32 28 (mb_data (mbufs sA pA)))) sA" using A(4) by (simp add: r g)
    have ta: "ntoh32 (load32 38 (mb_data (mbufs sA pA))) = cfg_host_addr CA" by (simp add: r g f)
    obtain sA' where a: "arp_input EA CA tA pA sA = Some sA'"
      "arp_lookup_mac EA CA t (ntoh32 (load32 28 (mb_data (mbufs sA pA)))) sA' = Some (0, Some (get 22 6 (mb_data (mbufs sA pA))), sA')"
      by (rule arp_input_learns [OF A(1) nra la va ta])
    have "eth_input_process T' EA CA tA pA 1 sA = Some sA'" using a(1) ty by (simp add: eth_input_process_def r g f)
    then show ?thesis using a(2) by (simp add: r g)
  qed
  show ?thesis by (rule exI [of _ sB'], rule exI [of _ ?r]) (use i b home in \<open>simp add: request f g\<close>)
qed

section \<open>Echo replies\<close>

lemma get_put_inside:
  assumes "off \<le> off'" "off' + length v \<le> off + n" "off + n \<le> length bs"
  shows "get off n (put off' v bs) = put (off' - off) v (get off n bs)"
proof (rule nth_equalityI)
  show "length (get off n (put off' v bs)) = length (put (off' - off) v (get off n bs))"
    using assms by (simp add: get_def put_def)
  fix i assume "i < length (get off n (put off' v bs))"
  then show "get off n (put off' v bs) ! i = put (off' - off) v (get off n bs) ! i"
    using assms by (auto simp: get_def put_def nth_append add.commute)
qed

lemma put_put_same: "length v = length v' \<Longrightarrow> off \<le> length bs \<Longrightarrow> put off v (put off v' bs) = put off v bs"
  by (simp add: put_def)

lemma get_split: "get off (a + b) bs = get off a bs @ get (off + a) b bs"
  by (simp add: get_def take_add add.commute)

lemma icmp_reply_fields:
  assumes "34 \<le> hdr" "4 \<le> n" "hdr + n \<le> length d" "length (cfg_mac C) = 6" "n < 65536"
  shows "length (icmp_reply C hdr n d) \<ge> hdr + n"
    "get 0 6 (icmp_reply C hdr n d) = get 6 6 d" "get 6 6 (icmp_reply C hdr n d) = cfg_mac C"
    "get 12 14 (icmp_reply C hdr n d) = get 12 14 d"
    "load32 26 (icmp_reply C hdr n d) = hton32 (cfg_host_addr C)" "load32 30 (icmp_reply C hdr n d) = load32 26 d"
    "get 34 (hdr - 34) (icmp_reply C hdr n d) = get 34 (hdr - 34) d"
    "get hdr 2 (icmp_reply C hdr n d) = get hdr 2 d"
    "get (hdr + 4) (n - 4) (icmp_reply C hdr n d) = get (hdr + 4) (n - 4) d"
  using assms by (simp_all add: icmp_reply_def Let_def packet_simps del: One_nat_def)

lemma icmp_reply_checksum:
  assumes "34 \<le> hdr" "4 \<le> n" "hdr + n \<le> length d" "length (cfg_mac C) = 6" "n < 65536"
  shows "chksum_internet (get hdr n (icmp_reply C hdr n d)) = 0"
proof -
  define x where "x = put 6 (cfg_mac C) (put 0 (get 6 6 d) d)"
  define e where "e = store32 26 (hton32 (cfg_host_addr C)) (put 30 (get 26 4 x) x)"
  have le: "hdr + n \<le> length e" using assms(3) by (simp add: e_def x_def packet_simps)
  let ?z = "put (hdr + 2) (le_bytes 2 0) e"
  have z: "get hdr n ?z = put 2 [0, 0] (get hdr n e)"
    using get_put_inside [of hdr "hdr + 2" "le_bytes 2 0" n e] assms(2) le by (simp add: numeral_2_eq_2)
  have lz: "hdr + n \<le> length ?z" using le by (rule le_length_put)
  have "icmp_reply C hdr n d = put (hdr + 2) (le_bytes 2 (unat (chksum_internet (get hdr n ?z)))) ?z"
    by (simp add: icmp_reply_def Let_def x_def [symmetric] e_def [symmetric] store16_def)
  also have "get hdr n \<dots> = put 2 (le_bytes 2 (unat (chksum_internet (get hdr n ?z)))) (get hdr n ?z)"
    using get_put_inside [of hdr "hdr + 2" _ n ?z] assms(2) lz by simp
  also have "\<dots> = put 2 (le_bytes 2 (unat (chksum_internet (put 2 [0, 0] (get hdr n e))))) (get hdr n e)"
    unfolding z using assms(2) le by (subst put_put_same) (simp_all add: length_get)
  also have "chksum_internet \<dots> = 0"
    using assms(2,5) le by (intro chksum_internet_verifies) (simp_all add: length_get)
  finally show ?thesis .
qed

lemma icmp_reply_ip_checksum:
  assumes "34 \<le> hdr" "4 \<le> n" "hdr + n \<le> length d" "length (cfg_mac C) = 6" "n < 65536" "hdr < 65536"
    "load32 30 d = hton32 (cfg_host_addr C)"
  shows "chksum_internet (get 14 (hdr - 14) (icmp_reply C hdr n d)) = chksum_internet (get 14 (hdr - 14) d)"
proof -
  let ?r = "icmp_reply C hdr n d"
  note f = icmp_reply_fields [OF assms(1-5)]
  have s: "get 14 (hdr - 14) x = (get 14 12 x @ get 26 4 x @ get 30 4 x) @ get 34 (hdr - 34) x" for x
  proof -
    have "hdr - 14 = 12 + (4 + (4 + (hdr - 34)))" using assms(1) by simp
    then show ?thesis by (simp only: get_split append_assoc) simp
  qed
  have p: "get 14 12 ?r = get 14 12 d"
  proof -
    have "get 14 12 x = drop 2 (get 12 14 x)" for x by (simp add: get_def drop_take)
    then show ?thesis using f(4) by simp
  qed
  have le: "get k 4 x = le_bytes 4 (unat (load32 k x))" if "k + 4 \<le> length x" for k x
    using le_bytes_le_nat [of "get k 4 x"] le_nat_less [of "get k 4 x"] that
    by (simp add: load32_def length_get unat_of_nat_small)
  have lr: "34 \<le> length ?r" "34 \<le> length d" using f(1) assms(1,3) by linarith+
  have ad: "get 26 4 ?r = get 30 4 d" "get 30 4 ?r = get 26 4 d"
    using le [of 26 ?r] le [of 30 d] le [of 30 ?r] le [of 26 d] lr f(5,6) assms(7) by simp_all
  have ll: "length (get 14 12 d) = 12" "length (get 26 4 d) = 4" "length (get 30 4 d) = 4" using lr by (simp_all add: length_get)
  have "wsum (get 14 (hdr - 14) ?r) = wsum (get 14 (hdr - 14) d)"
    unfolding s p ad f(7) using ll by (simp add: wsum_append_even)
  moreover have "length (get 14 (hdr - 14) x) < 2147483648" for x using assms(6) by (simp add: get_def)
  ultimately show ?thesis by (simp add: chksum_internet_spec)
qed

lemma ip_answered_bounds:
  assumes "ip_answered m" "unat (data_len m) \<le> length (mb_data m)"
    "hdr = ETH_HDR_LEN + unat (ip_header_len (mb_data m)) * 4" "n = unat (ntoh16 (load16 16 (mb_data m))) + ETH_HDR_LEN - hdr"
  shows "34 \<le> hdr" "8 \<le> n" "hdr + n \<le> length (mb_data m)" "n < 65536" "hdr < 65536"
    "icmp_answered hdr n (mb_data m)" "ip_valid m" "ip_proto (mb_data m) = IPPROTO_ICMP"
proof -
  let ?h = "ip_header_len (mb_data m)" let ?l = "ntoh16 (load16 16 (mb_data m))"
  have v: "ip_valid m" "ip_proto (mb_data m) = IPPROTO_ICMP" "icmp_answered (14 + unat ?h * 4) (unat ?l - unat ?h * 4) (mb_data m)"
    using assms(1) by (simp_all add: ip_answered_def Let_def ETH_HDR_LEN_def)
  have h: "5 \<le> unat ?h" "unat ?h * 4 \<le> unat ?l" "14 + unat ?l \<le> unat (data_len m)"
    using v(1) by (simp_all add: ip_valid_def Let_def ip_consts ETH_HDR_LEN_def mbuf_enough_space_def word_less_nat_alt)
  have l: "unat ?l < 65536" by (rule unat_lt16)
  have n: "hdr = 14 + unat ?h * 4" "n = unat ?l - unat ?h * 4" using assms(3,4) by (simp_all add: ETH_HDR_LEN_def)
  show "34 \<le> hdr" "hdr + n \<le> length (mb_data m)" "n < 65536" "hdr < 65536"
    using n h l assms(2) unat_lt8 [of ?h] by linarith+
  show "icmp_answered hdr n (mb_data m)" "ip_valid m" "ip_proto (mb_data m) = IPPROTO_ICMP" using v n by simp_all
  then show "8 \<le> n" by (simp add: icmp_answered_def ICMP_MINLEN_def)
qed

text \<open>
  C12. An echo request is answered by the reply to it: the packet goes back to the hardware and network
  address it came from, with the addresses of this host as the sender, as an echo reply whose ICMP
  checksum verifies and whose identifier, sequence number and data are those of the request.  The IP
  header checksum is not computed again; it still verifies if the request was addressed to this host.
\<close>

theorem icmp_echo_reply:
  assumes "eth_ok E sent freed" "load16 12 (mb_data (mbufs s pkt)) = hton16 ETHTYPE_IP" "ip_answered (mbufs s pkt)"
    "unat (data_len (mbufs s pkt)) \<le> length (mb_data (mbufs s pkt))" "length (cfg_mac C) = 6"
    "d = mb_data (mbufs s pkt)" "hdr = ETH_HDR_LEN + unat (ip_header_len d) * 4" "n = unat (ntoh16 (load16 16 d)) + ETH_HDR_LEN - hdr"
  shows "\<exists>s' r. eth_input_process T E C tsc_us pkt 1 s = Some s' \<and> sent (net_world s') = sent (net_world s) @ [(0, pkt, r)] \<and>
    get 0 6 (mb_data r) = get 6 6 d \<and> get 6 6 (mb_data r) = cfg_mac C \<and>
    load32 30 (mb_data r) = load32 26 d \<and> load32 26 (mb_data r) = hton32 (cfg_host_addr C) \<and>
    hd (get hdr 1 (mb_data r)) = ICMP_ECHOREPLY \<and> chksum_internet (get hdr n (mb_data r)) = 0 \<and>
    get (hdr + 4) (n - 4) (mb_data r) = get (hdr + 4) (n - 4) d \<and>
    (load32 30 d = hton32 (cfg_host_addr C) \<longrightarrow>
      chksum_internet (get 14 (hdr - 14) (mb_data r)) = chksum_internet (get 14 (hdr - 14) d))"
proof -
  note b = ip_answered_bounds [OF assms(3,4) assms(7) [unfolded assms(6)] assms(8) [unfolded assms(6)]]
  define x where "x = put hdr [ICMP_ECHOREPLY] d"
  have lx: "hdr + n \<le> length x" using b(3) unfolding x_def assms(6) [symmetric] by (rule le_length_put)
  have four: "4 \<le> n" using b(2) by simp
  note f = icmp_reply_fields [OF b(1) four lx assms(5) b(4)]
  have ld: "hdr + 1 \<le> length d" using b(2,3) unfolding assms(6) by linarith
  have x: "get 6 6 x = get 6 6 d" "load32 26 x = load32 26 d" "load32 30 x = load32 30 d" "get (hdr + 4) (n - 4) x = get (hdr + 4) (n - 4) d"
    "get hdr 2 x = put 0 [ICMP_ECHOREPLY] (get hdr 2 d)" "get 14 (hdr - 14) x = get 14 (hdr - 14) d"
    using b(1,2,3) ld assms(6) get_put_inside [of hdr hdr "[ICMP_ECHOREPLY]" 2 d] unfolding x_def
    by (simp_all add: packet_simps del: One_nat_def)
  let ?r = "(mbufs s pkt)\<lparr>mb_data := icmp_reply C hdr n x, ol_flags := 0, data_len := ucast (pkt_len (mbufs s pkt))\<rparr>"
  define s2 where "s2 = upd_mbuf pkt (\<lambda>m. m\<lparr>mb_data := icmp_reply C hdr n (mb_data m), ol_flags := 0, data_len := ucast (pkt_len m)\<rparr>)
    (upd_mbuf pkt (\<lambda>m. m\<lparr>mb_data := put hdr [ICMP_ECHOREPLY] (mb_data m)\<rparr>) s)"
  have nl: "unat (ntoh16 (load16 16 d)) - unat (ip_header_len d) * 4 = n" using assms(7,8) by simp
  have "eth_input_process T E C tsc_us pkt 1 s = Some (icmp_input E C pkt hdr n s)"
    using assms(2,6) b(7,8) nl assms(7) by (simp add: eth_input_process_def ip_input_def Let_def ip_consts)
  also have "icmp_input E C pkt hdr n s = snd (tx_buffer E 0 pkt s2)"
    using b(6) unfolding icmp_answered_def not_less [symmetric]
    by (simp add: icmp_input_def icmp_reflect_def Let_def s2_def [symmetric] case_prod_unfold tx_nonneg [OF assms(1)])
  finally have i: "eth_input_process T E C tsc_us pkt 1 s = Some (snd (tx_buffer E 0 pkt s2))" .
  have w: "net_world s2 = net_world s" "mbufs s2 pkt = ?r" by (simp_all add: s2_def) (simp add: upd_mbuf_def x_def assms(6))
  have "get hdr 1 y = take 1 (get hdr 2 y)" for y by (simp add: get_def min_def)
  then have ty: "hd (get hdr 1 (icmp_reply C hdr n x)) = ICMP_ECHOREPLY" using f(8) x(5) by (simp add: put_def del: One_nat_def)
  show ?thesis
    by (rule exI [of _ "snd (tx_buffer E 0 pkt s2)"], rule exI [of _ ?r])
      (use i w x f ty icmp_reply_checksum [OF b(1) four lx assms(5) b(4)] icmp_reply_ip_checksum [OF b(1) four lx assms(5) b(4,5)]
        tx_ok(2) [OF assms(1), of 0 pkt s2] in \<open>simp del: One_nat_def\<close>)
qed

section \<open>Waiting packets are sent in order\<close>

text \<open>A packet with its Ethernet header and lengths filled in.\<close>

definition framed :: "net_cfg \<Rightarrow> u8 list \<Rightarrow> nat \<Rightarrow> rte_mbuf \<Rightarrow> rte_mbuf" where
  "framed C mac n m = m\<lparr>mb_data := put 0 mac (store16 12 (hton16 ETHTYPE_IP) (put 6 (cfg_mac C) (mb_data m))),
     data_len := of_nat n, pkt_len := of_nat n\<rparr>"

lemma ip_send_one_known:
  assumes "eth_ok E sent freed" "arp_find (arp_ip_to_idx addr) addr s = Some e" "ae_flags (arp_entries s e) = ARP_FLAG_VALID"
    "ip_next_hop C dst = addr"
  shows "ip_send_one E C t fg dst pkt n s = Some (0, snd (tx_buffer E (unat (cpu_id s)) pkt (upd_mbuf pkt (framed C (ae_mac (arp_entries s e)) n) s)))"
proof -
  let ?s = "upd_mbuf pkt (\<lambda>m. m\<lparr>mb_data := store16 12 (hton16 ETHTYPE_IP) (put 6 (cfg_mac C) (mb_data m))\<rparr>) s"
  have t: "arp_tbl ?s = arp_tbl s" "arp_entries ?s = arp_entries s" "cpu_id ?s = cpu_id s" by (simp_all add: upd_mbuf_def)
  have f: "arp_find (arp_ip_to_idx addr) addr ?s = Some e" unfolding assms(2) [symmetric] using t by (intro arp_find_cong) simp_all
  have l: "arp_lookup_mac E C t addr ?s = Some (0, Some (ae_mac (arp_entries s e)), ?s)"
    using arp_lookup_mac_valid [OF f, of E C t] assms(3) by (simp add: t)
  have u: "upd_mbuf pkt (\<lambda>m. m\<lparr>mb_data := put 0 mac (mb_data m), data_len := of_nat n, pkt_len := of_nat n\<rparr>) ?s = upd_mbuf pkt (framed C mac n) s" for mac
    by (simp add: upd_mbuf_def framed_def)
  have c: "cpu_id (upd_mbuf pkt f s) = cpu_id s" for f by (simp add: upd_mbuf_def)
  show ?thesis unfolding ip_send_one_def Let_def assms(4) l
    by (simp add: u c case_prod_unfold tx_nonneg [OF assms(1)])
qed

lemma send_pending_step:
  assumes "eth_ok E sent freed" "arp_find (arp_ip_to_idx addr) addr s = Some e" "ae_flags (arp_entries s e) = ARP_FLAG_VALID"
    "ip_next_hop C (pp_dst_addr (pendings s p)) = addr" "\<not> pending_pkt_lock s"
  obtains s' where "send_pending_pkt E C t p s = Some s'"
    "sent (net_world s') = sent (net_world s) @ [(unat (cpu_id s), pp_mbuf (pendings s p),
       framed C (ae_mac (arp_entries s e)) (nat (pp_len (pendings s p))) (mbufs s (pp_mbuf (pendings s p))))]"
    "pendings s' = pendings s" "\<not> pending_pkt_lock s'" "cpu_id s' = cpu_id s" "arp_tbl s' = arp_tbl s"
    "arp_entries s' = (\<lambda>e. (arp_entries s e)\<lparr>pending_pkts := remove1 p (pending_pkts (arp_entries s e))\<rparr>)"
    "\<forall>q. q \<noteq> pp_mbuf (pendings s p) \<longrightarrow> mbufs s' q = mbufs s q"
proof -
  let ?k = "pendings s p" let ?m = "pp_mbuf ?k"
  define s1 where "s1 = upd_mbuf ?m (framed C (ae_mac (arp_entries s e)) (nat (pp_len ?k))) s"
  define s2 where "s2 = snd (tx_buffer E (unat (cpu_id s)) ?m s1)"
  note o = ip_send_one_known [OF assms(1-4), of t "pp_fg ?k" ?m "nat (pp_len ?k)", folded s1_def, folded s2_def]
  note x = tx_ok [OF assms(1), of "unat (cpu_id s)" ?m s1, folded s2_def]
  have fr: "pendings s2 = pendings s" "pending_pkt_lock s2 = pending_pkt_lock s" "cpu_id s2 = cpu_id s" "arp_tbl s2 = arp_tbl s" "arp_entries s2 = arp_entries s"
    by (simp_all add: s2_def s1_def tx_buffer_def set_net_world_def upd_mbuf_def split: prod.splits)
  let ?s3 = "s2\<lparr>arp_entries := (\<lambda>e. (arp_entries s2 e)\<lparr>pending_pkts := remove1 p (pending_pkts (arp_entries s2 e))\<rparr>)\<rparr>"
  let ?s4 = "?s3\<lparr>net_mp := mempool_free (net_dpdk E) (pending_pkt_mempool ?s3) p (net_mp ?s3)\<rparr>"
  have r: "send_pending_pkt E C t p s = Some ?s4"
    using assms(5) fr(2) by (simp add: send_pending_pkt_def o Let_def)
  have put: "sent (rte_mempool_put (net_dpdk E) pool q w) = sent w" for pool q w using assms(1) unfolding eth_ok_def by simp
  have w: "sent (net_world ?s4) = sent (net_world s2)" by (simp add: net_world_def mempool_free_def put)
  have m: "mbufs s1 = (mbufs s)(?m := framed C (ae_mac (arp_entries s e)) (nat (pp_len ?k)) (mbufs s ?m))" "net_world s1 = net_world s"
    by (simp_all add: s1_def) (simp add: upd_mbuf_def)
  show ?thesis by (rule that [OF r]) (use x(2,4) w m fr assms(5) in simp_all)
qed

lemma run_pending:
  assumes "eth_ok E sent freed"
  shows "arp_find (arp_ip_to_idx addr) addr s = Some e \<Longrightarrow> ae_flags (arp_entries s e) = ARP_FLAG_VALID \<Longrightarrow> \<not> pending_pkt_lock s \<Longrightarrow>
    distinct (map (\<lambda>p. pp_mbuf (pendings s p)) qs) \<Longrightarrow> \<forall>p \<in> set qs. ip_next_hop C (pp_dst_addr (pendings s p)) = addr \<Longrightarrow>
    \<exists>s'. run_runners (net_runner E C t) (map (Pair SEND_PENDING_PKT) qs) s = Some s' \<and>
      sent (net_world s') = sent (net_world s) @ map (\<lambda>p. (unat (cpu_id s), pp_mbuf (pendings s p),
        framed C (ae_mac (arp_entries s e)) (nat (pp_len (pendings s p))) (mbufs s (pp_mbuf (pendings s p))))) qs \<and>
      pending_pkts (arp_entries s' e) = fold remove1 qs (pending_pkts (arp_entries s e)) \<and> pendings s' = pendings s"
proof (induction qs arbitrary: s)
  case (Cons p qs)
  have hop: "ip_next_hop C (pp_dst_addr (pendings s p)) = addr" using Cons.prems(5) by simp
  obtain s1 where s1: "send_pending_pkt E C t p s = Some s1"
    "sent (net_world s1) = sent (net_world s) @ [(unat (cpu_id s), pp_mbuf (pendings s p),
       framed C (ae_mac (arp_entries s e)) (nat (pp_len (pendings s p))) (mbufs s (pp_mbuf (pendings s p))))]"
    "pendings s1 = pendings s" "\<not> pending_pkt_lock s1" "cpu_id s1 = cpu_id s" "arp_tbl s1 = arp_tbl s"
    "arp_entries s1 = (\<lambda>e. (arp_entries s e)\<lparr>pending_pkts := remove1 p (pending_pkts (arp_entries s e))\<rparr>)"
    "\<forall>q. q \<noteq> pp_mbuf (pendings s p) \<longrightarrow> mbufs s1 q = mbufs s q"
    by (rule send_pending_step [OF assms Cons.prems(1,2) hop Cons.prems(3)])
  have f: "arp_find (arp_ip_to_idx addr) addr s1 = Some e"
    unfolding Cons.prems(1) [symmetric] using s1(6,7) by (intro arp_find_cong) simp_all
  have v: "ae_flags (arp_entries s1 e) = ARP_FLAG_VALID" using s1(7) Cons.prems(2) by simp
  have d: "distinct (map (\<lambda>p. pp_mbuf (pendings s1 p)) qs)" using Cons.prems(4) s1(3) by simp
  have h: "\<forall>p \<in> set qs. ip_next_hop C (pp_dst_addr (pendings s1 p)) = addr" using Cons.prems(5) s1(3) by simp
  obtain s' where s': "run_runners (net_runner E C t) (map (Pair SEND_PENDING_PKT) qs) s1 = Some s'"
    "sent (net_world s') = sent (net_world s1) @ map (\<lambda>p. (unat (cpu_id s1), pp_mbuf (pendings s1 p),
        framed C (ae_mac (arp_entries s1 e)) (nat (pp_len (pendings s1 p))) (mbufs s1 (pp_mbuf (pendings s1 p))))) qs"
    "pending_pkts (arp_entries s' e) = fold remove1 qs (pending_pkts (arp_entries s1 e))" "pendings s' = pendings s1"
    using Cons.IH [OF f v s1(4) d h] by blast
  have m: "map (\<lambda>p. (unat (cpu_id s1), pp_mbuf (pendings s1 p),
        framed C (ae_mac (arp_entries s1 e)) (nat (pp_len (pendings s1 p))) (mbufs s1 (pp_mbuf (pendings s1 p))))) qs
    = map (\<lambda>p. (unat (cpu_id s), pp_mbuf (pendings s p),
        framed C (ae_mac (arp_entries s e)) (nat (pp_len (pendings s p))) (mbufs s (pp_mbuf (pendings s p))))) qs"
  proof (rule map_cong [OF refl])
    fix q assume "q \<in> set qs"
    then have "pp_mbuf (pendings s q) \<noteq> pp_mbuf (pendings s p)" using Cons.prems(4) by (auto simp: image_iff)
    then show "(unat (cpu_id s1), pp_mbuf (pendings s1 q),
        framed C (ae_mac (arp_entries s1 e)) (nat (pp_len (pendings s1 q))) (mbufs s1 (pp_mbuf (pendings s1 q))))
      = (unat (cpu_id s), pp_mbuf (pendings s q),
        framed C (ae_mac (arp_entries s e)) (nat (pp_len (pendings s q))) (mbufs s (pp_mbuf (pendings s q))))"
      using s1(3,5,7,8) by simp
  qed
  have st: "net_runner E C t SEND_PENDING_PKT p s = Some s1" by (simp add: net_runner_def s1(1))
  show ?case by (rule exI [of _ s']) (use st s1(2,3,7) s'(1,3,4) s'(2) [unfolded m] in simp)
qed simp

text \<open>The results of the next \<open>n\<close> calls of \<open>malloc\<close> for a runner.\<close>

fun malloc_results :: "'w net_env \<Rightarrow> nat \<Rightarrow> 'w \<Rightarrow> bool list" where
  "malloc_results E 0 w = []"
| "malloc_results E (Suc n) w = (case malloc_runner E w of (b, w') \<Rightarrow> b # malloc_results E n w')"

lemma length_malloc_results [simp]: "length (malloc_results E n w) = n"
  by (induction n arbitrary: w) (simp_all split: prod.split)

text \<open>The elements of \<open>xs\<close> whose flag in \<open>bs\<close> is \<open>b\<close>.\<close>

definition those :: "bool \<Rightarrow> 'a list \<Rightarrow> bool list \<Rightarrow> 'a list" where
  "those b xs bs = map fst (filter (\<lambda>(x, c). c = b) (zip xs bs))"

lemma those_simps [simp]: "those b [] bs = []" "those b (x # xs) (c # bs) = (if c = b then x # those b xs bs else those b xs bs)"
  by (simp_all add: those_def)

lemma those_rev: "length bs = length xs \<Longrightarrow> those b (rev xs) bs = rev (those b xs (rev bs))"
  using zip_rev [of xs "rev bs"] by (simp add: those_def rev_map rev_filter)

lemma those_map: "those b (map f xs) bs = map f (those b xs bs)"
  unfolding those_def by (simp add: zip_map1 filter_map o_def split_def)

lemma those_subset: "set (those b xs bs) \<subseteq> set xs"
  unfolding those_def by (auto dest: set_zip_leftD)

lemma distinct_those: "distinct xs \<Longrightarrow> distinct (those b xs bs)"
proof (induction xs arbitrary: bs)
  case (Cons x xs)
  then show ?case using those_subset [of b xs] by (cases bs) (auto simp: those_def)
qed simp

lemma those_True_False: "distinct xs \<Longrightarrow> length bs = length xs \<Longrightarrow> filter (\<lambda>x. x \<notin> set (those True xs bs)) xs = those False xs bs"
proof (induction xs arbitrary: bs)
  case (Cons x xs)
  obtain c cs where bs: "bs = c # cs" "length cs = length xs" using Cons.prems(2) by (cases bs) auto
  have "x \<notin> set (those True xs cs)" using those_subset Cons.prems(1) by fastforce
  moreover have "filter (\<lambda>y. y \<notin> set (those True (x # xs) bs)) xs = filter (\<lambda>y. y \<notin> set (those True xs cs)) xs"
    unfolding bs using Cons.prems(1) by (intro filter_cong) auto
  ultimately show ?case using Cons bs by auto
qed simp

lemma fold_remove1: "distinct ys \<Longrightarrow> fold remove1 xs ys = filter (\<lambda>y. y \<notin> set xs) ys"
proof (induction xs arbitrary: ys)
  case (Cons x xs)
  then show ?case by (simp add: distinct_remove1_removeAll removeAll_filter_not_eq) (rule filter_cong; auto)
qed simp

text \<open>
  The run list of a core holds the packets whose runner could be allocated, the one queued first in
  front; all are marked as dispatched.
\<close>

lemma dispatch_runlist:
  shows "distinct ps \<Longrightarrow> \<forall>p \<in> set ps. \<not> pp_dispatched (pendings s p) \<and> pp_cpu (pendings s p) = c \<Longrightarrow> c < cpu_count s \<Longrightarrow>
    runlists (dispatch_loop E ps s) c = map (Pair SEND_PENDING_PKT) (rev (those True ps (malloc_results E (length ps) (net_world s)))) @ runlists s c \<and>
    (\<forall>p. pp_mbuf (pendings (dispatch_loop E ps s) p) = pp_mbuf (pendings s p) \<and> pp_len (pendings (dispatch_loop E ps s) p) = pp_len (pendings s p) \<and>
      pp_dst_addr (pendings (dispatch_loop E ps s) p) = pp_dst_addr (pendings s p))"
proof (induction ps arbitrary: s)
  case (Cons p ps)
  obtain b w where bw: "malloc_runner E (net_world s) = (b, w)" by force
  define s1 where "s1 = snd (cpu_run_on_one E SEND_PENDING_PKT p c s)"
  define s2 where "s2 = upd_pending p (\<lambda>k. k\<lparr>pp_dispatched := True\<rparr>) s1"
  have p: "\<not> pp_dispatched (pendings s p)" "pp_cpu (pendings s p) = c" using Cons.prems(2) by simp_all
  have c: "\<not> cpu_count s \<le> c" using Cons.prems(3) by (simp add: not_le)
  have e: "dispatch_loop E (p # ps) s = dispatch_loop E ps s2" using p by (simp add: Let_def case_prod_beta s2_def s1_def)
  have s1e: "s1 = (if b then (set_net_world w s)\<lparr>runlists := (runlists s)(c := (SEND_PENDING_PKT, p) # runlists s c)\<rparr> else set_net_world w s)"
    unfolding s1_def cpu_run_on_one_def bw using c by simp
  have s1: "pendings s1 = pendings s" "runlists s1 c = (if b then [(SEND_PENDING_PKT, p)] else []) @ runlists s c"
    "cpu_count s1 = cpu_count s" "net_world s1 = w"
    by (simp_all add: s1e set_net_world_def net_world_def)
  have s2: "pendings s2 = (pendings s)(p := (pendings s p)\<lparr>pp_dispatched := True\<rparr>)" "runlists s2 c = runlists s1 c"
    "cpu_count s2 = cpu_count s" "net_world s2 = w"
    using s1 by (simp_all add: s2_def upd_pending_def net_world_def)
  have "\<forall>q \<in> set ps. \<not> pp_dispatched (pendings s2 q) \<and> pp_cpu (pendings s2 q) = c" using Cons.prems(1,2) unfolding s2(1) by auto
  then have IH: "runlists (dispatch_loop E ps s2) c = map (Pair SEND_PENDING_PKT) (rev (those True ps (malloc_results E (length ps) w))) @ runlists s1 c"
    "\<And>q. pp_mbuf (pendings (dispatch_loop E ps s2) q) = pp_mbuf (pendings s2 q) \<and> pp_len (pendings (dispatch_loop E ps s2) q) = pp_len (pendings s2 q) \<and>
      pp_dst_addr (pendings (dispatch_loop E ps s2) q) = pp_dst_addr (pendings s2 q)"
    using Cons.IH [of s2] Cons.prems(1,3) unfolding s2(2-4) by simp_all
  have "pp_mbuf (pendings s2 q) = pp_mbuf (pendings s q) \<and> pp_len (pendings s2 q) = pp_len (pendings s q) \<and>
    pp_dst_addr (pendings s2 q) = pp_dst_addr (pendings s q)" for q by (simp add: s2(1))
  then show ?case unfolding e using IH(2) by (simp add: IH(1) bw s1(2))
qed simp

text \<open>Packets queued one after the other, all of them successfully.\<close>

fun add_pendings :: "'w net_env \<Rightarrow> u32 \<Rightarrow> (ptr \<times> ptr \<times> nat) list \<Rightarrow> 'w net_state \<Rightarrow> 'w net_state option" where
  "add_pendings E addr [] s = Some s"
| "add_pendings E addr ((fg, mbuf, plen) # xs) s = do {
     (ret, s) \<leftarrow> arp_add_pending_pkt E addr fg mbuf plen s;
     if ret = 0 then add_pendings E addr xs s else None
   }"

lemma arp_add_pending_step:
  assumes "eth_ok E sent freed" "rte_mempool_ok (net_dpdk E) free" "arp_find (arp_ip_to_idx addr) addr s = Some e"
    "arp_add_pending_pkt E addr fg m n s = Some (0, s')"
  obtains p where "p \<in> mempool_avail free (pending_pkt_mempool s) (net_mp s)"
    "mempool_avail free (pending_pkt_mempool s) (net_mp s') = mempool_avail free (pending_pkt_mempool s) (net_mp s) - {p}"
    "pendings s' = (pendings s)(p := \<lparr>pp_dst_addr = addr, pp_fg = fg, pp_mbuf = m, pp_len = int n, pp_cpu = cpu_id s, pp_dispatched = False\<rparr>)"
    "arp_entries s' = (arp_entries s)(e := (arp_entries s e)\<lparr>pending_pkts := p # pending_pkts (arp_entries s e)\<rparr>)"
    "s' = s\<lparr>net_mp := net_mp s', pendings := pendings s', arp_entries := arp_entries s'\<rparr>" "sent (net_world s') = sent (net_world s)"
proof -
  obtain p mp where a: "mempool_alloc (net_dpdk E) (pending_pkt_mempool s) (net_mp s) = (Some p, mp)"
    "s' = upd_arp e (\<lambda>a. a\<lparr>pending_pkts := p # pending_pkts a\<rparr>) (upd_pending p (\<lambda>k. k\<lparr>pp_dst_addr := addr, pp_fg := fg, pp_mbuf := m,
       pp_len := int n, pp_cpu := cpu_id s, pp_dispatched := False\<rparr>) (s\<lparr>net_mp := mp\<rparr>))"
    using assms(4) arp_lookup_found [OF assms(3), of E False]
    by (auto simp: arp_add_pending_pkt_def ENOMEM_def Let_def split: if_splits prod.splits option.splits)
  have w: "sent (mp_world mp) = sent (mp_world (net_mp s))"
    using a(1) assms(1) by (auto simp: mempool_alloc_def eth_ok_def split: prod.splits if_splits) (metis snd_conv)
  have k: "k\<lparr>pp_dst_addr := addr, pp_fg := fg, pp_mbuf := m, pp_len := int n, pp_cpu := cpu_id s, pp_dispatched := False\<rparr> =
    \<lparr>pp_dst_addr = addr, pp_fg = fg, pp_mbuf = m, pp_len = int n, pp_cpu = cpu_id s, pp_dispatched = False\<rparr>" for k :: pending_pkt
    by (rule pending_pkt.equality) simp_all
  have pn: "pendings s' = (pendings s)(p := \<lparr>pp_dst_addr = addr, pp_fg = fg, pp_mbuf = m, pp_len = int n, pp_cpu = cpu_id s, pp_dispatched = False\<rparr>)"
    unfolding k [symmetric, of "pendings s p"] by (simp add: a(2) upd_arp_def upd_pending_def)
  have n: "net_mp s' = mp" "arp_entries s' = (arp_entries s)(e := (arp_entries s e)\<lparr>pending_pkts := p # pending_pkts (arp_entries s e)\<rparr>)"
    "s' = s\<lparr>net_mp := net_mp s', pendings := pendings s', arp_entries := arp_entries s'\<rparr>"
    by (simp_all add: a(2) upd_arp_def upd_pending_def)
  show ?thesis
    by (rule that [OF _ _ pn n(2,3)]) (use mempool_alloc_Some [OF assms(2) a(1)] w n(1) in \<open>simp_all add: net_world_def\<close>)
qed

definition pend :: "u32 \<Rightarrow> u32 \<Rightarrow> ptr \<times> ptr \<times> nat \<Rightarrow> pending_pkt" where
  "pend addr c = (\<lambda>(fg, m, n). \<lparr>pp_dst_addr = addr, pp_fg = fg, pp_mbuf = m, pp_len = int n, pp_cpu = c, pp_dispatched = False\<rparr>)"

lemma add_pendings_spec:
  assumes "eth_ok E sent freed" "rte_mempool_ok (net_dpdk E) free"
  shows "arp_find (arp_ip_to_idx addr) addr s = Some e \<Longrightarrow> add_pendings E addr xs s = Some s' \<Longrightarrow>
    \<exists>ps. distinct ps \<and> set ps \<subseteq> mempool_avail free (pending_pkt_mempool s) (net_mp s) \<and>
      pending_pkts (arp_entries s' e) = rev ps @ pending_pkts (arp_entries s e) \<and> map (pendings s') ps = map (pend addr (cpu_id s)) xs \<and>
      (\<forall>p. p \<notin> mempool_avail free (pending_pkt_mempool s) (net_mp s) \<longrightarrow> pendings s' p = pendings s p) \<and>
      ae_flags (arp_entries s' e) = ae_flags (arp_entries s e) \<and> arp_find (arp_ip_to_idx addr) addr s' = Some e \<and>
      s' = s\<lparr>net_mp := net_mp s', pendings := pendings s', arp_entries := arp_entries s'\<rparr> \<and> sent (net_world s') = sent (net_world s)"
proof (induction xs arbitrary: s)
  case Nil
  then show ?case by (intro exI [of _ "[]"]) simp
next
  case (Cons x xs)
  obtain fg m n where x: "x = (fg, m, n)" by (cases x)
  obtain s1 where s1: "arp_add_pending_pkt E addr fg m n s = Some (0, s1)" "add_pendings E addr xs s1 = Some s'"
    using Cons.prems(2) unfolding x by (auto simp: bind_eq_Some_conv split: if_splits)
  obtain p where p: "p \<in> mempool_avail free (pending_pkt_mempool s) (net_mp s)"
    "mempool_avail free (pending_pkt_mempool s) (net_mp s1) = mempool_avail free (pending_pkt_mempool s) (net_mp s) - {p}"
    "pendings s1 = (pendings s)(p := \<lparr>pp_dst_addr = addr, pp_fg = fg, pp_mbuf = m, pp_len = int n, pp_cpu = cpu_id s, pp_dispatched = False\<rparr>)"
    "arp_entries s1 = (arp_entries s)(e := (arp_entries s e)\<lparr>pending_pkts := p # pending_pkts (arp_entries s e)\<rparr>)"
    "s1 = s\<lparr>net_mp := net_mp s1, pendings := pendings s1, arp_entries := arp_entries s1\<rparr>" "sent (net_world s1) = sent (net_world s)"
    by (rule arp_add_pending_step [OF assms Cons.prems(1) s1(1)])
  have k: "pending_pkt_mempool s1 = pending_pkt_mempool s" "cpu_id s1 = cpu_id s" "arp_tbl s1 = arp_tbl s" by (subst p(5), simp)+
  have "arp_find (arp_ip_to_idx addr) addr s1 = Some e"
    unfolding Cons.prems(1) [symmetric] using k(3) p(4) by (intro arp_find_cong) simp_all
  from Cons.IH [OF this s1(2)] obtain ps where ps: "distinct ps" "set ps \<subseteq> mempool_avail free (pending_pkt_mempool s) (net_mp s) - {p}"
    "pending_pkts (arp_entries s' e) = rev ps @ pending_pkts (arp_entries s1 e)" "map (pendings s') ps = map (pend addr (cpu_id s)) xs"
    "\<And>q. q \<notin> mempool_avail free (pending_pkt_mempool s) (net_mp s) - {p} \<Longrightarrow> pendings s' q = pendings s1 q"
    "ae_flags (arp_entries s' e) = ae_flags (arp_entries s1 e)" "arp_find (arp_ip_to_idx addr) addr s' = Some e"
    "s' = s1\<lparr>net_mp := net_mp s', pendings := pendings s', arp_entries := arp_entries s'\<rparr>" "sent (net_world s') = sent (net_world s1)"
    unfolding k p(2) by blast
  have e: "s' = s\<lparr>net_mp := net_mp s', pendings := pendings s', arp_entries := arp_entries s'\<rparr>" by (subst ps(8), subst p(5), simp)
  have pp: "pendings s' p = pend addr (cpu_id s) x" using ps(5) [of p] p(3) by (simp add: pend_def x)
  have "distinct (p # ps)" "set (p # ps) \<subseteq> mempool_avail free (pending_pkt_mempool s) (net_mp s)" using ps(1,2) p(1) by auto
  moreover have "pending_pkts (arp_entries s' e) = rev (p # ps) @ pending_pkts (arp_entries s e)" using ps(3) p(4) by simp
  moreover have "map (pendings s') (p # ps) = map (pend addr (cpu_id s)) (x # xs)" using ps(4) pp by simp
  moreover have "\<forall>q. q \<notin> mempool_avail free (pending_pkt_mempool s) (net_mp s) \<longrightarrow> pendings s' q = pendings s q"
  proof (intro allI impI)
    fix q assume "q \<notin> mempool_avail free (pending_pkt_mempool s) (net_mp s)"
    moreover from this have "q \<noteq> p" using p(1) by blast
    ultimately show "pendings s' q = pendings s q" using ps(5) [of q] p(3) by simp
  qed
  moreover have "ae_flags (arp_entries s' e) = ae_flags (arp_entries s e)" "sent (net_world s') = sent (net_world s)"
    using ps(6,9) p(4,6) by simp_all
  ultimately show ?case using ps(7) e by blast
qed

lemma learn_sends:
  assumes "eth_ok E sent freed" "\<not> pending_pkt_lock s" "clock_ok (net_tm s) tsc_us"
    "arp_find (arp_ip_to_idx addr) addr s = Some e" "ae_flags (arp_entries s e) AND ARP_FLAG_STATIC = 0"
    "pending_pkts (arp_entries s e) = rev ps" "distinct ps" "distinct (map (\<lambda>p. pp_mbuf (pendings s p)) ps)"
    "\<forall>p \<in> set ps. \<not> pp_dispatched (pendings s p) \<and> pp_cpu (pendings s p) = cpu_id s \<and> ip_next_hop C (pp_dst_addr (pendings s p)) = addr"
    "cpu_id s < cpu_count s" "runlists s (cpu_id s) = []" "bs = rev (malloc_results E (length ps) (net_world s))"
  shows "\<exists>s1 s2. arp_update_mac E tsc_us addr mac c s = Some (0, s1) \<and> cpu_do_bookkeeping (net_runner E C t) s1 = Some s2 \<and>
    sent (net_world s2) = sent (net_world s) @ map (\<lambda>p. (unat (cpu_id s), pp_mbuf (pendings s p),
      framed C mac (nat (pp_len (pendings s p))) (mbufs s (pp_mbuf (pendings s p))))) (those True ps bs) \<and>
    pending_pkts (arp_entries s2 e) = rev (those False ps bs) \<and> (\<forall>p. pp_mbuf (pendings s2 p) = pp_mbuf (pendings s p))"
proof -
  let ?u = "\<lambda>tm'. (upd_arp e (\<lambda>a. a\<lparr>ae_mac := mac, ae_flags := ARP_FLAG_VALID, ae_retries := 0\<rparr>) s)\<lparr>net_tm := tm'\<rparr>"
  obtain tm' where u: "arp_update_mac E tsc_us addr mac c s = Some (0, dispatch_loop E (pending_pkts (arp_entries s e)) (?u tm'))"
    "now_us tm' = now_us (net_tm s)"
    by (rule arp_update_mac_found [OF assms(1,4,5,2,3)])
  define s0 where "s0 = ?u tm'"
  define s1 where "s1 = dispatch_loop E (rev ps) s0"
  let ?qs = "those True ps bs"
  have u1: "arp_update_mac E tsc_us addr mac c s = Some (0, s1)" using u(1) assms(6) by (simp add: s1_def s0_def)
  have s0: "mbufs s0 = mbufs s" "net_world s0 = net_world s" "cpu_id s0 = cpu_id s" "cpu_count s0 = cpu_count s" "runlists s0 = runlists s"
    "pendings s0 = pendings s" "arp_tbl s0 = arp_tbl s" "pending_pkt_lock s0 = pending_pkt_lock s"
    "arp_entries s0 = (arp_entries s)(e := (arp_entries s e)\<lparr>ae_mac := mac, ae_flags := ARP_FLAG_VALID, ae_retries := 0\<rparr>)"
    by (simp_all add: s0_def upd_arp_def net_world_def)
  note fr = dispatch_frame [OF assms(1), of "rev ps" s0, folded s1_def, unfolded s0]
  have dr: "runlists s1 (cpu_id s) = map (Pair SEND_PENDING_PKT) ?qs \<and>
    (\<forall>p. pp_mbuf (pendings s1 p) = pp_mbuf (pendings s p) \<and> pp_len (pendings s1 p) = pp_len (pendings s p) \<and>
      pp_dst_addr (pendings s1 p) = pp_dst_addr (pendings s p))"
    using dispatch_runlist [of "rev ps" s0 "cpu_id s" E] those_rev [of "malloc_results E (length ps) (net_world s)" ps True]
      assms(7,9-12) by (simp add: s0 s1_def)
  define s1' where "s1' = s1\<lparr>runlists := (runlists s1)(cpu_id s1 := [])\<rparr>"
  have s1': "net_world s1' = net_world s1" "mbufs s1' = mbufs s1" "pendings s1' = pendings s1" "cpu_id s1' = cpu_id s1"
    "arp_entries s1' = arp_entries s1" "arp_tbl s1' = arp_tbl s1" "pending_pkt_lock s1' = pending_pkt_lock s1"
    by (simp_all add: s1'_def net_world_def)
  have f: "arp_find (arp_ip_to_idx addr) addr s1' = Some e"
    unfolding assms(4) [symmetric] using fr s1' s0 by (intro arp_find_cong) simp_all
  have hop: "\<forall>p \<in> set ?qs. ip_next_hop C (pp_dst_addr (pendings s1' p)) = addr" using those_subset [of True ps bs] assms(9) dr s1' by auto
  have dist: "distinct (map (\<lambda>p. pp_mbuf (pendings s1' p)) ?qs)"
    using distinct_those [OF assms(8), of True bs] dr s1' by (simp add: those_map [symmetric])
  have "\<exists>s2. run_runners (net_runner E C t) (map (Pair SEND_PENDING_PKT) ?qs) s1' = Some s2 \<and>
      sent (net_world s2) = sent (net_world s1') @ map (\<lambda>p. (unat (cpu_id s1'), pp_mbuf (pendings s1' p),
        framed C (ae_mac (arp_entries s1' e)) (nat (pp_len (pendings s1' p))) (mbufs s1' (pp_mbuf (pendings s1' p))))) ?qs \<and>
      pending_pkts (arp_entries s2 e) = fold remove1 ?qs (pending_pkts (arp_entries s1' e)) \<and> pendings s2 = pendings s1'"
    by (rule run_pending [OF assms(1) f _ _ dist hop]) (use fr s1' s0 assms(2) in simp_all)
  then obtain s2 where s2: "run_runners (net_runner E C t) (map (Pair SEND_PENDING_PKT) ?qs) s1' = Some s2"
      "sent (net_world s2) = sent (net_world s1') @ map (\<lambda>p. (unat (cpu_id s1'), pp_mbuf (pendings s1' p),
        framed C (ae_mac (arp_entries s1' e)) (nat (pp_len (pendings s1' p))) (mbufs s1' (pp_mbuf (pendings s1' p))))) ?qs"
      "pending_pkts (arp_entries s2 e) = fold remove1 ?qs (pending_pkts (arp_entries s1' e))" "pendings s2 = pendings s1'" by blast
  have b: "cpu_do_bookkeeping (net_runner E C t) s1 = Some s2"
    unfolding cpu_do_bookkeeping_def s1'_def [symmetric] using fr dr s2(1) by simp
  have w: "fold remove1 ?qs (rev ps) = rev (those False ps bs)"
    using those_True_False [OF assms(7), of bs] assms(7,12) by (simp add: fold_remove1 rev_filter [symmetric])
  show ?thesis by (rule exI [of _ s1], rule exI [of _ s2])
    (use u1 b s2(2-4) fr s1' dr w assms(6) in simp)
qed

text \<open>
  C11. Packets that wait for an address are sent in the order in which they were queued, once the address is
  learned.  The packets \<open>xs\<close> are queued by \<open>arp_add_pending_pkt\<close> on one core, one after the other, for an
  unresolved neighbour with no packet waiting; then the address is learned, which hands each packet to the run list of that core, empty so far;
  and when the core does its bookkeeping it sends the packets once each, in order, with the learned hardware address as
  destination.  A packet whose runner cannot be allocated, as told by the results of \<open>malloc\<close>, is not
  sent and stays in the waiting list; if every \<open>malloc\<close> succeeds all are sent and none waits any more.
\<close>

theorem pending_sent_in_order:
  assumes "eth_ok E sent freed" "rte_mempool_ok (net_dpdk E) free" "\<not> pending_pkt_lock s" "clock_ok (net_tm s) tsc_us"
    "arp_find (arp_ip_to_idx addr) addr s = Some e" "ae_flags (arp_entries s e) AND ARP_FLAG_STATIC = 0" "pending_pkts (arp_entries s e) = []"
    "add_pendings E addr xs s = Some s1" "distinct (map (\<lambda>(fg, m, n). m) xs)" "ip_next_hop C addr = addr"
    "cpu_id s < cpu_count s" "runlists s (cpu_id s) = []" "bs = rev (malloc_results E (length xs) (net_world s1))"
  shows "\<exists>s2 s3. arp_update_mac E tsc_us addr mac c s1 = Some (0, s2) \<and> cpu_do_bookkeeping (net_runner E C t) s2 = Some s3 \<and>
    sent (net_world s3) = sent (net_world s) @ map (\<lambda>(fg, m, n). (unat (cpu_id s), m, framed C mac n (mbufs s m))) (those True xs bs) \<and>
    map (\<lambda>p. pp_mbuf (pendings s3 p)) (pending_pkts (arp_entries s3 e)) = rev (map (\<lambda>(fg, m, n). m) (those False xs bs))"
proof -
  obtain ps where ps: "distinct ps" "pending_pkts (arp_entries s1 e) = rev ps" "map (pendings s1) ps = map (pend addr (cpu_id s)) xs"
    "ae_flags (arp_entries s1 e) = ae_flags (arp_entries s e)" "arp_find (arp_ip_to_idx addr) addr s1 = Some e"
    "s1 = s\<lparr>net_mp := net_mp s1, pendings := pendings s1, arp_entries := arp_entries s1\<rparr>" "sent (net_world s1) = sent (net_world s)"
    using add_pendings_spec [OF assms(1,2,5,8)] assms(7) by auto
  have k: "mbufs s1 = mbufs s" "cpu_id s1 = cpu_id s" "cpu_count s1 = cpu_count s" "runlists s1 = runlists s" "net_tm s1 = net_tm s"
    "pending_pkt_lock s1 = pending_pkt_lock s" by (subst ps(6), simp)+
  have len: "length ps = length xs" using arg_cong [OF ps(3), of length] by simp
  have m: "map (\<lambda>p. f (pendings s1 p)) ps = map (\<lambda>x. f (pend addr (cpu_id s) x)) xs" for f :: "pending_pkt \<Rightarrow> 'z"
    using arg_cong [OF ps(3), of "map f"] by (simp add: o_def)
  have th: "map (\<lambda>p. f (pendings s1 p)) (those b ps bs) = map (\<lambda>x. f (pend addr (cpu_id s) x)) (those b xs bs)" for f :: "pending_pkt \<Rightarrow> 'z" and b
    unfolding those_map [symmetric] m ..
  have pd: "\<exists>x \<in> set xs. pendings s1 p = pend addr (cpu_id s) x" if "p \<in> set ps" for p
  proof -
    have "pendings s1 p \<in> set (map (pendings s1) ps)" using that by simp
    then show ?thesis unfolding ps(3) by auto
  qed
  have a: "\<forall>p \<in> set ps. \<not> pp_dispatched (pendings s1 p) \<and> pp_cpu (pendings s1 p) = cpu_id s1 \<and> ip_next_hop C (pp_dst_addr (pendings s1 p)) = addr"
    using pd assms(10) k by (fastforce simp: pend_def split: prod.splits)
  have d: "distinct (map (\<lambda>p. pp_mbuf (pendings s1 p)) ps)" using assms(9) unfolding m by (simp add: pend_def split_def)
  have "\<exists>s2 s3. arp_update_mac E tsc_us addr mac c s1 = Some (0, s2) \<and> cpu_do_bookkeeping (net_runner E C t) s2 = Some s3 \<and>
    sent (net_world s3) = sent (net_world s1) @ map (\<lambda>p. (unat (cpu_id s1), pp_mbuf (pendings s1 p),
      framed C mac (nat (pp_len (pendings s1 p))) (mbufs s1 (pp_mbuf (pendings s1 p))))) (those True ps bs) \<and>
    pending_pkts (arp_entries s3 e) = rev (those False ps bs) \<and> (\<forall>p. pp_mbuf (pendings s3 p) = pp_mbuf (pendings s1 p))"
    by (rule learn_sends [OF assms(1) _ _ ps(5) _ ps(2,1) d a]) (use assms k ps(4) len in simp_all)
  then obtain s2 s3 where r: "arp_update_mac E tsc_us addr mac c s1 = Some (0, s2)" "cpu_do_bookkeeping (net_runner E C t) s2 = Some s3"
    "sent (net_world s3) = sent (net_world s1) @ map (\<lambda>p. (unat (cpu_id s1), pp_mbuf (pendings s1 p),
      framed C mac (nat (pp_len (pendings s1 p))) (mbufs s1 (pp_mbuf (pendings s1 p))))) (those True ps bs)"
    "pending_pkts (arp_entries s3 e) = rev (those False ps bs)" "\<And>p. pp_mbuf (pendings s3 p) = pp_mbuf (pendings s1 p)" by blast
  have "map (\<lambda>p. pp_mbuf (pendings s3 p)) (pending_pkts (arp_entries s3 e)) = rev (map (\<lambda>(fg, m, n). m) (those False xs bs))"
    unfolding r(4,5) rev_map [symmetric] th by (simp add: pend_def split_def)
  moreover have "sent (net_world s3) = sent (net_world s) @ map (\<lambda>(fg, m, n). (unat (cpu_id s), m, framed C mac n (mbufs s m))) (those True xs bs)"
    unfolding r(3) ps(7) k th [of "\<lambda>k. (unat (cpu_id s), pp_mbuf k, framed C mac (nat (pp_len k)) (mbufs s (pp_mbuf k)))"]
    by (simp add: pend_def split_def)
  ultimately show ?thesis using r(1,2) by blast
qed

section \<open>A concrete device and two hosts\<close>

text \<open>The device keeps what is sent and freed; its pools are empty.\<close>

definition net_env_ex :: "((nat \<times> ptr \<times> rte_mbuf) list \<times> ptr list) net_env" where
  "net_env_ex = \<lparr>net_dpdk = \<lparr>rte_mempool_create = \<lambda>_ _ _ w. (Some 0, w), rte_pktmbuf_pool_create = \<lambda>_ _ _ w. (Some 0, w),
       rte_mempool_get = \<lambda>_ w. (- ENOENT, 0, w), rte_mempool_put = \<lambda>_ _ w. w, rte_mempool_free = \<lambda>_ w. w\<rparr>,
     rte_pktmbuf_alloc = \<lambda>_ w. (None, w), rte_pktmbuf_free = \<lambda>p w. (fst w, snd w @ [p]),
     rte_eth_tx_buffer = \<lambda>q p m w. (0, (fst w @ [(q, p, m)], snd w)), malloc_runner = \<lambda>w. (True, w),
     PKT_TX_IP_CKSUM = 0, PKT_TX_TCP_CKSUM = 0, PKT_TX_IPV4 = 0\<rparr>"

lemma net_env_ex_ok: "eth_ok net_env_ex fst snd" by (simp add: eth_ok_def net_env_ex_def)

definition cfg_A :: net_cfg where
  "cfg_A = \<lparr>cfg_host_addr = 0x0A000001, cfg_gateway_addr = 0x0A0000FE, cfg_mask = 0xFFFFFF00, cfg_mac = [2, 0, 0, 0, 0, 1]\<rparr>"

definition cfg_B :: net_cfg where
  "cfg_B = \<lparr>cfg_host_addr = 0x0A000002, cfg_gateway_addr = 0x0A0000FE, cfg_mask = 0xFFFFFF00, cfg_mac = [2, 0, 0, 0, 0, 2]\<rparr>"

text \<open>A host that has the entry 7, not yet resolved, for the address \<open>addr\<close>, and one packet in its buffer 3.\<close>

definition net_state_ex :: "u32 \<Rightarrow> rte_mbuf \<Rightarrow> ((nat \<times> ptr \<times> rte_mbuf) list \<times> ptr list) net_state" where
  "net_state_ex addr m = \<lparr>mbufs = \<lambda>_. m, mbuf_mempool = mempool_ex, arp_tbl = (\<lambda>_. [])(arp_ip_to_idx addr := [7]),
     arp_entries = \<lambda>_. \<lparr>ae_addr = addr, ae_mac = [], ae_flags = ARP_FLAG_RESOLVING, ae_retries = 0, pending_pkts = []\<rparr>,
     arp_mempool = mempool_ex, pendings = \<lambda>_. \<lparr>pp_dst_addr = addr, pp_fg = 0, pp_mbuf = 3, pp_len = 42, pp_cpu = 0, pp_dispatched = False\<rparr>,
     pending_pkt_mempool = mempool_ex, arp_lock = False, pending_pkt_lock = False, arp_send_pkt_lock = False,
     net_tm = \<lparr>now_us = 0, timer_pos = 0, links = \<lparr>hnext = \<lambda>_. None, hprev = \<lambda>_. None\<rparr>,
       timers = \<lambda>_. \<lparr>handler = 0, expires = 0, timer_fg_id = 0\<rparr>, fgs = \<lambda>_. None, fg_ids = \<lambda>_. 0, tm_world = ()\<rparr>,
     net_tw = 1000,
     net_mp = \<lparr>dss = \<lambda>_. \<lparr>ds_magic = MEMPOOL_MAGIC, ds_pool = Some 1, ds_nr_elems = 3, ds_elem_len = 8,
       prettyname = ''ex'', next_ds = None\<rparr>, mempool_all_datastores = None, mp_world = ([], [])\<rparr>,
     runlists = \<lambda>_. [], cpu_count = 1, cpu_id = 0\<rparr>"

definition mbuf_ex :: "u8 list \<Rightarrow> rte_mbuf" where
  "mbuf_ex d = \<lparr>mb_data = d, data_len = of_nat ARP_PKT_SIZE, pkt_len = of_nat ARP_PKT_SIZE, ol_flags = 0, l2_len = 0, l3_len = 0\<rparr>"

definition request_ex :: "u8 list" where
  "request_ex = arp_packet cfg_A ARP_OP_REQUEST (cfg_host_addr cfg_B) ETH_ADDR_BROADCAST (replicate 60 0)"

lemma net_state_ex_ready: "net_ready 0 (net_state_ex addr m)" "arp_learns E addr (net_state_ex addr m)"
proof -
  have "arp_find (arp_ip_to_idx addr) addr (net_state_ex addr m) = Some 7" by (simp add: arp_find_def net_state_ex_def)
  then show "arp_learns E addr (net_state_ex addr m)"
    unfolding arp_learns_def by (simp add: arp_lookup_found net_state_ex_def ARP_FLAG_RESOLVING_def ARP_FLAG_STATIC_def)
  show "net_ready 0 (net_state_ex addr m)" by (simp add: net_ready_def clock_ok_def net_state_ex_def)
qed

lemma cfg_ex_unicast: "unicast_mac (cfg_mac cfg_A)" "unicast_mac (cfg_mac cfg_B)"
  by (simp_all add: unicast_mac_def cfg_A_def cfg_B_def eth_addr_is_multicast_def ETH_ADDR_GROUP_def)

lemma arp_round_trip_witness:
  "\<exists>sB' r sA'. eth_input_process (\<lambda>_ _ _. None) net_env_ex cfg_B 0 3 1 (net_state_ex (cfg_host_addr cfg_A) (mbuf_ex request_ex)) = Some sB' \<and>
    fst (net_world sB') = [(0, 3, r)] \<and>
    eth_input_process (\<lambda>_ _ _. None) net_env_ex cfg_A 0 3 1 (net_state_ex (cfg_host_addr cfg_B) r) = Some sA' \<and>
    arp_lookup_mac net_env_ex cfg_A 0 (cfg_host_addr cfg_B) sA' = Some (0, Some (cfg_mac cfg_B), sA')"
proof -
  let ?sB = "net_state_ex (cfg_host_addr cfg_A) (mbuf_ex request_ex)"
  have r: "mb_data (mbufs ?sB 3) = arp_packet cfg_A ARP_OP_REQUEST (cfg_host_addr cfg_B) ETH_ADDR_BROADCAST (replicate 60 0)"
    "data_len (mbufs ?sB 3) = of_nat ARP_PKT_SIZE" "ARP_PKT_SIZE \<le> length (replicate 60 (0 :: u8))"
    by (simp_all add: net_state_ex_def mbuf_ex_def request_ex_def arp_consts)
  note t = arp_round_trip [where ?EA = net_env_ex and ?EB = net_env_ex and pA = 3 and t = 0 and T = "\<lambda>_ _ _. None" and T' = "\<lambda>_ _ _. None",
      OF net_env_ex_ok net_state_ex_ready(1) cfg_ex_unicast(1) net_state_ex_ready(2) net_env_ex_ok net_state_ex_ready(1)
      cfg_ex_unicast(2) net_state_ex_ready(2) r]
  obtain sB' m where b: "eth_input_process (\<lambda>_ _ _. None) net_env_ex cfg_B 0 3 1 ?sB = Some sB'"
    "fst (net_world sB') = fst (net_world ?sB) @ [(0, 3, m)]"
    using t [of undefined] by (elim exE conjE) (rule that)
  have "\<exists>sA'. eth_input_process (\<lambda>_ _ _. None) net_env_ex cfg_A 0 3 1 (net_state_ex (cfg_host_addr cfg_B) m) = Some sA' \<and>
    arp_lookup_mac net_env_ex cfg_A 0 (cfg_host_addr cfg_B) sA' = Some (0, Some (cfg_mac cfg_B), sA')"
    using t [of m] b by (auto simp: net_state_ex_def)
  then show ?thesis using b by (auto simp: net_state_ex_def net_world_def)
qed

lemma packet_fate_witness:
  "\<exists>s'. eth_input_process (\<lambda>_ _ _. None) net_env_ex cfg_B 0 3 1 (net_state_ex (cfg_host_addr cfg_A) (mbuf_ex request_ex)) = Some s' \<and>
    net_world s' = ([(0, 3, mbufs s' 3)], [])"
proof -
  let ?s = "net_state_ex (cfg_host_addr cfg_A) (mbuf_ex request_ex)"
  have m: "mbufs ?s 3 = mbuf_ex request_ex" "mb_data (mbuf_ex request_ex) = request_ex" "net_world ?s = ([], [])"
    by (simp_all add: net_state_ex_def mbuf_ex_def net_world_def)
  have l: "42 \<le> length (replicate 60 (0 :: u8))" "length (cfg_mac cfg_A) = 6" "length ETH_ADDR_BROADCAST = 6"
    by (simp_all add: cfg_A_def arp_consts)
  note f = arp_packet_fields [OF l, of ARP_OP_REQUEST "cfg_host_addr cfg_B", folded request_ex_def]
  have ty: "hton16 ETHTYPE_ARP \<noteq> hton16 ETHTYPE_IP" by (simp add: hton16_def arp_consts bswap16_def)
  have v: "arp_valid (mbuf_ex request_ex)"
    by (rule arp_valid_request [OF l(1) cfg_ex_unicast(1) l(3)]) (simp_all add: mbuf_ex_def request_ex_def)
  have a: "answered cfg_B (mbufs ?s 3)" unfolding m using v ty by (simp add: answered_def arp_answered_def m(2) f)
  have r: "\<not> arp_lock ?s" "\<not> pending_pkt_lock ?s" "clock_ok (net_tm ?s) 0"
    using net_state_ex_ready(1) by (simp_all add: net_ready_def)
  have t: "\<not> (load16 12 (mb_data (mbufs ?s 3)) = hton16 ETHTYPE_IP \<and> ip_valid (mbufs ?s 3) \<and> ip_proto (mb_data (mbufs ?s 3)) = IPPROTO_TCP)"
    unfolding m f using ty by simp
  obtain s' where "eth_input_process (\<lambda>_ _ _. None) net_env_ex cfg_B 0 3 1 ?s = Some s'"
    "fst (net_world s') = fst (net_world ?s) @ [(0, 3, mbufs s' 3)]" "snd (net_world s') = snd (net_world ?s)"
    using packet_fate [OF net_env_ex_ok r t, of "\<lambda>_ _ _. None" cfg_B] a by auto
  then show ?thesis by (simp add: m prod_eq_iff)
qed

text \<open>An echo request without data from host A to host B.\<close>

definition echo_ex :: "u8 list" where
  "echo_ex = [2, 0, 0, 0, 0, 2, 2, 0, 0, 0, 0, 1, 8, 0] @
     [0x45, 0, 0, 28, 0, 0, 0, 0, 64, 1, 0, 0, 10, 0, 0, 1, 10, 0, 0, 2] @ [8, 0, 0xf7, 0xff, 0, 0, 0, 0]"

lemma echo_ex_answered: "load16 12 echo_ex = hton16 ETHTYPE_IP" "ip_answered (mbuf_ex echo_ex)"
proof -
  show t: "load16 12 echo_ex = hton16 ETHTYPE_IP"
    by (simp add: echo_ex_def load16_def get_def hton16_def bswap16_def ETHTYPE_IP_def)
  have h: "ip_header_len echo_ex = 5" "ip_version echo_ex = 4" "ip_proto echo_ex = 1" "ntoh16 (load16 16 echo_ex) = 28" "ntoh16 (load16 20 echo_ex) = 0"
    "get 34 8 echo_ex = [8, 0, 0xf7, 0xff, 0, 0, 0, 0]" "get 34 1 echo_ex = [8]"
    by (simp_all add: echo_ex_def ip_header_len_def ip_version_def ip_proto_def load16_def get_def ntoh16_def bswap16_def)
  have c: "chksum_internet [8, 0, 0xf7, 0xff, 0, 0, 0, 0] = 0"
    by (simp add: chksum_internet_spec fold_oc_def)
  show "ip_answered (mbuf_ex echo_ex)"
    using h c by (simp add: ip_answered_def mbuf_ex_def ip_valid_def mbuf_enough_space_def icmp_answered_def ip_consts arp_consts Let_def del: One_nat_def)
qed

lemma icmp_echo_reply_witness:
  "\<exists>s' r. eth_input_process (\<lambda>_ _ _. None) net_env_ex cfg_B 0 3 1 (net_state_ex (cfg_host_addr cfg_A) (mbuf_ex echo_ex)) = Some s' \<and>
    fst (net_world s') = [(0, 3, r)] \<and> hd (get 34 1 (mb_data r)) = ICMP_ECHOREPLY \<and> chksum_internet (get 34 8 (mb_data r)) = 0"
proof -
  let ?s = "net_state_ex (cfg_host_addr cfg_A) (mbuf_ex echo_ex)"
  have h: "ip_header_len echo_ex = 5" "ntoh16 (load16 16 echo_ex) = 28"
    by (simp_all add: echo_ex_def ip_header_len_def load16_def get_def ntoh16_def bswap16_def)
  have m: "mbufs ?s 3 = mbuf_ex echo_ex" "mb_data (mbuf_ex echo_ex) = echo_ex" "net_world ?s = ([], [])"
    by (simp_all add: net_state_ex_def mbuf_ex_def net_world_def)
  have e: "load16 12 (mb_data (mbufs ?s 3)) = hton16 ETHTYPE_IP" "ip_answered (mbufs ?s 3)"
    "unat (data_len (mbufs ?s 3)) \<le> length (mb_data (mbufs ?s 3))" "length (cfg_mac cfg_B) = 6" "echo_ex = mb_data (mbufs ?s 3)"
    "34 = ETH_HDR_LEN + unat (ip_header_len echo_ex) * 4" "8 = unat (ntoh16 (load16 16 echo_ex)) + ETH_HDR_LEN - 34"
    unfolding m h by (simp_all add: echo_ex_answered) (simp_all add: mbuf_ex_def cfg_B_def arp_consts echo_ex_def)
  show ?thesis
    using icmp_echo_reply [OF net_env_ex_ok e, of "\<lambda>_ _ _. None" 0] by (elim exE conjE) (intro exI conjI, assumption, simp_all add: m)
qed

text \<open>A device whose pools are stacks, and a host that queues the packets in the buffers 21 and 22.\<close>

type_synonym pool_world = "((nat \<times> ptr \<times> rte_mbuf) list \<times> ptr list) \<times> (ptr option \<Rightarrow> ptr list)"

definition net_env_pool :: "pool_world net_env" where
  "net_env_pool = \<lparr>net_dpdk = \<lparr>rte_mempool_create = \<lambda>_ _ _ w. (Some 0, w), rte_pktmbuf_pool_create = \<lambda>_ _ _ w. (Some 0, w),
       rte_mempool_get = \<lambda>pool w. (case rte_mempool_get dpdk_ex pool (snd w) of (r, p, v) \<Rightarrow> (r, p, (fst w, v))),
       rte_mempool_put = \<lambda>pool p w. (fst w, rte_mempool_put dpdk_ex pool p (snd w)), rte_mempool_free = \<lambda>_ w. w\<rparr>,
     rte_pktmbuf_alloc = \<lambda>_ w. (None, w), rte_pktmbuf_free = \<lambda>p w. ((fst (fst w), snd (fst w) @ [p]), snd w),
     rte_eth_tx_buffer = \<lambda>q p m w. (0, ((fst (fst w) @ [(q, p, m)], snd (fst w)), snd w)), malloc_runner = \<lambda>w. (True, w),
     PKT_TX_IP_CKSUM = 0, PKT_TX_TCP_CKSUM = 0, PKT_TX_IPV4 = 0\<rparr>"

lemma net_env_pool_ok: "eth_ok net_env_pool (\<lambda>w. fst (fst w)) (\<lambda>w. snd (fst w))"
  "rte_mempool_ok (net_dpdk net_env_pool) (\<lambda>pool w. set (snd w pool))"
  using dpdk_ex_ok by (simp_all add: eth_ok_def net_env_pool_def rte_mempool_ok_def split_def)

definition net_state_pool :: "u32 \<Rightarrow> pool_world net_state" where
  "net_state_pool addr = \<lparr>mbufs = \<lambda>_. mbuf_ex (replicate 60 0), mbuf_mempool = mempool_ex, arp_tbl = (\<lambda>_. [])(arp_ip_to_idx addr := [7]),
     arp_entries = \<lambda>_. \<lparr>ae_addr = addr, ae_mac = [], ae_flags = ARP_FLAG_RESOLVING, ae_retries = 0, pending_pkts = []\<rparr>,
     arp_mempool = mempool_ex, pendings = \<lambda>_. \<lparr>pp_dst_addr = 0, pp_fg = 0, pp_mbuf = 0, pp_len = 0, pp_cpu = 0, pp_dispatched = False\<rparr>,
     pending_pkt_mempool = mempool_ex, arp_lock = False, pending_pkt_lock = False, arp_send_pkt_lock = False,
     net_tm = \<lparr>now_us = 0, timer_pos = 0, links = \<lparr>hnext = \<lambda>_. None, hprev = \<lambda>_. None\<rparr>,
       timers = \<lambda>_. \<lparr>handler = 0, expires = 0, timer_fg_id = 0\<rparr>, fgs = \<lambda>_. None, fg_ids = \<lambda>_. 0, tm_world = ()\<rparr>,
     net_tw = 1000,
     net_mp = \<lparr>dss = dss mp_state_ex, mempool_all_datastores = None, mp_world = (([], []), mp_world mp_state_ex)\<rparr>,
     runlists = \<lambda>_. [], cpu_count = 1, cpu_id = 0\<rparr>"

lemma pending_sent_in_order_witness:
  "\<exists>s s1 s2 s3. add_pendings net_env_pool (cfg_host_addr cfg_B) [(0, 21, 42), (0, 22, 60)] s = Some s1 \<and>
    arp_update_mac net_env_pool 0 (cfg_host_addr cfg_B) (cfg_mac cfg_B) False s1 = Some (0, s2) \<and>
    cpu_do_bookkeeping (net_runner net_env_pool cfg_A 0) s2 = Some s3 \<and>
    map (\<lambda>(q, p, m). p) (fst (fst (net_world s3))) = [21, 22] \<and> pending_pkts (arp_entries s3 7) = []"
proof -
  let ?a = "cfg_host_addr cfg_B" and ?xs = "[(0, 21, 42), (0, 22, 60)] :: (ptr \<times> ptr \<times> nat) list"
  let ?s = "net_state_pool ?a"
  have f: "arp_find (arp_ip_to_idx ?a) ?a ?s = Some 7" by (simp add: arp_find_def net_state_pool_def)
  obtain s1 where s1: "add_pendings net_env_pool ?a ?xs ?s = Some s1"
    by (simp add: arp_add_pending_pkt_def arp_lookup_def arp_find_def net_state_pool_def mempool_alloc_def net_env_pool_def dpdk_ex_def
        mp_state_ex_def mempool_ex_def upd_arp_def upd_pending_def Let_def)
  have h: "ip_next_hop cfg_A ?a = ?a" by (simp add: ip_next_hop_def cfg_A_def cfg_B_def)
  have r: "\<not> pending_pkt_lock ?s" "clock_ok (net_tm ?s) 0" "ae_flags (arp_entries ?s 7) AND ARP_FLAG_STATIC = 0" "pending_pkts (arp_entries ?s 7) = []"
    "distinct (map (\<lambda>(fg, m, n). m) ?xs)" "cpu_id ?s < cpu_count ?s" "runlists ?s (cpu_id ?s) = []"
    by (simp_all add: net_state_pool_def clock_ok_def ARP_FLAG_RESOLVING_def ARP_FLAG_STATIC_def)
  have bs: "[True, True] = rev (malloc_results net_env_pool (length ?xs) (net_world s1))" by (simp add: net_env_pool_def)
  obtain s2 s3 where x: "arp_update_mac net_env_pool 0 ?a (cfg_mac cfg_B) False s1 = Some (0, s2)"
    "cpu_do_bookkeeping (net_runner net_env_pool cfg_A 0) s2 = Some s3"
    "fst (fst (net_world s3)) = fst (fst (net_world ?s)) @
       map (\<lambda>(fg, m, n). (unat (cpu_id ?s), m, framed cfg_A (cfg_mac cfg_B) n (mbufs ?s m))) (those True ?xs [True, True])"
    "map (\<lambda>p. pp_mbuf (pendings s3 p)) (pending_pkts (arp_entries s3 7)) = rev (map (\<lambda>(fg, m, n). m) (those False ?xs [True, True]))"
    using pending_sent_in_order [OF net_env_pool_ok r(1,2) f r(3,4) s1 r(5) h r(6,7) bs, of "cfg_mac cfg_B" False 0] by (elim exE conjE) (rule that)
  have "map (\<lambda>(q, p, m). p) (fst (fst (net_world s3))) = [21, 22]" unfolding x(3) by (simp add: net_state_pool_def net_world_def)
  moreover have "pending_pkts (arp_entries s3 7) = []" using x(4) by simp
  ultimately show ?thesis
    by (intro exI [of _ ?s] exI [of _ s1] exI [of _ s2] exI [of _ s3] conjI s1 x(1,2)) simp_all
qed

section \<open>A lock that is not released\<close>

text \<open>
  When no entry can be allocated \<open>arp_lookup\<close> returns with the lock of the table held: every later
  lookup that would create an entry spins for ever.
\<close>

lemma arp_lookup_keeps_lock:
  assumes "arp_find (arp_ip_to_idx addr) addr s = None" "\<not> arp_lock s"
    "fst (mempool_alloc (net_dpdk E) (arp_mempool s) (net_mp s)) = None"
  shows "\<exists>s'. arp_lookup E addr True s = Some (None, s') \<and> arp_lock s' \<and>
    (\<forall>a. arp_find (arp_ip_to_idx a) a s' = None \<longrightarrow> arp_lookup E a True s' = None)"
proof -
  obtain mp where m: "mempool_alloc (net_dpdk E) (arp_mempool s) (net_mp s) = (None, mp)"
    using assms(3) by (metis prod.collapse)
  define s' where "s' = s\<lparr>arp_lock := True, net_mp := mp\<rparr>"
  have "arp_find (arp_ip_to_idx addr) addr (s\<lparr>arp_lock := True\<rparr>) = None" using assms(1) by (simp add: arp_find_def)
  then have l: "arp_lookup E addr True s = Some (None, s')"
    using assms m by (simp add: arp_lookup_def Let_def arp_alloc_def s'_def)
  have k: "arp_lock s'" by (simp add: s'_def)
  have "arp_lookup E a True s' = None" if "arp_find (arp_ip_to_idx a) a s' = None" for a
    using that k by (simp add: arp_lookup_def Let_def)
  with l k show ?thesis by blast
qed

end
