(* ===== verification/Ip4Addr.thy ===== *)
theory Ip4Addr
  imports ByteOrder "HOL-Library.Monad_Syntax"
begin

text \<open>
  IPv4 addresses as text and as masks: \<open>lwip/ip4_addr.c\<close>.  A C string is a HOL string without its
  terminating zero.
\<close>

unbundle bit_operations_syntax

section \<open>Characters\<close>

text \<open>A C string is the list of its characters before the terminating zero; \<open>cur\<close> is \<open>*cp\<close>.\<close>

definition cur :: "string \<Rightarrow> char" where "cur cp = (case cp of [] \<Rightarrow> CHR 0x00 | c # _ \<Rightarrow> c)"

definition in_range :: "char \<Rightarrow> char \<Rightarrow> char \<Rightarrow> bool" where
  "in_range c lo up \<longleftrightarrow> (of_char lo :: nat) \<le> of_char c \<and> (of_char c :: nat) \<le> of_char up"

definition isdigit :: "char \<Rightarrow> bool" where "isdigit c = in_range c CHR ''0'' CHR ''9''"
definition islower :: "char \<Rightarrow> bool" where "islower c = in_range c CHR ''a'' CHR ''z''"
definition isxdigit :: "char \<Rightarrow> bool" where
  "isxdigit c \<longleftrightarrow> isdigit c \<or> in_range c CHR ''a'' CHR ''f'' \<or> in_range c CHR ''A'' CHR ''F''"
definition isspace :: "char \<Rightarrow> bool" where
  "isspace c \<longleftrightarrow> c = CHR '' '' \<or> c = CHR 0x0C \<or> c = CHR 0x0A \<or> c = CHR 0x0D \<or> c = CHR 0x09 \<or> c = CHR 0x0B"

section \<open>Reading an address\<close>

text \<open>The digits of one number, in base 8, 10 or 16, with the wrap-around of \<open>u32_t\<close>.\<close>

fun aton_digits :: "u32 \<Rightarrow> u32 \<Rightarrow> string \<Rightarrow> u32 \<times> string" where
  "aton_digits base val [] = (val, [])"
| "aton_digits base val (c # cp) =
     (if isdigit c then aton_digits base (val * base + of_nat (of_char c - of_char (CHR ''0''))) cp
      else if base = 16 \<and> isxdigit c then
        aton_digits base (push_bit 4 val OR of_nat (of_char c + 10 - of_char (if islower c then CHR ''a'' else CHR ''A''))) cp
      else (val, c # cp))"

definition aton_number :: "string \<Rightarrow> u32 \<times> string" where
  "aton_number cp =
     (if cur cp = CHR ''0'' then
        let cp = tl cp
        in if cur cp = CHR ''x'' \<or> cur cp = CHR ''X'' then aton_digits 16 0 (tl cp) else aton_digits 8 0 cp
      else aton_digits 10 0 cp)"

text \<open>The numbers before the last one, the last one and the rest of the string.\<close>

function aton_parts :: "u32 list \<Rightarrow> string \<Rightarrow> (u32 list \<times> u32 \<times> string) option" where
  "aton_parts parts cp =
     (if \<not> isdigit (cur cp) then None
      else case aton_number cp of (val, cp) \<Rightarrow>
        if cur cp = CHR ''.'' then if length parts \<ge> 3 then None else aton_parts (parts @ [val]) (tl cp)
        else Some (parts, val, cp))"
  by pat_completeness auto

termination by (relation "measure (\<lambda>(parts, _). 3 - length parts)") auto

declare aton_parts.simps [simp del]

definition ipaddr_aton :: "string \<Rightarrow> u32 option" where
  "ipaddr_aton cp =
     (case aton_parts [] cp of
        None \<Rightarrow> None
      | Some (parts, val, cp) \<Rightarrow>
          if cur cp \<noteq> CHR 0x00 \<and> \<not> isspace (cur cp) then None
          else
            case parts of
              [] \<Rightarrow> Some (hton32 val)
            | [p0] \<Rightarrow> if val > 0xffffff then None else Some (hton32 (val OR push_bit 24 p0))
            | [p0, p1] \<Rightarrow> if val > 0xffff then None else Some (hton32 (val OR (push_bit 24 p0 OR push_bit 16 p1)))
            | [p0, p1, p2] \<Rightarrow>
                if val > 0xff then None
                else Some (hton32 (val OR (push_bit 24 p0 OR push_bit 16 p1 OR push_bit 8 p2)))
            | _ \<Rightarrow> None)"

definition IPADDR_NONE :: u32 where "IPADDR_NONE = 0xffffffff"
definition IPADDR_ANY :: u32 where "IPADDR_ANY = 0"
definition IPADDR_BROADCAST :: u32 where "IPADDR_BROADCAST = 0xffffffff"

definition ipaddr_addr :: "string \<Rightarrow> u32" where
  "ipaddr_addr cp = (case ipaddr_aton cp of Some val \<Rightarrow> val | None \<Rightarrow> IPADDR_NONE)"

section \<open>Writing an address\<close>

text \<open>The decimal digits of a byte, the last one first.\<close>

function inv_digits :: "u8 \<Rightarrow> string" where
  "inv_digits ap = char_of (48 + unat (ap mod 10)) # (if ap div 10 \<noteq> 0 then inv_digits (ap div 10) else [])"
  by pat_completeness auto

termination
proof (relation "measure unat")
  fix ap :: u8
  assume "ap div 10 \<noteq> 0"
  then have "unat (ap div 10) \<noteq> 0" by (simp add: unat_eq_zero)
  then have "unat ap div 10 \<noteq> 0" by (simp add: unat_div)
  then show "(ap div 10, ap) \<in> measure unat" by (simp add: unat_div)
qed simp

declare inv_digits.simps [simp del]

text \<open>\<open>len++ >= buflen\<close> before every character; the last dot is overwritten by the terminating zero.\<close>

definition ntoa_put :: "int \<Rightarrow> char \<Rightarrow> int \<times> string \<Rightarrow> (int \<times> string) option" where
  "ntoa_put buflen c = (\<lambda>(n, out). if n \<ge> buflen then None else Some (n + 1, out @ [c]))"

fun ntoa_puts :: "int \<Rightarrow> string \<Rightarrow> int \<times> string \<Rightarrow> (int \<times> string) option" where
  "ntoa_puts buflen [] st = Some st"
| "ntoa_puts buflen (c # cs) st = do { st \<leftarrow> ntoa_put buflen c st; ntoa_puts buflen cs st }"

fun ntoa_bytes :: "int \<Rightarrow> u8 list \<Rightarrow> int \<times> string \<Rightarrow> (int \<times> string) option" where
  "ntoa_bytes buflen [] st = Some st"
| "ntoa_bytes buflen (b # bs) st = do {
     st \<leftarrow> ntoa_puts buflen (rev (inv_digits b)) st;
     st \<leftarrow> ntoa_put buflen CHR ''.'' st;
     ntoa_bytes buflen bs st
   }"

definition ipaddr_ntoa_r :: "u32 \<Rightarrow> int \<Rightarrow> string option" where
  "ipaddr_ntoa_r addr buflen = map_option (\<lambda>(_, out). butlast out) (ntoa_bytes buflen (le_bytes 4 (unat addr)) (0, []))"

section \<open>Masks and broadcast addresses\<close>

function first_zero :: "u32 \<Rightarrow> u32 \<Rightarrow> u32" where
  "first_zero nm m = (if m \<noteq> 0 then if nm AND m = 0 then m else first_zero nm (drop_bit 1 m) else m)"
  by pat_completeness auto

termination
proof (relation "measure (\<lambda>(_, m). unat m)")
  fix nm m :: u32
  assume "m \<noteq> 0"
  then have "unat m \<noteq> 0" by (simp add: unat_eq_zero)
  then show "((nm, drop_bit 1 m), nm, m) \<in> measure (\<lambda>(_, m). unat m)" by (simp add: unat_drop_bit)
qed simp

function no_one :: "u32 \<Rightarrow> u32 \<Rightarrow> bool" where
  "no_one nm m = (if m \<noteq> 0 then if nm AND m \<noteq> 0 then False else no_one nm (drop_bit 1 m) else True)"
  by pat_completeness auto

termination
proof (relation "measure (\<lambda>(_, m). unat m)")
  fix nm m :: u32
  assume "m \<noteq> 0"
  then have "unat m \<noteq> 0" by (simp add: unat_eq_zero)
  then show "((nm, drop_bit 1 m), nm, m) \<in> measure (\<lambda>(_, m). unat m)" by (simp add: unat_drop_bit)
qed simp

declare first_zero.simps [simp del] no_one.simps [simp del]

definition ip4_addr_netmask_valid :: "u32 \<Rightarrow> bool" where
  "ip4_addr_netmask_valid netmask = (let nm = hton32 netmask in no_one nm (first_zero nm (push_bit 31 1)))"

definition NETIF_FLAG_BROADCAST :: u8 where "NETIF_FLAG_BROADCAST = 2"

record netif =
  netif_ip_addr :: u32
  netif_netmask :: u32
  netif_flags :: u8

definition ip4_addr_isbroadcast :: "u32 \<Rightarrow> netif \<Rightarrow> bool" where
  "ip4_addr_isbroadcast addr n =
     (if NOT addr = IPADDR_ANY \<or> addr = IPADDR_ANY then True
      else if netif_flags n AND NETIF_FLAG_BROADCAST = 0 then False
      else if addr = netif_ip_addr n then False
      else addr AND netif_netmask n = netif_ip_addr n AND netif_netmask n \<and>
        addr AND NOT (netif_netmask n) = IPADDR_BROADCAST AND NOT (netif_netmask n))"

section \<open>The round trip\<close>

definition digit :: "nat \<Rightarrow> char" where "digit n = char_of (48 + n)"

lemma of_char_digit [simp]: "n < 10 \<Longrightarrow> (of_char (digit n) :: nat) = 48 + n"
  by (simp add: digit_def)

lemma of_char_ascii [simp]: "(of_char CHR ''0'' :: nat) = 48" "(of_char CHR ''9'' :: nat) = 57"
  by (simp_all add: of_char_def)

lemma isdigit_digit: "n < 10 \<Longrightarrow> isdigit (digit n)" by (simp add: isdigit_def in_range_def)

lemma digit_zero: "n < 10 \<Longrightarrow> digit n = CHR ''0'' \<longleftrightarrow> n = 0"
  by (metis add.right_neutral add_left_cancel of_char_ascii(1) of_char_digit of_char_eq_iff)

lemma unat_byte_div: "unat (b mod 10) = unat b mod 10" "unat (b div 10) = unat b div 10" for b :: u8
  by (simp_all add: unat_mod unat_div)

lemma inv_digits_cases:
  "rev (inv_digits b) =
     (if unat b < 10 then [digit (unat b)]
      else if unat b < 100 then [digit (unat b div 10), digit (unat b mod 10)]
      else [digit (unat b div 100), digit (unat b div 10 mod 10), digit (unat b mod 10)])"
proof -
  have z: "b div 10 = 0 \<longleftrightarrow> unat b div 10 = 0" for b :: u8
    by (metis unat_byte_div(2) unat_eq_zero)
  have o: "inv_digits c = [digit (unat c)]" if "unat c < 10" for c :: u8
    using that z [of c] by (subst inv_digits.simps) (simp add: digit_def unat_byte_div)
  have t: "inv_digits c = [digit (unat c mod 10), digit (unat c div 10)]" if "unat c < 100" "\<not> unat c < 10" for c :: u8
    using that z [of c] o [of "c div 10"] by (subst inv_digits.simps) (simp add: digit_def unat_byte_div)
  have "inv_digits b = [digit (unat b mod 10), digit (unat b div 10 mod 10), digit (unat b div 100)]" if "\<not> unat b < 100"
  proof -
    have "unat b div 10 < 100" using unat_lt8 [of b] by linarith
    moreover have "\<not> unat b div 10 < 10" using that by linarith
    ultimately have "inv_digits (b div 10) = [digit (unat b div 10 mod 10), digit (unat b div 100)]"
      using t [of "b div 10"] by (simp add: unat_byte_div div_mult2_eq [symmetric])
    moreover have "unat b div 10 \<noteq> 0" using that by linarith
    ultimately show ?thesis using z [of b] by (subst inv_digits.simps) (simp add: digit_def unat_byte_div)
  qed
  then show ?thesis using o [of b] t [of b] by simp
qed

text \<open>A string where a number ends: its first character is no digit.\<close>

lemma aton_digits_stop: "\<not> isdigit (cur cp) \<Longrightarrow> aton_digits 10 v cp = (v, cp)" "\<not> isdigit (cur cp) \<Longrightarrow> aton_digits 8 v cp = (v, cp)"
  by (cases cp; simp add: cur_def)+

lemma aton_digits_digit: "n < 10 \<Longrightarrow> aton_digits b v (digit n # cp) = aton_digits b (v * b + of_nat n) cp"
  by (simp add: isdigit_digit)

lemma isdigit_byte: "isdigit (cur (rev (inv_digits b) @ cp))"
proof -
  have "unat b div 100 < 10" using unat_lt8 [of b] by linarith
  moreover have "unat b < 100 \<Longrightarrow> unat b div 10 < 10" by linarith
  ultimately show ?thesis unfolding inv_digits_cases by (simp add: cur_def isdigit_digit)
qed

lemma aton_number_byte:
  assumes "\<not> isdigit (cur cp)" "cur cp \<noteq> CHR ''x''" "cur cp \<noteq> CHR ''X''"
  shows "aton_number (rev (inv_digits b) @ cp) = (of_nat (unat b), cp)"
proof -
  have m: "unat b div 100 < 10" "unat b mod 10 < 10" "unat b div 10 mod 10 < 10" using unat_lt8 [of b] by linarith+
  consider "unat b = 0" | "unat b \<noteq> 0" "unat b < 10" | "\<not> unat b < 10" "unat b < 100" | "\<not> unat b < 100" by linarith
  then show ?thesis
  proof cases
    case 1
    then show ?thesis unfolding inv_digits_cases using assms aton_digits_stop(2) [OF assms(1)]
      by (simp add: aton_number_def cur_def [of "_ # _"] digit_zero)
  next
    case 2
    then show ?thesis unfolding inv_digits_cases using assms aton_digits_stop(1) [OF assms(1)]
      by (simp add: aton_number_def cur_def [of "_ # _"] digit_zero aton_digits_digit del: aton_digits.simps)
  next
    case 3
    then have d: "unat b div 10 < 10" "unat b div 10 \<noteq> 0" by linarith+
    have "of_nat (unat b div 10) * 10 + of_nat (unat b mod 10) = (of_nat (unat b div 10 * 10 + unat b mod 10) :: u32)"
      by (simp only: of_nat_add of_nat_mult of_nat_numeral)
    then have "of_nat (unat b div 10) * 10 + of_nat (unat b mod 10) = (of_nat (unat b) :: u32)" by (simp only: div_mult_mod_eq)
    then show ?thesis unfolding inv_digits_cases using assms aton_digits_stop(1) [OF assms(1)] 3 d m
      by (simp add: aton_number_def cur_def [of "_ # _"] digit_zero aton_digits_digit del: aton_digits.simps)
  next
    case 4
    then have d: "unat b div 100 \<noteq> 0" by linarith
    have q: "unat b div 100 = unat b div 10 div 10" by (simp add: div_mult2_eq [symmetric])
    have "(unat b div 100 * 10 + unat b div 10 mod 10) * 10 + unat b mod 10 = unat b"
      unfolding q div_mult_mod_eq ..
    then have "(of_nat ((unat b div 100 * 10 + unat b div 10 mod 10) * 10 + unat b mod 10) :: u32) = of_nat (unat b)" by (simp only:)
    then have "(of_nat (unat b div 100) * 10 + of_nat (unat b div 10 mod 10)) * 10 + of_nat (unat b mod 10) = (of_nat (unat b) :: u32)"
      by (simp only: of_nat_add of_nat_mult of_nat_numeral)
    then show ?thesis unfolding inv_digits_cases using assms aton_digits_stop(1) [OF assms(1)] 4 d m
      by (simp add: aton_number_def cur_def [of "_ # _"] digit_zero aton_digits_digit del: aton_digits.simps)
  qed
qed

definition dec_byte :: "u8 \<Rightarrow> string" where "dec_byte b = rev (inv_digits b)"

lemma aton_parts_byte:
  assumes "length parts < 3"
  shows "aton_parts parts (dec_byte b @ CHR ''.'' # cp) = aton_parts (parts @ [of_nat (unat b)]) cp"
proof -
  have "\<not> isdigit (cur (CHR ''.'' # cp))" "cur (CHR ''.'' # cp) \<noteq> CHR ''x''" "cur (CHR ''.'' # cp) \<noteq> CHR ''X''" "cur (CHR ''.'' # cp) = CHR ''.''"
    by (simp_all add: cur_def isdigit_def in_range_def)
  then show ?thesis using assms aton_number_byte [of "CHR ''.'' # cp" b] isdigit_byte [of b "CHR ''.'' # cp"]
    by (subst aton_parts.simps) (simp add: dec_byte_def)
qed

lemma aton_parts_last: "aton_parts parts (dec_byte b) = Some (parts, of_nat (unat b), [])"
proof -
  have "\<not> isdigit (cur [])" "cur [] \<noteq> CHR ''x''" "cur [] \<noteq> CHR ''X''" "cur [] \<noteq> CHR ''.''"
    by (simp_all add: cur_def isdigit_def in_range_def)
  then show ?thesis using aton_number_byte [of "[]" b] isdigit_byte [of b "[]"]
    by (subst aton_parts.simps) (simp add: dec_byte_def)
qed

lemma length_dec_byte: "length (dec_byte b) \<le> 3" unfolding dec_byte_def inv_digits_cases by simp

lemma ntoa_puts_ok: "n + int (length cs) \<le> buflen \<Longrightarrow> ntoa_puts buflen cs (n, out) = Some (n + int (length cs), out @ cs)"
  by (induction cs arbitrary: n out) (simp_all add: ntoa_put_def)

lemma ntoa_bytes_ok:
  "n + 4 * int (length bs) \<le> buflen \<Longrightarrow>
    \<exists>n'. ntoa_bytes buflen bs (n, out) = Some (n', out @ concat (map (\<lambda>b. dec_byte b @ ''.'') bs))"
proof (induction bs arbitrary: n out)
  case (Cons b bs)
  let ?k = "n + int (length (dec_byte b))"
  have l: "int (length (dec_byte b)) \<le> 3" using length_dec_byte [of b] by linarith
  have "n + 4 + 4 * int (length bs) \<le> buflen" using Cons.prems by simp
  then have "?k \<le> buflen" "\<not> buflen \<le> ?k" "?k + 1 + 4 * int (length bs) \<le> buflen" using l by linarith+
  then show ?case using Cons.IH [of "?k + 1" "out @ dec_byte b @ ''.''"]
    by (simp add: dec_byte_def [symmetric] ntoa_puts_ok ntoa_put_def)
qed simp

lemma le_bytes_4: "\<exists>b0 b1 b2 b3. le_bytes 4 n = [b0, b1, b2, b3]"
  using length_le_bytes [of 4 n] by (auto simp: numeral_eq_Suc length_Suc_conv simp del: length_le_bytes le_bytes.simps)

lemma four_cases: "i < 4 \<Longrightarrow> (i = 0 \<Longrightarrow> P) \<Longrightarrow> (i = 1 \<Longrightarrow> P) \<Longrightarrow> (i = 2 \<Longrightarrow> P) \<Longrightarrow> (i = 3 \<Longrightarrow> P) \<Longrightarrow> P" for i :: nat
  by linarith

lemma four_bytes:
  assumes "le_bytes 4 (unat addr) = [b0, b1, b2, b3]"
  shows "of_nat (unat b3) OR (push_bit 24 (of_nat (unat b0)) OR push_bit 16 (of_nat (unat b1)) OR push_bit 8 (of_nat (unat b2))) = bswap32 addr"
    (is "?v = _")
proof -
  have "unat (bswap32 addr) = le_nat [b3, b2, b1, b0]" unfolding bswap32_bytes assms by (simp only: rev.simps append.simps)
  then have "of_nat (le_nat [b3, b2, b1, b0]) = (of_nat (unat (bswap32 addr)) :: u32)" by (simp only:)
  then have "of_nat (le_nat [b3, b2, b1, b0]) = bswap32 addr" by (simp del: le_nat.simps)
  moreover have "?v = of_nat (le_nat [b3, b2, b1, b0])"
  proof (rule bit_word_eqI)
    fix n assume "n < LENGTH(32)"
    then have "n < 8 * 4" by simp
    then obtain i j where n: "n = 8 * i + j" "i < 4" "j < 8" by (rule byte_cases)
    have d: "n div 8 = i" "n mod 8 = j" using n by simp_all
    have r: "bit (of_nat (le_nat [b3, b2, b1, b0]) :: u32) n \<longleftrightarrow> bit ([b3, b2, b1, b0] ! i) j"
      using n d bit_le_nat [of "[b3, b2, b1, b0]" n] by (simp add: bit_simps del: le_nat.simps)
    have z: "bit (ucast b :: u32) k \<longleftrightarrow> bit b k" for b :: u8 and k
      using bit_imp_le_length [of b k] by (auto simp: bit_unsigned_iff)
    show "bit ?v n \<longleftrightarrow> bit (of_nat (le_nat [b3, b2, b1, b0]) :: u32) n"
      unfolding r using n by (elim four_cases) (auto simp: bit_or_iff bit_push_bit_iff z dest: bit_imp_le_length)
  qed
  ultimately show ?thesis by simp
qed

text \<open>
  C23. Reading the text of an address gives the address back, and a buffer of 16 characters is enough
  to write it.
\<close>

theorem ipaddr_round_trip:
  assumes "16 \<le> buflen"
  shows "\<exists>cp. ipaddr_ntoa_r addr buflen = Some cp \<and> ipaddr_aton cp = Some addr \<and> length cp < 16"
proof -
  obtain b0 b1 b2 b3 where b: "le_bytes 4 (unat addr) = [b0, b1, b2, b3]" using le_bytes_4 by blast
  let ?cp = "dec_byte b0 @ CHR ''.'' # dec_byte b1 @ CHR ''.'' # dec_byte b2 @ CHR ''.'' # dec_byte b3"
  obtain n where "ntoa_bytes buflen [b0, b1, b2, b3] (0, []) = Some (n, [] @ concat (map (\<lambda>b. dec_byte b @ ''.'') [b0, b1, b2, b3]))"
    using ntoa_bytes_ok [of 0 "[b0, b1, b2, b3]" buflen "[]"] assms by (auto simp del: ntoa_bytes.simps)
  then have "ntoa_bytes buflen [b0, b1, b2, b3] (0, []) = Some (n, ?cp @ ''.'')" by (simp del: ntoa_bytes.simps)
  then have n: "ipaddr_ntoa_r addr buflen = Some ?cp" unfolding ipaddr_ntoa_r_def b by (simp only: option.map prod.case butlast_snoc)
  have p: "aton_parts [] ?cp = Some ([of_nat (unat b0), of_nat (unat b1), of_nat (unat b2)], of_nat (unat b3), [])"
    by (simp add: aton_parts_byte aton_parts_last)
  have "unat (of_nat (unat b3) :: u32) = unat b3" by (rule unat_of_nat_small) (rule less_trans [OF unat_lt8], simp)
  moreover have "unat (0xff :: u32) = 255" by simp
  ultimately have "\<not> of_nat (unat b3) > (0xff :: u32)" unfolding word_less_nat_alt using unat_lt8 [of b3] by linarith
  then have "ipaddr_aton ?cp = Some addr"
    unfolding ipaddr_aton_def p using four_bytes [OF b] by (simp add: cur_def hton32_def)
  moreover have "length ?cp < 16"
    using length_dec_byte [of b0] length_dec_byte [of b1] length_dec_byte [of b2] length_dec_byte [of b3] by simp
  ultimately show ?thesis using n by blast
qed

lemma ipaddr_round_trip_witness:
  "\<exists>cp. ipaddr_ntoa_r 0x0100000A 16 = Some cp \<and> ipaddr_aton cp = Some 0x0100000A \<and> length cp < 16"
  using ipaddr_round_trip [of 16 "0x0100000A"] by simp

text \<open>
  Only the last number is checked against its range: a first number of 256 is accepted and read as 0.
\<close>

lemma ipaddr_aton_accepts_256: "ipaddr_aton ''256.0.0.1'' = ipaddr_aton ''0.0.0.1''" "ipaddr_aton ''256.0.0.1'' \<noteq> None"
  by code_simp+

section \<open>Valid masks\<close>

lemma bit_single: "bit ((2 :: u32) ^ i) n \<longleftrightarrow> i = n \<and> i < 32"
  by (auto simp: bit_exp_iff)

lemma and_single_bit: "nm AND 2 ^ i = 0 \<longleftrightarrow> \<not> bit nm i" if "i < 32" for nm :: u32
proof
  assume a: "nm AND 2 ^ i = 0"
  have "bit (nm AND 2 ^ i) i \<longleftrightarrow> bit nm i" unfolding bit_and_iff bit_single using that by simp
  then show "\<not> bit nm i" unfolding a by simp
next
  assume n: "\<not> bit nm i"
  show "nm AND 2 ^ i = 0"
  proof (rule bit_word_eqI)
    fix k
    show "bit (nm AND 2 ^ i) k \<longleftrightarrow> bit (0 :: u32) k" unfolding bit_and_iff bit_single using n by auto
  qed
qed

lemma drop_single_bit: "drop_bit 1 ((2 :: u32) ^ Suc i) = 2 ^ i" if "Suc i < 32"
proof (rule bit_word_eqI)
  fix k
  show "bit (drop_bit 1 ((2 :: u32) ^ Suc i)) k \<longleftrightarrow> bit ((2 :: u32) ^ i) k"
    unfolding bit_drop_bit_eq comp_def bit_single using that by auto
qed

lemma single_bit_nonzero: "(2 :: u32) ^ i \<noteq> 0" if "i < 32"
proof
  assume "(2 :: u32) ^ i = 0"
  then show False using bit_single [of i i] that by simp
qed

lemma no_one_spec: "i < 32 \<Longrightarrow> no_one nm (2 ^ i) \<longleftrightarrow> (\<forall>j \<le> i. \<not> bit nm j)"
proof (induction i)
  case 0
  then show ?case using and_single_bit [of 0 nm] single_bit_nonzero [of 0]
    by (subst no_one.simps) (simp add: no_one.simps [of nm 0])
next
  case (Suc i)
  then have "no_one nm (2 ^ Suc i) \<longleftrightarrow> \<not> bit nm (Suc i) \<and> no_one nm (2 ^ i)"
    using and_single_bit [of "Suc i" nm] single_bit_nonzero [of "Suc i"] drop_single_bit [of i]
    by (subst no_one.simps) (simp del: power_Suc)
  then show ?case using Suc by (auto simp: le_Suc_eq)
qed

lemma first_zero_spec:
  "i < 32 \<Longrightarrow> no_one nm (first_zero nm (2 ^ i)) \<longleftrightarrow> (\<exists>k \<le> Suc i. \<forall>j \<le> i. bit nm j \<longleftrightarrow> k \<le> j)"
proof (induction i)
  case 0
  have "no_one nm (first_zero nm 1)"
    using and_single_bit [of 0 nm] by (subst first_zero.simps) (simp add: first_zero.simps [of nm 0] no_one.simps [of nm 0] no_one.simps [of nm 1])
  moreover have "\<exists>k \<le> Suc 0. \<forall>j \<le> 0. bit nm j \<longleftrightarrow> k \<le> j" by (rule exI [of _ "if bit nm 0 then 0 else 1"]) simp
  ultimately show ?case by simp
next
  case (Suc i)
  show ?case
  proof (cases "bit nm (Suc i)")
    case True
    then have "first_zero nm (2 ^ Suc i) = first_zero nm (2 ^ i)"
      using and_single_bit [of "Suc i" nm] single_bit_nonzero [of "Suc i"] drop_single_bit [of i] Suc.prems
      by (subst first_zero.simps) (simp del: power_Suc)
    moreover have "(\<exists>k \<le> Suc (Suc i). \<forall>j \<le> Suc i. bit nm j \<longleftrightarrow> k \<le> j) \<longleftrightarrow> (\<exists>k \<le> Suc i. \<forall>j \<le> i. bit nm j \<longleftrightarrow> k \<le> j)"
    proof
      assume "\<exists>k \<le> Suc (Suc i). \<forall>j \<le> Suc i. bit nm j \<longleftrightarrow> k \<le> j"
      then obtain k where k: "\<forall>j \<le> Suc i. bit nm j \<longleftrightarrow> k \<le> j" by blast
      then have "k \<le> Suc i" using True by simp
      then show "\<exists>k \<le> Suc i. \<forall>j \<le> i. bit nm j \<longleftrightarrow> k \<le> j" using k by (intro exI [of _ k]) simp
    next
      assume "\<exists>k \<le> Suc i. \<forall>j \<le> i. bit nm j \<longleftrightarrow> k \<le> j"
      then obtain k where "k \<le> Suc i" "\<forall>j \<le> i. bit nm j \<longleftrightarrow> k \<le> j" by blast
      then show "\<exists>k \<le> Suc (Suc i). \<forall>j \<le> Suc i. bit nm j \<longleftrightarrow> k \<le> j" using True by (intro exI [of _ k]) (auto simp: le_Suc_eq)
    qed
    ultimately show ?thesis using Suc by simp
  next
    case False
    then have "first_zero nm (2 ^ Suc i) = 2 ^ Suc i"
      using and_single_bit [of "Suc i" nm] single_bit_nonzero [of "Suc i"] Suc.prems
      by (subst first_zero.simps) (simp del: power_Suc)
    moreover have "(\<exists>k \<le> Suc (Suc i). \<forall>j \<le> Suc i. bit nm j \<longleftrightarrow> k \<le> j) \<longleftrightarrow> (\<forall>j \<le> Suc i. \<not> bit nm j)"
    proof
      assume "\<exists>k \<le> Suc (Suc i). \<forall>j \<le> Suc i. bit nm j \<longleftrightarrow> k \<le> j"
      then obtain k where k: "\<forall>j \<le> Suc i. bit nm j \<longleftrightarrow> k \<le> j" by blast
      then have "\<not> k \<le> Suc i" using False by simp
      then show "\<forall>j \<le> Suc i. \<not> bit nm j" using k by simp
    next
      assume "\<forall>j \<le> Suc i. \<not> bit nm j"
      then show "\<exists>k \<le> Suc (Suc i). \<forall>j \<le> Suc i. bit nm j \<longleftrightarrow> k \<le> j" by (intro exI [of _ "Suc (Suc i)"]) simp
    qed
    ultimately show ?thesis using no_one_spec [OF Suc.prems] by simp
  qed
qed

text \<open>A mask is valid if and only if it is a number of ones followed by zeros, in network order.\<close>

lemma netmask_valid_spec: "ip4_addr_netmask_valid netmask \<longleftrightarrow> (\<exists>k \<le> 32. netmask = hton32 (NOT (mask k)))"
proof -
  let ?nm = "hton32 netmask"
  have e: "netmask = hton32 x \<longleftrightarrow> ?nm = x" for x by (auto simp: hton32_def)
  have b: "?nm = NOT (mask k) \<longleftrightarrow> (\<forall>j \<le> 31. bit ?nm j \<longleftrightarrow> k \<le> j)" for k
  proof
    assume "?nm = NOT (mask k)"
    then show "\<forall>j \<le> 31. bit ?nm j \<longleftrightarrow> k \<le> j" by (auto simp: bit_not_iff bit_mask_iff)
  next
    assume "\<forall>j \<le> 31. bit ?nm j \<longleftrightarrow> k \<le> j"
    then show "?nm = NOT (mask k)" by (intro bit_word_eqI) (auto simp: bit_not_iff bit_mask_iff)
  qed
  have p: "push_bit 31 1 = (2 :: u32) ^ 31" by (rule push_bit_of_1)
  have s: "Suc 31 = 32" by simp
  show ?thesis unfolding e b ip4_addr_netmask_valid_def Let_def p
    by (rule first_zero_spec [of 31 ?nm, unfolded s]) simp
qed

end
