(* ===== verification/Pbuf.thy ===== *)
theory Pbuf
  imports NetState IpStack
begin

text \<open>
  The packet buffers of \<open>lwip/pbuf.c\<close> and the pools they come from (\<open>inc/lwip/memp.h\<close>,
  \<open>lwip/misc.c\<close>).  Buffers are records in a heap addressed by pointers, payloads are ranges of the
  byte memory \<open>pmem\<close>, and the DPDK pools behind \<open>mempool_alloc\<close> are those of the environment.
\<close>

unbundle bit_operations_syntax

section \<open>Buffers and pools\<close>

definition ERR_OK :: int where "ERR_OK = 0"
definition ERR_MEM :: int where "ERR_MEM = - 1"
definition ERR_VAL :: int where "ERR_VAL = - 6"
definition ERR_ARG :: int where "ERR_ARG = - 14"

definition MEM_ALIGNMENT :: nat where "MEM_ALIGNMENT = 1"

definition LWIP_MEM_ALIGN :: "nat \<Rightarrow> nat" where
  "LWIP_MEM_ALIGN addr = (addr + MEM_ALIGNMENT - 1) div MEM_ALIGNMENT * MEM_ALIGNMENT"

text \<open>\<open>sizeof(struct pbuf)\<close>: five pointers, two lengths, type, flags and the reference count.\<close>

definition SIZEOF_STRUCT_PBUF :: nat where "SIZEOF_STRUCT_PBUF = LWIP_MEM_ALIGN 48"

definition PBUF_LINK_HLEN :: nat where "PBUF_LINK_HLEN = 14"
definition PBUF_IP_HLEN :: nat where "PBUF_IP_HLEN = 20"
definition PBUF_TRANSPORT_HLEN :: nat where "PBUF_TRANSPORT_HLEN = 20"
definition PBUF_WITH_PAYLOAD_SIZE :: nat where "PBUF_WITH_PAYLOAD_SIZE = 4096"
definition PBUF_FLAG_TCP_FIN :: u8 where "PBUF_FLAG_TCP_FIN = 0x20"

datatype pbuf_layer = PBUF_TRANSPORT | PBUF_IP | PBUF_LINK | PBUF_RAW
datatype pbuf_type = PBUF_RAM | PBUF_ROM | PBUF_REF | PBUF_POOL

record pbuf =
  pb_next :: "ptr option"
  tcp_api_next :: "ptr option"
  payload :: nat
  pb_mbuf :: "ptr option"
  tot_len :: u16
  pb_len :: u16
  pb_type :: pbuf_type
  pb_flags :: u8
  pb_ref :: u16

datatype memp_t = MEMP_PBUF | MEMP_TCP_PCB | MEMP_TCP_PCB_LISTEN | MEMP_TCP_SEG | MEMP_SYS_TIMEOUT | MEMP_PBUF_POOL | MEMP_MAX

text \<open>\<open>pmem\<close> is the memory that payload pointers point into, a byte per address.\<close>

record 'w pbuf_state =
  pbufs :: "ptr \<Rightarrow> pbuf"
  pmem :: "nat \<Rightarrow> u8"
  pbuf_mempool :: mempool
  pbuf_with_payload_mempool :: mempool
  tcp_pcb_mempool :: mempool
  tcp_pcb_listen_mempool :: mempool
  tcp_seg_mempool :: mempool
  pb_net :: "'w net_state"

definition upd_pbuf :: "ptr \<Rightarrow> (pbuf \<Rightarrow> pbuf) \<Rightarrow> 'w pbuf_state \<Rightarrow> 'w pbuf_state" where
  "upd_pbuf p f s = s\<lparr>pbufs := (pbufs s)(p := f (pbufs s p))\<rparr>"

definition pool_alloc :: "'w net_env \<Rightarrow> mempool \<Rightarrow> 'w pbuf_state \<Rightarrow> ptr option \<times> 'w pbuf_state" where
  "pool_alloc E m s =
     (case mempool_alloc (net_dpdk E) m (net_mp (pb_net s)) of (p, mp) \<Rightarrow> (p, s\<lparr>pb_net := (pb_net s)\<lparr>net_mp := mp\<rparr>\<rparr>))"

definition pool_free :: "'w net_env \<Rightarrow> mempool \<Rightarrow> ptr \<Rightarrow> 'w pbuf_state \<Rightarrow> 'w pbuf_state" where
  "pool_free E m p s = s\<lparr>pb_net := (pb_net s)\<lparr>net_mp := mempool_free (net_dpdk E) m p (net_mp (pb_net s))\<rparr>\<rparr>"

definition memp_malloc :: "'w net_env \<Rightarrow> memp_t \<Rightarrow> 'w pbuf_state \<Rightarrow> ptr option \<times> 'w pbuf_state" where
  "memp_malloc E t s =
     (case t of
        MEMP_PBUF \<Rightarrow> pool_alloc E (pbuf_mempool s) s
      | MEMP_TCP_PCB \<Rightarrow> pool_alloc E (tcp_pcb_mempool s) s
      | MEMP_TCP_PCB_LISTEN \<Rightarrow> pool_alloc E (tcp_pcb_listen_mempool s) s
      | MEMP_TCP_SEG \<Rightarrow> pool_alloc E (tcp_seg_mempool s) s
      | _ \<Rightarrow> (None, s))"

definition memp_free :: "'w net_env \<Rightarrow> memp_t \<Rightarrow> ptr \<Rightarrow> 'w pbuf_state \<Rightarrow> 'w pbuf_state" where
  "memp_free E t p s =
     (case t of
        MEMP_PBUF \<Rightarrow> pool_free E (pbuf_mempool s) p s
      | MEMP_TCP_PCB \<Rightarrow> pool_free E (tcp_pcb_mempool s) p s
      | MEMP_TCP_PCB_LISTEN \<Rightarrow> pool_free E (tcp_pcb_listen_mempool s) p s
      | MEMP_TCP_SEG \<Rightarrow> pool_free E (tcp_seg_mempool s) p s
      | _ \<Rightarrow> s)"

definition mem_free :: "'w net_env \<Rightarrow> ptr \<Rightarrow> 'w pbuf_state \<Rightarrow> 'w pbuf_state" where
  "mem_free E p s = pool_free E (pbuf_with_payload_mempool s) p s"

definition mem_malloc :: "'w net_env \<Rightarrow> nat \<Rightarrow> 'w pbuf_state \<Rightarrow> ptr option \<times> 'w pbuf_state" where
  "mem_malloc E sz s = pool_alloc E (pbuf_with_payload_mempool s) s"

section \<open>Allocation\<close>

definition pbuf_offset :: "pbuf_layer \<Rightarrow> nat" where
  "pbuf_offset layer =
     (case layer of
        PBUF_TRANSPORT \<Rightarrow> PBUF_LINK_HLEN + PBUF_IP_HLEN + PBUF_TRANSPORT_HLEN
      | PBUF_IP \<Rightarrow> PBUF_LINK_HLEN + PBUF_IP_HLEN
      | PBUF_LINK \<Rightarrow> PBUF_LINK_HLEN
      | PBUF_RAW \<Rightarrow> 0)"

text \<open>
  The pool of \<open>PBUF_POOL\<close> does not exist: \<open>memp_malloc\<close> returns \<open>NULL\<close> for it, and \<open>pbuf_alloc\<close> with
  it.  The fields \<open>mbuf\<close> and \<open>tcp_api_next\<close> keep what the memory held.
\<close>

definition pbuf_alloc :: "'w net_env \<Rightarrow> pbuf_layer \<Rightarrow> u16 \<Rightarrow> pbuf_type \<Rightarrow> 'w pbuf_state \<Rightarrow> ptr option \<times> 'w pbuf_state" where
  "pbuf_alloc E layer plen type s =
     (case type of
        PBUF_POOL \<Rightarrow> (None, snd (memp_malloc E MEMP_PBUF_POOL s))
      | PBUF_RAM \<Rightarrow>
          (case pool_alloc E (pbuf_with_payload_mempool s) s of
             (None, s) \<Rightarrow> (None, s)
           | (Some p, s) \<Rightarrow>
               (Some p, upd_pbuf p (\<lambda>b. b\<lparr>payload := LWIP_MEM_ALIGN (p + SIZEOF_STRUCT_PBUF + pbuf_offset layer),
                  pb_len := plen, tot_len := plen, pb_next := None, pb_type := type, pb_ref := 1, pb_flags := 0\<rparr>) s))
      | _ \<Rightarrow>
          (case memp_malloc E MEMP_PBUF s of
             (None, s) \<Rightarrow> (None, s)
           | (Some p, s) \<Rightarrow>
               (Some p, upd_pbuf p (\<lambda>b. b\<lparr>payload := 0, pb_len := plen, tot_len := plen, pb_next := None,
                  pb_type := type, pb_ref := 1, pb_flags := 0\<rparr>) s)))"

section \<open>Reference counts\<close>

definition pbuf_dealloc :: "'w net_env \<Rightarrow> ptr \<Rightarrow> 'w pbuf_state \<Rightarrow> 'w pbuf_state" where
  "pbuf_dealloc E p s =
     (let s = (case pb_mbuf (pbufs s p) of
                 None \<Rightarrow> s
               | Some m \<Rightarrow> upd_pbuf p (\<lambda>b. b\<lparr>pb_mbuf := None\<rparr>) (s\<lparr>pb_net := mbuf_free E m (pb_net s)\<rparr>))
      in case pb_type (pbufs s p) of
           PBUF_POOL \<Rightarrow> memp_free E MEMP_PBUF_POOL p s
         | PBUF_RAM \<Rightarrow> mem_free E p s
         | _ \<Rightarrow> memp_free E MEMP_PBUF p s)"

text \<open>The loops follow \<open>next\<close> pointers; on a chain that runs into itself they do not return.\<close>

partial_function (option) free_loop :: "'w net_env \<Rightarrow> ptr option \<Rightarrow> u8 \<Rightarrow> 'w pbuf_state \<Rightarrow> (u8 \<times> 'w pbuf_state) option" where
  "free_loop E p count s =
     (case p of
        None \<Rightarrow> Some (count, s)
      | Some p \<Rightarrow>
          (let s = upd_pbuf p (\<lambda>b. b\<lparr>pb_ref := pb_ref b - 1\<rparr>) s
           in if pb_ref (pbufs s p) = 0 then free_loop E (pb_next (pbufs s p)) (count + 1) (pbuf_dealloc E p s)
              else Some (count, s)))"

definition pbuf_free :: "'w net_env \<Rightarrow> ptr option \<Rightarrow> 'w pbuf_state \<Rightarrow> (u8 \<times> 'w pbuf_state) option" where
  "pbuf_free E p s = (if p = None then Some (0, s) else free_loop E p 0 s)"

partial_function (option) clen_loop :: "'w pbuf_state \<Rightarrow> ptr option \<Rightarrow> u8 \<Rightarrow> u8 option" where
  "clen_loop s p n = (case p of None \<Rightarrow> Some n | Some p \<Rightarrow> clen_loop s (pb_next (pbufs s p)) (n + 1))"

definition pbuf_clen :: "ptr option \<Rightarrow> 'w pbuf_state \<Rightarrow> u8 option" where
  "pbuf_clen p s = clen_loop s p 0"

definition pbuf_ref :: "ptr option \<Rightarrow> 'w pbuf_state \<Rightarrow> 'w pbuf_state" where
  "pbuf_ref p s = (case p of None \<Rightarrow> s | Some p \<Rightarrow> upd_pbuf p (\<lambda>b. b\<lparr>pb_ref := pb_ref b + 1\<rparr>) s)"

section \<open>Chains\<close>

text \<open>\<open>LWIP_ERROR\<close> ends the process when its condition is false; \<open>LWIP_ASSERT\<close> is compiled out.\<close>

partial_function (option) cat_loop :: "ptr \<Rightarrow> ptr \<Rightarrow> 'w pbuf_state \<Rightarrow> (ptr \<times> 'w pbuf_state) option" where
  "cat_loop p t s =
     (case pb_next (pbufs s p) of
        None \<Rightarrow> Some (p, s)
      | Some q \<Rightarrow> cat_loop q t (upd_pbuf p (\<lambda>b. b\<lparr>tot_len := tot_len b + tot_len (pbufs s t)\<rparr>) s))"

definition pbuf_cat :: "ptr option \<Rightarrow> ptr option \<Rightarrow> 'w pbuf_state \<Rightarrow> 'w pbuf_state option" where
  "pbuf_cat h t s =
     (case (h, t) of
        (Some h, Some t) \<Rightarrow> do {
          (p, s) \<leftarrow> cat_loop h t s;
          Some (upd_pbuf p (\<lambda>b. b\<lparr>tot_len := tot_len b + tot_len (pbufs s t), pb_next := Some t\<rparr>) s)
        }
      | _ \<Rightarrow> None)"

definition pbuf_chain :: "ptr option \<Rightarrow> ptr option \<Rightarrow> 'w pbuf_state \<Rightarrow> 'w pbuf_state option" where
  "pbuf_chain h t s = map_option (pbuf_ref t) (pbuf_cat h t s)"

definition pbuf_dechain :: "'w net_env \<Rightarrow> ptr \<Rightarrow> 'w pbuf_state \<Rightarrow> (ptr option \<times> 'w pbuf_state) option" where
  "pbuf_dechain E p s =
     (case pb_next (pbufs s p) of
        None \<Rightarrow> Some (None, s)
      | Some q \<Rightarrow> do {
          let s = upd_pbuf q (\<lambda>b. b\<lparr>tot_len := tot_len (pbufs s p) - pb_len (pbufs s p)\<rparr>) s;
          let s = upd_pbuf p (\<lambda>b. b\<lparr>pb_next := None, tot_len := pb_len b\<rparr>) s;
          (tail_gone, s) \<leftarrow> pbuf_free E (Some q) s;
          Some (if tail_gone > 0 then None else Some q, s)
        })"

text \<open>A \<open>NULL\<close> that is followed ends the process.\<close>

partial_function (option) realloc_loop :: "u16 \<Rightarrow> u16 \<Rightarrow> ptr option \<Rightarrow> 'w pbuf_state \<Rightarrow> (u16 \<times> ptr \<times> 'w pbuf_state) option" where
  "realloc_loop grow rem_len q s =
     (case q of
        None \<Rightarrow> None
      | Some q \<Rightarrow>
          if rem_len > pb_len (pbufs s q) then
            realloc_loop grow (rem_len - pb_len (pbufs s q)) (pb_next (pbufs s q)) (upd_pbuf q (\<lambda>b. b\<lparr>tot_len := tot_len b + grow\<rparr>) s)
          else Some (rem_len, q, s))"

definition pbuf_realloc :: "'w net_env \<Rightarrow> ptr \<Rightarrow> u16 \<Rightarrow> 'w pbuf_state \<Rightarrow> 'w pbuf_state option" where
  "pbuf_realloc E p new_len s =
     (if new_len \<ge> tot_len (pbufs s p) then Some s
      else do {
        (rem_len, q, s) \<leftarrow> realloc_loop (new_len - tot_len (pbufs s p)) new_len (Some p) s;
        let s = upd_pbuf q (\<lambda>b. b\<lparr>pb_len := rem_len, tot_len := rem_len\<rparr>) s;
        s \<leftarrow> (if pb_next (pbufs s q) \<noteq> None then map_option snd (pbuf_free E (pb_next (pbufs s q)) s) else Some s);
        Some (upd_pbuf q (\<lambda>b. b\<lparr>pb_next := None\<rparr>) s)
      })"

definition pbuf_header :: "ptr \<Rightarrow> int \<Rightarrow> 'w pbuf_state \<Rightarrow> (u8 \<times> 'w pbuf_state) option" where
  "pbuf_header p inc s =
     (let b = pbufs s p;
          pl = int (payload b) - inc;
          s' = upd_pbuf p (\<lambda>b. b\<lparr>payload := nat pl, pb_len := pb_len b + word_of_int inc, tot_len := tot_len b + word_of_int inc\<rparr>) s
      in if inc = 0 then Some (0, s)
         else if inc < 0 \<and> \<not> word_of_int (- inc) \<le> pb_len b then None
         else if pb_type b = PBUF_RAM \<or> pb_type b = PBUF_POOL then
           if pl < int (p + SIZEOF_STRUCT_PBUF) then Some (1, s) else Some (0, s')
         else if inc < 0 \<and> word_of_int (- inc) \<le> pb_len b then Some (0, s')
         else Some (1, s))"

section \<open>Copying\<close>

definition memcpy :: "nat \<Rightarrow> nat \<Rightarrow> nat \<Rightarrow> (nat \<Rightarrow> u8) \<Rightarrow> (nat \<Rightarrow> u8)" where
  "memcpy dst src n m = (\<lambda>a. if dst \<le> a \<and> a < dst + n then m (src + (a - dst)) else m a)"

partial_function (option) copy_loop ::
  "u16 \<Rightarrow> u16 \<Rightarrow> ptr \<Rightarrow> ptr \<Rightarrow> 'w pbuf_state \<Rightarrow> (int \<times> 'w pbuf_state) option" where
  "copy_loop offset_to offset_from p_to p_from s =
     (let bt = pbufs s p_to; bf = pbufs s p_from;
          n = (if int (unat (pb_len bt)) - int (unat offset_to) \<ge> int (unat (pb_len bf)) - int (unat offset_from)
               then pb_len bf - offset_from else pb_len bt - offset_to);
          s = s\<lparr>pmem := memcpy (payload bt + unat offset_to) (payload bf + unat offset_from) (unat n) (pmem s)\<rparr>;
          offset_to = offset_to + n; offset_from = offset_from + n;
          (offset_from, from) = (if offset_from \<ge> pb_len bf then (0, pb_next bf) else (offset_from, Some p_from));
          (offset_to, to) = (if offset_to = pb_len bt then (0, pb_next bt) else (offset_to, Some p_to));
          queue = (\<lambda>p. case p of None \<Rightarrow> False
                     | Some q \<Rightarrow> pb_len (pbufs s q) = tot_len (pbufs s q) \<and> pb_next (pbufs s q) \<noteq> None)
      in if to = None \<and> from \<noteq> None then None
         else if queue from \<or> queue to then None
         else case (from, to) of
                (None, _) \<Rightarrow> Some (ERR_OK, s)
              | (Some p_from, Some p_to) \<Rightarrow> copy_loop offset_to offset_from p_to p_from s
              | _ \<Rightarrow> None)"

definition pbuf_copy :: "ptr option \<Rightarrow> ptr option \<Rightarrow> 'w pbuf_state \<Rightarrow> (int \<times> 'w pbuf_state) option" where
  "pbuf_copy p_to p_from s =
     (case (p_to, p_from) of
        (Some p_to, Some p_from) \<Rightarrow>
          if tot_len (pbufs s p_to) \<ge> tot_len (pbufs s p_from) then copy_loop 0 0 p_to p_from s else None
      | _ \<Rightarrow> None)"

partial_function (option) copy_partial_loop ::
  "nat \<Rightarrow> u16 \<Rightarrow> u16 \<Rightarrow> u16 \<Rightarrow> u16 \<Rightarrow> ptr option \<Rightarrow> 'w pbuf_state \<Rightarrow> (u16 \<times> 'w pbuf_state) option" where
  "copy_partial_loop dataptr left copied_total n offset p s =
     (case p of
        None \<Rightarrow> Some (copied_total, s)
      | Some q \<Rightarrow>
          if n = 0 then Some (copied_total, s)
          else
            let b = pbufs s q
            in if offset \<noteq> 0 \<and> offset \<ge> pb_len b then
                 copy_partial_loop dataptr left copied_total n (offset - pb_len b) (pb_next b) s
               else
                 let k = pb_len b - offset; k = (if k > n then n else k);
                     s = s\<lparr>pmem := memcpy (dataptr + unat left) (payload b + unat offset) (unat k) (pmem s)\<rparr>
                 in copy_partial_loop dataptr (left + k) (copied_total + k) (n - k) 0 (pb_next b) s)"

definition pbuf_copy_partial :: "ptr option \<Rightarrow> nat \<Rightarrow> u16 \<Rightarrow> u16 \<Rightarrow> 'w pbuf_state \<Rightarrow> (u16 \<times> 'w pbuf_state) option" where
  "pbuf_copy_partial buf dataptr n offset s =
     (if buf = None \<or> dataptr = 0 then None else copy_partial_loop dataptr 0 0 n offset buf s)"

partial_function (option) take_loop :: "nat \<Rightarrow> u16 \<Rightarrow> u16 \<Rightarrow> ptr option \<Rightarrow> 'w pbuf_state \<Rightarrow> 'w pbuf_state option" where
  "take_loop dataptr total_copy_len copied_total p s =
     (if total_copy_len = 0 then Some s
      else case p of
             None \<Rightarrow> None
           | Some q \<Rightarrow>
               let b = pbufs s q; k = (if total_copy_len > pb_len b then pb_len b else total_copy_len);
                   s = s\<lparr>pmem := memcpy (payload b) (dataptr + unat copied_total) (unat k) (pmem s)\<rparr>
               in take_loop dataptr (total_copy_len - k) (copied_total + k) (pb_next b) s)"

definition pbuf_take :: "ptr option \<Rightarrow> nat \<Rightarrow> u16 \<Rightarrow> 'w pbuf_state \<Rightarrow> (int \<times> 'w pbuf_state) option" where
  "pbuf_take buf dataptr n s =
     (case buf of
        None \<Rightarrow> None
      | Some b \<Rightarrow>
          if dataptr = 0 then None
          else if tot_len (pbufs s b) < n then Some (ERR_ARG, s)
          else map_option (\<lambda>s. (ERR_OK, s)) (take_loop dataptr n 0 buf s))"

definition pbuf_coalesce :: "'w net_env \<Rightarrow> ptr \<Rightarrow> pbuf_layer \<Rightarrow> 'w pbuf_state \<Rightarrow> (ptr \<times> 'w pbuf_state) option" where
  "pbuf_coalesce E p layer s =
     (if pb_next (pbufs s p) = None then Some (p, s)
      else case pbuf_alloc E layer (tot_len (pbufs s p)) PBUF_RAM s of
             (None, s) \<Rightarrow> Some (p, s)
           | (Some q, s) \<Rightarrow> do {
               (err, s) \<leftarrow> pbuf_copy (Some q) (Some p) s;
               if err \<noteq> ERR_OK then None
               else do { (_, s) \<leftarrow> pbuf_free E (Some p) s; Some (q, s) }
             })"

section \<open>Reading and searching\<close>

partial_function (option) seek_loop :: "'w pbuf_state \<Rightarrow> u16 \<Rightarrow> ptr option \<Rightarrow> (u16 \<times> ptr option) option" where
  "seek_loop s off q =
     (case q of
        None \<Rightarrow> Some (off, None)
      | Some p \<Rightarrow> if pb_len (pbufs s p) \<le> off then seek_loop s (off - pb_len (pbufs s p)) (pb_next (pbufs s p)) else Some (off, q))"

definition pbuf_get_at :: "ptr option \<Rightarrow> u16 \<Rightarrow> 'w pbuf_state \<Rightarrow> u8 option" where
  "pbuf_get_at p offset s = do {
     (copy_from, q) \<leftarrow> seek_loop s offset p;
     case q of
       Some q \<Rightarrow> Some (if pb_len (pbufs s q) > copy_from then pmem s (payload (pbufs s q) + unat copy_from) else 0)
     | None \<Rightarrow> Some 0
   }"

text \<open>\<open>k\<close> is the number of bytes still to compare, the distance from \<open>i\<close> to \<open>n\<close>.\<close>

fun memcmp_loop :: "nat \<Rightarrow> ptr option \<Rightarrow> u16 \<Rightarrow> nat \<Rightarrow> u16 \<Rightarrow> 'w pbuf_state \<Rightarrow> u16 option" where
  "memcmp_loop 0 q start s2 i s = Some 0"
| "memcmp_loop (Suc k) q start s2 i s = do {
     a \<leftarrow> pbuf_get_at q (start + i) s;
     if a \<noteq> pmem s (s2 + unat i) then Some (i + 1) else memcmp_loop k q start s2 (i + 1) s
   }"

definition pbuf_memcmp :: "ptr option \<Rightarrow> u16 \<Rightarrow> nat \<Rightarrow> u16 \<Rightarrow> 'w pbuf_state \<Rightarrow> u16 option" where
  "pbuf_memcmp p offset s2 n s = do {
     (start, q) \<leftarrow> seek_loop s offset p;
     case q of
       Some q' \<Rightarrow> if pb_len (pbufs s q') > start then memcmp_loop (unat n) q start s2 0 s else Some 0xffff
     | None \<Rightarrow> Some 0xffff
   }"

partial_function (option) memfind_loop :: "ptr \<Rightarrow> nat \<Rightarrow> u16 \<Rightarrow> u16 \<Rightarrow> u16 \<Rightarrow> 'w pbuf_state \<Rightarrow> u16 option" where
  "memfind_loop p mem mem_len limit i s =
     (if i \<le> limit then do {
        plus \<leftarrow> pbuf_memcmp (Some p) i mem mem_len s;
        if plus = 0 then Some i else memfind_loop p mem mem_len limit (i + plus) s
      } else Some 0xFFFF)"

definition pbuf_memfind :: "ptr \<Rightarrow> nat \<Rightarrow> u16 \<Rightarrow> u16 \<Rightarrow> 'w pbuf_state \<Rightarrow> u16 option" where
  "pbuf_memfind p mem mem_len start_offset s =
     (if unat (tot_len (pbufs s p)) \<ge> unat mem_len + unat start_offset
      then memfind_loop p mem mem_len (tot_len (pbufs s p) - mem_len) start_offset s
      else Some 0xFFFF)"

text \<open>\<open>substr_len\<close> is \<open>strlen(substr)\<close>, \<open>None\<close> for the null pointer.\<close>

definition pbuf_strstr :: "ptr \<Rightarrow> nat \<Rightarrow> nat option \<Rightarrow> 'w pbuf_state \<Rightarrow> u16 option" where
  "pbuf_strstr p substr substr_len s =
     (case substr_len of
        None \<Rightarrow> Some 0xFFFF
      | Some n \<Rightarrow>
          if n = 0 \<or> tot_len (pbufs s p) = 0xFFFF then Some 0xFFFF
          else if n \<ge> 0xFFFF then Some 0xFFFF
          else pbuf_memfind p substr (of_nat n) 0 s)"

section \<open>Splitting a chain that is too long\<close>

partial_function (option) split_loop :: "'w pbuf_state \<Rightarrow> u16 \<Rightarrow> ptr \<Rightarrow> ptr option \<Rightarrow> (ptr \<times> ptr option) option" where
  "split_loop s front i r =
     (case r of
        None \<Rightarrow> Some (i, None)
      | Some q \<Rightarrow> if front + pb_len (pbufs s q) > front then split_loop s (front + pb_len (pbufs s q)) q (pb_next (pbufs s q))
                  else Some (i, r))"

partial_function (option) split_fix :: "ptr \<Rightarrow> ptr option \<Rightarrow> 'w pbuf_state \<Rightarrow> 'w pbuf_state option" where
  "split_fix r i s =
     (case i of
        None \<Rightarrow> Some s
      | Some p \<Rightarrow> split_fix r (pb_next (pbufs s p)) (upd_pbuf p (\<lambda>b. b\<lparr>tot_len := tot_len b - tot_len (pbufs s r)\<rparr>) s))"

definition pbuf_split_64k :: "ptr option \<Rightarrow> 'w pbuf_state \<Rightarrow> (ptr option \<times> 'w pbuf_state) option" where
  "pbuf_split_64k p s =
     (case p of
        None \<Rightarrow> Some (None, s)
      | Some p \<Rightarrow>
          if pb_next (pbufs s p) = None then Some (None, s)
          else do {
            (i, r) \<leftarrow> split_loop s (pb_len (pbufs s p)) p (pb_next (pbufs s p));
            let s = upd_pbuf i (\<lambda>b. b\<lparr>pb_next := None\<rparr>) s;
            case r of
              None \<Rightarrow> Some (None, s)
            | Some q \<Rightarrow> do {
                s \<leftarrow> split_fix q (Some p) s;
                let s = (if pb_flags (pbufs s p) AND PBUF_FLAG_TCP_FIN \<noteq> 0
                         then upd_pbuf q (\<lambda>b. b\<lparr>pb_flags := pb_flags b OR PBUF_FLAG_TCP_FIN\<rparr>) s else s);
                Some (r, s)
              }
          })"

section \<open>The pools of a CPU\<close>

definition MEMP_SIZE :: int where "MEMP_SIZE = 256 * 1024"
definition PBUF_CAPACITY :: int where "PBUF_CAPACITY = 768 * 1024"

text \<open>The static data stores, at distinct addresses.\<close>

record memp_stores =
  pbuf_ds :: ptr
  pbuf_with_payload_ds :: ptr
  tcp_pcb_ds :: ptr
  tcp_seg_ds :: ptr

definition init_mempool :: "'w net_env \<Rightarrow> ptr \<Rightarrow> int \<Rightarrow> u64 \<Rightarrow> string \<Rightarrow> 'w pbuf_state \<Rightarrow> (int \<times> 'w pbuf_state) option" where
  "init_mempool E m nr_elems elem_len name s =
     map_option (\<lambda>(r, mp). (r, s\<lparr>pb_net := (pb_net s)\<lparr>net_mp := mp\<rparr>\<rparr>))
       (mempool_create_datastore (net_dpdk E) m nr_elems elem_len name (net_mp (pb_net s)))"

text \<open>\<open>memp_sizes\<close> is the table of the sizes the compiler gives the structures.\<close>

definition memp_init :: "'w net_env \<Rightarrow> memp_stores \<Rightarrow> (memp_t \<Rightarrow> u16) \<Rightarrow> 'w pbuf_state \<Rightarrow> (int \<times> 'w pbuf_state) option" where
  "memp_init E D memp_sizes s = do {
     (r, s) \<leftarrow> init_mempool E (pbuf_ds D) PBUF_CAPACITY (ucast (memp_sizes MEMP_PBUF)) ''pbuf'' s;
     if r \<noteq> 0 then Some (1, s) else do {
       (r, s) \<leftarrow> init_mempool E (pbuf_with_payload_ds D) MEMP_SIZE (of_nat PBUF_WITH_PAYLOAD_SIZE) ''pbuf_payload'' s;
       if r \<noteq> 0 then Some (1, s) else do {
         (r, s) \<leftarrow> init_mempool E (tcp_pcb_ds D) MEMP_SIZE (ucast (memp_sizes MEMP_TCP_PCB)) ''tcp_pcb'' s;
         if r \<noteq> 0 then Some (1, s) else do {
           (r, s) \<leftarrow> init_mempool E (tcp_seg_ds D) MEMP_SIZE (ucast (memp_sizes MEMP_TCP_SEG)) ''tcp_seg'' s;
           if r \<noteq> 0 then Some (1, s) else Some (0, s)
         }
       }
     }
   }"

text \<open>The pool of listening control blocks is not created.\<close>

definition memp_init_cpu :: "memp_stores \<Rightarrow> int \<Rightarrow> 'w pbuf_state \<Rightarrow> (int \<times> 'w pbuf_state) option" where
  "memp_init_cpu D cpu s = do {
     (r, m) \<leftarrow> mempool_create (pbuf_mempool s) (pbuf_ds D) MEMPOOL_SANITY_PERCPU cpu (net_mp (pb_net s));
     let s = s\<lparr>pbuf_mempool := m\<rparr>;
     if r \<noteq> 0 then Some (1, s) else do {
       (r, m) \<leftarrow> mempool_create (pbuf_with_payload_mempool s) (pbuf_with_payload_ds D) MEMPOOL_SANITY_PERCPU cpu (net_mp (pb_net s));
       let s = s\<lparr>pbuf_with_payload_mempool := m\<rparr>;
       if r \<noteq> 0 then Some (1, s) else do {
         (r, m) \<leftarrow> mempool_create (tcp_pcb_mempool s) (tcp_pcb_ds D) MEMPOOL_SANITY_PERCPU cpu (net_mp (pb_net s));
         let s = s\<lparr>tcp_pcb_mempool := m\<rparr>;
         if r \<noteq> 0 then Some (1, s) else do {
           (r, m) \<leftarrow> mempool_create (tcp_seg_mempool s) (tcp_seg_ds D) MEMPOOL_SANITY_PERCPU cpu (net_mp (pb_net s));
           let s = s\<lparr>tcp_seg_mempool := m\<rparr>;
           if r \<noteq> 0 then Some (1, s) else Some (0, s)
         }
       }
     }
   }"

section \<open>The way into TCP\<close>

text \<open>
  \<open>data_addr\<close> is the address of a packet's first byte, where the ethernet header is; the TCP header
  is \<open>off\<close> bytes behind it.  The buffer that \<open>pbuf_alloc\<close> returns is written without a test for
  \<open>NULL\<close>, which ends the process.  The TCP input routine is the argument \<open>tcp_input\<close>.
\<close>

definition tcp_input_tmp ::
  "'w net_env \<Rightarrow> (ptr \<Rightarrow> nat) \<Rightarrow> (ptr \<Rightarrow> u32 \<Rightarrow> u32 \<Rightarrow> 'w pbuf_state \<Rightarrow> 'w pbuf_state option) \<Rightarrow>
   ptr \<Rightarrow> nat \<Rightarrow> 'w pbuf_state \<Rightarrow> 'w pbuf_state option" where
  "tcp_input_tmp E data_addr tcp_input pkt off s =
     (let d = mb_data (mbufs (pb_net s) pkt)
      in case pbuf_alloc E PBUF_RAW (ntoh16 (load16 16 d) - ucast (ip_header_len d) * 4) PBUF_ROM s of
           (None, s) \<Rightarrow> None
         | (Some p, s) \<Rightarrow>
             tcp_input p (load32 26 d) (load32 30 d) (upd_pbuf p (\<lambda>b. b\<lparr>payload := data_addr pkt + off, pb_mbuf := Some pkt\<rparr>) s))"

end
