(* ===== verification/PbufProps.thy ===== *)
theory PbufProps
  imports Pbuf NetProps
begin

text \<open>
  Correctness of \<open>lwip/pbuf.c\<close>: a packet is a chain of distinct buffers whose \<open>tot_len\<close> fields agree
  with their lengths, and its meaning is the list of its bytes.  The operations keep the first and
  do to the second what their comments say.
\<close>

unbundle bit_operations_syntax

section \<open>Well-formed chains\<close>

fun pchain :: "(ptr \<Rightarrow> pbuf) \<Rightarrow> ptr option \<Rightarrow> ptr list \<Rightarrow> bool" where
  "pchain h p [] \<longleftrightarrow> p = None"
| "pchain h p (q # qs) \<longleftrightarrow> p = Some q \<and> pchain h (pb_next (h q)) qs"

definition plen :: "(ptr \<Rightarrow> pbuf) \<Rightarrow> ptr list \<Rightarrow> nat" where
  "plen h ps = sum_list (map (\<lambda>q. unat (pb_len (h q))) ps)"

fun tot_ok :: "(ptr \<Rightarrow> pbuf) \<Rightarrow> ptr list \<Rightarrow> bool" where
  "tot_ok h [] \<longleftrightarrow> True"
| "tot_ok h (q # qs) \<longleftrightarrow> unat (tot_len (h q)) = plen h (q # qs) \<and> tot_ok h qs"

text \<open>The bytes of a packet: the payloads of its buffers in order.\<close>

definition pbytes :: "(nat \<Rightarrow> u8) \<Rightarrow> pbuf \<Rightarrow> u8 list" where
  "pbytes m b = map m [payload b..<payload b + unat (pb_len b)]"

definition pdata :: "'w pbuf_state \<Rightarrow> ptr list \<Rightarrow> u8 list" where
  "pdata s ps = concat (map (\<lambda>q. pbytes (pmem s) (pbufs s q)) ps)"

text \<open>
  A packet: the buffers are distinct, and in each of them \<open>tot_len\<close> is the number of bytes from
  this buffer on, the invariant stated with the declaration of \<open>struct pbuf\<close>.
\<close>

definition pbuf_wf :: "'w pbuf_state \<Rightarrow> ptr \<Rightarrow> ptr list \<Rightarrow> bool" where
  "pbuf_wf s p ps \<longleftrightarrow> pchain (pbufs s) (Some p) ps \<and> distinct ps \<and> tot_ok (pbufs s) ps"

lemma plen_simps [simp]: "plen h [] = 0" "plen h (q # qs) = unat (pb_len (h q)) + plen h qs" "plen h (ps @ qs) = plen h ps + plen h qs"
  by (simp_all add: plen_def)

lemma plen_cong: "\<forall>q \<in> set ps. pb_len (h' q) = pb_len (h q) \<Longrightarrow> plen h' ps = plen h ps"
  by (induction ps) simp_all

lemma pchain_cong: "\<forall>q \<in> set ps. pb_next (h' q) = pb_next (h q) \<Longrightarrow> pchain h' p ps = pchain h p ps"
  by (induction ps arbitrary: p) simp_all

lemma tot_ok_cong: "\<forall>q \<in> set ps. pb_len (h' q) = pb_len (h q) \<and> tot_len (h' q) = tot_len (h q) \<Longrightarrow> tot_ok h' ps = tot_ok h ps"
proof (induction ps)
  case (Cons q qs)
  then show ?case using plen_cong [of "q # qs" h' h] by simp
qed simp

lemma pdata_cong: "pmem s' = pmem s \<Longrightarrow> \<forall>q \<in> set ps. payload (pbufs s' q) = payload (pbufs s q) \<and> pb_len (pbufs s' q) = pb_len (pbufs s q) \<Longrightarrow>
    pdata s' ps = pdata s ps"
  by (induction ps) (simp_all add: pdata_def pbytes_def)

lemma length_pbytes [simp]: "length (pbytes m b) = unat (pb_len b)" by (simp add: pbytes_def)

lemma length_pdata: "length (pdata s ps) = plen (pbufs s) ps"
  by (induction ps) (simp_all add: pdata_def)

lemma pdata_simps [simp]: "pdata s [] = []" "pdata s (q # qs) = pbytes (pmem s) (pbufs s q) @ pdata s qs" "pdata s (ps @ qs) = pdata s ps @ pdata s qs"
  by (simp_all add: pdata_def)

lemma upd_pbuf_sel [simp]: "pbufs (upd_pbuf p f s) = (pbufs s)(p := f (pbufs s p))" "pmem (upd_pbuf p f s) = pmem s" "pb_net (upd_pbuf p f s) = pb_net s"
  by (simp_all add: upd_pbuf_def)

lemma upd_pbuf_pools [simp]: "pbuf_mempool (upd_pbuf p f s) = pbuf_mempool s" "pbuf_with_payload_mempool (upd_pbuf p f s) = pbuf_with_payload_mempool s"
  by (simp_all add: upd_pbuf_def)

lemma pchain_append: "pchain h p (ps @ qs) \<longleftrightarrow> (\<exists>r. pchain (h(last ps := (h (last ps))\<lparr>pb_next := None\<rparr>)) p ps \<and> pb_next (h (last ps)) = r \<and> pchain h r qs)"
  if "ps \<noteq> []" "distinct ps"
  using that
proof (induction ps arbitrary: p)
  case (Cons q qs')
  show ?case
  proof (cases "qs' = []")
    case False
    then have "last qs' \<noteq> q" using Cons.prems(2) last_in_set by force
    then show ?thesis using Cons False by simp
  qed simp
qed simp

subsection \<open>Length of a chain\<close>

lemma clen_loop_chain: "pchain (pbufs s) p ps \<Longrightarrow> clen_loop s p n = Some (n + of_nat (length ps))"
proof (induction ps arbitrary: p n)
  case (Cons q qs)
  have "clen_loop s (Some q) n = clen_loop s (pb_next (pbufs s q)) (n + 1)" by (subst clen_loop.simps) simp
  then show ?case using Cons.IH [of "pb_next (pbufs s q)" "n + 1"] Cons.prems by (simp add: algebra_simps)
qed (simp add: clen_loop.simps)

text \<open>The number of buffers, modulo 256: the counter is a \<open>u8_t\<close>.\<close>

lemma pbuf_clen_spec: "pchain (pbufs s) p ps \<Longrightarrow> pbuf_clen p s = Some (of_nat (length ps))"
  by (simp add: pbuf_clen_def clen_loop_chain)

subsection \<open>Concatenation\<close>

lemma cat_loop_eq:
  "pchain (pbufs s) (Some h) hs \<Longrightarrow> distinct hs \<Longrightarrow> t \<notin> set hs \<Longrightarrow>
    cat_loop h t s = Some (last hs, s\<lparr>pbufs := \<lambda>q. if q \<in> set (butlast hs)
      then (pbufs s q)\<lparr>tot_len := tot_len (pbufs s q) + tot_len (pbufs s t)\<rparr> else pbufs s q\<rparr>)"
proof (induction hs arbitrary: h s)
  case (Cons q qs)
  have h: "h = q" using Cons.prems(1) by simp
  show ?case
  proof (cases qs)
    case Nil
    have "s\<lparr>pbufs := pbufs s\<rparr> = s" by simp
    then show ?thesis using Nil Cons.prems(1) h by (subst cat_loop.simps) simp
  next
    case (Cons r rs)
    then have n: "pb_next (pbufs s q) = Some r" using Cons.prems(1) by simp
    define s1 where "s1 = upd_pbuf q (\<lambda>b. b\<lparr>tot_len := tot_len b + tot_len (pbufs s t)\<rparr>) s"
    have st: "cat_loop h t s = cat_loop r t s1" using n h by (subst cat_loop.simps) (simp add: s1_def)
    have s1: "pbufs s1 = (pbufs s)(q := (pbufs s q)\<lparr>tot_len := tot_len (pbufs s q) + tot_len (pbufs s t)\<rparr>)" by (simp add: s1_def)
    have q: "q \<notin> set qs" "q \<noteq> t" "q \<notin> set (butlast qs)" using Cons.prems(2,3) in_set_butlastD [of q qs] by auto
    have c: "pchain (pbufs s1) (Some r) qs"
      using Cons.prems(1) Cons pchain_cong [of qs "pbufs s1" "pbufs s" "Some r"] q(1) by (simp add: s1)
    have "cat_loop r t s1 = Some (last qs, s1\<lparr>pbufs := \<lambda>x. if x \<in> set (butlast qs)
      then (pbufs s1 x)\<lparr>tot_len := tot_len (pbufs s1 x) + tot_len (pbufs s1 t)\<rparr> else pbufs s1 x\<rparr>)"
      using Cons.IH [OF c] Cons.prems(2,3) by simp
    moreover have "s1\<lparr>pbufs := \<lambda>x. if x \<in> set (butlast qs) then (pbufs s1 x)\<lparr>tot_len := tot_len (pbufs s1 x) + tot_len (pbufs s1 t)\<rparr> else pbufs s1 x\<rparr>
      = s\<lparr>pbufs := \<lambda>x. if x \<in> set (butlast (q # qs)) then (pbufs s x)\<lparr>tot_len := tot_len (pbufs s x) + tot_len (pbufs s t)\<rparr> else pbufs s x\<rparr>"
    proof -
      have "(\<lambda>x. if x \<in> set (butlast qs) then (pbufs s1 x)\<lparr>tot_len := tot_len (pbufs s1 x) + tot_len (pbufs s1 t)\<rparr> else pbufs s1 x)
        = (\<lambda>x. if x \<in> set (butlast (q # qs)) then (pbufs s x)\<lparr>tot_len := tot_len (pbufs s x) + tot_len (pbufs s t)\<rparr> else pbufs s x)"
        using q Cons by (auto simp: s1)
      then show ?thesis by (simp add: s1_def upd_pbuf_def)
    qed
    ultimately show ?thesis using st Cons by simp
  qed
qed simp

lemma pchain_cat:
  "pchain h p hs \<Longrightarrow> distinct hs \<Longrightarrow> hs \<noteq> [] \<Longrightarrow> \<forall>q \<in> set hs. pb_next (h' q) = (if q = last hs then t else pb_next (h q)) \<Longrightarrow>
    pchain h' t ts \<Longrightarrow> pchain h' p (hs @ ts)"
proof (induction hs arbitrary: p)
  case (Cons q qs)
  show ?case
  proof (cases "qs = []")
    case False
    then have l: "last (q # qs) = last qs" "last qs \<noteq> q" using Cons.prems(2) last_in_set [of qs] by auto
    then show ?thesis using Cons False by auto
  qed (use Cons.prems in simp)
qed simp

lemma tot_ok_cat:
  "tot_ok h hs \<Longrightarrow> \<forall>q \<in> set hs. pb_len (h' q) = pb_len (h q) \<and> unat (tot_len (h' q)) = unat (tot_len (h q)) + plen h' ts \<Longrightarrow>
    tot_ok h' ts \<Longrightarrow> tot_ok h' (hs @ ts)"
proof (induction hs)
  case (Cons q qs)
  have "plen h' qs = plen h qs" using Cons.prems(2) by (intro plen_cong) simp
  then show ?case using Cons by simp
qed simp

lemma tot_ok_le: "tot_ok h hs \<Longrightarrow> q \<in> set hs \<Longrightarrow> unat (tot_len (h q)) \<le> plen h hs"
  by (induction hs) (auto intro: le_trans)

lemma pbuf_cat_spec:
  assumes "pbuf_wf s h hs" "pbuf_wf s t ts" "set hs \<inter> set ts = {}" "plen (pbufs s) hs + plen (pbufs s) ts < 65536"
  obtains s' where "pbuf_cat (Some h) (Some t) s = Some s'" "pbuf_wf s' h (hs @ ts)" "pdata s' (hs @ ts) = pdata s hs @ pdata s ts"
    "\<forall>q. pb_ref (pbufs s' q) = pb_ref (pbufs s q) \<and> (q \<notin> set hs \<longrightarrow> pbufs s' q = pbufs s q)" "s' = s\<lparr>pbufs := pbufs s'\<rparr>"
proof -
  note wh = assms(1) [unfolded pbuf_wf_def] and wt = assms(2) [unfolded pbuf_wf_def]
  have ne: "hs \<noteq> []" "ts \<noteq> []" using wh wt by auto
  have t: "t \<in> set ts" "unat (tot_len (pbufs s t)) = plen (pbufs s) ts" using wt ne by (cases ts; simp)+
  have th: "t \<notin> set hs" using assms(3) t by auto
  let ?l = "last hs"
  let ?f = "\<lambda>q. if q \<in> set hs then (pbufs s q)\<lparr>tot_len := tot_len (pbufs s q) + tot_len (pbufs s t),
      pb_next := if q = ?l then Some t else pb_next (pbufs s q)\<rparr> else pbufs s q"
  have set: "set hs = insert ?l (set (butlast hs))" "?l \<notin> set (butlast hs)"
    using ne(1) wh by (cases hs rule: rev_cases; simp)+
  have r: "pbuf_cat (Some h) (Some t) s = Some (s\<lparr>pbufs := ?f\<rparr>)"
    using cat_loop_eq [of s h hs t] wh th set in_set_butlastD [of t hs] unfolding pbuf_cat_def
    by (auto simp: upd_pbuf_def fun_eq_iff)
  let ?s' = "s\<lparr>pbufs := ?f\<rparr>"
  have sum: "unat (tot_len (pbufs s q) + tot_len (pbufs s t)) = unat (tot_len (pbufs s q)) + plen (pbufs s) ts" if "q \<in> set hs" for q
  proof -
    have "unat (tot_len (pbufs s q)) \<le> plen (pbufs s) hs" using wh that tot_ok_le by blast
    then show ?thesis using assms(4) t(2) by (subst unat_add_small) simp_all
  qed
  have ts: "\<forall>q \<in> set ts. ?f q = pbufs s q" using assms(3) by auto
  have pt: "plen ?f ts = plen (pbufs s) ts" using ts by (intro plen_cong) simp
  have "pchain ?f (Some t) ts" using wt ts pchain_cong [of ts ?f "pbufs s" "Some t"] by simp
  then have c: "pchain ?f (Some h) (hs @ ts)" using wh ne(1) by (intro pchain_cat [where h = "pbufs s" and t = "Some t"]) simp_all
  have "tot_ok ?f ts" using wt ts tot_ok_cong [of ts ?f "pbufs s"] by simp
  then have k: "tot_ok ?f (hs @ ts)" using wh sum pt by (intro tot_ok_cat [where h = "pbufs s"]) simp_all
  have w: "pbuf_wf ?s' h (hs @ ts)" using c k wh wt assms(3) by (simp add: pbuf_wf_def)
  have d: "pdata ?s' (hs @ ts) = pdata s hs @ pdata s ts"
    using pdata_cong [of ?s' s hs] pdata_cong [of ?s' s ts] ts by simp
  show ?thesis by (rule that [OF r w d]) simp_all
qed

subsection \<open>Releasing\<close>

text \<open>What \<open>pbuf_free\<close> does to the buffers of a chain, and which of them it gives back.\<close>

fun free_map :: "(ptr \<Rightarrow> pbuf) \<Rightarrow> ptr list \<Rightarrow> (ptr \<Rightarrow> pbuf)" where
  "free_map h [] = h"
| "free_map h (q # qs) =
     (if pb_ref (h q) = 1 then free_map (h(q := (h q)\<lparr>pb_ref := 0, pb_mbuf := None\<rparr>)) qs
      else h(q := (h q)\<lparr>pb_ref := pb_ref (h q) - 1\<rparr>))"

definition dead :: "(ptr \<Rightarrow> pbuf) \<Rightarrow> ptr list \<Rightarrow> ptr list" where
  "dead h ps = takeWhile (\<lambda>q. pb_ref (h q) = 1) ps"

text \<open>The packets that the buffers carry.\<close>

definition mbufs_of :: "(ptr \<Rightarrow> pbuf) \<Rightarrow> ptr list \<Rightarrow> ptr list" where
  "mbufs_of h ps = concat (map (\<lambda>q. case pb_mbuf (h q) of None \<Rightarrow> [] | Some m \<Rightarrow> [m]) ps)"

lemma mbufs_of_cong: "\<forall>q \<in> set ps. h' q = h q \<Longrightarrow> mbufs_of h' ps = mbufs_of h ps"
  by (simp add: mbufs_of_def cong: map_cong)

lemma mbufs_of_Cons: "mbufs_of h [p] @ mbufs_of h ps = mbufs_of h (p # ps)" by (simp add: mbufs_of_def)

lemma pool_free_sel [simp]: "pbufs (pool_free E m p s) = pbufs s" "pmem (pool_free E m p s) = pmem s"
  by (simp_all add: pool_free_def)

lemma memp_free_sel [simp]: "pbufs (memp_free E t p s) = pbufs s" "pmem (memp_free E t p s) = pmem s"
  by (cases t; simp add: memp_free_def)+

lemma mem_free_sel [simp]: "pbufs (mem_free E p s) = pbufs s" "pmem (mem_free E p s) = pmem s"
  by (simp_all add: mem_free_def)

lemma pbuf_dealloc_sel: "pbufs (pbuf_dealloc E p s) = (pbufs s)(p := (pbufs s p)\<lparr>pb_mbuf := None\<rparr>)" "pmem (pbuf_dealloc E p s) = pmem s"
  by (cases "pb_mbuf (pbufs s p)"; cases "pb_type (pbufs s p)"; simp add: pbuf_dealloc_def Let_def fun_eq_iff)+

lemma pool_free_world:
  assumes "eth_ok E sent freed"
  shows "sent (net_world (pb_net (pool_free E m p s))) = sent (net_world (pb_net s))"
    "freed (net_world (pb_net (pool_free E m p s))) = freed (net_world (pb_net s))"
  using assms unfolding eth_ok_def by (simp_all add: pool_free_def net_world_def mempool_free_def)

lemma memp_free_world:
  assumes "eth_ok E sent freed"
  shows "sent (net_world (pb_net (memp_free E t p s))) = sent (net_world (pb_net s))"
    "freed (net_world (pb_net (memp_free E t p s))) = freed (net_world (pb_net s))"
  by (cases t; simp add: memp_free_def pool_free_world [OF assms])+

lemma pbuf_dealloc_world:
  assumes "eth_ok E sent freed"
  shows "sent (net_world (pb_net (pbuf_dealloc E p s))) = sent (net_world (pb_net s))"
    "freed (net_world (pb_net (pbuf_dealloc E p s))) = freed (net_world (pb_net s)) @ mbufs_of (pbufs s) [p]"
  by (cases "pb_mbuf (pbufs s p)"; cases "pb_type (pbufs s p)"; simp add: pbuf_dealloc_def Let_def mem_free_def
      memp_free_world [OF assms] pool_free_world [OF assms] mbuf_free_ok [OF assms] mbufs_of_def)+

lemma dead_cong: "\<forall>q \<in> set ps. h' q = h q \<Longrightarrow> dead h' ps = dead h ps"
  unfolding dead_def by (rule takeWhile_cong) simp_all

lemma free_loop_spec:
  assumes "eth_ok E sent freed"
  shows "pchain (pbufs s) p ps \<Longrightarrow> distinct ps \<Longrightarrow>
    \<exists>s'. free_loop E p c s = Some (c + of_nat (length (dead (pbufs s) ps)), s') \<and> pbufs s' = free_map (pbufs s) ps \<and> pmem s' = pmem s \<and>
      sent (net_world (pb_net s')) = sent (net_world (pb_net s)) \<and>
      freed (net_world (pb_net s')) = freed (net_world (pb_net s)) @ mbufs_of (pbufs s) (dead (pbufs s) ps)"
proof (induction ps arbitrary: p c s)
  case Nil
  then show ?case by (intro exI [of _ s]) (simp add: free_loop.simps dead_def mbufs_of_def)
next
  case (Cons q qs)
  have p: "p = Some q" using Cons.prems(1) by simp
  define s1 where "s1 = upd_pbuf q (\<lambda>b. b\<lparr>pb_ref := pb_ref b - 1\<rparr>) s"
  have s1: "pbufs s1 = (pbufs s)(q := (pbufs s q)\<lparr>pb_ref := pb_ref (pbufs s q) - 1\<rparr>)" "pmem s1 = pmem s" "pb_net s1 = pb_net s" by (simp_all add: s1_def)
  have st: "free_loop E p c s = (if pb_ref (pbufs s q) - 1 = 0 then free_loop E (pb_next (pbufs s q)) (c + 1) (pbuf_dealloc E q s1) else Some (c, s1))"
    unfolding p by (subst free_loop.simps) (simp add: s1_def [symmetric], simp add: s1_def)
  show ?case
  proof (cases "pb_ref (pbufs s q) = 1")
    case False
    then show ?thesis using st by (intro exI [of _ s1]) (simp add: s1 dead_def mbufs_of_def)
  next
    case True
    define s2 where "s2 = pbuf_dealloc E q s1"
    have s2: "pbufs s2 = (pbufs s)(q := (pbufs s q)\<lparr>pb_ref := 0, pb_mbuf := None\<rparr>)" "pmem s2 = pmem s"
      using True by (simp_all add: s2_def pbuf_dealloc_sel s1)
    have w2: "sent (net_world (pb_net s2)) = sent (net_world (pb_net s))"
      "freed (net_world (pb_net s2)) = freed (net_world (pb_net s)) @ mbufs_of (pbufs s) [q]"
      by (simp_all add: s2_def pbuf_dealloc_world [OF assms] s1 mbufs_of_def)
    have q: "\<forall>x \<in> set qs. pbufs s2 x = pbufs s x" using Cons.prems(2) by (auto simp: s2)
    have c: "pchain (pbufs s2) (pb_next (pbufs s q)) qs" using Cons.prems(1) q pchain_cong [of qs "pbufs s2" "pbufs s"] by simp
    have d: "distinct qs" using Cons.prems(2) by simp
    obtain s' where s': "free_loop E (pb_next (pbufs s q)) (c + 1) s2 = Some (c + 1 + of_nat (length (dead (pbufs s2) qs)), s')"
      "pbufs s' = free_map (pbufs s2) qs" "pmem s' = pmem s2" "sent (net_world (pb_net s')) = sent (net_world (pb_net s2))"
      "freed (net_world (pb_net s')) = freed (net_world (pb_net s2)) @ mbufs_of (pbufs s2) (dead (pbufs s2) qs)"
      using Cons.IH [OF c d, of "c + 1"] by (elim exE conjE) (rule that)
    have dd: "dead (pbufs s2) qs = dead (pbufs s) qs" by (rule dead_cong [OF q])
    have dq: "dead (pbufs s) (q # qs) = q # dead (pbufs s) qs" using True by (simp add: dead_def)
    have mf: "mbufs_of (pbufs s2) (dead (pbufs s) qs) = mbufs_of (pbufs s) (dead (pbufs s) qs)"
      using q by (intro mbufs_of_cong) (auto simp: dead_def dest: set_takeWhileD)
    have l: "c + 1 + of_nat (length (dead (pbufs s) qs)) = c + of_nat (length (dead (pbufs s) (q # qs)))" by (simp add: dq)
    have f: "free_map (pbufs s) (q # qs) = free_map (pbufs s2) qs" using True by (simp add: s2)
    have st2: "free_loop E p c s = free_loop E (pb_next (pbufs s q)) (c + 1) s2" using st True by (simp add: s2_def)
    show ?thesis
    proof (intro exI conjI)
      show "free_loop E p c s = Some (c + of_nat (length (dead (pbufs s) (q # qs))), s')" unfolding st2 s'(1) dd l ..
      show "pbufs s' = free_map (pbufs s) (q # qs)" unfolding f s'(2) ..
      show "pmem s' = pmem s" using s'(3) s2(2) by simp
      show "sent (net_world (pb_net s')) = sent (net_world (pb_net s))" using s'(4) w2(1) by simp
      show "freed (net_world (pb_net s')) = freed (net_world (pb_net s)) @ mbufs_of (pbufs s) (dead (pbufs s) (q # qs))"
        unfolding s'(5) w2(2) dd mf dq append_assoc mbufs_of_Cons ..
    qed
  qed
qed

lemma free_map_sel:
  "pb_next (free_map h ps q) = pb_next (h q)" "payload (free_map h ps q) = payload (h q)"
  "pb_len (free_map h ps q) = pb_len (h q)" "tot_len (free_map h ps q) = tot_len (h q)"
  by (induction ps arbitrary: h) auto

lemma free_map_other: "q \<notin> set ps \<Longrightarrow> free_map h ps q = h q"
  by (induction ps arbitrary: h) auto

lemma free_map_cong: "\<forall>x \<in> insert q (set ps). h' x = h x \<Longrightarrow> free_map h' ps q = free_map h ps q"
proof (induction ps arbitrary: h h')
  case (Cons p ps)
  show ?case
  proof (cases "pb_ref (h p) = 1")
    case True
    let ?f = "\<lambda>h. h(p := (h p)\<lparr>pb_ref := 0, pb_mbuf := None\<rparr>)"
    have "free_map (?f h') ps q = free_map (?f h) ps q" by (rule Cons.IH) (use Cons.prems in auto)
    then show ?thesis using True Cons.prems by simp
  next
    case False
    then show ?thesis using Cons.prems by simp
  qed
qed simp

lemma free_map_dead: "distinct ps \<Longrightarrow> q \<in> set (dead h ps) \<Longrightarrow> pb_ref (free_map h ps q) = 0"
proof (induction ps arbitrary: h)
  case (Cons p ps)
  have "dead (h(p := x)) ps = dead h ps" for x using Cons.prems(1) by (intro dead_cong) auto
  then show ?case using Cons free_map_other [of p ps] by (auto simp: dead_def split: if_splits)
qed (simp add: dead_def)

lemma free_map_survivor:
  "distinct ps \<Longrightarrow> q \<notin> set (dead h ps) \<Longrightarrow>
    free_map h ps q = (if dropWhile (\<lambda>q. pb_ref (h q) = 1) ps \<noteq> [] \<and> q = hd (dropWhile (\<lambda>q. pb_ref (h q) = 1) ps)
      then (h q)\<lparr>pb_ref := pb_ref (h q) - 1\<rparr> else h q)"
proof (induction ps arbitrary: h)
  case (Cons p ps)
  show ?case
  proof (cases "pb_ref (h p) = 1")
    case True
    define h1 where "h1 = h(p := (h p)\<lparr>pb_ref := 0, pb_mbuf := None\<rparr>)"
    have q: "h1 q = h q" using Cons.prems(2) True by (auto simp: dead_def h1_def)
    have d: "dead h1 ps = dead h ps" using Cons.prems(1) by (intro dead_cong) (auto simp: h1_def)
    have w: "dropWhile (\<lambda>q. pb_ref (h1 q) = 1) ps = dropWhile (\<lambda>q. pb_ref (h q) = 1) ps"
      using Cons.prems(1) by (intro dropWhile_cong) (auto simp: h1_def)
    have nd: "q \<notin> set (dead h1 ps)" unfolding d using Cons.prems(2) True by (simp add: dead_def)
    have dp: "distinct ps" using Cons.prems(1) by simp
    have "free_map h (p # ps) q = free_map h1 ps q" using True by (simp add: h1_def)
    moreover have "dropWhile (\<lambda>q. pb_ref (h q) = 1) (p # ps) = dropWhile (\<lambda>q. pb_ref (h q) = 1) ps" using True by simp
    ultimately show ?thesis using Cons.IH [OF dp nd, unfolded w q] by (simp only:)
  next
    case False
    then show ?thesis using Cons.prems by simp
  qed
qed simp

lemma pbuf_free_spec:
  assumes "eth_ok E sent freed" "pchain (pbufs s) (Some p) ps" "distinct ps"
  obtains s' where "pbuf_free E (Some p) s = Some (of_nat (length (dead (pbufs s) ps)), s')" "pbufs s' = free_map (pbufs s) ps"
    "pmem s' = pmem s" "sent (net_world (pb_net s')) = sent (net_world (pb_net s))"
    "freed (net_world (pb_net s')) = freed (net_world (pb_net s)) @ mbufs_of (pbufs s) (dead (pbufs s) ps)"
proof -
  have "pbuf_free E (Some p) s = free_loop E (Some p) 0 s" by (simp add: pbuf_free_def)
  then show ?thesis using free_loop_spec [OF assms, of 0] by (elim exE conjE) (rule that, simp_all)
qed

subsection \<open>Shrinking\<close>

lemma realloc_loop_eq:
  "pchain (pbufs s) p ps \<Longrightarrow> distinct ps \<Longrightarrow> ps \<noteq> [] \<Longrightarrow> unat r \<le> plen (pbufs s) ps \<Longrightarrow>
    \<exists>us q vs. ps = us @ q # vs \<and> plen (pbufs s) us \<le> unat r \<and> unat r \<le> plen (pbufs s) us + unat (pb_len (pbufs s q)) \<and>
      realloc_loop grow r p s = Some (r - of_nat (plen (pbufs s) us), q,
        s\<lparr>pbufs := \<lambda>x. if x \<in> set us then (pbufs s x)\<lparr>tot_len := tot_len (pbufs s x) + grow\<rparr> else pbufs s x\<rparr>)"
proof (induction ps arbitrary: p r s)
  case (Cons q qs)
  have p: "p = Some q" "pchain (pbufs s) (pb_next (pbufs s q)) qs" using Cons.prems(1) by simp_all
  show ?case
  proof (cases "r > pb_len (pbufs s q)")
    case False
    then have "realloc_loop grow r p s = Some (r, q, s)" unfolding p by (subst realloc_loop.simps) simp
    moreover have "s\<lparr>pbufs := pbufs s\<rparr> = s" by simp
    moreover have "unat r \<le> unat (pb_len (pbufs s q))" using False by (simp add: word_less_nat_alt)
    ultimately show ?thesis by (intro exI [of _ "[]"] exI [of _ q] exI [of _ qs]) simp
  next
    case True
    define s1 where "s1 = upd_pbuf q (\<lambda>b. b\<lparr>tot_len := tot_len b + grow\<rparr>) s"
    define r1 where "r1 = r - pb_len (pbufs s q)"
    have s1: "pbufs s1 = (pbufs s)(q := (pbufs s q)\<lparr>tot_len := tot_len (pbufs s q) + grow\<rparr>)" by (simp add: s1_def)
    have st: "realloc_loop grow r p s = realloc_loop grow r1 (pb_next (pbufs s q)) s1"
      unfolding p using True by (subst realloc_loop.simps) (simp add: s1_def r1_def)
    have lt: "unat (pb_len (pbufs s q)) < unat r" using True by (simp add: word_less_nat_alt)
    have r1: "unat r1 = unat r - unat (pb_len (pbufs s q))" unfolding r1_def using lt by (intro unat_sub) (simp add: word_le_nat_alt)
    have q: "\<forall>x \<in> set qs. pbufs s1 x = pbufs s x" using Cons.prems(2) by (auto simp: s1)
    have c: "pchain (pbufs s1) (pb_next (pbufs s q)) qs" using p(2) q pchain_cong [of qs "pbufs s1" "pbufs s"] by simp
    have pl: "plen (pbufs s1) us = plen (pbufs s) us" for us by (rule plen_cong) (simp add: s1)
    have le: "unat r1 \<le> plen (pbufs s1) qs" unfolding pl r1 using Cons.prems(4) by simp
    have ne: "qs \<noteq> []" using le r1 lt by auto
    have dq: "distinct qs" using Cons.prems(2) by simp
    obtain us x vs where u: "qs = us @ x # vs" "plen (pbufs s1) us \<le> unat r1" "unat r1 \<le> plen (pbufs s1) us + unat (pb_len (pbufs s1 x))"
      "realloc_loop grow r1 (pb_next (pbufs s q)) s1 = Some (r1 - of_nat (plen (pbufs s1) us), x,
        s1\<lparr>pbufs := \<lambda>x. if x \<in> set us then (pbufs s1 x)\<lparr>tot_len := tot_len (pbufs s1 x) + grow\<rparr> else pbufs s1 x\<rparr>)"
      using Cons.IH [OF c dq ne le] by (elim exE conjE) (rule that)
    have e: "s1\<lparr>pbufs := \<lambda>x. if x \<in> set us then (pbufs s1 x)\<lparr>tot_len := tot_len (pbufs s1 x) + grow\<rparr> else pbufs s1 x\<rparr> =
      s\<lparr>pbufs := \<lambda>x. if x \<in> set (q # us) then (pbufs s x)\<lparr>tot_len := tot_len (pbufs s x) + grow\<rparr> else pbufs s x\<rparr>"
    proof -
      have "q \<notin> set us" using Cons.prems(2) u(1) by simp
      then have "(\<lambda>x. if x \<in> set us then (pbufs s1 x)\<lparr>tot_len := tot_len (pbufs s1 x) + grow\<rparr> else pbufs s1 x) =
        (\<lambda>x. if x \<in> set (q # us) then (pbufs s x)\<lparr>tot_len := tot_len (pbufs s x) + grow\<rparr> else pbufs s x)"
        by (auto simp: s1)
      then show ?thesis by (simp add: s1_def upd_pbuf_def)
    qed
    have rr: "r1 - of_nat (plen (pbufs s) us) = r - of_nat (plen (pbufs s) (q # us))" by (simp add: r1_def algebra_simps)
    have xl: "pb_len (pbufs s1 x) = pb_len (pbufs s x)" by (simp add: s1)
    show ?thesis
    proof (intro exI conjI)
      show "q # qs = (q # us) @ x # vs" using u(1) by simp
      show "plen (pbufs s) (q # us) \<le> unat r" "unat r \<le> plen (pbufs s) (q # us) + unat (pb_len (pbufs s x))"
        using u(2,3) r1 lt unfolding pl xl by simp_all
      show "realloc_loop grow r p s = Some (r - of_nat (plen (pbufs s) (q # us)), x,
        s\<lparr>pbufs := \<lambda>x. if x \<in> set (q # us) then (pbufs s x)\<lparr>tot_len := tot_len (pbufs s x) + grow\<rparr> else pbufs s x\<rparr>)"
        unfolding st u(4) e pl rr ..
    qed
  qed
qed simp

lemma tot_ok_trim:
  "tot_ok h (us @ q # vs) \<Longrightarrow> \<forall>x \<in> set us. pb_len (h' x) = pb_len (h x) \<and> unat (tot_len (h' x)) + D = unat (tot_len (h x)) \<Longrightarrow>
    tot_len (h' q) = pb_len (h' q) \<Longrightarrow> unat (pb_len (h' q)) + D = unat (pb_len (h q)) + plen h vs \<Longrightarrow> tot_ok h' (us @ [q])"
proof (induction us)
  case (Cons u us)
  have "plen h' us = plen h us" using Cons.prems(2) by (intro plen_cong) simp
  then show ?case using Cons by simp
qed simp

lemma pchain_trim: "pchain h p (us @ q # vs) \<Longrightarrow> distinct (us @ q # vs) \<Longrightarrow> \<forall>x \<in> set us. pb_next (h' x) = pb_next (h x) \<Longrightarrow> pb_next (h' q) = None \<Longrightarrow>
    pchain h' p (us @ [q])"
  by (induction us arbitrary: p) simp_all

lemma pchain_suffix: "pchain h p (us @ q # vs) \<Longrightarrow> pchain h (pb_next (h q)) vs"
  by (induction us arbitrary: p) simp_all

lemma tot_ok_mem: "tot_ok h (us @ vs) \<Longrightarrow> x \<in> set us \<Longrightarrow> plen h vs \<le> unat (tot_len (h x))"
  by (induction us) auto

lemma pbytes_take: "n \<le> unat (pb_len b) \<Longrightarrow> payload b' = payload b \<Longrightarrow> unat (pb_len b') = n \<Longrightarrow> pbytes m b' = take n (pbytes m b)"
  by (simp add: pbytes_def take_map)

lemma word_shrink:
  fixes a n t :: u16
  assumes "unat n \<le> unat t" "unat t - unat n \<le> unat a"
  shows "unat (a + (n - t)) + (unat t - unat n) = unat a"
proof -
  have t: "unat (t - n) = unat t - unat n" using assms(1) by (intro unat_sub) (simp add: word_le_nat_alt)
  have e: "a + (n - t) = a - (t - n)" by simp
  have f: "unat (a - (t - n)) = unat a - unat (t - n)" using assms(2) t by (intro unat_sub) (simp add: word_le_nat_alt)
  show ?thesis unfolding e f t using assms(2) by simp
qed

lemma pbuf_realloc_spec:
  assumes "eth_ok E sent freed" "pbuf_wf s p ps" "new_len < tot_len (pbufs s p)"
  obtains us q vs s' where "ps = us @ q # vs" "pbuf_realloc E p new_len s = Some s'" "pbuf_wf s' p (us @ [q])"
    "pdata s' (us @ [q]) = take (unat new_len) (pdata s ps)" "\<forall>x. x \<notin> set (us @ [q]) \<longrightarrow> pbufs s' x = free_map (pbufs s) vs x"
    "pmem s' = pmem s"
proof -
  let ?h = "pbufs s"
  have w: "pchain ?h (Some p) ps" "distinct ps" "tot_ok ?h ps" using assms(2) by (simp_all add: pbuf_wf_def)
  have ne: "ps \<noteq> []" using w(1) by auto
  have tp: "unat (tot_len (?h p)) = plen ?h ps" using w(1,3) ne by (cases ps) simp_all
  have lt: "unat new_len < plen ?h ps" using assms(3) tp by (simp add: word_less_nat_alt)
  have le: "unat new_len \<le> plen ?h ps" using lt by simp
  let ?g = "new_len - tot_len (?h p)"
  obtain us q vs where u: "ps = us @ q # vs" "plen ?h us \<le> unat new_len" "unat new_len \<le> plen ?h us + unat (pb_len (?h q))"
    "realloc_loop ?g new_len (Some p) s = Some (new_len - of_nat (plen ?h us), q,
      s\<lparr>pbufs := \<lambda>x. if x \<in> set us then (?h x)\<lparr>tot_len := tot_len (?h x) + ?g\<rparr> else ?h x\<rparr>)"
    using realloc_loop_eq [OF w(1,2) ne le, of ?g] by (elim exE conjE) (rule that)
  define rem where "rem = new_len - of_nat (plen ?h us)"
  define s1 where "s1 = upd_pbuf q (\<lambda>b. b\<lparr>pb_len := rem, tot_len := rem\<rparr>)
    (s\<lparr>pbufs := \<lambda>x. if x \<in> set us then (?h x)\<lparr>tot_len := tot_len (?h x) + ?g\<rparr> else ?h x\<rparr>)"
  have d: "q \<notin> set us" "q \<notin> set vs" "set us \<inter> set vs = {}" "distinct vs" "distinct us" using w(2) u(1) by auto
  have s1: "pbufs s1 = (\<lambda>x. if x = q then (?h q)\<lparr>pb_len := rem, tot_len := rem\<rparr>
      else if x \<in> set us then (?h x)\<lparr>tot_len := tot_len (?h x) + ?g\<rparr> else ?h x)" "pmem s1 = pmem s"
    using d(1) by (auto simp: s1_def)
  have nx: "pb_next (pbufs s1 q) = pb_next (?h q)" by (simp add: s1)
  have v: "\<forall>x \<in> set vs. pbufs s1 x = ?h x" using d by (auto simp: s1)
  have cv: "pchain (pbufs s1) (pb_next (?h q)) vs" using pchain_suffix [of ?h "Some p" us q vs] w(1) u(1) v pchain_cong [of vs "pbufs s1" ?h] by simp
  obtain s2 where s2: "(if pb_next (pbufs s1 q) \<noteq> None then map_option snd (pbuf_free E (pb_next (pbufs s1 q)) s1) else Some s1) = Some s2"
    "pbufs s2 = free_map (pbufs s1) vs" "pmem s2 = pmem s"
  proof (cases "pb_next (?h q)")
    case None
    then have "vs = []" using cv by (cases vs) simp_all
    then show ?thesis using None nx s1(2) by (intro that [of s1]) simp_all
  next
    case (Some r)
    then have c: "pchain (pbufs s1) (Some r) vs" using cv by simp
    obtain s2 where "pbuf_free E (Some r) s1 = Some (of_nat (length (dead (pbufs s1) vs)), s2)" "pbufs s2 = free_map (pbufs s1) vs"
      "pmem s2 = pmem s1" by (rule pbuf_free_spec [OF assms(1) c d(4)])
    then show ?thesis using Some nx s1(2) by (intro that [of s2]) simp_all
  qed
  define s' where "s' = upd_pbuf q (\<lambda>b. b\<lparr>pb_next := None\<rparr>) s2"
  have res: "pbuf_realloc E p new_len s = Some s'"
    using assms(3) u(4) s2(1) nx by (cases "pb_next (?h q)") (auto simp: pbuf_realloc_def not_le [symmetric] rem_def [symmetric] s1_def [symmetric] s'_def Let_def)
  have s': "\<forall>x. x \<notin> set vs \<longrightarrow> pbufs s' x = (if x = q then (?h q)\<lparr>pb_len := rem, tot_len := rem, pb_next := None\<rparr> else pbufs s1 x)"
    using d(2) free_map_other [of _ vs "pbufs s1"] by (auto simp: s'_def s2 s1)
  have "plen ?h us < 2 ^ LENGTH(16)" by (rule le_less_trans [OF u(2)]) simp
  then have o: "unat (of_nat (plen ?h us) :: u16) = plen ?h us" by (rule unat_of_nat_small)
  then have rn: "unat rem = unat new_len - plen ?h us" unfolding rem_def using u(2)
    by (subst unat_sub) (simp_all add: word_le_nat_alt)
  let ?D = "plen ?h ps - unat new_len"
  have q': "pbufs s' q = (?h q)\<lparr>pb_len := rem, tot_len := rem, pb_next := None\<rparr>" using s' d(2) by simp
  have u': "pbufs s' x = (?h x)\<lparr>tot_len := tot_len (?h x) + ?g\<rparr>" if "x \<in> set us" for x
    using that s' d(1,3) by (auto simp: s1)
  have tot: "unat (tot_len (pbufs s' x)) + ?D = unat (tot_len (?h x))" if "x \<in> set us" for x
  proof -
    have "plen ?h (q # vs) \<le> unat (tot_len (?h x))" using tot_ok_mem [of ?h us "q # vs" x] w(3) u(1) that by simp
    then have "?D \<le> unat (tot_len (?h x))" using u(1,2) by simp
    then show ?thesis using word_shrink [of new_len "tot_len (?h p)" "tot_len (?h x)"] le tp u' [OF that] by simp
  qed
  have "tot_ok (pbufs s') (us @ [q])"
    by (rule tot_ok_trim [where h = ?h and vs = vs and D = ?D]) (use w(3) u tot u' q' rn in simp_all)
  moreover have "pchain (pbufs s') (Some p) (us @ [q])"
    by (rule pchain_trim [where h = ?h and vs = vs]) (use w u(1) u' q' in simp_all)
  ultimately have wf: "pbuf_wf s' p (us @ [q])" using d by (simp add: pbuf_wf_def)
  have m: "pmem s' = pmem s" by (simp add: s'_def s2)
  have "pbytes (pmem s) (pbufs s' q) = take (unat rem) (pbytes (pmem s) (?h q))"
    using u(2,3) rn by (intro pbytes_take) (simp_all add: q')
  moreover have "pdata s' us = pdata s us" using u' m by (intro pdata_cong) simp_all
  ultimately have dt: "pdata s' (us @ [q]) = take (unat new_len) (pdata s ps)"
    using u rn m by (simp add: length_pdata)
  have o: "\<forall>x. x \<notin> set (us @ [q]) \<longrightarrow> pbufs s' x = free_map ?h vs x"
  proof (intro allI impI)
    fix x assume x: "x \<notin> set (us @ [q])"
    have "free_map (pbufs s1) vs x = free_map ?h vs x"
      by (rule free_map_cong) (use v x in \<open>auto simp: s1\<close>)
    then show "pbufs s' x = free_map ?h vs x" using x by (simp add: s'_def s2)
  qed
  show ?thesis by (rule that [OF u(1) res wf dt o m])
qed

subsection \<open>Copying in and out\<close>

definition mbytes :: "(nat \<Rightarrow> u8) \<Rightarrow> nat \<Rightarrow> nat \<Rightarrow> u8 list" where "mbytes m a n = map m [a..<a + n]"

definition mwrite :: "nat \<Rightarrow> u8 list \<Rightarrow> (nat \<Rightarrow> u8) \<Rightarrow> (nat \<Rightarrow> u8)" where
  "mwrite a bs m = (\<lambda>x. if a \<le> x \<and> x < a + length bs then bs ! (x - a) else m x)"

lemma length_mbytes [simp]: "length (mbytes m a n) = n" by (simp add: mbytes_def)

lemma pbytes_mbytes: "pbytes m b = mbytes m (payload b) (unat (pb_len b))" by (simp add: pbytes_def mbytes_def)

lemma memcpy_mwrite: "memcpy dst src n m = mwrite dst (mbytes m src n) m"
  by (auto simp: memcpy_def mwrite_def mbytes_def fun_eq_iff)

lemma mwrite_mwrite: "mwrite (a + length xs) ys (mwrite a xs m) = mwrite a (xs @ ys) m"
  by (auto simp: mwrite_def fun_eq_iff nth_append)

lemma mwrite_Nil [simp]: "mwrite a [] m = m" by (auto simp: mwrite_def fun_eq_iff)

lemma mbytes_write_same: "mbytes (mwrite a bs m) a (length bs) = bs"
  by (rule nth_equalityI) (simp_all add: mbytes_def mwrite_def)

lemma mbytes_write_other: "a + n \<le> b \<or> b + length bs \<le> a \<Longrightarrow> mbytes (mwrite b bs m) a n = mbytes m a n"
  unfolding mbytes_def mwrite_def by (rule map_cong) auto

lemma mbytes_sub: "i + k \<le> n \<Longrightarrow> mbytes m (a + i) k = take k (drop i (mbytes m a n))"
  by (rule nth_equalityI) (simp_all add: mbytes_def add.assoc)

lemma mbytes_add: "mbytes m a (n + k) = mbytes m a n @ mbytes m (a + n) k"
proof -
  have "[a..<a + (n + k)] = [a..<a + n] @ [a + n..<a + n + k]"
    using upt_add_eq_append [of a "a + n" k] by (simp add: add.assoc)
  then show ?thesis unfolding mbytes_def by simp
qed

text \<open>The region of \<open>n\<close> bytes from \<open>a\<close> is apart from the payloads.\<close>

definition apart :: "(ptr \<Rightarrow> pbuf) \<Rightarrow> ptr list \<Rightarrow> nat \<Rightarrow> nat \<Rightarrow> bool" where
  "apart h ps a n \<longleftrightarrow> (\<forall>q \<in> set ps. payload (h q) + unat (pb_len (h q)) \<le> a \<or> a + n \<le> payload (h q))"

lemma apart_write: "apart (pbufs s) ps a n \<Longrightarrow> a \<le> b \<Longrightarrow> b + length bs \<le> a + n \<Longrightarrow> pdata (s\<lparr>pmem := mwrite b bs (pmem s)\<rparr>) ps = pdata s ps"
proof (induction ps)
  case (Cons q qs)
  have a: "apart (pbufs s) qs a n" "payload (pbufs s q) + unat (pb_len (pbufs s q)) \<le> a \<or> a + n \<le> payload (pbufs s q)"
    using Cons.prems(1) by (simp_all add: apart_def)
  have "mbytes (mwrite b bs (pmem s)) (payload (pbufs s q)) (unat (pb_len (pbufs s q))) = mbytes (pmem s) (payload (pbufs s q)) (unat (pb_len (pbufs s q)))"
    using a(2) Cons.prems(2,3) by (intro mbytes_write_other) linarith
  then show ?case using Cons.IH [OF a(1) Cons.prems(2,3)] by (simp add: pbytes_mbytes)
qed simp

lemma copy_partial_loop_spec:
  "pchain (pbufs s) p ps \<Longrightarrow> apart (pbufs s) ps dst N \<Longrightarrow> unat lft + unat n \<le> N \<Longrightarrow> unat lft + unat n < 65536 \<Longrightarrow>
    copy_partial_loop dst lft tot n off p s =
      (let bs = take (unat n) (drop (unat off) (pdata s ps))
       in Some (tot + of_nat (length bs), s\<lparr>pmem := mwrite (dst + unat lft) bs (pmem s)\<rparr>))"
proof (induction ps arbitrary: p s lft tot n off)
  case Nil
  then show ?case by (simp add: copy_partial_loop.simps Let_def)
next
  case (Cons q qs)
  let ?b = "pbufs s q"
  have p: "p = Some q" "pchain (pbufs s) (pb_next ?b) qs" using Cons.prems(1) by simp_all
  have a: "apart (pbufs s) qs dst N" using Cons.prems(2) by (simp add: apart_def)
  show ?case
  proof (cases "n = 0")
    case True
    then show ?thesis unfolding p by (subst copy_partial_loop.simps) (simp add: Let_def)
  next
    case n: False
    show ?thesis
    proof (cases "off \<noteq> 0 \<and> off \<ge> pb_len ?b")
      case True
      then have "unat (off - pb_len ?b) = unat off - unat (pb_len ?b)" by (intro unat_sub) simp
      moreover have "unat (pb_len ?b) \<le> unat off" using True by (simp add: word_le_nat_alt)
      moreover have "copy_partial_loop dst lft tot n off p s = copy_partial_loop dst lft tot n (off - pb_len ?b) (pb_next ?b) s"
        unfolding p using n True by (subst copy_partial_loop.simps) (simp add: Let_def)
      ultimately show ?thesis using Cons.IH [OF p(2) a Cons.prems(3,4)] by (simp add: Let_def)
    next
      case False
      have lo: "unat off \<le> unat (pb_len ?b)" using False by (cases "off = 0") (simp_all add: word_le_nat_alt)
      define k0 where "k0 = pb_len ?b - off"
      define k where "k = (if k0 > n then n else k0)"
      have k0: "unat k0 = unat (pb_len ?b) - unat off" unfolding k0_def using lo by (intro unat_sub) (simp add: word_le_nat_alt)
      have k: "unat k = min (unat n) (unat k0)" by (simp add: k_def word_less_nat_alt)
      have kn: "unat k \<le> unat n" "unat off + unat k \<le> unat (pb_len ?b)" using k k0 lo by linarith+
      define bs where "bs = take (unat k) (drop (unat off) (pbytes (pmem s) ?b))"
      define s1 where "s1 = s\<lparr>pmem := mwrite (dst + unat lft) bs (pmem s)\<rparr>"
      have lb: "length bs = unat k" using kn by (simp add: bs_def)
      have mb: "mbytes (pmem s) (payload ?b + unat off) (unat k) = bs"
        using mbytes_sub [OF kn(2)] by (simp add: bs_def pbytes_mbytes)
      have st: "copy_partial_loop dst lft tot n off p s = copy_partial_loop dst (lft + k) (tot + k) (n - k) 0 (pb_next ?b) s1"
        unfolding p using n False
        by (subst copy_partial_loop.simps) (simp add: Let_def k0_def [symmetric] k_def [symmetric] memcpy_mwrite mb s1_def [symmetric] del: not_le, auto)
      have ul: "unat (lft + k) = unat lft + unat k" using Cons.prems(4) kn(1) by (intro unat_add_small) simp
      have un: "unat (n - k) = unat n - unat k" using kn(1) by (intro unat_sub) (simp add: word_le_nat_alt)
      have c: "pchain (pbufs s1) (pb_next ?b) qs" "apart (pbufs s1) qs dst N" using p(2) a by (simp_all add: s1_def)
      have dq: "pdata s1 qs = pdata s qs" unfolding s1_def
        by (rule apart_write [OF a]) (use lb kn(1) Cons.prems(3) in linarith)+
      have "copy_partial_loop dst (lft + k) (tot + k) (n - k) 0 (pb_next ?b) s1 =
        (let cs = take (unat (n - k)) (drop (unat (0 :: u16)) (pdata s1 qs))
         in Some (tot + k + of_nat (length cs), s1\<lparr>pmem := mwrite (dst + unat (lft + k)) cs (pmem s1)\<rparr>))"
        using Cons.prems(3,4) ul un kn(1) by (intro Cons.IH [OF c]) simp_all
      moreover have "take (unat n) (drop (unat off) (pdata s (q # qs))) = bs @ take (unat (n - k)) (pdata s qs)"
        using lo k k0 un by (simp add: bs_def) (simp add: min_def)
      moreover have "mwrite (dst + unat (lft + k)) cs (pmem s1) = mwrite (dst + unat lft) (bs @ cs) (pmem s)" for cs
        using mwrite_mwrite [of "dst + unat lft" bs cs "pmem s"] by (simp add: s1_def ul lb add.assoc)
      ultimately show ?thesis unfolding st dq by (simp add: Let_def lb s1_def add.assoc)
    qed
  qed
qed

lemma pbuf_copy_partial_spec:
  assumes "pchain (pbufs s) (Some p) ps" "apart (pbufs s) ps dst (unat n)" "dst \<noteq> 0"
  shows "pbuf_copy_partial (Some p) dst n off s =
      (let bs = take (unat n) (drop (unat off) (pdata s ps))
       in Some (of_nat (length bs), s\<lparr>pmem := mwrite dst bs (pmem s)\<rparr>))"
  using copy_partial_loop_spec [of s "Some p" ps dst "unat n" 0 n 0 off] assms by (simp add: pbuf_copy_partial_def)

fun sep :: "(ptr \<Rightarrow> pbuf) \<Rightarrow> ptr list \<Rightarrow> bool" where
  "sep h [] \<longleftrightarrow> True"
| "sep h (q # qs) \<longleftrightarrow> apart h qs (payload (h q)) (unat (pb_len (h q))) \<and> sep h qs"

lemma mbytes_cong: "(\<And>x. a \<le> x \<Longrightarrow> x < a + n \<Longrightarrow> m' x = m x) \<Longrightarrow> mbytes m' a n = mbytes m a n"
  by (simp add: mbytes_def)

lemma mbytes_mwrite_prefix: "length bs \<le> n \<Longrightarrow> mbytes (mwrite a bs m) a n = bs @ drop (length bs) (mbytes m a n)"
  by (rule nth_equalityI) (simp_all add: mbytes_def mwrite_def nth_append)

lemma take_loop_spec:
  "pchain (pbufs s) p ps \<Longrightarrow> sep (pbufs s) ps \<Longrightarrow> apart (pbufs s) ps src N \<Longrightarrow> unat c + unat n \<le> N \<Longrightarrow> unat c + unat n < 65536 \<Longrightarrow>
    unat n \<le> plen (pbufs s) ps \<Longrightarrow>
    \<exists>m. take_loop src n c p s = Some (s\<lparr>pmem := m\<rparr>) \<and>
      pdata (s\<lparr>pmem := m\<rparr>) ps = mbytes (pmem s) (src + unat c) (unat n) @ drop (unat n) (pdata s ps) \<and>
      (\<forall>a. (\<forall>q \<in> set ps. a < payload (pbufs s q) \<or> payload (pbufs s q) + unat (pb_len (pbufs s q)) \<le> a) \<longrightarrow> m a = pmem s a)"
proof (induction ps arbitrary: p s n c)
  case Nil
  then have "n = 0" by (simp add: unat_eq_zero)
  then show ?case by (intro exI [of _ "pmem s"]) (simp add: take_loop.simps mbytes_def)
next
  case (Cons q qs)
  let ?b = "pbufs s q"
  have p: "p = Some q" "pchain (pbufs s) (pb_next ?b) qs" using Cons.prems(1) by simp_all
  show ?case
  proof (cases "n = 0")
    case True
    then show ?thesis unfolding p by (intro exI [of _ "pmem s"]) (simp add: take_loop.simps mbytes_def)
  next
    case n: False
    define k where "k = (if n > pb_len ?b then pb_len ?b else n)"
    have k: "unat k = min (unat n) (unat (pb_len ?b))" by (simp add: k_def word_less_nat_alt)
    define bs where "bs = mbytes (pmem s) (src + unat c) (unat k)"
    define s1 where "s1 = s\<lparr>pmem := mwrite (payload ?b) bs (pmem s)\<rparr>"
    have lb: "length bs = unat k" by (simp add: bs_def)
    have st: "take_loop src n c p s = take_loop src (n - k) (c + k) (pb_next ?b) s1"
      unfolding p using n by (subst take_loop.simps) (simp add: Let_def k_def [symmetric] memcpy_mwrite bs_def [symmetric] s1_def [symmetric])
    have ap: "apart (pbufs s) qs (payload ?b) (unat (pb_len ?b))" "sep (pbufs s) qs" "apart (pbufs s) qs src N"
      "payload ?b + unat (pb_len ?b) \<le> src \<or> src + N \<le> payload ?b" using Cons.prems(2,3) by (simp_all add: apart_def)
    have kn: "unat k \<le> unat n" "unat k \<le> unat (pb_len ?b)" using k by simp_all
    have ul: "unat (c + k) = unat c + unat k" using Cons.prems(5) kn(1) by (intro unat_add_small) simp
    have un: "unat (n - k) = unat n - unat k" using kn(1) by (intro unat_sub) (simp add: word_le_nat_alt)
    have pb: "pbufs s1 = pbufs s" by (simp add: s1_def)
    have pm: "pmem s1 = mwrite (payload ?b) bs (pmem s)" by (simp add: s1_def)
    have dq: "pdata s1 qs = pdata s qs" unfolding s1_def by (rule apart_write [OF ap(1)]) (use lb kn in linarith)+
    have le: "unat (n - k) \<le> plen (pbufs s1) qs" using Cons.prems(6) k un unfolding pb by (simp add: min_def split: if_splits)
    have b1: "unat (c + k) + unat (n - k) \<le> N" "unat (c + k) + unat (n - k) < 65536" using Cons.prems(4,5) ul un kn(1) by simp_all
    have c1: "pchain (pbufs s1) (pb_next ?b) qs" "sep (pbufs s1) qs" "apart (pbufs s1) qs src N" unfolding pb by (rule p(2) ap(2,3))+
    obtain m where m: "take_loop src (n - k) (c + k) (pb_next ?b) s1 = Some (s1\<lparr>pmem := m\<rparr>)"
      "pdata (s1\<lparr>pmem := m\<rparr>) qs = mbytes (pmem s1) (src + unat (c + k)) (unat (n - k)) @ drop (unat (n - k)) (pdata s1 qs)"
      "\<forall>a. (\<forall>q \<in> set qs. a < payload (pbufs s1 q) \<or> payload (pbufs s1 q) + unat (pb_len (pbufs s1 q)) \<le> a) \<longrightarrow> m a = pmem s1 a"
      using Cons.IH [OF c1 b1 le] by (elim exE conjE) (rule that)
    have e: "s1\<lparr>pmem := m\<rparr> = s\<lparr>pmem := m\<rparr>" by (simp add: s1_def)
    have src: "mbytes (pmem s1) (src + unat (c + k)) (unat (n - k)) = mbytes (pmem s) (src + unat c + unat k) (unat n - unat k)"
      unfolding ul un pm add.assoc [symmetric]
      by (rule mbytes_write_other) (use ap(4) lb kn Cons.prems(4) in linarith)
    have "pbytes m ?b = pbytes (pmem s1) ?b" unfolding pbytes_mbytes
      by (rule mbytes_cong, rule m(3) [rule_format]) (use ap(1) in \<open>auto simp: apart_def pb\<close>)
    also have "\<dots> = bs @ drop (unat k) (pbytes (pmem s) ?b)"
      unfolding pbytes_mbytes pm lb [symmetric] by (rule mbytes_mwrite_prefix) (use kn(2) lb in linarith)
    finally have q: "pbytes m ?b = bs @ drop (unat k) (pbytes (pmem s) ?b)" .
    have bsn: "mbytes (pmem s) (src + unat c) (unat n) = bs @ mbytes (pmem s) (src + unat c + unat k) (unat n - unat k)"
      using mbytes_add [of "pmem s" "src + unat c" "unat k" "unat n - unat k"] kn(1) by (simp add: bs_def)
    have m2: "pdata (s\<lparr>pmem := m\<rparr>) qs = mbytes (pmem s) (src + unat c + unat k) (unat n - unat k) @ drop (unat n - unat k) (pdata s qs)"
      using m(2) unfolding e src dq by (simp only: un)
    have D: "pdata (s\<lparr>pmem := m\<rparr>) (q # qs) = mbytes (pmem s) (src + unat c) (unat n) @ drop (unat n) (pdata s (q # qs))"
      using m2 k unfolding bsn by (cases "unat n \<le> unat (pb_len ?b)") (simp_all add: q mbytes_def min_def)
    have M: "m x = pmem s x" if "\<forall>q \<in> set (q # qs). x < payload (pbufs s q) \<or> payload (pbufs s q) + unat (pb_len (pbufs s q)) \<le> x" for x
    proof -
      have "m x = pmem s1 x" using that by (intro m(3) [rule_format]) (simp add: pb)
      also have "\<dots> = pmem s x" using that lb kn(2) by (auto simp: s1_def mwrite_def)
      finally show ?thesis .
    qed
    show ?thesis unfolding st m(1) e by (intro exI conjI, rule refl, rule D, intro allI impI, rule M)
  qed
qed

lemma pbuf_take_spec:
  assumes "pbuf_wf s p ps" "sep (pbufs s) ps" "apart (pbufs s) ps src (unat n)" "src \<noteq> 0" "n \<le> tot_len (pbufs s p)"
  obtains m where "pbuf_take (Some p) src n s = Some (ERR_OK, s\<lparr>pmem := m\<rparr>)"
    "pdata (s\<lparr>pmem := m\<rparr>) ps = mbytes (pmem s) src (unat n) @ drop (unat n) (pdata s ps)"
    "mbytes m src (unat n) = mbytes (pmem s) src (unat n)"
proof -
  have w: "pchain (pbufs s) (Some p) ps" "tot_ok (pbufs s) ps" using assms(1) by (simp_all add: pbuf_wf_def)
  then have "ps \<noteq> []" by auto
  then have "unat (tot_len (pbufs s p)) = plen (pbufs s) ps" using w by (cases ps) simp_all
  then have l: "unat n \<le> plen (pbufs s) ps" using assms(5) by (simp add: word_le_nat_alt)
  have z: "unat (0 :: u16) + unat n \<le> unat n" "unat (0 :: u16) + unat n < 65536" by simp_all
  obtain m where m: "take_loop src n 0 (Some p) s = Some (s\<lparr>pmem := m\<rparr>)"
    "pdata (s\<lparr>pmem := m\<rparr>) ps = mbytes (pmem s) (src + unat (0 :: u16)) (unat n) @ drop (unat n) (pdata s ps)"
    "\<forall>a. (\<forall>q \<in> set ps. a < payload (pbufs s q) \<or> payload (pbufs s q) + unat (pb_len (pbufs s q)) \<le> a) \<longrightarrow> m a = pmem s a"
    using take_loop_spec [OF w(1) assms(2,3) z l] by (elim exE conjE) (rule that)
  have "mbytes m src (unat n) = mbytes (pmem s) src (unat n)"
    by (rule mbytes_cong, rule m(3) [rule_format]) (use assms(3) in \<open>auto simp: apart_def\<close>)
  moreover have "\<not> tot_len (pbufs s p) < n" using assms(5) by simp
  ultimately show ?thesis using m assms(4) by (intro that [of m]) (simp_all add: pbuf_take_def)
qed

subsection \<open>Allocation and headers\<close>

lemma pool_alloc_sel:
  "pool_alloc E m s = (r, s') \<Longrightarrow> pbufs s' = pbufs s \<and> pmem s' = pmem s"
  by (auto simp: pool_alloc_def split: prod.splits)

lemma memp_malloc_sel:
  "memp_malloc E t s = (r, s') \<Longrightarrow> pbufs s' = pbufs s \<and> pmem s' = pmem s"
  by (cases t) (auto simp: memp_malloc_def dest: pool_alloc_sel)

lemma pbuf_alloc_spec:
  assumes "pbuf_alloc E layer n type s = (Some p, s')"
  shows "\<exists>b. pbufs s' = (pbufs s)(p := b) \<and> pb_next b = None \<and> pb_len b = n \<and> tot_len b = n \<and> pb_ref b = 1 \<and> pb_type b = type \<and> pb_flags b = 0 \<and>
    payload b = (if type = PBUF_RAM then LWIP_MEM_ALIGN (p + SIZEOF_STRUCT_PBUF + pbuf_offset layer) else 0) \<and> pmem s' = pmem s"
proof -
  obtain r1 s1 where a: "pool_alloc E (pbuf_with_payload_mempool s) s = (r1, s1)" by force
  obtain r2 s2 where m: "memp_malloc E MEMP_PBUF s = (r2, s2)" by force
  note f = pool_alloc_sel [OF a] memp_malloc_sel [OF m]
  show ?thesis
    by (cases type; cases r1; cases r2) (use assms f in \<open>simp_all add: pbuf_alloc_def a m upd_pbuf_def\<close>, auto)
qed

lemma pbuf_alloc_wf: "pbuf_alloc E layer n type s = (Some p, s') \<Longrightarrow> pbuf_wf s' p [p]"
  using pbuf_alloc_spec [of E layer n type s p s'] by (auto simp: pbuf_wf_def)

text \<open>
  The elements of the pool that \<open>PBUF_RAM\<close> takes its memory from have a fixed size, which the length
  asked for is not compared with: the payload of a full-sized TCP segment (\<open>TCP_MSS\<close> is 8192) ends
  behind the element.
\<close>

lemma pbuf_ram_overflow:
  assumes "pbuf_alloc E layer n PBUF_RAM s = (Some p, s')" "4048 < unat n"
  shows "p + PBUF_WITH_PAYLOAD_SIZE < payload (pbufs s' p) + unat (pb_len (pbufs s' p))"
  using pbuf_alloc_spec [OF assms(1)] assms(2)
  by (auto simp: LWIP_MEM_ALIGN_def MEM_ALIGNMENT_def SIZEOF_STRUCT_PBUF_def PBUF_WITH_PAYLOAD_SIZE_def)

lemma unat_add_inc:
  fixes a :: u16
  assumes "0 \<le> int (unat a) + inc" "int (unat a) + inc < 65536"
  shows "int (unat (a + word_of_int inc)) = int (unat a) + inc"
proof -
  have "int (unat (a + word_of_int inc)) = (int (unat a) + inc) mod 65536"
    by (simp add: uint_word_ariths uint_word_of_int mod_simps)
  then show ?thesis using assms by simp
qed

lemma plen_cong1: "q \<notin> set ps \<Longrightarrow> plen (h(q := b)) ps = plen h ps"
  by (rule plen_cong) auto

lemma pbuf_header_spec:
  assumes "pbuf_wf s p (p # qs)" "pbuf_header p inc s = Some (0, s')"
    "int (plen (pbufs s) (p # qs)) + inc < 65536" "- 32768 \<le> inc"
  shows "pbuf_wf s' p (p # qs) \<and>
    (if inc \<le> 0 then pdata s' (p # qs) = drop (nat (- inc)) (pdata s (p # qs)) else drop (nat inc) (pdata s' (p # qs)) = pdata s (p # qs))"
proof (cases "inc = 0")
  case True
  then show ?thesis using assms(1,2) by (simp add: pbuf_header_def)
next
  case False
  let ?b = "pbufs s p"
  have w: "pchain (pbufs s) (pb_next ?b) qs" "distinct (p # qs)" "tot_ok (pbufs s) qs" "unat (tot_len ?b) = unat (pb_len ?b) + plen (pbufs s) qs"
    using assms(1) by (simp_all add: pbuf_wf_def)
  define b where "b = ?b\<lparr>payload := nat (int (payload ?b) - inc), pb_len := pb_len ?b + word_of_int inc, tot_len := tot_len ?b + word_of_int inc\<rparr>"
  have r: "s' = upd_pbuf p (\<lambda>_. b) s" "inc < 0 \<Longrightarrow> word_of_int (- inc) \<le> pb_len ?b" "0 < inc \<Longrightarrow> 0 \<le> int (payload ?b) - inc"
    using assms(2) False by (auto simp: pbuf_header_def Let_def b_def upd_pbuf_def split: if_splits)
  have neg: "- inc \<le> int (unat (pb_len ?b))" if "inc < 0"
  proof -
    have "word_of_int (- inc) = (of_nat (nat (- inc)) :: u16)" using that by simp
    moreover have "unat (of_nat (nat (- inc)) :: u16) = nat (- inc)" using assms(4) by (intro unat_of_nat_small) simp
    ultimately have "unat (word_of_int (- inc) :: u16) = nat (- inc)" by (simp only:)
    then have "nat (- inc) \<le> unat (pb_len ?b)" using r(2) [OF that] by (simp add: word_le_nat_alt)
    then show ?thesis by linarith
  qed
  have nn: "0 \<le> int (unat (pb_len ?b)) + inc" using neg by (cases "inc < 0") simp_all
  have l: "int (unat (pb_len b)) = int (unat (pb_len ?b)) + inc"
    using unat_add_inc [OF nn] assms(3) by (simp add: b_def)
  have t: "int (unat (tot_len b)) = int (unat (tot_len ?b)) + inc"
    using unat_add_inc [of "tot_len ?b" inc] nn w(4) assms(3) by (simp add: b_def)
  have h: "pbufs s' = (pbufs s)(p := b)" "pmem s' = pmem s" by (simp_all add: r(1))
  have c: "pchain (pbufs s') (pb_next b) qs" using w(1,2) h pchain_cong [of qs "pbufs s'" "pbufs s"] by (auto simp: b_def)
  have k: "tot_ok (pbufs s') qs" using w(2,3) h tot_ok_cong [of qs "pbufs s'" "pbufs s"] by auto
  have pl: "plen (pbufs s') qs = plen (pbufs s) qs" using w(2) plen_cong1 [of p qs] by (simp add: h)
  have "unat (tot_len b) = unat (pb_len b) + plen (pbufs s') qs" using t l w(4) pl by linarith
  then have wf: "pbuf_wf s' p (p # qs)" using c k w(2) by (simp add: pbuf_wf_def h(1) [symmetric]) (simp add: h)
  have dq: "pdata s' qs = pdata s qs" using w(2) by (intro pdata_cong) (auto simp: h)
  have pb: "pbufs s' p = b" by (simp add: h)
  show ?thesis
  proof (cases "inc \<le> 0")
    case True
    then have "inc < 0" using False by simp
    have pay: "payload b = payload ?b + nat (- inc)" using True by (simp add: b_def)
    have i: "int (nat (- inc)) = - inc" using True by simp
    have n2: "nat (- inc) \<le> unat (pb_len ?b)" using neg [OF \<open>inc < 0\<close>] i by linarith
    have n1: "unat (pb_len b) = unat (pb_len ?b) - nat (- inc)" using l i n2 by linarith
    note n = n1 n2
    have "pbytes (pmem s) b = drop (nat (- inc)) (pbytes (pmem s) ?b)"
      by (rule nth_equalityI) (simp_all add: pbytes_def pay n add.assoc)
    then show ?thesis using wf True dq n by (simp add: pb h(2))
  next
    case pos: False
    have pay: "payload ?b = payload b + nat inc" using pos r(3) by (simp add: b_def)
    have n: "unat (pb_len b) = unat (pb_len ?b) + nat inc" using l pos by linarith
    have "drop (nat inc) (pbytes (pmem s) b) = pbytes (pmem s) ?b"
      by (rule nth_equalityI) (simp_all add: pbytes_def pay n add.assoc)
    then show ?thesis using wf pos dq n by (simp add: pb h(2))
  qed
qed

subsection \<open>Taking a chain apart\<close>

text \<open>
  The first buffer on its own; the rest is given up by one reference and returned if it has others.
\<close>

lemma pbuf_dechain_spec:
  assumes "eth_ok E sent freed" "pbuf_wf s p (p # q # qs)" "length qs < 255"
  obtains s' where "pbuf_dechain E p s = Some (if pb_ref (pbufs s q) = 1 then None else Some q, s')" "pbuf_wf s' p [p]"
    "pdata s' [p] = pdata s [p]" "pdata s' (q # qs) = pdata s (q # qs)"
    "pb_ref (pbufs s q) \<noteq> 1 \<longrightarrow> pbuf_wf s' q (q # qs) \<and> pb_ref (pbufs s' q) = pb_ref (pbufs s q) - 1"
proof -
  let ?h = "pbufs s"
  have w: "pb_next (?h p) = Some q" "pchain ?h (pb_next (?h q)) qs" "p \<noteq> q" "p \<notin> set qs" "distinct (q # qs)" "tot_ok ?h (q # qs)"
    "unat (tot_len (?h p)) = unat (pb_len (?h p)) + plen ?h (q # qs)"
    using assms(2) by (simp_all add: pbuf_wf_def)
  have "unat (tot_len (?h p) - pb_len (?h p)) = unat (tot_len (?h p)) - unat (pb_len (?h p))"
    using w(7) by (intro unat_sub) (simp add: word_le_nat_alt)
  then have t: "tot_len (?h p) - pb_len (?h p) = tot_len (?h q)"
    using w(6,7) by (intro word_unat_eq_iff [THEN iffD2]) simp
  define s1 where "s1 = upd_pbuf p (\<lambda>b. b\<lparr>pb_next := None, tot_len := pb_len b\<rparr>)
    (upd_pbuf q (\<lambda>b. b\<lparr>tot_len := tot_len (?h p) - pb_len (?h p)\<rparr>) s)"
  have s1: "pbufs s1 = ?h(p := (?h p)\<lparr>pb_next := None, tot_len := pb_len (?h p)\<rparr>)" "pmem s1 = pmem s"
    using w(3) by (simp_all add: s1_def t fun_eq_iff)
  have o: "\<forall>x \<in> set (q # qs). pbufs s1 x = ?h x" using w(3,4) by (auto simp: s1)
  have c: "pchain (pbufs s1) (Some q) (q # qs)" using w(2) o pchain_cong [of qs "pbufs s1" ?h] by simp
  obtain s' where f: "pbuf_free E (Some q) s1 = Some (of_nat (length (dead (pbufs s1) (q # qs))), s')" "pbufs s' = free_map (pbufs s1) (q # qs)" "pmem s' = pmem s1"
    by (rule pbuf_free_spec [OF assms(1) c w(5)])
  have n: "(of_nat (length (dead (pbufs s1) (q # qs))) :: u8) > 0 \<longleftrightarrow> pb_ref (?h q) = 1"
  proof -
    have "length (dead (pbufs s1) (q # qs)) \<le> length (q # qs)" unfolding dead_def by (rule length_takeWhile_le)
    then have "length (dead (pbufs s1) (q # qs)) < 2 ^ LENGTH(8)" using assms(3) by simp
    then have "unat (of_nat (length (dead (pbufs s1) (q # qs))) :: u8) = length (dead (pbufs s1) (q # qs))" by (rule unat_of_nat_small)
    then show ?thesis using o by (simp add: word_less_nat_alt dead_def)
  qed
  have "pbuf_dechain E p s = Some (if (of_nat (length (dead (pbufs s1) (q # qs))) :: u8) > 0 then None else Some q, s')"
    unfolding pbuf_dechain_def w(1) using f(1) by (simp add: s1_def)
  then have r: "pbuf_dechain E p s = Some (if pb_ref (?h q) = 1 then None else Some q, s')" unfolding n .
  have fp: "pbufs s' p = (?h p)\<lparr>pb_next := None, tot_len := pb_len (?h p)\<rparr>" "pmem s' = pmem s"
    using w(3,4) free_map_other [of p "q # qs" "pbufs s1"] by (simp_all add: f s1)
  have fs: "pb_next (pbufs s' x) = pb_next (?h x) \<and> payload (pbufs s' x) = payload (?h x) \<and> pb_len (pbufs s' x) = pb_len (?h x) \<and>
      tot_len (pbufs s' x) = tot_len (?h x)" if "x \<in> set (q # qs)" for x
    using bspec [OF o that] free_map_sel [of "pbufs s1" "q # qs" x] unfolding f(2) by simp
  have tail: "pbuf_wf s' q (q # qs) \<and> pb_ref (pbufs s' q) = pb_ref (?h q) - 1" if "pb_ref (?h q) \<noteq> 1"
  proof
    have "pchain (pbufs s') (Some q) (q # qs)" using c fs o pchain_cong [of "q # qs" "pbufs s'" "pbufs s1"] by (metis pchain_cong)
    moreover have "tot_ok (pbufs s') (q # qs)" using w(6) fs tot_ok_cong [of "q # qs" "pbufs s'" ?h] by blast
    ultimately show "pbuf_wf s' q (q # qs)" using w(5) by (simp add: pbuf_wf_def)
    show "pb_ref (pbufs s' q) = pb_ref (?h q) - 1" using that o by (simp add: f(2))
  qed
  show ?thesis
  proof (rule that [OF r])
    show "pbuf_wf s' p [p]" by (simp add: pbuf_wf_def fp)
    show "pdata s' [p] = pdata s [p]" by (simp add: fp pbytes_def)
    show "pdata s' (q # qs) = pdata s (q # qs)" using fs by (intro pdata_cong fp(2)) blast
    show "pb_ref (?h q) \<noteq> 1 \<longrightarrow> pbuf_wf s' q (q # qs) \<and> pb_ref (pbufs s' q) = pb_ref (?h q) - 1" using tail by blast
  qed
qed

subsection \<open>Reading\<close>

lemma seek_loop_spec:
  "pchain (pbufs s) p ps \<Longrightarrow>
    (if unat off < plen (pbufs s) ps
     then \<exists>us q vs. ps = us @ q # vs \<and> plen (pbufs s) us \<le> unat off \<and> unat off - plen (pbufs s) us < unat (pb_len (pbufs s q)) \<and>
       seek_loop s off p = Some (off - of_nat (plen (pbufs s) us), Some q)
     else seek_loop s off p = Some (off - of_nat (plen (pbufs s) ps), None))"
proof (induction ps arbitrary: p off)
  case Nil
  then show ?case by (simp add: seek_loop.simps)
next
  case (Cons q qs)
  let ?l = "pb_len (pbufs s q)"
  have p: "p = Some q" "pchain (pbufs s) (pb_next (pbufs s q)) qs" using Cons.prems by simp_all
  show ?case
  proof (cases "?l \<le> off")
    case True
    have st: "seek_loop s off p = seek_loop s (off - ?l) (pb_next (pbufs s q))"
      unfolding p using True by (subst seek_loop.simps) simp
    have le: "unat ?l \<le> unat off" using True by (simp add: word_le_nat_alt)
    have u: "unat (off - ?l) = unat off - unat ?l" using True by (intro unat_sub)
    have w: "off - ?l - of_nat n = off - of_nat (unat ?l + n)" for n by (simp add: algebra_simps)
    show ?thesis
    proof (cases "unat off < plen (pbufs s) (q # qs)")
      case lt: True
      then have "unat (off - ?l) < plen (pbufs s) qs" using u le by simp
      then obtain us x vs where o: "qs = us @ x # vs" "plen (pbufs s) us \<le> unat (off - ?l)" "unat (off - ?l) - plen (pbufs s) us < unat (pb_len (pbufs s x))"
        "seek_loop s (off - ?l) (pb_next (pbufs s q)) = Some (off - ?l - of_nat (plen (pbufs s) us), Some x)"
        using Cons.IH [OF p(2), of "off - ?l"] by auto
      have "q # qs = (q # us) @ x # vs \<and> plen (pbufs s) (q # us) \<le> unat off \<and> unat off - plen (pbufs s) (q # us) < unat (pb_len (pbufs s x)) \<and>
          seek_loop s off p = Some (off - of_nat (plen (pbufs s) (q # us)), Some x)"
        using o u le st w by simp
      then show ?thesis using lt by (simp only: if_True) blast
    next
      case False
      then have "\<not> unat (off - ?l) < plen (pbufs s) qs" using u le by simp
      then have "seek_loop s (off - ?l) (pb_next (pbufs s q)) = Some (off - ?l - of_nat (plen (pbufs s) qs), None)"
        using Cons.IH [OF p(2), of "off - ?l"] by simp
      then show ?thesis using False st w by simp
    qed
  next
    case False
    then have lt: "unat off < unat ?l" by (simp add: word_le_nat_alt)
    have "seek_loop s off p = Some (off, Some q)" unfolding p using False by (subst seek_loop.simps) simp
    then have "q # qs = [] @ q # qs \<and> plen (pbufs s) [] \<le> unat off \<and> unat off - plen (pbufs s) [] < unat ?l \<and>
       seek_loop s off p = Some (off - of_nat (plen (pbufs s) []), Some q)" using lt by simp
    moreover have "unat off < plen (pbufs s) (q # qs)" using lt by simp
    ultimately show ?thesis by (simp only: if_True) blast
  qed
qed

lemma nth_pdata:
  "n - plen (pbufs s) us < unat (pb_len (pbufs s q)) \<Longrightarrow> plen (pbufs s) us \<le> n \<Longrightarrow>
    pdata s (us @ q # vs) ! n = pmem s (payload (pbufs s q) + (n - plen (pbufs s) us))"
  by (simp add: nth_append length_pdata pbytes_def)

text \<open>The byte at an offset of the packet, zero behind its end.\<close>

lemma pbuf_get_at_spec:
  assumes "pchain (pbufs s) p ps"
  shows "pbuf_get_at p off s = Some (if unat off < length (pdata s ps) then pdata s ps ! unat off else 0)"
proof (cases "unat off < plen (pbufs s) ps")
  case False
  then show ?thesis using seek_loop_spec [OF assms, of off] by (simp add: pbuf_get_at_def length_pdata)
next
  case True
  then obtain us q vs where o: "ps = us @ q # vs" "plen (pbufs s) us \<le> unat off" "unat off - plen (pbufs s) us < unat (pb_len (pbufs s q))"
    "seek_loop s off p = Some (off - of_nat (plen (pbufs s) us), Some q)"
    using seek_loop_spec [OF assms, of off] by auto
  have "plen (pbufs s) us < 2 ^ LENGTH(16)" by (rule le_less_trans [OF o(2)]) simp
  then have n: "unat (of_nat (plen (pbufs s) us) :: u16) = plen (pbufs s) us" by (rule unat_of_nat_small)
  then have u: "unat (off - of_nat (plen (pbufs s) us)) = unat off - plen (pbufs s) us"
    using o(2) by (subst unat_sub) (simp_all add: word_le_nat_alt)
  then have "pb_len (pbufs s q) > off - of_nat (plen (pbufs s) us)" using o(3) by (simp add: word_less_nat_alt)
  then show ?thesis using True o(4) u nth_pdata [OF o(3,2), of vs] by (simp add: pbuf_get_at_def length_pdata o(1))
qed

lemma pchain_suffix0: "pchain h p (us @ q # vs) \<Longrightarrow> pchain h (Some q) (q # vs)"
  by (induction us arbitrary: p) simp_all

subsection \<open>A search that skips occurrences\<close>

text \<open>
  When the bytes at \<open>i\<close> differ from the pattern after \<open>k\<close> equal ones, \<open>pbuf_memfind\<close> continues at
  \<open>i + k + 1\<close>: an occurrence that starts inside the equal part is not found.  Here \<open>aab\<close> is
  searched in \<open>aaab\<close>.
\<close>

lemma pbuf_memfind_misses:
  fixes s :: "'w pbuf_state"
  assumes "pbufs s 10 = \<lparr>pb_next = None, tcp_api_next = None, payload = 100, pb_mbuf = None, tot_len = 4, pb_len = 4,
      pb_type = PBUF_ROM, pb_flags = 0, pb_ref = 1\<rparr>"
    "map (pmem s) [100..<104] = [97, 97, 97, 98]" "map (pmem s) [200..<203] = [97, 97, 98]"
  shows "pbuf_memfind 10 200 3 0 s = Some 0xFFFF \<and> pbuf_memcmp (Some 10) 1 200 3 s = Some 0"
proof -
  have m: "pmem s 100 = 97" "pmem s 101 = 97" "pmem s 102 = 97" "pmem s 103 = 98" "pmem s 200 = 97" "pmem s 201 = 97" "pmem s 202 = 98"
    using assms(2,3) by (simp_all add: upt_rec)
  have c: "pchain (pbufs s) (Some 10) [10]" using assms(1) by simp
  have d: "pdata s [10] = [97, 97, 97, 98]" using assms(2) by (simp add: pbytes_def assms(1))
  have g: "pbuf_get_at (Some 10) off s = Some (if unat off < 4 then [97, 97, 97, 98] ! unat off else 0)" for off
    using pbuf_get_at_spec [OF c, of off] unfolding d by simp
  have k: "seek_loop s off (Some 10) = Some (off, Some 10)" if "off < 4" for off
  proof -
    have "\<not> 4 \<le> off" using that by simp
    then show ?thesis by (subst seek_loop.simps) (simp add: assms(1))
  qed
  have m3: "memcmp_loop 3 q a b i s = memcmp_loop (Suc (Suc (Suc 0))) q a b i s" for q a b i by (simp only: numeral_3_eq_3)
  have c0: "pbuf_memcmp (Some 10) 0 200 3 s = Some 3"
    using k [of 0] by (simp add: pbuf_memcmp_def assms(1) g m m3)
  have c1: "pbuf_memcmp (Some 10) 1 200 3 s = Some 0"
    using k [of 1] by (simp add: pbuf_memcmp_def assms(1) g m m3)
  have "memfind_loop 10 200 3 1 0 s = memfind_loop 10 200 3 1 3 s" by (subst memfind_loop.simps) (simp add: c0)
  also have "\<dots> = Some 0xFFFF"
  proof -
    have "\<not> (3::u16) \<le> 1" by (simp add: word_le_nat_alt)
    then show ?thesis by (subst memfind_loop.simps) simp
  qed
  finally show ?thesis using c1 by (simp add: pbuf_memfind_def assms(1))
qed

section \<open>Properties\<close>

lemma pbuf_wf_tot: "pbuf_wf s p ps \<Longrightarrow> unat (tot_len (pbufs s p)) = plen (pbufs s) ps"
  unfolding pbuf_wf_def by (cases ps) simp_all

lemma pbuf_wf_Cons: "pbuf_wf s p ps \<Longrightarrow> \<exists>qs. ps = p # qs" unfolding pbuf_wf_def by (cases ps) simp_all

lemma pbuf_realloc_typed:
  assumes "eth_ok E sent freed" "pbuf_wf s p ps"
  shows "\<exists>s' qs. pbuf_realloc E p n s = Some s' \<and> pbuf_wf s' p qs \<and> set qs \<subseteq> set ps \<and> pdata s' qs = take (unat n) (pdata s ps)"
proof (cases "n < tot_len (pbufs s p)")
  case True
  then obtain us q vs s' where "ps = us @ q # vs" "pbuf_realloc E p n s = Some s'" "pbuf_wf s' p (us @ [q])"
    "pdata s' (us @ [q]) = take (unat n) (pdata s ps)"
    using pbuf_realloc_spec [OF assms True] by metis
  then show ?thesis by (intro exI [of _ s'] exI [of _ "us @ [q]"]) auto
next
  case False
  then have "length (pdata s ps) \<le> unat n" using pbuf_wf_tot [OF assms(2)] by (simp add: length_pdata word_less_nat_alt)
  moreover have "tot_len (pbufs s p) \<le> n" using False by (simp only: not_less)
  then have "pbuf_realloc E p n s = Some s" by (simp add: pbuf_realloc_def)
  ultimately show ?thesis using assms(2) by (intro exI [of _ s] exI [of _ ps]) simp
qed

text \<open>C13: the invariant stated with \<open>struct pbuf\<close>, that in every buffer of a packet \<open>tot_len\<close> is
  the number of bytes from this buffer on, holds of a fresh buffer and is kept by concatenation,
  trimming, header adjustment and dechaining, each of which does to the bytes of the packet what
  its comment says: appends those of the tail, keeps the first \<open>new_len\<close>, drops or exposes
  \<open>header_size_increment\<close> bytes in front, separates the first buffer from the rest.\<close>

theorem pbuf_well_typed:
  assumes "eth_ok E sent freed" "pbuf_wf s p ps"
  shows "(\<forall>layer n type q s'. pbuf_alloc E layer n type s = (Some q, s') \<longrightarrow> pbuf_wf s' q [q]) \<and>
    (\<forall>t ts. pbuf_wf s t ts \<and> set ps \<inter> set ts = {} \<and> plen (pbufs s) ps + plen (pbufs s) ts < 65536 \<longrightarrow>
      (\<exists>s'. pbuf_cat (Some p) (Some t) s = Some s' \<and> pbuf_wf s' p (ps @ ts) \<and> pdata s' (ps @ ts) = pdata s ps @ pdata s ts)) \<and>
    (\<forall>n. \<exists>s' qs. pbuf_realloc E p n s = Some s' \<and> pbuf_wf s' p qs \<and> set qs \<subseteq> set ps \<and> pdata s' qs = take (unat n) (pdata s ps)) \<and>
    (\<forall>inc s'. pbuf_header p inc s = Some (0, s') \<and> - 32768 \<le> inc \<and> int (plen (pbufs s) ps) + inc < 65536 \<longrightarrow>
      pbuf_wf s' p ps \<and>
      (if inc \<le> 0 then pdata s' ps = drop (nat (- inc)) (pdata s ps) else drop (nat inc) (pdata s' ps) = pdata s ps)) \<and>
    (\<forall>q qs. ps = p # q # qs \<and> length qs < 255 \<longrightarrow>
      (\<exists>s'. pbuf_dechain E p s = Some (if pb_ref (pbufs s q) = 1 then None else Some q, s') \<and> pbuf_wf s' p [p] \<and>
        pdata s' [p] @ pdata s' (q # qs) = pdata s ps \<and> (pb_ref (pbufs s q) \<noteq> 1 \<longrightarrow> pbuf_wf s' q (q # qs))))"
proof (intro conjI allI impI)
  fix layer n type q s' assume "pbuf_alloc E layer n type s = (Some q, s')"
  then show "pbuf_wf s' q [q]" by (rule pbuf_alloc_wf)
next
  fix t ts assume a: "pbuf_wf s t ts \<and> set ps \<inter> set ts = {} \<and> plen (pbufs s) ps + plen (pbufs s) ts < 65536"
  obtain s' where "pbuf_cat (Some p) (Some t) s = Some s'" "pbuf_wf s' p (ps @ ts)" "pdata s' (ps @ ts) = pdata s ps @ pdata s ts"
    by (rule pbuf_cat_spec [OF assms(2), of t ts]) (use a in blast)+
  then show "\<exists>s'. pbuf_cat (Some p) (Some t) s = Some s' \<and> pbuf_wf s' p (ps @ ts) \<and> pdata s' (ps @ ts) = pdata s ps @ pdata s ts" by blast
next
  fix n show "\<exists>s' qs. pbuf_realloc E p n s = Some s' \<and> pbuf_wf s' p qs \<and> set qs \<subseteq> set ps \<and> pdata s' qs = take (unat n) (pdata s ps)"
    by (rule pbuf_realloc_typed [OF assms])
next
  fix inc s' assume a: "pbuf_header p inc s = Some (0, s') \<and> - 32768 \<le> inc \<and> int (plen (pbufs s) ps) + inc < 65536"
  obtain qs where ps: "ps = p # qs" using pbuf_wf_Cons [OF assms(2)] by blast
  note h = pbuf_header_spec [OF assms(2) [unfolded ps], of inc s', folded ps]
  show "pbuf_wf s' p ps" using h a by blast
  show "if inc \<le> 0 then pdata s' ps = drop (nat (- inc)) (pdata s ps) else drop (nat inc) (pdata s' ps) = pdata s ps"
    using h a by blast
next
  fix q qs assume a: "ps = p # q # qs \<and> length qs < 255"
  then obtain s' where s': "pbuf_dechain E p s = Some (if pb_ref (pbufs s q) = 1 then None else Some q, s')" "pbuf_wf s' p [p]"
    "pdata s' [p] = pdata s [p]" "pdata s' (q # qs) = pdata s (q # qs)"
    "pb_ref (pbufs s q) \<noteq> 1 \<longrightarrow> pbuf_wf s' q (q # qs) \<and> pb_ref (pbufs s' q) = pb_ref (pbufs s q) - 1"
    using pbuf_dechain_spec [OF assms(1), of s p q qs thesis] assms(2) by blast
  have "pdata s' [p] @ pdata s' (q # qs) = pdata s ps" unfolding s' using a by simp
  then show "\<exists>s'. pbuf_dechain E p s = Some (if pb_ref (pbufs s q) = 1 then None else Some q, s') \<and> pbuf_wf s' p [p] \<and>
        pdata s' [p] @ pdata s' (q # qs) = pdata s ps \<and> (pb_ref (pbufs s q) \<noteq> 1 \<longrightarrow> pbuf_wf s' q (q # qs))"
    using s' by blast
qed

text \<open>C15: \<open>pbuf_take\<close> spreads \<open>n\<close> bytes over the buffers of a packet and \<open>pbuf_copy_partial\<close>
  collects them: what is copied out is what was copied in, however the packet is cut into
  buffers, and the bytes of the packet behind the first \<open>n\<close> are unchanged.\<close>

theorem pbuf_take_copy:
  assumes "pbuf_wf s p ps" "sep (pbufs s) ps" "apart (pbufs s) ps src (unat n)" "apart (pbufs s) ps dst (unat n)"
    "src \<noteq> 0" "dst \<noteq> 0" "n \<le> tot_len (pbufs s p)"
  shows "\<exists>s1 s2. pbuf_take (Some p) src n s = Some (ERR_OK, s1) \<and> pbuf_copy_partial (Some p) dst n 0 s1 = Some (n, s2) \<and>
    mbytes (pmem s2) dst (unat n) = mbytes (pmem s) src (unat n) \<and>
    pdata s2 ps = mbytes (pmem s) src (unat n) @ drop (unat n) (pdata s ps)"
proof -
  obtain m where m: "pbuf_take (Some p) src n s = Some (ERR_OK, s\<lparr>pmem := m\<rparr>)"
    "pdata (s\<lparr>pmem := m\<rparr>) ps = mbytes (pmem s) src (unat n) @ drop (unat n) (pdata s ps)"
    by (rule pbuf_take_spec [OF assms(1-3,5,7)])
  define s1 where "s1 = s\<lparr>pmem := m\<rparr>"
  have h: "pbufs s1 = pbufs s" by (simp add: s1_def)
  have c: "pchain (pbufs s1) (Some p) ps" using assms(1) unfolding h pbuf_wf_def by simp
  define bs where "bs = mbytes (pmem s) src (unat n)"
  have l: "length bs = unat n" by (simp add: bs_def)
  have t: "take (unat n) (drop (unat (0::u16)) (pdata s1 ps)) = bs" using m(2) l by (simp add: s1_def bs_def)
  have "pbuf_copy_partial (Some p) dst n 0 s1 = Some (n, s1\<lparr>pmem := mwrite dst bs (pmem s1)\<rparr>)"
    using pbuf_copy_partial_spec [OF c, of dst n 0, unfolded Let_def t l] assms(4,6) by (simp add: h)
  moreover have "mbytes (mwrite dst bs (pmem s1)) dst (unat n) = bs" using mbytes_write_same [of dst bs] by (simp add: l)
  moreover have "pdata (s1\<lparr>pmem := mwrite dst bs (pmem s1)\<rparr>) ps = pdata s1 ps"
    using apart_write [of s1 ps dst "unat n" dst bs] assms(4) l by (simp add: h)
  ultimately show ?thesis using m unfolding s1_def [symmetric] bs_def by (intro exI [of _ s1] exI [of _ "s1\<lparr>pmem := mwrite dst bs (pmem s1)\<rparr>"]) (simp add: bs_def)
qed

section \<open>Where freed buffers go\<close>

text \<open>The free objects of the two pools of buffers: descriptors alone, and descriptors with their payload.\<close>

definition pbuf_avail :: "(ptr option \<Rightarrow> 'w \<Rightarrow> ptr set) \<Rightarrow> 'w pbuf_state \<Rightarrow> ptr set" where
  "pbuf_avail free s = mempool_avail free (pbuf_mempool s) (net_mp (pb_net s))"

definition payload_avail :: "(ptr option \<Rightarrow> 'w \<Rightarrow> ptr set) \<Rightarrow> 'w pbuf_state \<Rightarrow> ptr set" where
  "payload_avail free s = mempool_avail free (pbuf_with_payload_mempool s) (net_mp (pb_net s))"

definition pool_ptr :: "mempool \<Rightarrow> 'w pbuf_state \<Rightarrow> ptr option" where
  "pool_ptr m s = ds_pool (dss (net_mp (pb_net s)) (m_datastore m))"

text \<open>
  The two pools are different pools of DPDK, and freeing a packet gives it back to the pool of the
  packets, which is neither of them.
\<close>

definition pools_apart :: "'w net_env \<Rightarrow> (ptr option \<Rightarrow> 'w \<Rightarrow> ptr set) \<Rightarrow> 'w pbuf_state \<Rightarrow> bool" where
  "pools_apart E free s \<longleftrightarrow> rte_mempool_ok (net_dpdk E) free \<and> pool_ptr (pbuf_mempool s) s \<noteq> pool_ptr (pbuf_with_payload_mempool s) s \<and>
     (\<forall>m w. free (pool_ptr (pbuf_mempool s) s) (rte_pktmbuf_free E m w) = free (pool_ptr (pbuf_mempool s) s) w \<and>
        free (pool_ptr (pbuf_with_payload_mempool s) s) (rte_pktmbuf_free E m w) = free (pool_ptr (pbuf_with_payload_mempool s) s) w)"

definition same_pools :: "'w pbuf_state \<Rightarrow> 'w pbuf_state \<Rightarrow> bool" where
  "same_pools s s' \<longleftrightarrow> pbuf_mempool s' = pbuf_mempool s \<and> pbuf_with_payload_mempool s' = pbuf_with_payload_mempool s \<and>
     dss (net_mp (pb_net s')) = dss (net_mp (pb_net s))"

lemma same_pools_apart: "same_pools s s' \<Longrightarrow> pools_apart E free s' = pools_apart E free s"
  by (simp add: same_pools_def pools_apart_def pool_ptr_def)

lemma pool_free_put:
  assumes "rte_mempool_ok (net_dpdk E) free" "q \<notin> mempool_avail free m (net_mp (pb_net s))"
  shows "mempool_avail free m (net_mp (pb_net (pool_free E m q s))) = insert q (mempool_avail free m (net_mp (pb_net s)))"
    "pool_ptr m' s \<noteq> pool_ptr m s \<Longrightarrow> mempool_avail free m' (net_mp (pb_net (pool_free E m q s))) = mempool_avail free m' (net_mp (pb_net s))"
  using mempool_free_avail [OF assms] assms
  by (simp_all add: pool_free_def) (simp add: rte_mempool_ok_def mempool_avail_def mempool_free_def pool_ptr_def)

lemma pbuf_dealloc_pools:
  assumes "pools_apart E free s" "q \<notin> pbuf_avail free s" "q \<notin> payload_avail free s"
  shows "pbuf_avail free (pbuf_dealloc E q s) = (if pb_type (pbufs s q) \<in> {PBUF_ROM, PBUF_REF} then {q} else {}) \<union> pbuf_avail free s"
    "payload_avail free (pbuf_dealloc E q s) = (if pb_type (pbufs s q) = PBUF_RAM then {q} else {}) \<union> payload_avail free s"
    "same_pools s (pbuf_dealloc E q s)"
proof -
  define s1 where "s1 = (case pb_mbuf (pbufs s q) of None \<Rightarrow> s
      | Some m \<Rightarrow> upd_pbuf q (\<lambda>b. b\<lparr>pb_mbuf := None\<rparr>) (s\<lparr>pb_net := mbuf_free E m (pb_net s)\<rparr>))"
  have d: "pbuf_dealloc E q s = (case pb_type (pbufs s q) of PBUF_POOL \<Rightarrow> s1 | PBUF_RAM \<Rightarrow> pool_free E (pbuf_with_payload_mempool s) q s1
      | _ \<Rightarrow> pool_free E (pbuf_mempool s) q s1)"
    by (cases "pb_mbuf (pbufs s q)"; cases "pb_type (pbufs s q)"; simp add: pbuf_dealloc_def s1_def memp_free_def mem_free_def upd_pbuf_def)
  have k: "same_pools s s1" "pbuf_avail free s1 = pbuf_avail free s" "payload_avail free s1 = payload_avail free s"
    using assms(1) by (cases "pb_mbuf (pbufs s q)"; simp add: s1_def same_pools_def pbuf_avail_def payload_avail_def mempool_avail_def
        upd_pbuf_def mbuf_free_def set_net_world_def net_world_def pools_apart_def pool_ptr_def)+
  have ok: "rte_mempool_ok (net_dpdk E) free" "pool_ptr (pbuf_mempool s) s1 \<noteq> pool_ptr (pbuf_with_payload_mempool s) s1"
    using assms(1) k(1) by (simp_all add: pools_apart_def same_pools_def pool_ptr_def)
  have m: "pbuf_mempool s1 = pbuf_mempool s" "pbuf_with_payload_mempool s1 = pbuf_with_payload_mempool s" using k(1) by (simp_all add: same_pools_def)
  have f: "pbuf_mempool (pool_free E x q s1) = pbuf_mempool s" "pbuf_with_payload_mempool (pool_free E x q s1) = pbuf_with_payload_mempool s" for x
    using m by (simp_all add: pool_free_def)
  have n: "q \<notin> mempool_avail free (pbuf_mempool s) (net_mp (pb_net s1))" "q \<notin> mempool_avail free (pbuf_with_payload_mempool s) (net_mp (pb_net s1))"
    using assms(2,3) k m by (simp_all add: pbuf_avail_def payload_avail_def)
  note a = pool_free_put [OF ok(1) n(1)] and b = pool_free_put [OF ok(1) n(2)]
  show "pbuf_avail free (pbuf_dealloc E q s) = (if pb_type (pbufs s q) \<in> {PBUF_ROM, PBUF_REF} then {q} else {}) \<union> pbuf_avail free s"
    using k(2) a(1) b(2) [OF ok(2)] m by (cases "pb_type (pbufs s q)") (simp_all add: d pbuf_avail_def f)
  show "payload_avail free (pbuf_dealloc E q s) = (if pb_type (pbufs s q) = PBUF_RAM then {q} else {}) \<union> payload_avail free s"
    using k(3) b(1) a(2) [OF ok(2) [symmetric]] m by (cases "pb_type (pbufs s q)") (simp_all add: d payload_avail_def f)
  show "same_pools s (pbuf_dealloc E q s)"
    using k(1) by (cases "pb_type (pbufs s q)") (simp_all add: d same_pools_def pool_free_def mempool_free_def)
qed

lemma free_loop_pools:
  "pchain (pbufs s) p (us @ vs) \<Longrightarrow> distinct (us @ vs) \<Longrightarrow> \<forall>q \<in> set us. pb_ref (pbufs s q) = 1 \<Longrightarrow>
   vs \<noteq> [] \<longrightarrow> pb_ref (pbufs s (hd vs)) \<noteq> 1 \<Longrightarrow> pools_apart E free s \<Longrightarrow> set us \<inter> (pbuf_avail free s \<union> payload_avail free s) = {} \<Longrightarrow>
   free_loop E p c s = Some (n, s') \<Longrightarrow>
   pbuf_avail free s' = {q \<in> set us. pb_type (pbufs s q) \<in> {PBUF_ROM, PBUF_REF}} \<union> pbuf_avail free s \<and>
   payload_avail free s' = {q \<in> set us. pb_type (pbufs s q) = PBUF_RAM} \<union> payload_avail free s"
proof (induction us arbitrary: p c s)
  case Nil
  show ?case
  proof (cases vs)
    case Nil
    then show ?thesis using Nil.prems by (simp add: free_loop.simps)
  next
    case (Cons v vs')
    then have "s' = upd_pbuf v (\<lambda>b. b\<lparr>pb_ref := pb_ref b - 1\<rparr>) s" using Nil.prems(1,4,7)
      by (subst (asm) free_loop.simps) (auto simp: Let_def split: if_splits)
    then show ?thesis by (simp add: upd_pbuf_def pbuf_avail_def payload_avail_def)
  qed
next
  case (Cons q us)
  have p: "p = Some q" using Cons.prems(1) by simp
  define s1 where "s1 = upd_pbuf q (\<lambda>b. b\<lparr>pb_ref := pb_ref b - 1\<rparr>) s"
  have s1: "pb_net s1 = pb_net s" "pb_type (pbufs s1 q) = pb_type (pbufs s q)" "same_pools s s1" "pbuf_avail free s1 = pbuf_avail free s"
    "payload_avail free s1 = payload_avail free s" "pb_ref (pbufs s1 q) = 0" "pb_next (pbufs s1 q) = pb_next (pbufs s q)"
    using Cons.prems(3) by (simp_all add: s1_def upd_pbuf_def same_pools_def pbuf_avail_def payload_avail_def)
  define s2 where "s2 = pbuf_dealloc E q s1"
  have st: "free_loop E (pb_next (pbufs s q)) (c + 1) s2 = Some (n, s')"
    using Cons.prems(7) s1(6,7) unfolding p s2_def by (subst (asm) free_loop.simps) (simp add: s1_def [symmetric])
  have nq: "q \<notin> pbuf_avail free s1" "q \<notin> payload_avail free s1" using Cons.prems(6) s1 by auto
  note d = pbuf_dealloc_pools [OF _ nq, of E, folded s2_def, unfolded s1(2,4,5) same_pools_apart [OF s1(3)], OF Cons.prems(5)]
  have eq: "\<forall>x \<in> set (us @ vs). pbufs s2 x = pbufs s x" using Cons.prems(2) by (auto simp: s2_def pbuf_dealloc_sel s1_def)
  have c2: "pchain (pbufs s2) (pb_next (pbufs s q)) (us @ vs)"
    using Cons.prems(1) eq pchain_cong [of "us @ vs" "pbufs s2" "pbufs s"] by simp
  have r: "\<forall>x \<in> set us. pb_ref (pbufs s2 x) = 1" "vs \<noteq> [] \<longrightarrow> pb_ref (pbufs s2 (hd vs)) \<noteq> 1" "distinct (us @ vs)"
    using Cons.prems(2-4) eq by auto
  have pa: "pools_apart E free s2" using same_pools_apart [OF d(3)] same_pools_apart [OF s1(3)] Cons.prems(5) by metis
  have "set us \<inter> (pbuf_avail free s2 \<union> payload_avail free s2) = {}" using Cons.prems(2,6) unfolding d(1,2) by auto
  from Cons.IH [OF c2 r(3,1,2) pa this st]
  have IH: "pbuf_avail free s' = {q \<in> set us. pb_type (pbufs s q) \<in> {PBUF_ROM, PBUF_REF}} \<union> pbuf_avail free s2"
    "payload_avail free s' = {q \<in> set us. pb_type (pbufs s q) = PBUF_RAM} \<union> payload_avail free s2"
    using eq by auto
  show ?case unfolding IH d(1,2) by auto
qed

text \<open>C14: \<open>pbuf_free\<close> gives back exactly the buffers at the front of the chain that nobody else
  holds: their number is returned (modulo 256), the packets they carry are freed once each, in
  order, and nothing is sent; the descriptors of type \<open>PBUF_ROM\<close> and \<open>PBUF_REF\<close> are put back into the pool of the descriptors and the
  buffers of type \<open>PBUF_RAM\<close> into the pool of the buffers with payload, and neither pool gets anything else.  (A buffer of
  type \<open>PBUF_POOL\<close>, of which none is allocated, would go to no pool.)  The first buffer that is still held loses one reference; every
  buffer behind it, and every buffer outside the chain, is untouched.  The two pools are different, do not hold the buffers of the
  chain yet, and the packets do not come from them.\<close>

theorem pbuf_free_exact:
  assumes "eth_ok E sent freed" "pchain (pbufs s) (Some p) (us @ vs)" "distinct (us @ vs)"
    "\<forall>q \<in> set us. pb_ref (pbufs s q) = 1" "vs \<noteq> [] \<longrightarrow> pb_ref (pbufs s (hd vs)) \<noteq> 1"
    "pools_apart E free s" "set us \<inter> (pbuf_avail free s \<union> payload_avail free s) = {}"
  shows "\<exists>s'. pbuf_free E (Some p) s = Some (of_nat (length us), s') \<and>
    freed (net_world (pb_net s')) = freed (net_world (pb_net s)) @ mbufs_of (pbufs s) us \<and>
    sent (net_world (pb_net s')) = sent (net_world (pb_net s)) \<and> (\<forall>q \<in> set us. pb_ref (pbufs s' q) = 0) \<and>
    pbuf_avail free s' = {q \<in> set us. pb_type (pbufs s q) \<in> {PBUF_ROM, PBUF_REF}} \<union> pbuf_avail free s \<and>
    payload_avail free s' = {q \<in> set us. pb_type (pbufs s q) = PBUF_RAM} \<union> payload_avail free s \<and>
    (\<forall>q. q \<notin> set us \<longrightarrow> pbufs s' q = (if vs \<noteq> [] \<and> q = hd vs then (pbufs s q)\<lparr>pb_ref := pb_ref (pbufs s q) - 1\<rparr> else pbufs s q))"
proof -
  let ?P = "\<lambda>q. pb_ref (pbufs s q) = 1"
  have tv: "takeWhile ?P vs = []" "dropWhile ?P vs = vs" using assms(5) by (cases vs; simp)+
  have "takeWhile ?P (us @ vs) = us @ takeWhile ?P vs" "dropWhile ?P (us @ vs) = dropWhile ?P vs"
    using assms(4) by (simp_all add: takeWhile_append2 dropWhile_append2)
  then have d: "dead (pbufs s) (us @ vs) = us" "dropWhile ?P (us @ vs) = vs" unfolding dead_def tv by simp_all
  obtain s' where s': "pbuf_free E (Some p) s = Some (of_nat (length us), s')" "pbufs s' = free_map (pbufs s) (us @ vs)"
    "sent (net_world (pb_net s')) = sent (net_world (pb_net s))"
    "freed (net_world (pb_net s')) = freed (net_world (pb_net s)) @ mbufs_of (pbufs s) us"
    by (rule pbuf_free_spec [OF assms(1-3), unfolded d])
  have "free_loop E (Some p) 0 s = Some (of_nat (length us), s')" using s'(1) by (simp add: pbuf_free_def)
  note pl = free_loop_pools [OF assms(2-7) this]
  have "\<forall>q \<in> set us. pb_ref (pbufs s' q) = 0"
    unfolding s'(2) using free_map_dead [OF assms(3), of _ "pbufs s", unfolded d] by blast
  moreover have "\<forall>q. q \<notin> set us \<longrightarrow> pbufs s' q = (if vs \<noteq> [] \<and> q = hd vs then (pbufs s q)\<lparr>pb_ref := pb_ref (pbufs s q) - 1\<rparr> else pbufs s q)"
    unfolding s'(2) using free_map_survivor [OF assms(3), of _ "pbufs s", unfolded d] by blast
  ultimately show ?thesis using s' pl by (intro exI [of _ s'] conjI) simp_all
qed

section \<open>An example\<close>

text \<open>A packet of two buffers, at 10 and 20, the second held twice, and one of one buffer, at 30.\<close>

definition pbuf_ex :: "ptr option \<Rightarrow> nat \<Rightarrow> ptr option \<Rightarrow> u16 \<Rightarrow> u16 \<Rightarrow> u16 \<Rightarrow> pbuf" where
  "pbuf_ex nx a m t l r = \<lparr>pb_next = nx, tcp_api_next = None, payload = a, pb_mbuf = m, tot_len = t, pb_len = l,
     pb_type = PBUF_ROM, pb_flags = 0, pb_ref = r\<rparr>"

definition pbuf_state_ex :: "((nat \<times> ptr \<times> rte_mbuf) list \<times> ptr list) pbuf_state" where
  "pbuf_state_ex = \<lparr>pbufs = (\<lambda>q. if q = 10 then pbuf_ex (Some 20) 100 (Some 3) 5 2 1 else if q = 20 then pbuf_ex None 200 None 3 3 2
       else pbuf_ex None 300 None 1 1 1),
     pmem = of_nat, pbuf_mempool = mempool_ex, pbuf_with_payload_mempool = mempool_ex, tcp_pcb_mempool = mempool_ex,
     tcp_pcb_listen_mempool = mempool_ex, tcp_seg_mempool = mempool_ex, pb_net = net_state_ex 0 (mbuf_ex [])\<rparr>"

lemma pbuf_state_ex_sel [simp]:
  "pbufs pbuf_state_ex 10 = pbuf_ex (Some 20) 100 (Some 3) 5 2 1" "pbufs pbuf_state_ex 20 = pbuf_ex None 200 None 3 3 2"
  "pbufs pbuf_state_ex 30 = pbuf_ex None 300 None 1 1 1" "pmem pbuf_state_ex = of_nat" "net_world (pb_net pbuf_state_ex) = ([], [])"
  by (simp_all add: pbuf_state_ex_def net_state_ex_def net_world_def)

lemma pbuf_ex_sel [simp]:
  "pb_next (pbuf_ex nx a m t l r) = nx" "payload (pbuf_ex nx a m t l r) = a" "pb_mbuf (pbuf_ex nx a m t l r) = m"
  "tot_len (pbuf_ex nx a m t l r) = t" "pb_len (pbuf_ex nx a m t l r) = l" "pb_ref (pbuf_ex nx a m t l r) = r"
  by (simp_all add: pbuf_ex_def)

lemma pbuf_state_ex_wf: "pbuf_wf pbuf_state_ex 10 [10, 20]" "pbuf_wf pbuf_state_ex 30 [30]"
  by (simp_all add: pbuf_wf_def)

lemma pbuf_state_ex_data: "pdata pbuf_state_ex [10, 20] = [100, 101, 200, 201, 202]" "pdata pbuf_state_ex [30] = [44]"
  by (simp_all add: pbytes_def upt_rec)

theorem pbuf_well_typed_witness:
  "(\<exists>s'. pbuf_cat (Some 10) (Some 30) pbuf_state_ex = Some s' \<and> pbuf_wf s' 10 [10, 20, 30] \<and>
      pdata s' [10, 20, 30] = [100, 101, 200, 201, 202, 44]) \<and>
   (\<exists>s' qs. pbuf_realloc net_env_ex 10 3 pbuf_state_ex = Some s' \<and> pbuf_wf s' 10 qs \<and> pdata s' qs = [100, 101, 200])"
proof (intro conjI)
  note t = pbuf_well_typed [OF net_env_ex_ok pbuf_state_ex_wf(1)]
  have "set [10, 20] \<inter> set [30] = ({} :: nat set)" "plen (pbufs pbuf_state_ex) [10, 20] + plen (pbufs pbuf_state_ex) [30] < 65536" by simp_all
  then show "\<exists>s'. pbuf_cat (Some 10) (Some 30) pbuf_state_ex = Some s' \<and> pbuf_wf s' 10 [10, 20, 30] \<and>
      pdata s' [10, 20, 30] = [100, 101, 200, 201, 202, 44]"
    using t [THEN conjunct2, THEN conjunct1, rule_format, of 30 "[30]"] pbuf_state_ex_wf(2) unfolding pbuf_state_ex_data by simp
  show "\<exists>s' qs. pbuf_realloc net_env_ex 10 3 pbuf_state_ex = Some s' \<and> pbuf_wf s' 10 qs \<and> pdata s' qs = [100, 101, 200]"
    using t [THEN conjunct2, THEN conjunct2, THEN conjunct1, rule_format, of 3] unfolding pbuf_state_ex_data by auto
qed

theorem pbuf_take_copy_witness:
  "\<exists>s1 s2. pbuf_take (Some 10) 400 4 pbuf_state_ex = Some (ERR_OK, s1) \<and> pbuf_copy_partial (Some 10) 500 4 0 s1 = Some (4, s2) \<and>
     mbytes (pmem s2) 500 4 = [144, 145, 146, 147] \<and> pdata s2 [10, 20] = [144, 145, 146, 147, 202]"
proof -
  have b: "mbytes of_nat 400 4 = ([144, 145, 146, 147] :: u8 list)" by (simp add: mbytes_def upt_rec)
  have h: "sep (pbufs pbuf_state_ex) [10, 20]" "apart (pbufs pbuf_state_ex) [10, 20] 400 (unat (4::u16))"
    "apart (pbufs pbuf_state_ex) [10, 20] 500 (unat (4::u16))" "(4::u16) \<le> tot_len (pbufs pbuf_state_ex 10)"
    by (simp_all add: apart_def word_le_nat_alt)
  show ?thesis using pbuf_take_copy [OF pbuf_state_ex_wf(1) h(1-3) _ _ h(4)] unfolding pbuf_state_ex_data by (simp add: b)
qed

text \<open>The same packet in a host whose pools are stacks, 5 and 6 being the two pools of buffers.\<close>

definition pbuf_pool_ex :: "pool_world pbuf_state" where
  "pbuf_pool_ex = \<lparr>pbufs = pbufs pbuf_state_ex, pmem = of_nat, pbuf_mempool = mempool_ex, pbuf_with_payload_mempool = mempool_ex\<lparr>m_datastore := 6\<rparr>,
     tcp_pcb_mempool = mempool_ex, tcp_pcb_listen_mempool = mempool_ex, tcp_seg_mempool = mempool_ex,
     pb_net = (net_state_pool 0)\<lparr>net_mp := \<lparr>dss = (\<lambda>d. (dss mp_state_ex d)\<lparr>ds_pool := Some d\<rparr>), mempool_all_datastores = None,
       mp_world = (([], []), \<lambda>_. [])\<rparr>\<rparr>\<rparr>"

theorem pbuf_free_exact_witness:
  "\<exists>s'. pbuf_free net_env_pool (Some 10) pbuf_pool_ex = Some (1, s') \<and> snd (fst (net_world (pb_net s'))) = [3] \<and>
     pb_ref (pbufs s' 10) = 0 \<and> pb_ref (pbufs s' 20) = 1 \<and> pbuf_avail (\<lambda>pool w. set (snd w pool)) s' = {10} \<and>
     payload_avail (\<lambda>pool w. set (snd w pool)) s' = {}"
proof -
  let ?free = "\<lambda>pool w. set (snd w pool)" and ?s = pbuf_pool_ex
  have e: "pbufs ?s = pbufs pbuf_state_ex" "net_world (pb_net ?s) = (([], []), \<lambda>_. [])" "pbuf_avail ?free ?s = {}" "payload_avail ?free ?s = {}"
    by (simp_all add: pbuf_pool_ex_def net_world_def pbuf_avail_def payload_avail_def mempool_avail_def)
  have h: "pchain (pbufs ?s) (Some 10) ([10] @ [20])" "distinct ([10] @ [20 :: nat])" "\<forall>q \<in> set [10]. pb_ref (pbufs ?s q) = 1"
    "[20 :: nat] \<noteq> [] \<longrightarrow> pb_ref (pbufs ?s (hd [20])) \<noteq> 1" by (simp_all add: e)
  have m: "mbufs_of (pbufs ?s) [10] = [3]" by (simp add: mbufs_of_def e)
  have a: "pools_apart net_env_pool ?free ?s"
    using net_env_pool_ok(2) by (simp add: pools_apart_def pool_ptr_def pbuf_pool_ex_def mempool_ex_def) (simp add: net_env_pool_def)
  have i: "set [10] \<inter> (pbuf_avail ?free ?s \<union> payload_avail ?free ?s) = {}" by (simp add: e)
  have t: "pb_type (pbufs ?s 10) = PBUF_ROM" by (simp add: e pbuf_ex_def)
  obtain s' where s': "pbuf_free net_env_pool (Some 10) ?s = Some (of_nat (length [10 :: nat]), s')" "snd (fst (net_world (pb_net s'))) = snd (fst (net_world (pb_net ?s))) @ [3]"
    "\<forall>q \<in> set [10]. pb_ref (pbufs s' q) = 0"
    "pbuf_avail ?free s' = {q \<in> set [10]. pb_type (pbufs ?s q) \<in> {PBUF_ROM, PBUF_REF}} \<union> pbuf_avail ?free ?s"
    "payload_avail ?free s' = {q \<in> set [10]. pb_type (pbufs ?s q) = PBUF_RAM} \<union> payload_avail ?free ?s"
    "\<forall>q. q \<notin> set [10] \<longrightarrow> pbufs s' q = (if [20 :: nat] \<noteq> [] \<and> q = hd [20] then (pbufs ?s q)\<lparr>pb_ref := pb_ref (pbufs ?s q) - 1\<rparr> else pbufs ?s q)"
    using pbuf_free_exact [OF net_env_pool_ok(1) h a i, unfolded m] by (elim exE conjE) (rule that)
  have "pb_ref (pbufs s' 20) = 1" using s'(6) [rule_format, of 20] by (simp add: e)
  moreover have "pbuf_avail ?free s' = {10}" "payload_avail ?free s' = {}" using s'(4,5) t e(3,4) by auto
  ultimately show ?thesis using s'(1-3) e(2) by auto
qed

end
