(* ===== verification/TcpState.thy ===== *)
theory TcpState
  imports PbufProps Usys
begin

text \<open>
  The state of TCP: options of the build (\<open>inc/lwip/lwipopts.h\<close>, \<open>inc/lwip/opt.h\<close>), sequence numbers,
  protocol control blocks, segments and headers (\<open>inc/lwip/tcp.h\<close>, \<open>inc/lwip/tcp_impl.h\<close>), the lists and
  timers of a flow group (\<open>inc/ix/ethfg.h\<close>), and the macros that register and remove a connection.
  A call that ends the process, or that follows a null pointer, returns \<open>None\<close>.
\<close>

unbundle bit_operations_syntax

section \<open>Options of the build\<close>

text \<open>
  \<open>TCP_WND\<close> is the text \<open>1 << 15\<close> without parentheses, so that \<open>TCP_WND / 2\<close> and the threshold
  \<open>(TCP_WND / 4)\<close> shift by less instead of dividing.
\<close>

definition TCP_WND :: u32 where "TCP_WND = push_bit 15 1"
definition TCP_WND_HALF :: u32 where "TCP_WND_HALF = push_bit (15 div 2) 1"
definition TCP_WND_UPDATE_THRESHOLD :: int where "TCP_WND_UPDATE_THRESHOLD = push_bit (15 div 4) 1"
definition TCP_MSS :: nat where "TCP_MSS = 8192"
definition TCP_SND_BUF :: nat where "TCP_SND_BUF = 65536 * 2"
definition TCP_SND_QUEUELEN :: nat where "TCP_SND_QUEUELEN = (4 * TCP_SND_BUF + (TCP_MSS - 1)) div TCP_MSS"
definition TCP_SNDQUEUELEN_OVERFLOW :: nat where "TCP_SNDQUEUELEN_OVERFLOW = 0xffff - 3"
definition TCP_OVERSIZE :: nat where "TCP_OVERSIZE = TCP_MSS"
definition TCP_RCV_SCALE :: u8 where "TCP_RCV_SCALE = 7"
definition TCP_TTL :: u8 where "TCP_TTL = 255"
definition TCP_MAXRTX :: u8 where "TCP_MAXRTX = 12"
definition TCP_SYNMAXRTX :: u8 where "TCP_SYNMAXRTX = 6"
definition TCP_HLEN :: nat where "TCP_HLEN = 20"
definition IP_HLEN :: nat where "IP_HLEN = 20"
definition ONE_MS :: nat where "ONE_MS = 1000"
definition RTO_UNITS :: int where "RTO_UNITS = int (500 * ONE_MS)"
definition TCP_ACK_DELAY :: u64 where "TCP_ACK_DELAY = of_nat (1 * ONE_MS)"
definition TCP_TMR_INTERVAL :: nat where "TCP_TMR_INTERVAL = 250"
definition TCP_SLOW_INTERVAL :: nat where "TCP_SLOW_INTERVAL = 2 * TCP_TMR_INTERVAL"
definition TCP_FIN_WAIT_TIMEOUT :: nat where "TCP_FIN_WAIT_TIMEOUT = 20000"
definition TCP_SYN_RCVD_TIMEOUT :: nat where "TCP_SYN_RCVD_TIMEOUT = 20000"
definition TCP_OOSEQ_TIMEOUT :: u32 where "TCP_OOSEQ_TIMEOUT = 6"
definition TCP_MSL :: nat where "TCP_MSL = 60000"
definition TCP_KEEPIDLE_DEFAULT :: nat where "TCP_KEEPIDLE_DEFAULT = 7200000"
definition TCP_KEEPINTVL_DEFAULT :: nat where "TCP_KEEPINTVL_DEFAULT = 75000"
definition TCP_KEEPCNT_DEFAULT :: nat where "TCP_KEEPCNT_DEFAULT = 9"
definition TCP_MAXIDLE :: nat where "TCP_MAXIDLE = TCP_KEEPCNT_DEFAULT * TCP_KEEPINTVL_DEFAULT"
definition TCP_ACTIVE_PCBS_MAX_BUCKETS :: nat where "TCP_ACTIVE_PCBS_MAX_BUCKETS = 512"
definition TCP_ACTIVE_PCBS_HASH_SEED :: u32 where "TCP_ACTIVE_PCBS_HASH_SEED = 0xa36bdcbe"
definition TCP_PRIO_NORMAL :: u8 where "TCP_PRIO_NORMAL = 64"
definition TCP_PRIO_MAX :: u8 where "TCP_PRIO_MAX = 127"
definition MAX_PACKETS_DELAYED_ACK :: u32 where "MAX_PACKETS_DELAYED_ACK = 2"

definition ERR_BUF :: int where "ERR_BUF = - 2"
definition ERR_INPROGRESS :: int where "ERR_INPROGRESS = - 5"
definition ERR_USE :: int where "ERR_USE = - 8"
definition ERR_ABRT :: int where "ERR_ABRT = - 10"
definition ERR_RST :: int where "ERR_RST = - 11"
definition ERR_CLSD :: int where "ERR_CLSD = - 12"
definition ERR_CONN :: int where "ERR_CONN = - 13"

definition TCP_FIN :: u16 where "TCP_FIN = 0x01"
definition TCP_SYN :: u16 where "TCP_SYN = 0x02"
definition TCP_RST :: u16 where "TCP_RST = 0x04"
definition TCP_PSH :: u16 where "TCP_PSH = 0x08"
definition TCP_ACK :: u16 where "TCP_ACK = 0x10"
definition TCP_FLAGS :: u16 where "TCP_FLAGS = 0x3f"

definition TF_ACK_NOW :: u16 where "TF_ACK_NOW = 0x0002"
definition TF_INFR :: u16 where "TF_INFR = 0x0004"
definition TF_RXCLOSED :: u16 where "TF_RXCLOSED = 0x0010"
definition TF_FIN :: u16 where "TF_FIN = 0x0020"
definition TF_NODELAY :: u16 where "TF_NODELAY = 0x0040"
definition TF_NAGLEMEMERR :: u16 where "TF_NAGLEMEMERR = 0x0080"
definition TF_WND_SCALE :: u16 where "TF_WND_SCALE = 0x0100"

definition TF_RESET :: u8 where "TF_RESET = 0x08"
definition TF_CLOSED :: u8 where "TF_CLOSED = 0x10"
definition TF_GOT_FIN :: u8 where "TF_GOT_FIN = 0x20"

definition TF_SEG_OPTS_MSS :: u8 where "TF_SEG_OPTS_MSS = 0x01"
definition TF_SEG_OPTS_TS :: u8 where "TF_SEG_OPTS_TS = 0x02"
definition TF_SEG_OPTS_WND_SCALE :: u8 where "TF_SEG_OPTS_WND_SCALE = 0x08"

definition SOF_ACCEPTCONN :: u8 where "SOF_ACCEPTCONN = 0x02"
definition SOF_REUSEADDR :: u8 where "SOF_REUSEADDR = 0x04"
definition SOF_KEEPALIVE :: u8 where "SOF_KEEPALIVE = 0x08"
definition SOF_LINGER :: u8 where "SOF_LINGER = 0x80"
definition SOF_INHERITED :: u8 where "SOF_INHERITED = SOF_REUSEADDR OR SOF_KEEPALIVE OR SOF_LINGER"

definition PBUF_FLAG_PUSH :: u8 where "PBUF_FLAG_PUSH = 0x01"
definition IP_PROTO_TCP :: u8 where "IP_PROTO_TCP = 6"

definition TCP_WRITE_FLAG_COPY :: u8 where "TCP_WRITE_FLAG_COPY = 0x01"
definition TCP_WRITE_FLAG_MORE :: u8 where "TCP_WRITE_FLAG_MORE = 0x02"

lemmas tcp_err_defs = ERR_OK_def ERR_MEM_def ERR_BUF_def ERR_INPROGRESS_def ERR_VAL_def ERR_USE_def ERR_ABRT_def ERR_RST_def ERR_CLSD_def
  ERR_CONN_def ERR_ARG_def

section \<open>Signed arithmetic\<close>

text \<open>An \<open>int\<close> that is assigned to an \<open>s16_t\<close>, and a product of \<open>int\<close>s.\<close>

definition s16 :: "int \<Rightarrow> int" where "s16 x = sint (word_of_int x :: u16)"
definition s32 :: "int \<Rightarrow> int" where "s32 x = sint (word_of_int x :: u32)"

section \<open>Sequence numbers\<close>

definition TCP_SEQ_LT :: "u32 \<Rightarrow> u32 \<Rightarrow> bool" where "TCP_SEQ_LT a b \<longleftrightarrow> sint (a - b) < 0"
definition TCP_SEQ_LEQ :: "u32 \<Rightarrow> u32 \<Rightarrow> bool" where "TCP_SEQ_LEQ a b \<longleftrightarrow> sint (a - b) \<le> 0"
definition TCP_SEQ_GT :: "u32 \<Rightarrow> u32 \<Rightarrow> bool" where "TCP_SEQ_GT a b \<longleftrightarrow> sint (a - b) > 0"
definition TCP_SEQ_GEQ :: "u32 \<Rightarrow> u32 \<Rightarrow> bool" where "TCP_SEQ_GEQ a b \<longleftrightarrow> sint (a - b) \<ge> 0"
definition TCP_SEQ_BETWEEN :: "u32 \<Rightarrow> u32 \<Rightarrow> u32 \<Rightarrow> bool" where
  "TCP_SEQ_BETWEEN a b c \<longleftrightarrow> TCP_SEQ_GEQ a b \<and> TCP_SEQ_LEQ a c"

section \<open>Data\<close>

datatype tcp_conn = CLOSED | LISTEN | SYN_SENT | SYN_RCVD | ESTABLISHED | FIN_WAIT_1 | FIN_WAIT_2 | CLOSE_WAIT | CLOSING | LAST_ACK | TIME_WAIT

fun state_nr :: "tcp_conn \<Rightarrow> nat" where
  "state_nr CLOSED = 0"
| "state_nr LISTEN = 1"
| "state_nr SYN_SENT = 2"
| "state_nr SYN_RCVD = 3"
| "state_nr ESTABLISHED = 4"
| "state_nr FIN_WAIT_1 = 5"
| "state_nr FIN_WAIT_2 = 6"
| "state_nr CLOSE_WAIT = 7"
| "state_nr CLOSING = 8"
| "state_nr LAST_ACK = 9"
| "state_nr TIME_WAIT = 10"

lemma state_nr_inject: "state_nr a = state_nr b \<longleftrightarrow> a = b" by (cases a; cases b) simp_all

text \<open>The code compares states by their numbers.\<close>

instantiation tcp_conn :: linorder
begin

definition less_eq_tcp_conn_def: "a \<le> b \<longleftrightarrow> state_nr a \<le> state_nr b"
definition less_tcp_conn_def: "a < b \<longleftrightarrow> state_nr a < state_nr b"

instance by standard (auto simp: less_eq_tcp_conn_def less_tcp_conn_def state_nr_inject)

end

text \<open>
  The protocol control block.  The queues of segments are the lists that the \<open>next\<close> pointers link,
  \<open>linked\<close> says whether \<open>link.prev\<close> is set, i.e. whether the block is on a list.
\<close>

record tcp_pcb =
  local_ip :: u32
  remote_ip :: u32
  so_options :: u8
  pcb_tos :: u8
  pcb_ttl :: u8
  linked :: bool
  timer_delayedack_expires :: u64
  timer_retransmit_expires :: u64
  timer_persist_expires :: u64
  callback_arg :: "ptr option"
  delayed_ack_counter :: u32
  pcb_state :: tcp_conn
  prio :: u8
  local_port :: u16
  remote_port :: u16
  pcb_flags :: u16
  polltmr :: u8
  pollinterval :: u8
  last_timer :: u8
  pcb_tmr :: u32
  rcv_nxt :: u32
  rcv_wnd :: u32
  rcv_ann_wnd :: u32
  rcv_ann_right_edge :: u32
  mss :: u16
  rttest :: u32
  rtseq :: u32
  rtt_sa :: int
  rtt_sv :: int
  rto :: int
  nrtx :: u8
  dupacks :: u8
  lastack :: u32
  cwnd :: u32
  ssthresh :: u32
  snd_nxt :: u32
  snd_wl1 :: u32
  snd_wl2 :: u32
  snd_lbb :: u32
  snd_wnd :: u32
  snd_wnd_max :: u32
  acked :: u32
  snd_buf :: u32
  snd_queuelen :: u16
  unsent_oversize :: u16
  unsent :: "ptr list"
  unacked :: "ptr list"
  ooseq :: "ptr list"
  refused_data :: "ptr option"
  keep_idle :: u32
  persist_cnt :: u8
  persist_backoff :: u8
  keep_cnt_sent :: u8
  snd_scale :: u8
  rcv_scale :: u8

record tcp_pcb_listen =
  l_local_ip :: u32
  l_so_options :: u8
  l_callback_arg :: "ptr option"
  l_state :: tcp_conn
  l_prio :: u8
  l_local_port :: u16

record tcp_seg =
  seg_p :: "ptr option"
  seg_len :: u16
  oversize_left :: u16
  seg_flags :: u8
  tcphdr :: nat

record lwip_tcp_hdr =
  hdr_src :: u16
  hdr_dest :: u16
  hdr_seqno :: u32
  hdr_ackno :: u32
  hdrlen_rsvd_flags :: u16
  hdr_wnd :: u16
  hdr_chksum :: u16
  hdr_urgp :: u16

text \<open>The hash table of the active connections, and the list of the buckets in use.\<close>

record eth_fg =
  fg_id :: u16
  tcp_active_pcb_changed :: bool
  tcp_timer :: bool
  tcp_timer_ctr :: bool
  iss :: u32
  tcp_ticks :: u32
  active_buckets :: "nat list"
  tw_pcbs :: "ptr list"
  bound_pcbs :: "ptr list"
  active_tbl :: "nat \<Rightarrow> ptr list"

record ip_tuple =
  src_ip :: u32
  dst_ip :: u32
  src_port :: u16
  dst_port :: u16

record tcpapi_pcb =
  alive :: bool
  api_pcb :: "ptr option"
  api_cookie :: u64
  api_id :: "ptr option"
  api_handle :: int
  recvd :: "ptr option"
  recvd_tail :: "ptr option"
  accepted :: bool

record 'w tcp_state =
  tc_pb :: "'w pbuf_state"
  pcbs :: "ptr \<Rightarrow> tcp_pcb"
  lpcbs :: "ptr \<Rightarrow> tcp_pcb_listen"
  segs :: "ptr \<Rightarrow> tcp_seg"
  cur_fg :: eth_fg
  listen_pcbs :: "ptr list"
  tcp_input_pcb :: "ptr option"
  apis :: "ptr \<Rightarrow> tcpapi_pcb"
  id_tuples :: "ptr \<Rightarrow> ip_tuple"
  handle2pcb_array :: "nat \<Rightarrow> ptr option"
  pcb_mempool :: mempool
  id_mempool :: mempool
  tcp_local_port :: u16
  usys_arr :: bsys_arr
  syscall_cookie :: u64

text \<open>
  What a call is made with: the environment and configuration of the network, the time stamp
  counter, the address of the flow group, the MTU that DPDK reports for port 0, and DPDK's flow
  director: whether the device has it, and the call that adds or deletes a filter for a queue.
\<close>

record 'w tcp_env =
  te_net :: "'w net_env"
  te_cfg :: net_cfg
  te_tsc :: u64
  te_fg :: ptr
  te_mtu :: u16
  fdir_supported :: "'w \<Rightarrow> int"
  fdir_ctrl :: "bool \<Rightarrow> ip_tuple \<Rightarrow> u32 \<Rightarrow> 'w \<Rightarrow> int \<times> 'w"

definition upd_pcb :: "ptr \<Rightarrow> (tcp_pcb \<Rightarrow> tcp_pcb) \<Rightarrow> 'w tcp_state \<Rightarrow> 'w tcp_state" where
  "upd_pcb p f s = s\<lparr>pcbs := (pcbs s)(p := f (pcbs s p))\<rparr>"

definition upd_seg :: "ptr \<Rightarrow> (tcp_seg \<Rightarrow> tcp_seg) \<Rightarrow> 'w tcp_state \<Rightarrow> 'w tcp_state" where
  "upd_seg p f s = s\<lparr>segs := (segs s)(p := f (segs s p))\<rparr>"

definition upd_fg :: "(eth_fg \<Rightarrow> eth_fg) \<Rightarrow> 'w tcp_state \<Rightarrow> 'w tcp_state" where
  "upd_fg f s = s\<lparr>cur_fg := f (cur_fg s)\<rparr>"

text \<open>Operations of the lower layers on the state.\<close>

definition on_pb :: "('w pbuf_state \<Rightarrow> 'w pbuf_state) \<Rightarrow> 'w tcp_state \<Rightarrow> 'w tcp_state" where
  "on_pb f s = s\<lparr>tc_pb := f (tc_pb s)\<rparr>"

definition ret_pb :: "('w pbuf_state \<Rightarrow> 'a \<times> 'w pbuf_state) \<Rightarrow> 'w tcp_state \<Rightarrow> 'a \<times> 'w tcp_state" where
  "ret_pb f s = (case f (tc_pb s) of (r, b) \<Rightarrow> (r, s\<lparr>tc_pb := b\<rparr>))"

definition try_pb :: "('w pbuf_state \<Rightarrow> ('a \<times> 'w pbuf_state) option) \<Rightarrow> 'w tcp_state \<Rightarrow> ('a \<times> 'w tcp_state) option" where
  "try_pb f s = map_option (\<lambda>(r, b). (r, s\<lparr>tc_pb := b\<rparr>)) (f (tc_pb s))"

definition run_pb :: "('w pbuf_state \<Rightarrow> 'w pbuf_state option) \<Rightarrow> 'w tcp_state \<Rightarrow> 'w tcp_state option" where
  "run_pb f s = map_option (\<lambda>b. s\<lparr>tc_pb := b\<rparr>) (f (tc_pb s))"

definition tc_net :: "'w tcp_state \<Rightarrow> 'w net_state" where "tc_net s = pb_net (tc_pb s)"

definition set_net :: "'w net_state \<Rightarrow> 'w tcp_state \<Rightarrow> 'w tcp_state" where
  "set_net n s = s\<lparr>tc_pb := (tc_pb s)\<lparr>pb_net := n\<rparr>\<rparr>"

definition run_tm :: "(unit timer_state \<Rightarrow> unit timer_state option) \<Rightarrow> 'w tcp_state \<Rightarrow> 'w tcp_state option" where
  "run_tm f s = map_option (\<lambda>t. set_net ((tc_net s)\<lparr>net_tm := t\<rparr>) s) (f (net_tm (tc_net s)))"

definition timer_now :: "'w tcp_state \<Rightarrow> u64" where "timer_now s = now_us (net_tm (tc_net s))"

section \<open>TCP headers in memory\<close>

definition get_hdr :: "(nat \<Rightarrow> u8) \<Rightarrow> nat \<Rightarrow> lwip_tcp_hdr" where
  "get_hdr m a =
     (let d = mbytes m a 20
      in \<lparr>hdr_src = load16 0 d, hdr_dest = load16 2 d, hdr_seqno = load32 4 d, hdr_ackno = load32 8 d,
          hdrlen_rsvd_flags = load16 12 d, hdr_wnd = load16 14 d, hdr_chksum = load16 16 d, hdr_urgp = load16 18 d\<rparr>)"

definition hdr_bytes :: "lwip_tcp_hdr \<Rightarrow> u8 list" where
  "hdr_bytes h = le_bytes 2 (unat (hdr_src h)) @ le_bytes 2 (unat (hdr_dest h)) @ le_bytes 4 (unat (hdr_seqno h)) @
     le_bytes 4 (unat (hdr_ackno h)) @ le_bytes 2 (unat (hdrlen_rsvd_flags h)) @ le_bytes 2 (unat (hdr_wnd h)) @
     le_bytes 2 (unat (hdr_chksum h)) @ le_bytes 2 (unat (hdr_urgp h))"

definition hdr :: "'w tcp_state \<Rightarrow> nat \<Rightarrow> lwip_tcp_hdr" where "hdr s a = get_hdr (pmem (tc_pb s)) a"

definition upd_hdr :: "nat \<Rightarrow> (lwip_tcp_hdr \<Rightarrow> lwip_tcp_hdr) \<Rightarrow> 'w tcp_state \<Rightarrow> 'w tcp_state" where
  "upd_hdr a f s = on_pb (\<lambda>b. b\<lparr>pmem := mwrite a (hdr_bytes (f (get_hdr (pmem b) a))) (pmem b)\<rparr>) s"

definition TCPH_HDRLEN :: "lwip_tcp_hdr \<Rightarrow> u16" where "TCPH_HDRLEN h = drop_bit 12 (ntoh16 (hdrlen_rsvd_flags h))"
definition TCPH_FLAGS :: "lwip_tcp_hdr \<Rightarrow> u16" where "TCPH_FLAGS h = ntoh16 (hdrlen_rsvd_flags h) AND TCP_FLAGS"

definition TCPH_FLAGS_SET :: "u16 \<Rightarrow> lwip_tcp_hdr \<Rightarrow> lwip_tcp_hdr" where
  "TCPH_FLAGS_SET fl h = h\<lparr>hdrlen_rsvd_flags := (hdrlen_rsvd_flags h AND hton16 (NOT TCP_FLAGS)) OR hton16 fl\<rparr>"

definition TCPH_HDRLEN_FLAGS_SET :: "u16 \<Rightarrow> u16 \<Rightarrow> lwip_tcp_hdr \<Rightarrow> lwip_tcp_hdr" where
  "TCPH_HDRLEN_FLAGS_SET n fl h = h\<lparr>hdrlen_rsvd_flags := hton16 (push_bit 12 n OR fl)\<rparr>"

definition TCPH_SET_FLAG :: "u16 \<Rightarrow> lwip_tcp_hdr \<Rightarrow> lwip_tcp_hdr" where
  "TCPH_SET_FLAG fl h = h\<lparr>hdrlen_rsvd_flags := hdrlen_rsvd_flags h OR hton16 fl\<rparr>"

text \<open>The sequence space a segment takes.  \<open>TCP_TCPLEN\<close> is given the length and the header.\<close>

definition TCP_TCPLEN :: "u16 \<Rightarrow> lwip_tcp_hdr \<Rightarrow> u32" where
  "TCP_TCPLEN n h = ucast n + (if TCPH_FLAGS h AND (TCP_FIN OR TCP_SYN) \<noteq> 0 then 1 else 0)"

text \<open>The header of a queued segment.\<close>

definition seg_hdr :: "'w tcp_state \<Rightarrow> ptr \<Rightarrow> lwip_tcp_hdr" where "seg_hdr s g = hdr s (tcphdr (segs s g))"

definition LWIP_TCP_OPT_LENGTH :: "u8 \<Rightarrow> nat" where
  "LWIP_TCP_OPT_LENGTH fl =
     (if fl AND TF_SEG_OPTS_MSS \<noteq> 0 then 4 else 0) + (if fl AND TF_SEG_OPTS_TS \<noteq> 0 then 0 else 0) +
     (if fl AND TF_SEG_OPTS_WND_SCALE \<noteq> 0 then 4 else 0)"

definition RCV_WND_SCALE :: "tcp_pcb \<Rightarrow> u32 \<Rightarrow> u32" where "RCV_WND_SCALE b wnd = drop_bit (unat (rcv_scale b)) wnd"
definition SND_WND_SCALE :: "tcp_pcb \<Rightarrow> u16 \<Rightarrow> u32" where "SND_WND_SCALE b wnd = push_bit (unat (snd_scale b)) (ucast wnd)"

text \<open>\<open>tcp_ack_now\<close>.\<close>

definition tcp_ack_now :: "ptr \<Rightarrow> 'w tcp_state \<Rightarrow> 'w tcp_state" where
  "tcp_ack_now p s = upd_pcb p (\<lambda>b. b\<lparr>pcb_flags := pcb_flags b OR TF_ACK_NOW\<rparr>) s"

section \<open>Lists and timers of connections\<close>

definition tcp_to_idx :: "u32 \<Rightarrow> u32 \<Rightarrow> u16 \<Rightarrow> u16 \<Rightarrow> nat" where
  "tcp_to_idx lip rip lport rport =
     (let i = hash_crc32c_two TCP_ACTIVE_PCBS_HASH_SEED (ucast lip) (ucast rip);
          i = hash_crc32c_one i (word_of_int (s32 (push_bit 16 (uint lport) OR uint rport)))
      in unat (i AND of_nat (TCP_ACTIVE_PCBS_MAX_BUCKETS - 1)))"

text \<open>The addresses of \<open>unified_timer\<close> and \<open>tcpip_timer\<close> in their structures, and the numbers of their handlers.\<close>

definition unified_timer :: "ptr \<Rightarrow> ptr" where "unified_timer p = p + 40"
definition tcpip_timer :: "ptr \<Rightarrow> ptr" where "tcpip_timer f = f + 56"
definition TCP_UNIFIED_TIMER_HANDLER :: nat where "TCP_UNIFIED_TIMER_HANDLER = 2"
definition TCPIP_TCP_TIMER :: nat where "TCPIP_TCP_TIMER = 3"

definition tc_timer_add :: "'w tcp_env \<Rightarrow> ptr \<Rightarrow> u64 \<Rightarrow> 'w tcp_state \<Rightarrow> 'w tcp_state option" where
  "tc_timer_add V t usecs s =
     run_tm (\<lambda>tm. map_option snd (timer_add (net_tw (tc_net s)) t (Some (te_fg V)) usecs (te_tsc V) tm)) s"

definition tc_timer_add_abs :: "'w tcp_env \<Rightarrow> ptr \<Rightarrow> u64 \<Rightarrow> 'w tcp_state \<Rightarrow> 'w tcp_state option" where
  "tc_timer_add_abs V t usecs s = run_tm (timer_add_abs (net_tw (tc_net s)) t (Some (te_fg V)) usecs) s"

definition tcp_timer_needed :: "'w tcp_env \<Rightarrow> 'w tcp_state \<Rightarrow> 'w tcp_state option" where
  "tcp_timer_needed V s =
     (if \<not> timer_pending (tcpip_timer (te_fg V)) (net_tm (tc_net s)) \<and>
         (active_buckets (cur_fg s) \<noteq> [] \<or> tw_pcbs (cur_fg s) \<noteq> [])
      then tc_timer_add V (tcpip_timer (te_fg V)) (of_nat (TCP_TMR_INTERVAL * ONE_MS)) s
      else Some s)"

text \<open>\<open>add\<close> puts the block on the list that \<open>TCP_REG\<close> is called with.\<close>

definition TCP_REG :: "'w tcp_env \<Rightarrow> (ptr \<Rightarrow> eth_fg \<Rightarrow> eth_fg) \<Rightarrow> ptr \<Rightarrow> 'w tcp_state \<Rightarrow> 'w tcp_state option" where
  "TCP_REG V add p s =
     (if linked (pcbs s p) then None
      else do {
        let s = upd_fg (add p) (upd_pcb p (\<lambda>b. b\<lparr>linked := True\<rparr>) s);
        s \<leftarrow> run_tm (\<lambda>tm. Some (timer_init_entry (unified_timer p) TCP_UNIFIED_TIMER_HANDLER tm)) s;
        tcp_timer_needed V s
      })"

definition TCP_REG_ACTIVE :: "'w tcp_env \<Rightarrow> ptr \<Rightarrow> nat \<Rightarrow> 'w tcp_state \<Rightarrow> 'w tcp_state option" where
  "TCP_REG_ACTIVE V p i s = do {
     let s = (if active_tbl (cur_fg s) i = [] \<and> i \<notin> set (active_buckets (cur_fg s))
              then upd_fg (\<lambda>f. f\<lparr>active_buckets := i # active_buckets f\<rparr>) s else s);
     s \<leftarrow> TCP_REG V (\<lambda>p f. f\<lparr>active_tbl := (active_tbl f)(i := p # active_tbl f i)\<rparr>) p s;
     Some (upd_fg (\<lambda>f. f\<lparr>tcp_active_pcb_changed := True\<rparr>) s)
   }"

text \<open>\<open>hlist_del\<close> of a block takes it off the list it is on; following the null pointer of a block that is on none ends the process.\<close>

definition pcb_hlist_del :: "ptr \<Rightarrow> 'w tcp_state \<Rightarrow> 'w tcp_state option" where
  "pcb_hlist_del p s =
     (if \<not> linked (pcbs s p) then None
      else Some (upd_fg (\<lambda>f. f\<lparr>active_tbl := (\<lambda>i. removeAll p (active_tbl f i)), tw_pcbs := removeAll p (tw_pcbs f),
                                bound_pcbs := removeAll p (bound_pcbs f)\<rparr>) s))"

text \<open>The bucket whose only block is \<open>p\<close> leaves the list of buckets.\<close>

definition TCP_RMV :: "ptr \<Rightarrow> 'w tcp_state \<Rightarrow> 'w tcp_state option" where
  "TCP_RMV p s = do {
     let s = upd_fg (\<lambda>f. f\<lparr>active_buckets := filter (\<lambda>i. active_tbl f i \<noteq> [p]) (active_buckets f)\<rparr>) s;
     s \<leftarrow> pcb_hlist_del p s;
     let s = upd_pcb p (\<lambda>b. b\<lparr>linked := False\<rparr>) s;
     run_tm (timer_del (unified_timer p)) s
   }"

definition TCP_RMV_ACTIVE :: "ptr \<Rightarrow> 'w tcp_state \<Rightarrow> 'w tcp_state option" where
  "TCP_RMV_ACTIVE p s = map_option (upd_fg (\<lambda>f. f\<lparr>tcp_active_pcb_changed := True\<rparr>)) (TCP_RMV p s)"

definition tcp_recompute_timers :: "'w tcp_env \<Rightarrow> ptr \<Rightarrow> 'w tcp_state \<Rightarrow> 'w tcp_state option" where
  "tcp_recompute_timers V p s =
     (let b = pcbs s p;
          first = (- 1 :: u64);
          first = (if timer_delayedack_expires b > 0 then timer_delayedack_expires b else first);
          first = (if timer_retransmit_expires b > 0 \<and> timer_retransmit_expires b < first then timer_retransmit_expires b else first);
          first = (if timer_persist_expires b > 0 \<and> timer_persist_expires b < first then timer_persist_expires b else first);
          tm = net_tm (tc_net s)
      in if timer_pending (unified_timer p) tm \<and> first \<ge> expires (timers tm (unified_timer p)) then Some s
         else do {
           s \<leftarrow> run_tm (timer_del (unified_timer p)) s;
           if first \<noteq> - 1 then tc_timer_add_abs V (unified_timer p) first s else Some s
         })"

definition tcp_ack :: "'w tcp_env \<Rightarrow> ptr \<Rightarrow> 'w tcp_state \<Rightarrow> 'w tcp_state option" where
  "tcp_ack V p s =
     (if timer_delayedack_expires (pcbs s p) > 0 then
        let s = upd_pcb p (\<lambda>b. b\<lparr>delayed_ack_counter := delayed_ack_counter b + 1\<rparr>) s
        in if delayed_ack_counter (pcbs s p) \<ge> MAX_PACKETS_DELAYED_ACK then
             map_option (tcp_ack_now p) (tcp_recompute_timers V p (upd_pcb p (\<lambda>b. b\<lparr>timer_delayedack_expires := 0\<rparr>) s))
           else Some s
      else if MAX_PACKETS_DELAYED_ACK = 1 then Some (tcp_ack_now p s)
      else tcp_recompute_timers V p
             (upd_pcb p (\<lambda>b. b\<lparr>delayed_ack_counter := 1, timer_delayedack_expires := timer_now s + TCP_ACK_DELAY\<rparr>) s))"

end
