(* ===== verification/TcpOut.thy ===== *)
theory TcpOut
  imports TcpState Checksum IpStack
begin

text \<open>
  Sending (\<open>net/tcp_out.c\<close>): queueing of data and flags in segments, output within the send and congestion
  windows, retransmission and probes, and the last steps to IP in \<open>net/tcp_api.c\<close> and \<open>net/ip.c\<close>.
\<close>

unbundle bit_operations_syntax

section \<open>Handing a segment to IP\<close>

text \<open>The bytes of a chain, as the loops that copy it into a packet see them.\<close>

partial_function (option) chain_data :: "'w pbuf_state \<Rightarrow> ptr option \<Rightarrow> u8 list option" where
  "chain_data s p =
     (case p of
        None \<Rightarrow> Some []
      | Some q \<Rightarrow> do {
          d \<leftarrow> chain_data s (pb_next (pbufs s q));
          Some (mbytes (pmem s) (payload (pbufs s q)) (unat (pb_len (pbufs s q))) @ d)
        })"

text \<open>\<open>iphdr\<close> fills in the IP header and the fields of the packet for the device.\<close>

definition send_pbufs ::
  "'w tcp_env \<Rightarrow> u32 \<Rightarrow> (rte_mbuf \<Rightarrow> rte_mbuf) \<Rightarrow> ptr \<Rightarrow> 'w tcp_state \<Rightarrow> (int \<times> 'w tcp_state) option" where
  "send_pbufs V dst_addr iphdr p s =
     (case mbuf_alloc_local (te_net V) (tc_net s) of
        (None, n) \<Rightarrow> Some (- ENOMEM, set_net n s)
      | (Some pkt, n) \<Rightarrow> do {
          let s = set_net n s;
          d \<leftarrow> chain_data (tc_pb s) (Some p);
          let n = upd_mbuf pkt (\<lambda>m. m\<lparr>mb_data := put 34 d (mb_data m)\<rparr>) (upd_mbuf pkt iphdr n);
          (ret, n) \<leftarrow> ip_send_one (te_net V) (te_cfg V) (te_tsc V) (te_fg V) dst_addr pkt
                        (14 + 20 + unat (tot_len (pbufs (tc_pb s) p))) n;
          Some (if ret \<noteq> 0 then (- EIO, set_net (mbuf_free (te_net V) pkt n) s) else (0, set_net n s))
        })"

definition tcp_output_packet :: "'w tcp_env \<Rightarrow> ptr \<Rightarrow> ptr \<Rightarrow> 'w tcp_state \<Rightarrow> (int \<times> 'w tcp_state) option" where
  "tcp_output_packet V pcb p s =
     (let b = pcbs s pcb
      in send_pbufs V (ntoh32 (remote_ip b))
           (\<lambda>m. m\<lparr>mb_data := store32 30 (remote_ip b) (store32 26 (local_ip b) (put 22 [pcb_ttl b] (put 15 [pcb_tos b]
                      (store16 24 0 (put 23 [IP_PROTO_TCP] (store16 20 0 (store16 18 0
                      (store16 16 (hton16 (20 + tot_len (pbufs (tc_pb s) p))) (put 14 [0x45] (mb_data m)))))))))),
                   ol_flags := ol_flags m OR (PKT_TX_IP_CKSUM (te_net V) OR PKT_TX_IPV4 (te_net V)) OR PKT_TX_TCP_CKSUM (te_net V),
                   l2_len := 14, l3_len := 20\<rparr>) p s)"

definition ip_output_hinted :: "'w tcp_env \<Rightarrow> ptr \<Rightarrow> u32 \<Rightarrow> u32 \<Rightarrow> u8 \<Rightarrow> u8 \<Rightarrow> u8 \<Rightarrow> 'w tcp_state \<Rightarrow> (int \<times> 'w tcp_state) option" where
  "ip_output_hinted V p src dest ttl tos proto s =
     send_pbufs V (ntoh32 dest)
       (\<lambda>m. m\<lparr>mb_data := put 22 [ttl] (put 15 [tos]
                  (ip_setup_header proto (ntoh32 src) (ntoh32 dest) (tot_len (pbufs (tc_pb s) p)) (mb_data m))),
               ol_flags := PKT_TX_IP_CKSUM (te_net V) OR PKT_TX_TCP_CKSUM (te_net V) OR PKT_TX_IPV4 (te_net V),
               l2_len := 14, l3_len := 20\<rparr>) p s"

section \<open>Segments\<close>

definition tcp_seg_free :: "'w tcp_env \<Rightarrow> ptr \<Rightarrow> 'w tcp_state \<Rightarrow> 'w tcp_state option" where
  "tcp_seg_free V g s = do {
     (_, s) \<leftarrow> (case seg_p (segs s g) of None \<Rightarrow> Some (0, s) | Some p \<Rightarrow> try_pb (pbuf_free (te_net V) (Some p)) s);
     Some (on_pb (memp_free (te_net V) MEMP_TCP_SEG g) s)
   }"

fun tcp_segs_free :: "'w tcp_env \<Rightarrow> ptr list \<Rightarrow> 'w tcp_state \<Rightarrow> 'w tcp_state option" where
  "tcp_segs_free V [] s = Some s"
| "tcp_segs_free V (g # gs) s = tcp_seg_free V g s \<bind> tcp_segs_free V gs"

text \<open>The MTU is read into an \<open>s16_t\<close>; \<open>ip_route\<close> never returns \<open>NULL\<close>.\<close>

definition tcp_eff_send_mss :: "'w tcp_env \<Rightarrow> u16 \<Rightarrow> u16" where
  "tcp_eff_send_mss V sendmss =
     (if te_mtu V \<noteq> 0 then min sendmss (word_of_int (s16 (uint (te_mtu V)) - int IP_HLEN - int TCP_HLEN)) else sendmss)"

text \<open>
  A buffer that starts with a TCP header.  All fields are set except \<open>chksum\<close>, which is 0.
\<close>

definition tcp_output_alloc_header ::
  "'w tcp_env \<Rightarrow> ptr \<Rightarrow> u16 \<Rightarrow> u16 \<Rightarrow> u32 \<Rightarrow> 'w tcp_state \<Rightarrow> ptr option \<times> 'w tcp_state" where
  "tcp_output_alloc_header V pcb optlen datalen seqno_be s =
     (case ret_pb (pbuf_alloc (te_net V) PBUF_IP (of_nat TCP_HLEN + optlen + datalen) PBUF_RAM) s of
        (None, s) \<Rightarrow> (None, s)
      | (Some p, s) \<Rightarrow>
          let b = pcbs s pcb;
              s = upd_hdr (payload (pbufs (tc_pb s) p))
                    (\<lambda>h. TCPH_HDRLEN_FLAGS_SET (5 + optlen div 4) TCP_ACK
                       (h\<lparr>hdr_src := hton16 (local_port b), hdr_dest := hton16 (remote_port b), hdr_seqno := seqno_be,
                          hdr_ackno := hton32 (rcv_nxt b), hdr_wnd := hton16 (ucast (RCV_WND_SCALE b (rcv_ann_wnd b))),
                          hdr_chksum := 0, hdr_urgp := 0\<rparr>)) s
          in (Some p, upd_pcb pcb (\<lambda>b. b\<lparr>rcv_ann_right_edge := rcv_nxt b + rcv_ann_wnd b\<rparr>) s))"

text \<open>The buffer is freed on failure; a segment whose buffer has no room for the header is freed with it.\<close>

definition tcp_create_segment ::
  "'w tcp_env \<Rightarrow> ptr \<Rightarrow> ptr \<Rightarrow> u16 \<Rightarrow> u32 \<Rightarrow> u8 \<Rightarrow> 'w tcp_state \<Rightarrow> (ptr option \<times> 'w tcp_state) option" where
  "tcp_create_segment V pcb p fl seqno optflags s =
     (case ret_pb (memp_malloc (te_net V) MEMP_TCP_SEG) s of
        (None, s) \<Rightarrow> do { (_, s) \<leftarrow> try_pb (pbuf_free (te_net V) (Some p)) s; Some (None, s) }
      | (Some g, s) \<Rightarrow> do {
          let optlen = LWIP_TCP_OPT_LENGTH optflags;
          let s = upd_seg g (\<lambda>x. x\<lparr>seg_flags := optflags, seg_p := Some p,
                    seg_len := tot_len (pbufs (tc_pb s) p) - of_nat optlen, oversize_left := 0\<rparr>) s;
          (r, s) \<leftarrow> try_pb (pbuf_header p (int TCP_HLEN)) s;
          if r \<noteq> 0 then do { s \<leftarrow> tcp_seg_free V g s; Some (None, s) }
          else do {
            let a = payload (pbufs (tc_pb s) p);
            let b = pcbs s pcb;
            let s = upd_seg g (\<lambda>x. x\<lparr>tcphdr := a\<rparr>) s;
            Some (Some g, upd_hdr a (\<lambda>h. TCPH_HDRLEN_FLAGS_SET (of_nat (5 + optlen div 4)) fl
                       (h\<lparr>hdr_src := hton16 (local_port b), hdr_dest := hton16 (remote_port b), hdr_seqno := hton32 seqno, hdr_urgp := 0\<rparr>)) s)
          }
        })"

text \<open>The result is the buffer and the number of usable bytes behind its data.\<close>

definition tcp_pbuf_prealloc ::
  "'w tcp_env \<Rightarrow> pbuf_layer \<Rightarrow> u16 \<Rightarrow> u16 \<Rightarrow> ptr \<Rightarrow> u8 \<Rightarrow> bool \<Rightarrow> 'w tcp_state \<Rightarrow> (ptr \<times> u16) option \<times> 'w tcp_state" where
  "tcp_pbuf_prealloc V layer n max_length pcb apiflags first_seg s =
     (let b = pcbs s pcb;
          alloc = (if n < max_length \<and> (apiflags AND TCP_WRITE_FLAG_MORE \<noteq> 0 \<or>
                        pcb_flags b AND TF_NODELAY = 0 \<and> (\<not> first_seg \<or> unsent b \<noteq> [] \<or> unacked b \<noteq> []))
                   then of_nat (min (unat max_length) (LWIP_MEM_ALIGN (unat n + TCP_OVERSIZE))) else n)
      in case ret_pb (pbuf_alloc (te_net V) layer alloc PBUF_RAM) s of
           (None, s) \<Rightarrow> (None, s)
         | (Some p, s) \<Rightarrow>
             (Some (p, pb_len (pbufs (tc_pb s) p) - n), on_pb (upd_pbuf p (\<lambda>x. x\<lparr>pb_len := n, tot_len := n\<rparr>)) s))"

section \<open>Queueing\<close>

definition tcp_write_checks :: "ptr \<Rightarrow> u16 \<Rightarrow> 'w tcp_state \<Rightarrow> int \<times> 'w tcp_state" where
  "tcp_write_checks pcb n s =
     (let b = pcbs s pcb;
          memerr = upd_pcb pcb (\<lambda>b. b\<lparr>pcb_flags := pcb_flags b OR TF_NAGLEMEMERR\<rparr>) s
      in if pcb_state b \<noteq> ESTABLISHED \<and> pcb_state b \<noteq> CLOSE_WAIT \<and> pcb_state b \<noteq> SYN_SENT \<and> pcb_state b \<noteq> SYN_RCVD
         then (ERR_CONN, s)
         else if n = 0 then (ERR_OK, s)
         else if ucast n > snd_buf b then (ERR_MEM, memerr)
         else if unat (snd_queuelen b) \<ge> TCP_SND_QUEUELEN \<or> unat (snd_queuelen b) > TCP_SNDQUEUELEN_OVERFLOW then (ERR_MEM, memerr)
         else (ERR_OK, s))"

text \<open>Phase 2 of \<open>tcp_write\<close>: a buffer with \<open>n\<close> bytes of the data at \<open>a\<close>, a copy or a reference.\<close>

definition write_concat ::
  "'w tcp_env \<Rightarrow> ptr \<Rightarrow> ptr \<Rightarrow> nat \<Rightarrow> u16 \<Rightarrow> u16 \<Rightarrow> u8 \<Rightarrow> u16 \<Rightarrow> 'w tcp_state \<Rightarrow> (ptr \<times> u16) option \<times> 'w tcp_state" where
  "write_concat V pcb last_unsent a n space apiflags oversize s =
     (if apiflags AND TCP_WRITE_FLAG_COPY \<noteq> 0 then
        case tcp_pbuf_prealloc V PBUF_RAW n space pcb apiflags True s of
          (None, s) \<Rightarrow> (None, s)
        | (Some (p, os), s) \<Rightarrow>
            let s = upd_seg last_unsent (\<lambda>x. x\<lparr>oversize_left := oversize_left x + os\<rparr>) s
            in (Some (p, os), on_pb (\<lambda>b. b\<lparr>pmem := memcpy (payload (pbufs b p)) a (unat n) (pmem b)\<rparr>) s)
      else
        case ret_pb (pbuf_alloc (te_net V) PBUF_RAW n PBUF_ROM) s of
          (None, s) \<Rightarrow> (None, s)
        | (Some p, s) \<Rightarrow> (Some (p, oversize), on_pb (upd_pbuf p (\<lambda>x. x\<lparr>payload := a\<rparr>)) s))"

text \<open>Phase 3: the buffers of one new segment.\<close>

definition write_segment ::
  "'w tcp_env \<Rightarrow> ptr \<Rightarrow> nat \<Rightarrow> u16 \<Rightarrow> u16 \<Rightarrow> u8 \<Rightarrow> u16 \<Rightarrow> bool \<Rightarrow> 'w tcp_state \<Rightarrow> ((ptr \<times> u16) option \<times> 'w tcp_state) option" where
  "write_segment V pcb a n mss_local apiflags oversize first s =
     (if apiflags AND TCP_WRITE_FLAG_COPY \<noteq> 0 then
        case tcp_pbuf_prealloc V PBUF_TRANSPORT n mss_local pcb apiflags first s of
          (None, s) \<Rightarrow> Some (None, s)
        | (Some (p, os), s) \<Rightarrow> Some (Some (p, os), on_pb (\<lambda>b. b\<lparr>pmem := memcpy (payload (pbufs b p)) a (unat n) (pmem b)\<rparr>) s)
      else
        case ret_pb (pbuf_alloc (te_net V) PBUF_TRANSPORT n PBUF_ROM) s of
          (None, s) \<Rightarrow> Some (None, s)
        | (Some p2, s) \<Rightarrow>
            let s = on_pb (upd_pbuf p2 (\<lambda>x. x\<lparr>payload := a\<rparr>)) s
            in case ret_pb (pbuf_alloc (te_net V) PBUF_TRANSPORT 0 PBUF_RAM) s of
                 (None, s) \<Rightarrow> do { (_, s) \<leftarrow> try_pb (pbuf_free (te_net V) (Some p2)) s; Some (None, s) }
               | (Some p, s) \<Rightarrow> do { s \<leftarrow> run_pb (pbuf_cat (Some p) (Some p2)) s; Some (Some (p, oversize), s) })"

text \<open>
  The loop of phase 3.  The queue is built up from its end; the result says whether all data was
  queued or memory ran out.
\<close>

partial_function (option) write_loop ::
  "'w tcp_env \<Rightarrow> ptr \<Rightarrow> nat \<Rightarrow> u16 \<Rightarrow> u8 \<Rightarrow> u16 \<Rightarrow> u16 \<Rightarrow> u16 \<Rightarrow> u16 \<Rightarrow> ptr list \<Rightarrow> 'w tcp_state \<Rightarrow>
     (bool \<times> u16 \<times> u16 \<times> ptr list \<times> 'w tcp_state) option" where
  "write_loop V pcb arg n apiflags mss_local pos oversize queuelen queue s =
     (if pos < n then do {
        let seglen = (if n - pos > mss_local then mss_local else n - pos);
        (r, s) \<leftarrow> write_segment V pcb (arg + unat pos) seglen mss_local apiflags oversize (queue = []) s;
        case r of
          None \<Rightarrow> Some (False, oversize, queuelen, queue, s)
        | Some (p, oversize) \<Rightarrow> do {
            k \<leftarrow> pbuf_clen (Some p) (tc_pb s);
            let queuelen = queuelen + ucast k;
            if unat queuelen > TCP_SND_QUEUELEN \<or> unat queuelen > TCP_SNDQUEUELEN_OVERFLOW then do {
              (_, s) \<leftarrow> try_pb (pbuf_free (te_net V) (Some p)) s;
              Some (False, oversize, queuelen, queue, s)
            } else do {
              (g, s) \<leftarrow> tcp_create_segment V pcb p 0 (snd_lbb (pcbs s pcb) + ucast pos) 0 s;
              case g of
                None \<Rightarrow> Some (False, oversize, queuelen, queue, s)
              | Some g \<Rightarrow>
                  write_loop V pcb arg n apiflags mss_local (pos + seglen) oversize queuelen (queue @ [g])
                    (upd_seg g (\<lambda>x. x\<lparr>oversize_left := oversize\<rparr>) s)
            }
          }
      } else Some (True, oversize, queuelen, queue, s))"

text \<open>The commit of phase 1: data fills the space behind the last buffer of the chain.\<close>

partial_function (option) oversize_loop :: "nat \<Rightarrow> u16 \<Rightarrow> ptr option \<Rightarrow> 'w pbuf_state \<Rightarrow> 'w pbuf_state option" where
  "oversize_loop arg used p s =
     (case p of
        None \<Rightarrow> Some s
      | Some q \<Rightarrow>
          let s = upd_pbuf q (\<lambda>b. b\<lparr>tot_len := tot_len b + used\<rparr>) s
          in case pb_next (pbufs s q) of
               Some r \<Rightarrow> oversize_loop arg used (Some r) s
             | None \<Rightarrow>
                 let s = s\<lparr>pmem := memcpy (payload (pbufs s q) + unat (pb_len (pbufs s q))) arg (unat used) (pmem s)\<rparr>
                 in Some (upd_pbuf q (\<lambda>b. b\<lparr>pb_len := pb_len b + used\<rparr>) s))"

definition write_memerr :: "'w tcp_env \<Rightarrow> ptr \<Rightarrow> ptr option \<Rightarrow> ptr list \<Rightarrow> 'w tcp_state \<Rightarrow> (int \<times> 'w tcp_state) option" where
  "write_memerr V pcb concat_p queue s = do {
     let s = upd_pcb pcb (\<lambda>b. b\<lparr>pcb_flags := pcb_flags b OR TF_NAGLEMEMERR\<rparr>) s;
     s \<leftarrow> (case concat_p of None \<Rightarrow> Some s | Some p \<Rightarrow> map_option snd (try_pb (pbuf_free (te_net V) (Some p)) s));
     s \<leftarrow> tcp_segs_free V queue s;
     Some (ERR_MEM, s)
   }"

definition write_commit ::
  "ptr \<Rightarrow> nat \<Rightarrow> u16 \<Rightarrow> u8 \<Rightarrow> ptr option \<Rightarrow> u16 \<Rightarrow> u16 \<Rightarrow> ptr option \<Rightarrow> ptr option \<Rightarrow> ptr list \<Rightarrow> u16 \<Rightarrow> 'w tcp_state \<Rightarrow>
     (int \<times> 'w tcp_state) option" where
  "write_commit pcb arg n apiflags last_unsent oversize_used oversize concat_p seg queue queuelen s = do {
     s \<leftarrow> (case last_unsent of
              None \<Rightarrow> Some s
            | Some g \<Rightarrow>
                if oversize_used > 0 then do {
                  s \<leftarrow> run_pb (oversize_loop arg oversize_used (seg_p (segs s g))) s;
                  Some (upd_seg g (\<lambda>x. x\<lparr>seg_len := seg_len x + oversize_used, oversize_left := oversize_left x - oversize_used\<rparr>) s)
                } else Some s);
     let s = upd_pcb pcb (\<lambda>b. b\<lparr>unsent_oversize := oversize\<rparr>) s;
     s \<leftarrow> (case (last_unsent, concat_p) of
              (Some g, Some p) \<Rightarrow> do {
                s \<leftarrow> run_pb (pbuf_cat (seg_p (segs s g)) (Some p)) s;
                Some (upd_seg g (\<lambda>x. x\<lparr>seg_len := seg_len x + tot_len (pbufs (tc_pb s) p)\<rparr>) s)
              }
            | _ \<Rightarrow> Some s);
     let s = upd_pcb pcb (\<lambda>b. b\<lparr>unsent := unsent b @ queue, snd_lbb := snd_lbb b + ucast n, snd_buf := snd_buf b - ucast n,
               snd_queuelen := queuelen\<rparr>) s;
     Some (ERR_OK, (case seg of
                      None \<Rightarrow> s
                    | Some g \<Rightarrow> if tcphdr (segs s g) \<noteq> 0 \<and> apiflags AND TCP_WRITE_FLAG_MORE = 0
                                then upd_hdr (tcphdr (segs s g)) (TCPH_SET_FLAG TCP_PSH) s else s))
   }"

definition tcp_write :: "'w tcp_env \<Rightarrow> ptr \<Rightarrow> nat \<Rightarrow> u16 \<Rightarrow> u8 \<Rightarrow> 'w tcp_state \<Rightarrow> (int \<times> 'w tcp_state) option" where
  "tcp_write V pcb arg n apiflags s =
     (if arg = 0 then None
      else case tcp_write_checks pcb n s of
        (err, s) \<Rightarrow>
          if err \<noteq> ERR_OK then Some (err, s)
          else do {
            let b = pcbs s pcb;
            let mss_local = of_nat (min (unat (mss b)) (unat (snd_wnd_max b div 2)));
            let queuelen = snd_queuelen b;
            let last_unsent = (if unsent b = [] then None else Some (last (unsent b)));
            let space = (case last_unsent of None \<Rightarrow> 0
                         | Some g \<Rightarrow> mss_local - (seg_len (segs s g) + of_nat (LWIP_TCP_OPT_LENGTH (seg_flags (segs s g)))));
            let oversize = (if last_unsent = None then 0 else unsent_oversize b);
            let used = (if oversize > 0 then (if oversize < n then oversize else n) else 0);
            let seg = (if oversize > 0 then last_unsent else None);
            let pos = used;
            let oversize = oversize - used;
            let space = space - used;
            let (r, seg, pos, oversize, queuelen', s) =
              (case last_unsent of
                 None \<Rightarrow> (Some None, seg, pos, oversize, Some queuelen, s)
               | Some g \<Rightarrow>
                   if pos < n \<and> space > 0 \<and> seg_len (segs s g) > 0 then
                     let seglen = (if space < n - pos then space else n - pos)
                     in case write_concat V pcb g (arg + unat pos) seglen space apiflags oversize s of
                          (None, s) \<Rightarrow> (None, Some g, pos, oversize, Some queuelen, s)
                        | (Some (p, os), s) \<Rightarrow>
                            (Some (Some p), Some g, pos + seglen, os, map_option (\<lambda>k. queuelen + ucast k) (pbuf_clen (Some p) (tc_pb s)), s)
                   else (Some None, seg, pos, oversize, Some queuelen, s));
            queuelen \<leftarrow> queuelen';
            case r of
              None \<Rightarrow> write_memerr V pcb None [] s
            | Some concat_p \<Rightarrow> do {
                (ok, oversize, queuelen, queue, s) \<leftarrow> write_loop V pcb arg n apiflags mss_local pos oversize queuelen [] s;
                if \<not> ok then write_memerr V pcb concat_p queue s
                else write_commit pcb arg n apiflags last_unsent used oversize concat_p
                       (if queue = [] then seg else Some (last queue)) queue queuelen s
              }
          })"

definition tcp_enqueue_flags :: "'w tcp_env \<Rightarrow> ptr \<Rightarrow> u16 \<Rightarrow> 'w tcp_state \<Rightarrow> (int \<times> 'w tcp_state) option" where
  "tcp_enqueue_flags V pcb fl s =
     (let b = pcbs s pcb;
          memerr = upd_pcb pcb (\<lambda>b. b\<lparr>pcb_flags := pcb_flags b OR TF_NAGLEMEMERR\<rparr>)
      in if unat (snd_queuelen b) \<ge> TCP_SND_QUEUELEN \<or> unat (snd_queuelen b) > TCP_SNDQUEUELEN_OVERFLOW then Some (ERR_MEM, memerr s)
         else
           let optflags = (if fl AND TCP_SYN \<noteq> 0 then
                             TF_SEG_OPTS_MSS OR (if pcb_state b \<noteq> SYN_RCVD \<or> pcb_flags b AND TF_WND_SCALE \<noteq> 0 then TF_SEG_OPTS_WND_SCALE else 0)
                           else 0)
           in if snd_buf b = 0 then Some (ERR_MEM, s)
              else case ret_pb (pbuf_alloc (te_net V) PBUF_TRANSPORT (of_nat (LWIP_TCP_OPT_LENGTH optflags)) PBUF_RAM) s of
                (None, s) \<Rightarrow> Some (ERR_MEM, memerr s)
              | (Some p, s) \<Rightarrow> do {
                  (g, s) \<leftarrow> tcp_create_segment V pcb p fl (snd_lbb b) optflags s;
                  case g of
                    None \<Rightarrow> Some (ERR_MEM, memerr s)
                  | Some g \<Rightarrow> do {
                      let s = upd_pcb pcb (\<lambda>b. b\<lparr>unsent := unsent b @ [g], unsent_oversize := 0\<rparr>) s;
                      let s = (if fl AND TCP_SYN \<noteq> 0 \<or> fl AND TCP_FIN \<noteq> 0
                               then upd_pcb pcb (\<lambda>b. b\<lparr>snd_lbb := snd_lbb b + 1, snd_buf := snd_buf b - 1\<rparr>) s else s);
                      let s = (if fl AND TCP_FIN \<noteq> 0 then upd_pcb pcb (\<lambda>b. b\<lparr>pcb_flags := pcb_flags b OR TF_FIN\<rparr>) s else s);
                      k \<leftarrow> pbuf_clen (seg_p (segs s g)) (tc_pb s);
                      Some (ERR_OK, upd_pcb pcb (\<lambda>b. b\<lparr>snd_queuelen := snd_queuelen b + ucast k\<rparr>) s)
                    }
                })"

definition tcp_send_fin :: "'w tcp_env \<Rightarrow> ptr \<Rightarrow> 'w tcp_state \<Rightarrow> (int \<times> 'w tcp_state) option" where
  "tcp_send_fin V pcb s =
     (let b = pcbs s pcb; g = last (unsent b)
      in if unsent b \<noteq> [] \<and> TCPH_FLAGS (seg_hdr s g) AND (TCP_SYN OR TCP_FIN OR TCP_RST) = 0 then
           Some (ERR_OK, upd_pcb pcb (\<lambda>b. b\<lparr>pcb_flags := pcb_flags b OR TF_FIN\<rparr>)
                           (upd_hdr (tcphdr (segs s g)) (TCPH_SET_FLAG TCP_FIN) s))
         else tcp_enqueue_flags V pcb TCP_FIN s)"

section \<open>Sending\<close>

definition tcp_send_empty_ack :: "'w tcp_env \<Rightarrow> ptr \<Rightarrow> 'w tcp_state \<Rightarrow> (int \<times> 'w tcp_state) option" where
  "tcp_send_empty_ack V pcb s =
     (case tcp_output_alloc_header V pcb 0 0 (hton32 (snd_nxt (pcbs s pcb))) s of
        (None, s) \<Rightarrow> Some (ERR_BUF, s)
      | (Some p, s) \<Rightarrow> do {
          let s = upd_pcb pcb (\<lambda>b. b\<lparr>pcb_flags := pcb_flags b AND NOT TF_ACK_NOW, timer_delayedack_expires := 0\<rparr>) s;
          s \<leftarrow> tcp_recompute_timers V pcb s;
          let b = pcbs s pcb;
     let x = pbufs (tc_pb s) p;
          let s = upd_hdr (payload x) (\<lambda>h. h\<lparr>hdr_chksum := inet_chksum_pseudo (tot_len x) IP_PROTO_TCP (local_ip b) (remote_ip b)\<rparr>) s;
          (_, s) \<leftarrow> tcp_output_packet V pcb p s;
          (_, s) \<leftarrow> try_pb (pbuf_free (te_net V) (Some p)) s;
          Some (ERR_OK, s)
        })"

text \<open>The address of the interface that \<open>ip_route\<close> returns, a variable that is never written.\<close>

definition NETIF_IP_ADDR :: u32 where "NETIF_IP_ADDR = 0"

definition rto_usecs :: "tcp_pcb \<Rightarrow> u64" where "rto_usecs b = word_of_int (s32 (rto b * RTO_UNITS))"

definition TCP_BUILD_MSS_OPTION :: "u16 \<Rightarrow> u32" where "TCP_BUILD_MSS_OPTION m = hton32 (0x02040000 OR (ucast m AND 0xFFFF))"

definition put_opt :: "nat \<Rightarrow> u32 \<Rightarrow> 'w tcp_state \<Rightarrow> 'w tcp_state" where
  "put_opt a v s = on_pb (\<lambda>b. b\<lparr>pmem := mwrite a (le_bytes 4 (unat v)) (pmem b)\<rparr>) s"

definition tcp_build_wnd_scale_option :: "nat \<Rightarrow> 'w tcp_state \<Rightarrow> 'w tcp_state" where
  "tcp_build_wnd_scale_option a s = put_opt a (hton32 (0x01030300 OR ucast TCP_RCV_SCALE)) s"

definition tcp_output_segment :: "'w tcp_env \<Rightarrow> ptr \<Rightarrow> ptr \<Rightarrow> 'w tcp_state \<Rightarrow> 'w tcp_state option" where
  "tcp_output_segment V g pcb s = do {
     let x = segs s g;
     let a = tcphdr x;
     let b = pcbs s pcb;
     let s = upd_hdr a (\<lambda>h. h\<lparr>hdr_ackno := hton32 (rcv_nxt b),
               hdr_wnd := hton16 (ucast (if seg_flags x AND TF_SEG_OPTS_WND_SCALE \<noteq> 0 then rcv_ann_wnd b else RCV_WND_SCALE b (rcv_ann_wnd b)))\<rparr>) s;
     let s = upd_pcb pcb (\<lambda>b. b\<lparr>rcv_ann_right_edge := rcv_nxt b + rcv_ann_wnd b\<rparr>) s;
     let opts = a + TCP_HLEN;
     let (opts, s) = (if seg_flags x AND TF_SEG_OPTS_MSS \<noteq> 0
                      then (opts + 4, put_opt opts (TCP_BUILD_MSS_OPTION (tcp_eff_send_mss V (of_nat TCP_MSS))) s) else (opts, s));
     let s = (if seg_flags x AND TF_SEG_OPTS_WND_SCALE \<noteq> 0 then tcp_build_wnd_scale_option opts s else s);
     let s = upd_pcb pcb (\<lambda>b. b\<lparr>timer_retransmit_expires := timer_now s + rto_usecs b\<rparr>) s;
     s \<leftarrow> tcp_recompute_timers V pcb s;
     let s = (if local_ip (pcbs s pcb) = 0 then upd_pcb pcb (\<lambda>b. b\<lparr>local_ip := NETIF_IP_ADDR\<rparr>) s else s);
     let s = (if rttest (pcbs s pcb) = 0
              then upd_pcb pcb (\<lambda>b. b\<lparr>rttest := tcp_ticks (cur_fg s), rtseq := ntoh32 (hdr_seqno (hdr s a))\<rparr>) s else s);
     p \<leftarrow> seg_p x;
     let n = word_of_int (int a - int (payload (pbufs (tc_pb s) p)));
     let s = on_pb (upd_pbuf p (\<lambda>y. y\<lparr>pb_len := pb_len y - n, tot_len := tot_len y - n, payload := a\<rparr>)) s;
     let s = upd_hdr a (\<lambda>h. h\<lparr>hdr_chksum := 0\<rparr>) s;
     let b = pcbs s pcb;
     let s = upd_hdr a (\<lambda>h. h\<lparr>hdr_chksum := inet_chksum_pseudo (tot_len (pbufs (tc_pb s) p)) IP_PROTO_TCP (local_ip b) (remote_ip b)\<rparr>) s;
     map_option snd (tcp_output_packet V pcb p s)
   }"

definition tcp_do_output_nagle :: "'w tcp_state \<Rightarrow> ptr \<Rightarrow> bool" where
  "tcp_do_output_nagle s pcb \<longleftrightarrow>
     (let b = pcbs s pcb
      in unacked b = [] \<or> pcb_flags b AND (TF_NODELAY OR TF_INFR) \<noteq> 0 \<or>
         (unsent b \<noteq> [] \<and> (tl (unsent b) \<noteq> [] \<or> seg_len (segs s (hd (unsent b))) \<ge> mss b)) \<or>
         snd_buf b = 0 \<or> unat (snd_queuelen b) \<ge> TCP_SND_QUEUELEN)"

text \<open>The sequence number of an outgoing segment, and the place of a segment in a sorted queue.\<close>

definition seg_seqno :: "'w tcp_state \<Rightarrow> ptr \<Rightarrow> u32" where "seg_seqno s g = ntoh32 (hdr_seqno (seg_hdr s g))"

definition seg_insert :: "'w tcp_state \<Rightarrow> ptr \<Rightarrow> ptr list \<Rightarrow> ptr list" where
  "seg_insert s g gs =
     (let before = \<lambda>x. TCP_SEQ_LT (seg_seqno s x) (seg_seqno s g) in takeWhile before gs @ g # dropWhile before gs)"

definition seg_fits :: "'w tcp_state \<Rightarrow> ptr \<Rightarrow> u32 \<Rightarrow> ptr \<Rightarrow> bool" where
  "seg_fits s pcb wnd g \<longleftrightarrow> seg_seqno s g - lastack (pcbs s pcb) + ucast (seg_len (segs s g)) \<le> wnd"

text \<open>One round of the loop: the first unsent segment is sent and put on the list of unacknowledged ones.\<close>

definition output_one :: "'w tcp_env \<Rightarrow> ptr \<Rightarrow> ptr \<Rightarrow> 'w tcp_state \<Rightarrow> 'w tcp_state option" where
  "output_one V pcb g s = do {
     let s = upd_pcb pcb (\<lambda>b. b\<lparr>unsent := tl (unsent b)\<rparr>) s;
     s \<leftarrow> (if pcb_state (pcbs s pcb) \<noteq> SYN_SENT then
              tcp_recompute_timers V pcb
                (upd_pcb pcb (\<lambda>b. b\<lparr>pcb_flags := pcb_flags b AND NOT TF_ACK_NOW, timer_delayedack_expires := 0\<rparr>)
                  (upd_hdr (tcphdr (segs s g)) (TCPH_SET_FLAG TCP_ACK) s))
            else Some s);
     let s = upd_seg g (\<lambda>x. x\<lparr>oversize_left := 0\<rparr>) s;
     s \<leftarrow> tcp_output_segment V g pcb s;
     let n = TCP_TCPLEN (seg_len (segs s g)) (seg_hdr s g);
     let nx = seg_seqno s g + n;
     let s = (if TCP_SEQ_LT (snd_nxt (pcbs s pcb)) nx then upd_pcb pcb (\<lambda>b. b\<lparr>snd_nxt := nx\<rparr>) s else s);
     if n > 0 then
       Some (upd_pcb pcb (\<lambda>b. b\<lparr>unacked :=
               (if unacked b = [] then [g]
                else if TCP_SEQ_LT (seg_seqno s g) (seg_seqno s (last (unacked b))) then seg_insert s g (unacked b)
                else unacked b @ [g])\<rparr>) s)
     else tcp_seg_free V g s
   }"

partial_function (option) output_loop :: "'w tcp_env \<Rightarrow> ptr \<Rightarrow> u32 \<Rightarrow> 'w tcp_state \<Rightarrow> 'w tcp_state option" where
  "output_loop V pcb wnd s =
     (let b = pcbs s pcb
      in if unsent b \<noteq> [] \<and> seg_fits s pcb wnd (hd (unsent b)) \<and>
            (tcp_do_output_nagle s pcb \<or> pcb_flags b AND (TF_NAGLEMEMERR OR TF_FIN) \<noteq> 0)
         then do { s \<leftarrow> output_one V pcb (hd (unsent b)) s; output_loop V pcb wnd s }
         else Some s)"

definition tcp_output :: "'w tcp_env \<Rightarrow> ptr \<Rightarrow> 'w tcp_state \<Rightarrow> (int \<times> 'w tcp_state) option" where
  "tcp_output V pcb s =
     (let b = pcbs s pcb; wnd = min (snd_wnd b) (cwnd b)
      in if tcp_input_pcb s = Some pcb then Some (ERR_OK, s)
         else if pcb_flags b AND TF_ACK_NOW \<noteq> 0 \<and> (unsent b = [] \<or> \<not> seg_fits s pcb wnd (hd (unsent b)))
         then tcp_send_empty_ack V pcb s
         else do {
           s \<leftarrow> output_loop V pcb wnd s;
           Some (ERR_OK, upd_pcb pcb (\<lambda>b. b\<lparr>unsent_oversize := (if unsent b = [] then 0 else unsent_oversize b),
                            pcb_flags := pcb_flags b AND NOT TF_NAGLEMEMERR\<rparr>) s)
         })"

definition tcp_rst :: "'w tcp_env \<Rightarrow> u32 \<Rightarrow> u32 \<Rightarrow> u32 \<Rightarrow> u32 \<Rightarrow> u16 \<Rightarrow> u16 \<Rightarrow> 'w tcp_state \<Rightarrow> 'w tcp_state option" where
  "tcp_rst V seqno ackno lip rip lport rport s =
     (case ret_pb (pbuf_alloc (te_net V) PBUF_IP (of_nat TCP_HLEN) PBUF_RAM) s of
        (None, s) \<Rightarrow> Some s
      | (Some p, s) \<Rightarrow> do {
          let x = pbufs (tc_pb s) p;
          let s = upd_hdr (payload x) (\<lambda>h. TCPH_HDRLEN_FLAGS_SET (of_nat (TCP_HLEN div 4)) (TCP_RST OR TCP_ACK)
                    (h\<lparr>hdr_src := hton16 lport, hdr_dest := hton16 rport, hdr_seqno := hton32 seqno, hdr_ackno := hton32 ackno,
                       hdr_wnd := hton16 (ucast (drop_bit (unat TCP_RCV_SCALE) TCP_WND AND 0xFFFF)),
                       hdr_chksum := inet_chksum_pseudo (tot_len x) IP_PROTO_TCP lip rip, hdr_urgp := 0\<rparr>)) s;
          (_, s) \<leftarrow> ip_output_hinted V p lip rip TCP_TTL 0 IP_PROTO_TCP s;
          map_option snd (try_pb (pbuf_free (te_net V) (Some p)) s)
        })"

section \<open>Retransmission and probes\<close>

definition tcp_rexmit_rto :: "'w tcp_env \<Rightarrow> ptr \<Rightarrow> 'w tcp_state \<Rightarrow> 'w tcp_state option" where
  "tcp_rexmit_rto V pcb s =
     (let b = pcbs s pcb
      in if unacked b = [] then Some s
         else
           let over = (if unsent b = [] then oversize_left (segs s (last (unacked b))) else unsent_oversize b);
               s = upd_pcb pcb (\<lambda>b. b\<lparr>unsent_oversize := over, unsent := unacked b @ unsent b, unacked := [], nrtx := nrtx b + 1, rttest := 0\<rparr>) s
           in map_option snd (tcp_output V pcb s))"

definition tcp_rexmit :: "ptr \<Rightarrow> 'w tcp_state \<Rightarrow> 'w tcp_state" where
  "tcp_rexmit pcb s =
     (case unacked (pcbs s pcb) of
        [] \<Rightarrow> s
      | g # gs \<Rightarrow>
          upd_pcb pcb (\<lambda>b. let q = seg_insert s g (unsent b)
                           in b\<lparr>unacked := gs, unsent := q, unsent_oversize := (if last q = g then 0 else unsent_oversize b),
                                nrtx := nrtx b + 1, rttest := 0\<rparr>) s)"

definition tcp_rexmit_fast :: "ptr \<Rightarrow> 'w tcp_state \<Rightarrow> 'w tcp_state" where
  "tcp_rexmit_fast pcb s =
     (if unacked (pcbs s pcb) \<noteq> [] \<and> pcb_flags (pcbs s pcb) AND TF_INFR = 0 then
        upd_pcb pcb (\<lambda>b. let th = (if cwnd b > snd_wnd b then snd_wnd b div 2 else cwnd b div 2);
                             th = (if th < 2 * ucast (mss b) then 2 * ucast (mss b) else th)
                         in b\<lparr>ssthresh := th, cwnd := th + 3 * ucast (mss b), pcb_flags := pcb_flags b OR TF_INFR\<rparr>) (tcp_rexmit pcb s)
      else s)"

text \<open>The checksum is filled in and the packet is sent and released.\<close>

definition send_probe :: "'w tcp_env \<Rightarrow> ptr \<Rightarrow> ptr \<Rightarrow> 'w tcp_state \<Rightarrow> 'w tcp_state option" where
  "send_probe V pcb p s = do {
     let b = pcbs s pcb;
     let x = pbufs (tc_pb s) p;
     let s = upd_hdr (payload x) (\<lambda>h. h\<lparr>hdr_chksum := inet_chksum_pseudo (tot_len x) IP_PROTO_TCP (local_ip b) (remote_ip b)\<rparr>) s;
     (_, s) \<leftarrow> tcp_output_packet V pcb p s;
     map_option snd (try_pb (pbuf_free (te_net V) (Some p)) s)
   }"

definition tcp_keepalive :: "'w tcp_env \<Rightarrow> ptr \<Rightarrow> 'w tcp_state \<Rightarrow> 'w tcp_state option" where
  "tcp_keepalive V pcb s =
     (case tcp_output_alloc_header V pcb 0 0 (hton32 (snd_nxt (pcbs s pcb) - 1)) s of
        (None, s) \<Rightarrow> Some s
      | (Some p, s) \<Rightarrow> send_probe V pcb p s)"

definition tcp_zero_window_probe :: "'w tcp_env \<Rightarrow> ptr \<Rightarrow> 'w tcp_state \<Rightarrow> 'w tcp_state option" where
  "tcp_zero_window_probe V pcb s =
     (case unacked (pcbs s pcb) @ unsent (pcbs s pcb) of
        [] \<Rightarrow> Some s
      | g # _ \<Rightarrow>
          let is_fin = (TCPH_FLAGS (seg_hdr s g) AND TCP_FIN \<noteq> 0 \<and> seg_len (segs s g) = 0)
          in case tcp_output_alloc_header V pcb 0 (if is_fin then 0 else 1) (hdr_seqno (seg_hdr s g)) s of
               (None, s) \<Rightarrow> Some s
             | (Some p, s) \<Rightarrow> do {
                 let a = payload (pbufs (tc_pb s) p);
                 s \<leftarrow> (if is_fin then Some (upd_hdr a (TCPH_FLAGS_SET (TCP_ACK OR TCP_FIN)) s)
                        else do {
                          q \<leftarrow> seg_p (segs s g);
                          map_option snd (try_pb (pbuf_copy_partial (Some q) (a + TCP_HLEN) 1 (tot_len (pbufs (tc_pb s) q) - seg_len (segs s g))) s)
                        });
                 send_probe V pcb p s
               })"

end
