(* ===== verification/TcpEvents.thy ===== *)
theory TcpEvents
  imports TcpOut
begin

text \<open>
  The events that TCP raises and their handlers in \<open>net/tcp_api.c\<close>, which hand received data, new and
  dead connections to the application by descriptors.
\<close>

unbundle bit_operations_syntax

section \<open>The side of the application\<close>

definition RET_FAULT :: int where "RET_FAULT = 5"
definition RET_CONNREFUSED :: int where "RET_CONNREFUSED = 10"
definition MAX_PCBS :: nat where "MAX_PCBS = 512 * 1024"

definition upd_api :: "ptr \<Rightarrow> (tcpapi_pcb \<Rightarrow> tcpapi_pcb) \<Rightarrow> 'w tcp_state \<Rightarrow> 'w tcp_state" where
  "upd_api a f s = s\<lparr>apis := (apis s)(a := f (apis s a))\<rparr>"

definition upd_usys :: "(bsys_arr \<Rightarrow> bsys_arr) \<Rightarrow> 'w tcp_state \<Rightarrow> 'w tcp_state" where
  "upd_usys f s = s\<lparr>usys_arr := f (usys_arr s)\<rparr>"

definition upd_pkt :: "ptr \<Rightarrow> (rte_mbuf \<Rightarrow> rte_mbuf) \<Rightarrow> 'w tcp_state \<Rightarrow> 'w tcp_state" where
  "upd_pkt m f s = set_net (upd_mbuf m f (tc_net s)) s"

text \<open>The first free position of the table of handles is taken; a full table fails an assertion.\<close>

definition tcpapi_to_handle :: "ptr \<Rightarrow> 'w tcp_state \<Rightarrow> (int \<times> 'w tcp_state) option" where
  "tcpapi_to_handle a s =
     (case find (\<lambda>i. handle2pcb_array s i = None) [0..<MAX_PCBS] of
        None \<Rightarrow> None
      | Some i \<Rightarrow>
          Some (sint (of_nat i OR push_bit 48 (ucast (fg_id (cur_fg s)) :: u64)),
                s\<lparr>handle2pcb_array := (handle2pcb_array s)(i := Some a)\<rparr>))"

text \<open>The packet of every buffer is written without a test for \<open>NULL\<close>.\<close>

partial_function (option) recv_a_pbuf :: "ptr \<Rightarrow> ptr \<Rightarrow> 'w tcp_state \<Rightarrow> 'w tcp_state option" where
  "recv_a_pbuf a p s = do {
     let b = pbufs (tc_pb s) p;
     pkt \<leftarrow> pb_mbuf b;
     let s = upd_pkt pkt (\<lambda>m. m\<lparr>pkt_len := ucast (pb_len b), data_len := pb_len b\<rparr>) s;
     let s = upd_usys (\<lambda>u. usys_tcp_recv u (api_handle (apis s a)) (api_cookie (apis s a)) (of_nat (payload b)) (ucast (pb_len b))) s;
     case pb_next b of None \<Rightarrow> Some s | Some q \<Rightarrow> recv_a_pbuf a q s
   }"

text \<open>The filter names the flow from the other side.\<close>

definition fdir_filter :: "ip_tuple \<Rightarrow> ip_tuple" where
  "fdir_filter t = \<lparr>src_ip = hton32 (dst_ip t), dst_ip = hton32 (src_ip t), src_port = hton16 (dst_port t), dst_port = hton16 (src_port t)\<rparr>"

definition set_fdir :: "'w tcp_env \<Rightarrow> bool \<Rightarrow> ip_tuple \<Rightarrow> 'w tcp_state \<Rightarrow> int \<times> 'w tcp_state" where
  "set_fdir V add t s =
     (case fdir_ctrl V add (fdir_filter t) (cpu_id (tc_net s)) (net_world (tc_net s)) of
        (r, w) \<Rightarrow> (r, set_net (set_net_world w (tc_net s)) s))"

definition remove_fdir_filter :: "'w tcp_env \<Rightarrow> ptr \<Rightarrow> 'w tcp_state \<Rightarrow> 'w tcp_state" where
  "remove_fdir_filter V i s = snd (set_fdir V False (id_tuples s i) s)"

definition mark_dead :: "'w tcp_env \<Rightarrow> ptr option \<Rightarrow> u64 \<Rightarrow> 'w tcp_state \<Rightarrow> 'w tcp_state" where
  "mark_dead V api cookie s =
     (case api of
        None \<Rightarrow> upd_usys (\<lambda>u. usys_tcp_dead u 0 cookie) s
      | Some a \<Rightarrow>
          let s = (case api_id (apis s a) of None \<Rightarrow> s | Some i \<Rightarrow> remove_fdir_filter V i s);
              s = upd_api a (\<lambda>x. x\<lparr>alive := False\<rparr>) s
          in upd_usys (\<lambda>u. usys_tcp_dead u (api_handle (apis s a)) (api_cookie (apis s a))) s)"

text \<open>A buffer is put at the end of the list of the received ones; an end of the stream follows the null pointer of a connection without an argument.\<close>

definition on_recv :: "'w tcp_env \<Rightarrow> ptr option \<Rightarrow> ptr option \<Rightarrow> 'w tcp_state \<Rightarrow> (int \<times> 'w tcp_state) option" where
  "on_recv V api pb s = do {
     a \<leftarrow> api;
     case pb of
       None \<Rightarrow> Some (ERR_OK, mark_dead V (Some a) (api_cookie (apis s a)) s)
     | Some p \<Rightarrow> do {
         s \<leftarrow> (case recvd (apis s a) of
                  None \<Rightarrow> Some (upd_api a (\<lambda>x. x\<lparr>recvd := Some p, recvd_tail := Some p\<rparr>) s)
                | Some _ \<Rightarrow> do {
                    t \<leftarrow> recvd_tail (apis s a);
                    Some (upd_api a (\<lambda>x. x\<lparr>recvd_tail := Some p\<rparr>) (on_pb (upd_pbuf t (\<lambda>b. b\<lparr>tcp_api_next := Some p\<rparr>)) s))
                  });
         let s = on_pb (upd_pbuf p (\<lambda>b. b\<lparr>tcp_api_next := None\<rparr>)) s;
         if \<not> accepted (apis s a) then Some (ERR_OK, s)
         else do { s \<leftarrow> recv_a_pbuf a p s; Some (ERR_OK, s) }
       }
   }"

definition on_err :: "'w tcp_env \<Rightarrow> ptr option \<Rightarrow> int \<Rightarrow> 'w tcp_state \<Rightarrow> 'w tcp_state" where
  "on_err V arg err s =
     (case arg of
        None \<Rightarrow> s
      | Some a \<Rightarrow>
          if err = ERR_ABRT \<or> err = ERR_RST \<or> err = ERR_CLSD
          then upd_api a (\<lambda>x. x\<lparr>api_pcb := None\<rparr>) (mark_dead V (Some a) (api_cookie (apis s a)) s)
          else s)"

definition on_sent :: "ptr option \<Rightarrow> u16 \<Rightarrow> 'w tcp_state \<Rightarrow> (int \<times> 'w tcp_state) option" where
  "on_sent arg n s = do {
     a \<leftarrow> arg;
     Some (ERR_OK, upd_usys (\<lambda>u. usys_tcp_sent u (api_handle (apis s a)) (api_cookie (apis s a)) (ucast n)) s)
   }"

definition tcp_nagle_disable :: "ptr \<Rightarrow> 'w tcp_state \<Rightarrow> 'w tcp_state" where
  "tcp_nagle_disable pcb s = upd_pcb pcb (\<lambda>b. b\<lparr>pcb_flags := pcb_flags b OR TF_NODELAY\<rparr>) s"

definition tcp_arg :: "ptr \<Rightarrow> ptr option \<Rightarrow> 'w tcp_state \<Rightarrow> 'w tcp_state" where
  "tcp_arg pcb arg s = upd_pcb pcb (\<lambda>b. b\<lparr>callback_arg := arg\<rparr>) s"

definition on_accept :: "'w tcp_env \<Rightarrow> ptr \<Rightarrow> 'w tcp_state \<Rightarrow> (int \<times> 'w tcp_state) option" where
  "on_accept V pcb s =
     (case ret_pb (pool_alloc (te_net V) (pcb_mempool s)) s of
        (None, s) \<Rightarrow> Some (ERR_MEM, s)
      | (Some a, s) \<Rightarrow>
          (case ret_pb (pool_alloc (te_net V) (id_mempool s)) s of
             (None, s) \<Rightarrow> Some (ERR_MEM, on_pb (pool_free (te_net V) (pcb_mempool s) a) s)
           | (Some i, s) \<Rightarrow> do {
               let s = upd_api a (\<lambda>x. x\<lparr>api_pcb := Some pcb, alive := True, api_cookie := 0, recvd := None, recvd_tail := None, accepted := False\<rparr>) s;
               let s = tcp_arg pcb (Some a) (tcp_nagle_disable pcb s);
               let b = pcbs s pcb;
               let s = s\<lparr>id_tuples := (id_tuples s)(i := \<lparr>src_ip = ntoh32 (remote_ip b), dst_ip = cfg_host_addr (te_cfg V),
                          src_port = remote_port b, dst_port = local_port b\<rparr>)\<rparr>;
               let s = upd_api a (\<lambda>x. x\<lparr>api_id := Some i\<rparr>) s;
               (h, s) \<leftarrow> tcpapi_to_handle a s;
               let s = upd_api a (\<lambda>x. x\<lparr>api_handle := h\<rparr>) s;
               Some (ERR_OK, upd_usys (\<lambda>u. usys_tcp_knock u h (of_nat i)) s)
             }))"

definition on_connected :: "ptr option \<Rightarrow> int \<Rightarrow> 'w tcp_state \<Rightarrow> (int \<times> 'w tcp_state) option" where
  "on_connected arg err s = do {
     a \<leftarrow> arg;
     let r = (if err \<noteq> ERR_OK then RET_CONNREFUSED else RET_OK);
     Some (err, upd_usys (\<lambda>u. usys_tcp_connected u (api_handle (apis s a)) (api_cookie (apis s a)) r) s)
   }"

datatype lwip_event = LWIP_EVENT_ACCEPT | LWIP_EVENT_SENT | LWIP_EVENT_RECV | LWIP_EVENT_CONNECTED | LWIP_EVENT_POLL | LWIP_EVENT_ERR

fun lwip_tcp_event ::
  "'w tcp_env \<Rightarrow> ptr option \<Rightarrow> ptr \<Rightarrow> lwip_event \<Rightarrow> ptr option \<Rightarrow> u16 \<Rightarrow> int \<Rightarrow> 'w tcp_state \<Rightarrow> (int \<times> 'w tcp_state) option" where
  "lwip_tcp_event V arg pcb LWIP_EVENT_ACCEPT p n err s = on_accept V pcb s"
| "lwip_tcp_event V arg pcb LWIP_EVENT_SENT p n err s = on_sent arg n s"
| "lwip_tcp_event V arg pcb LWIP_EVENT_RECV p n err s = on_recv V arg p s"
| "lwip_tcp_event V arg pcb LWIP_EVENT_CONNECTED p n err s = on_connected arg err s"
| "lwip_tcp_event V arg pcb LWIP_EVENT_ERR p n err s = Some (0, on_err V arg err s)"
| "lwip_tcp_event V arg pcb LWIP_EVENT_POLL p n err s = Some (ERR_OK, s)"

definition TCP_EVENT_RECV :: "'w tcp_env \<Rightarrow> ptr \<Rightarrow> ptr option \<Rightarrow> 'w tcp_state \<Rightarrow> (int \<times> 'w tcp_state) option" where
  "TCP_EVENT_RECV V pcb p s = lwip_tcp_event V (callback_arg (pcbs s pcb)) pcb LWIP_EVENT_RECV p 0 ERR_OK s"

definition TCP_EVENT_CLOSED :: "'w tcp_env \<Rightarrow> ptr \<Rightarrow> 'w tcp_state \<Rightarrow> (int \<times> 'w tcp_state) option" where
  "TCP_EVENT_CLOSED V pcb s = lwip_tcp_event V (callback_arg (pcbs s pcb)) pcb LWIP_EVENT_RECV None 0 ERR_OK s"

definition TCP_EVENT_SENT :: "'w tcp_env \<Rightarrow> ptr \<Rightarrow> u32 \<Rightarrow> 'w tcp_state \<Rightarrow> (int \<times> 'w tcp_state) option" where
  "TCP_EVENT_SENT V pcb n s = lwip_tcp_event V (callback_arg (pcbs s pcb)) pcb LWIP_EVENT_SENT None (ucast n) ERR_OK s"

definition TCP_EVENT_ACCEPT :: "'w tcp_env \<Rightarrow> ptr \<Rightarrow> int \<Rightarrow> 'w tcp_state \<Rightarrow> (int \<times> 'w tcp_state) option" where
  "TCP_EVENT_ACCEPT V pcb err s = lwip_tcp_event V (callback_arg (pcbs s pcb)) pcb LWIP_EVENT_ACCEPT None 0 err s"

definition TCP_EVENT_CONNECTED :: "'w tcp_env \<Rightarrow> ptr \<Rightarrow> int \<Rightarrow> 'w tcp_state \<Rightarrow> (int \<times> 'w tcp_state) option" where
  "TCP_EVENT_CONNECTED V pcb err s = lwip_tcp_event V (callback_arg (pcbs s pcb)) pcb LWIP_EVENT_CONNECTED None 0 err s"

definition TCP_EVENT_POLL :: "'w tcp_env \<Rightarrow> ptr \<Rightarrow> 'w tcp_state \<Rightarrow> (int \<times> 'w tcp_state) option" where
  "TCP_EVENT_POLL V pcb s = lwip_tcp_event V (callback_arg (pcbs s pcb)) pcb LWIP_EVENT_POLL None 0 ERR_OK s"

text \<open>The event is raised with no block; its handler does not look at it.\<close>

definition TCP_EVENT_ERR :: "'w tcp_env \<Rightarrow> ptr option \<Rightarrow> int \<Rightarrow> 'w tcp_state \<Rightarrow> 'w tcp_state option" where
  "TCP_EVENT_ERR V arg err s = map_option snd (lwip_tcp_event V arg 0 LWIP_EVENT_ERR None 0 err s)"

end
