(* ===== verification/TcpCore.thy ===== *)
theory TcpCore
  imports TcpEvents Ip4Addr
begin

text \<open>
  The life of a connection and its timers (\<open>net/tcp.c\<close>).
\<close>

unbundle bit_operations_syntax

section \<open>Blocks\<close>

definition tcp_backoff :: "nat list" where "tcp_backoff = [1, 2, 3, 4, 5, 6, 7, 7, 7, 7, 7, 7, 7]"
definition tcp_persist_backoff :: "nat list" where "tcp_persist_backoff = [3, 6, 12, 24, 48, 96, 120]"

definition tcp_next_iss :: "'w tcp_state \<Rightarrow> u32 \<times> 'w tcp_state" where
  "tcp_next_iss s = (let i = iss (cur_fg s) + tcp_ticks (cur_fg s) in (i, upd_fg (\<lambda>f. f\<lparr>iss := i\<rparr>) s))"

definition u8_of_bool :: "bool \<Rightarrow> u8" where "u8_of_bool b = (if b then 1 else 0)"

definition pcb_zero :: tcp_pcb where
  "pcb_zero = \<lparr>local_ip = 0, remote_ip = 0, so_options = 0, pcb_tos = 0, pcb_ttl = 0, linked = False,
     timer_delayedack_expires = 0, timer_retransmit_expires = 0, timer_persist_expires = 0, callback_arg = None,
     delayed_ack_counter = 0, pcb_state = CLOSED, prio = 0, local_port = 0, remote_port = 0, pcb_flags = 0, polltmr = 0,
     pollinterval = 0, last_timer = 0, pcb_tmr = 0, rcv_nxt = 0, rcv_wnd = 0, rcv_ann_wnd = 0, rcv_ann_right_edge = 0, mss = 0,
     rttest = 0, rtseq = 0, rtt_sa = 0, rtt_sv = 0, rto = 0, nrtx = 0, dupacks = 0, lastack = 0, cwnd = 0, ssthresh = 0,
     snd_nxt = 0, snd_wl1 = 0, snd_wl2 = 0, snd_lbb = 0, snd_wnd = 0, snd_wnd_max = 0, acked = 0, snd_buf = 0, snd_queuelen = 0,
     unsent_oversize = 0, unsent = [], unacked = [], ooseq = [], refused_data = None, keep_idle = 0, persist_cnt = 0,
     persist_backoff = 0, keep_cnt_sent = 0, snd_scale = 0, rcv_scale = 0\<rparr>"

text \<open>\<open>memset\<close> also clears the timer in the block.\<close>

definition timer_zero :: "ptr \<Rightarrow> unit timer_state \<Rightarrow> unit timer_state" where
  "timer_zero t s = s\<lparr>links := set_hprev t None (set_hnext t None (links s)),
     timers := (timers s)(t := \<lparr>handler = 0, expires = 0, timer_fg_id = 0\<rparr>)\<rparr>"

definition pcb_init :: "eth_fg \<Rightarrow> u8 \<Rightarrow> u32 \<Rightarrow> tcp_pcb" where
  "pcb_init f pr i = pcb_zero\<lparr>prio := pr, snd_buf := of_nat TCP_SND_BUF, snd_queuelen := 0, rcv_wnd := TCP_WND, rcv_ann_wnd := TCP_WND,
     snd_scale := 0, rcv_scale := 0, pcb_tos := 0, pcb_ttl := TCP_TTL, mss := of_nat (if TCP_MSS > 536 then 536 else TCP_MSS),
     rto := int (3000 div TCP_SLOW_INTERVAL), rtt_sa := 0, rtt_sv := int (3000 div TCP_SLOW_INTERVAL), cwnd := 1,
     snd_wl2 := i, snd_nxt := i, lastack := i, snd_lbb := i, pcb_tmr := tcp_ticks f, last_timer := u8_of_bool (tcp_timer_ctr f),
     polltmr := 0, keep_idle := of_nat TCP_KEEPIDLE_DEFAULT, keep_cnt_sent := 0\<rparr>"

text \<open>An empty pool is a panic, which ends the process.\<close>

definition tcp_alloc :: "'w tcp_env \<Rightarrow> u8 \<Rightarrow> 'w tcp_state \<Rightarrow> (ptr \<times> 'w tcp_state) option" where
  "tcp_alloc V pr s =
     (case ret_pb (memp_malloc (te_net V) MEMP_TCP_PCB) s of
        (None, s) \<Rightarrow> None
      | (Some p, s) \<Rightarrow> do {
          s \<leftarrow> run_tm (\<lambda>t. Some (timer_zero (unified_timer p) t)) s;
          let (i, s) = tcp_next_iss s;
          Some (p, upd_pcb p (\<lambda>_. pcb_init (cur_fg s) pr i) s)
        })"

definition tcp_new :: "'w tcp_env \<Rightarrow> 'w tcp_state \<Rightarrow> (ptr \<times> 'w tcp_state) option" where
  "tcp_new V s = tcp_alloc V TCP_PRIO_NORMAL s"

definition tcp_setprio :: "ptr \<Rightarrow> u8 \<Rightarrow> 'w tcp_state \<Rightarrow> 'w tcp_state" where
  "tcp_setprio pcb pr s = upd_pcb pcb (\<lambda>b. b\<lparr>prio := pr\<rparr>) s"

definition tcp_poll :: "ptr \<Rightarrow> u8 \<Rightarrow> 'w tcp_state \<Rightarrow> 'w tcp_state" where
  "tcp_poll pcb interval s = upd_pcb pcb (\<lambda>b. b\<lparr>pollinterval := interval\<rparr>) s"

text \<open>The segment that is copied is given by its contents.\<close>

definition tcp_seg_copy :: "'w tcp_env \<Rightarrow> tcp_seg \<Rightarrow> 'w tcp_state \<Rightarrow> ptr option \<times> 'w tcp_state" where
  "tcp_seg_copy V x s =
     (case ret_pb (memp_malloc (te_net V) MEMP_TCP_SEG) s of
        (None, s) \<Rightarrow> (None, s)
      | (Some c, s) \<Rightarrow> (Some c, on_pb (pbuf_ref (seg_p x)) (upd_seg c (\<lambda>_. x) s)))"

definition tcp_pcb_purge :: "'w tcp_env \<Rightarrow> ptr \<Rightarrow> 'w tcp_state \<Rightarrow> 'w tcp_state option" where
  "tcp_pcb_purge V pcb s =
     (let st = pcb_state (pcbs s pcb)
      in if st \<noteq> CLOSED \<and> st \<noteq> TIME_WAIT \<and> st \<noteq> LISTEN then do {
           s \<leftarrow> (case refused_data (pcbs s pcb) of
                    None \<Rightarrow> Some s
                  | Some p \<Rightarrow> do {
                      (_, s) \<leftarrow> try_pb (pbuf_free (te_net V) (Some p)) s;
                      Some (upd_pcb pcb (\<lambda>b. b\<lparr>refused_data := None\<rparr>) s)
                    });
           s \<leftarrow> tcp_segs_free V (ooseq (pcbs s pcb)) s;
           let s = upd_pcb pcb (\<lambda>b. b\<lparr>ooseq := []\<rparr>) s;
           s \<leftarrow> run_tm (timer_del (unified_timer pcb)) s;
           s \<leftarrow> tcp_segs_free V (unsent (pcbs s pcb)) s;
           s \<leftarrow> tcp_segs_free V (unacked (pcbs s pcb)) s;
           Some (upd_pcb pcb (\<lambda>b. b\<lparr>unacked := [], unsent := [], unsent_oversize := 0\<rparr>) s)
         } else Some s)"

definition tcp_pcb_remove :: "'w tcp_env \<Rightarrow> ptr \<Rightarrow> 'w tcp_state \<Rightarrow> 'w tcp_state option" where
  "tcp_pcb_remove V pcb s = do {
     s \<leftarrow> TCP_RMV pcb s;
     s \<leftarrow> tcp_pcb_purge V pcb s;
     let b = pcbs s pcb;
     s \<leftarrow> (if pcb_state b \<noteq> TIME_WAIT \<and> pcb_state b \<noteq> LISTEN \<and> timer_delayedack_expires b > 0
            then map_option snd (tcp_output V pcb (upd_pcb pcb (\<lambda>b. b\<lparr>pcb_flags := pcb_flags b OR TF_ACK_NOW\<rparr>) s))
            else Some s);
     Some (upd_pcb pcb (\<lambda>b. b\<lparr>pcb_state := CLOSED\<rparr>) s)
   }"

definition TCP_PCB_REMOVE_ACTIVE :: "'w tcp_env \<Rightarrow> ptr \<Rightarrow> 'w tcp_state \<Rightarrow> 'w tcp_state option" where
  "TCP_PCB_REMOVE_ACTIVE V pcb s = map_option (upd_fg (\<lambda>f. f\<lparr>tcp_active_pcb_changed := True\<rparr>)) (tcp_pcb_remove V pcb s)"

definition pcb_rst :: "'w tcp_env \<Rightarrow> tcp_pcb \<Rightarrow> u32 \<Rightarrow> u32 \<Rightarrow> 'w tcp_state \<Rightarrow> 'w tcp_state option" where
  "pcb_rst V b sq ak s = tcp_rst V sq ak (local_ip b) (remote_ip b) (local_port b) (remote_port b) s"

definition free_pcb :: "'w tcp_env \<Rightarrow> ptr \<Rightarrow> 'w tcp_state \<Rightarrow> 'w tcp_state" where
  "free_pcb V pcb s = on_pb (memp_free (te_net V) MEMP_TCP_PCB pcb) s"

section \<open>Closing\<close>

definition tcp_close_with_reset :: "'w tcp_env \<Rightarrow> ptr \<Rightarrow> 'w tcp_state \<Rightarrow> 'w tcp_state option" where
  "tcp_close_with_reset V pcb s = do {
     let b = pcbs s pcb;
     s \<leftarrow> pcb_rst V b (snd_nxt b) (rcv_nxt b) s;
     s \<leftarrow> tcp_pcb_purge V pcb s;
     s \<leftarrow> TCP_RMV_ACTIVE pcb s;
     Some (free_pcb V pcb s)
   }"

text \<open>The end of the switch: a FIN is queued, and sent with what is queued before it.\<close>

definition close_fin :: "'w tcp_env \<Rightarrow> ptr \<Rightarrow> tcp_conn \<Rightarrow> 'w tcp_state \<Rightarrow> (int \<times> 'w tcp_state) option" where
  "close_fin V pcb st s = do {
     (err, s) \<leftarrow> tcp_send_fin V pcb s;
     if err = ERR_OK then do {
       (_, s) \<leftarrow> tcp_output V pcb (upd_pcb pcb (\<lambda>b. b\<lparr>pcb_state := st\<rparr>) s);
       Some (err, s)
     } else Some (err, s)
   }"

definition tcp_close_shutdown :: "'w tcp_env \<Rightarrow> ptr \<Rightarrow> bool \<Rightarrow> 'w tcp_state \<Rightarrow> (int \<times> 'w tcp_state) option" where
  "tcp_close_shutdown V pcb rst_on_unacked_data s =
     (let b = pcbs s pcb
      in if rst_on_unacked_data \<and> (pcb_state b = ESTABLISHED \<or> pcb_state b = CLOSE_WAIT) \<and> (refused_data b \<noteq> None \<or> rcv_wnd b \<noteq> TCP_WND)
         then do {
           s \<leftarrow> pcb_rst V b (snd_nxt b) (rcv_nxt b) s;
           s \<leftarrow> tcp_pcb_purge V pcb s;
           s \<leftarrow> TCP_RMV_ACTIVE pcb s;
           if pcb_state b = ESTABLISHED then do {
             s \<leftarrow> TCP_REG V (\<lambda>p f. f\<lparr>tw_pcbs := p # tw_pcbs f\<rparr>) pcb (upd_pcb pcb (\<lambda>b. b\<lparr>pcb_state := TIME_WAIT\<rparr>) s);
             Some (ERR_OK, s)
           } else Some (ERR_OK, free_pcb V pcb s)
         }
         else case pcb_state b of
           CLOSED \<Rightarrow> do {
             s \<leftarrow> (if local_port b \<noteq> 0 then TCP_RMV pcb s else Some s);
             Some (ERR_OK, free_pcb V pcb s)
           }
         | LISTEN \<Rightarrow> do {
             s \<leftarrow> tcp_pcb_remove V pcb s;
             Some (ERR_OK, on_pb (memp_free (te_net V) MEMP_TCP_PCB_LISTEN pcb) s)
           }
         | SYN_SENT \<Rightarrow> do {
             s \<leftarrow> TCP_PCB_REMOVE_ACTIVE V pcb s;
             Some (ERR_OK, free_pcb V pcb s)
           }
         | SYN_RCVD \<Rightarrow> close_fin V pcb FIN_WAIT_1 s
         | ESTABLISHED \<Rightarrow> close_fin V pcb FIN_WAIT_1 s
         | CLOSE_WAIT \<Rightarrow> close_fin V pcb LAST_ACK s
         | _ \<Rightarrow> Some (ERR_OK, s))"

definition tcp_close :: "'w tcp_env \<Rightarrow> ptr \<Rightarrow> 'w tcp_state \<Rightarrow> (int \<times> 'w tcp_state) option" where
  "tcp_close V pcb s =
     tcp_close_shutdown V pcb True
       (if pcb_state (pcbs s pcb) \<noteq> LISTEN then upd_pcb pcb (\<lambda>b. b\<lparr>pcb_flags := pcb_flags b OR TF_RXCLOSED\<rparr>) s else s)"

definition tcp_shutdown :: "'w tcp_env \<Rightarrow> ptr \<Rightarrow> bool \<Rightarrow> bool \<Rightarrow> 'w tcp_state \<Rightarrow> (int \<times> 'w tcp_state) option" where
  "tcp_shutdown V pcb shut_rx shut_tx s =
     (if pcb_state (pcbs s pcb) = LISTEN then Some (ERR_CONN, s)
      else
        let s = (if shut_rx then upd_pcb pcb (\<lambda>b. b\<lparr>pcb_flags := pcb_flags b OR TF_RXCLOSED\<rparr>) s else s)
        in if shut_rx \<and> shut_tx then tcp_close_shutdown V pcb True s
           else do {
             s \<leftarrow> (case refused_data (pcbs s pcb) of
                      None \<Rightarrow> Some s
                    | Some p \<Rightarrow>
                        if shut_rx then do {
                          (_, s) \<leftarrow> try_pb (pbuf_free (te_net V) (Some p)) s;
                          Some (upd_pcb pcb (\<lambda>b. b\<lparr>refused_data := None\<rparr>) s)
                        } else Some s);
             if shut_tx then
               if pcb_state (pcbs s pcb) \<in> {SYN_RCVD, ESTABLISHED, CLOSE_WAIT} then tcp_close_shutdown V pcb shut_rx s
               else Some (ERR_CONN, s)
             else Some (ERR_OK, s)
           })"

definition tcp_abandon :: "'w tcp_env \<Rightarrow> ptr \<Rightarrow> bool \<Rightarrow> 'w tcp_state \<Rightarrow> 'w tcp_state option" where
  "tcp_abandon V pcb reset s =
     (let b = pcbs s pcb
      in if pcb_state b = TIME_WAIT then map_option (free_pcb V pcb) (tcp_pcb_remove V pcb s)
         else do {
           s \<leftarrow> TCP_PCB_REMOVE_ACTIVE V pcb s;
           s \<leftarrow> tcp_segs_free V (unacked (pcbs s pcb)) s;
           s \<leftarrow> tcp_segs_free V (unsent (pcbs s pcb)) s;
           s \<leftarrow> tcp_segs_free V (ooseq (pcbs s pcb)) s;
           s \<leftarrow> (if reset \<and> pcb_state b \<noteq> CLOSED then pcb_rst V (pcbs s pcb) (snd_nxt b) (rcv_nxt b) s else Some s);
           TCP_EVENT_ERR V (callback_arg b) ERR_ABRT (free_pcb V pcb s)
         })"

definition tcp_abort :: "'w tcp_env \<Rightarrow> ptr \<Rightarrow> 'w tcp_state \<Rightarrow> 'w tcp_state option" where
  "tcp_abort V pcb s = tcp_abandon V pcb True s"

section \<open>Opening\<close>

definition tcp_bind_checklist :: "'w tcp_state \<Rightarrow> ptr list \<Rightarrow> u32 \<Rightarrow> u16 \<Rightarrow> int" where
  "tcp_bind_checklist s ps ipaddr port =
     (if \<exists>c \<in> set ps. local_port (pcbs s c) = port \<and> (local_ip (pcbs s c) = IPADDR_ANY \<or> ipaddr = IPADDR_ANY \<or> local_ip (pcbs s c) = ipaddr)
      then ERR_USE else 0)"

text \<open>A new port is not implemented: the assertion of \<open>tcp_new_port\<close> fails.\<close>

definition tcp_new_port :: "u16 option" where "tcp_new_port = None"

definition tcp_bind :: "'w tcp_env \<Rightarrow> ptr \<Rightarrow> u32 \<Rightarrow> u16 \<Rightarrow> 'w tcp_state \<Rightarrow> (int \<times> 'w tcp_state) option" where
  "tcp_bind V pcb ipaddr port s =
     (if pcb_state (pcbs s pcb) \<noteq> CLOSED then None
      else do {
        port \<leftarrow> (if port = 0 then tcp_new_port else Some port);
        if port = 0 then Some (ERR_BUF, s)
        else if \<exists>ps \<in> set (map (active_tbl (cur_fg s)) (active_buckets (cur_fg s)) @ [bound_pcbs (cur_fg s), tw_pcbs (cur_fg s)]).
                  tcp_bind_checklist s ps ipaddr port \<noteq> 0
        then Some (ERR_USE, s)
        else do {
          let s = (if ipaddr \<noteq> IPADDR_ANY then upd_pcb pcb (\<lambda>b. b\<lparr>local_ip := ipaddr\<rparr>) s else s);
          s \<leftarrow> TCP_REG V (\<lambda>p f. f\<lparr>bound_pcbs := p # bound_pcbs f\<rparr>) pcb (upd_pcb pcb (\<lambda>b. b\<lparr>local_port := port\<rparr>) s);
          Some (ERR_OK, s)
        }
      })"

text \<open>The address is not used: a listener is bound to every address.\<close>

definition tcp_listen_with_backlog :: "ptr option \<Rightarrow> u8 \<Rightarrow> u32 \<Rightarrow> u16 \<Rightarrow> 'w tcp_state \<Rightarrow> int \<times> 'w tcp_state" where
  "tcp_listen_with_backlog lpcb backlog addr port s =
     (case lpcb of
        None \<Rightarrow> (- 1, s)
      | Some l \<Rightarrow>
          (0, s\<lparr>lpcbs := (lpcbs s)(l := \<lparr>l_local_ip = 0, l_so_options = SOF_ACCEPTCONN, l_callback_arg = None, l_state = LISTEN,
                                          l_prio = 0, l_local_port = port\<rparr>),
                listen_pcbs := l # listen_pcbs s\<rparr>))"

definition tcp_connect :: "'w tcp_env \<Rightarrow> ptr \<Rightarrow> u32 option \<Rightarrow> u16 \<Rightarrow> 'w tcp_state \<Rightarrow> (int \<times> 'w tcp_state) option" where
  "tcp_connect V pcb ipaddr port s =
     (if pcb_state (pcbs s pcb) \<noteq> CLOSED then None
      else case ipaddr of
        None \<Rightarrow> Some (ERR_VAL, s)
      | Some ip \<Rightarrow> do {
          let s = upd_pcb pcb (\<lambda>b. b\<lparr>remote_ip := ip, remote_port := port,
                    local_ip := (if local_ip b = IPADDR_ANY then NETIF_IP_ADDR else local_ip b)\<rparr>) s;
          let old = local_port (pcbs s pcb);
          lp \<leftarrow> (if old = 0 then tcp_new_port else Some old);
          let s = upd_pcb pcb (\<lambda>b. b\<lparr>local_port := lp\<rparr>) s;
          if lp = 0 then Some (ERR_BUF, s)
          else do {
            let (i, s) = tcp_next_iss s;
            let m = tcp_eff_send_mss V (of_nat (if TCP_MSS > 536 then 536 else TCP_MSS));
            let s = upd_pcb pcb (\<lambda>b. b\<lparr>rcv_nxt := 0, snd_nxt := i, lastack := i - 1, snd_lbb := i - 1, rcv_wnd := TCP_WND, rcv_ann_wnd := TCP_WND,
                      rcv_ann_right_edge := 0, snd_wnd := TCP_WND, mss := m, cwnd := 1, ssthresh := ucast m * 100\<rparr>) s;
            (ret, s) \<leftarrow> tcp_enqueue_flags V pcb TCP_SYN s;
            if ret = ERR_OK then do {
              let s = upd_pcb pcb (\<lambda>b. b\<lparr>pcb_state := SYN_SENT\<rparr>) s;
              s \<leftarrow> (if old \<noteq> 0 then TCP_RMV pcb s else Some s);
              let b = pcbs s pcb;
              s \<leftarrow> TCP_REG_ACTIVE V pcb (tcp_to_idx (local_ip b) (remote_ip b) (local_port b) (remote_port b)) s;
              (_, s) \<leftarrow> tcp_output V pcb s;
              Some (ret, s)
            } else Some (ret, s)
          }
        })"

section \<open>The receive window\<close>

definition tcp_update_rcv_ann_wnd :: "tcp_pcb \<Rightarrow> u32 \<times> tcp_pcb" where
  "tcp_update_rcv_ann_wnd b =
     (let new_right_edge = rcv_nxt b + rcv_wnd b
      in if TCP_SEQ_GEQ new_right_edge (rcv_ann_right_edge b + min TCP_WND_HALF (ucast (mss b)))
         then (new_right_edge - rcv_ann_right_edge b, b\<lparr>rcv_ann_wnd := rcv_wnd b\<rparr>)
         else if TCP_SEQ_GT (rcv_nxt b) (rcv_ann_right_edge b) then (0, b\<lparr>rcv_ann_wnd := 0\<rparr>)
         else (0, b\<lparr>rcv_ann_wnd := rcv_ann_right_edge b - rcv_nxt b\<rparr>))"

definition recved_wnd :: "u32 \<Rightarrow> tcp_pcb \<Rightarrow> tcp_pcb" where
  "recved_wnd n b = b\<lparr>rcv_wnd := (if rcv_wnd b + n > TCP_WND then TCP_WND else rcv_wnd b + n)\<rparr>"

definition tcp_recved :: "'w tcp_env \<Rightarrow> ptr \<Rightarrow> u32 \<Rightarrow> 'w tcp_state \<Rightarrow> 'w tcp_state option" where
  "tcp_recved V pcb n s =
     (case tcp_update_rcv_ann_wnd (recved_wnd n (pcbs s pcb)) of
        (infl, b) \<Rightarrow>
          let s = upd_pcb pcb (\<lambda>_. b) s
          in if sint infl \<ge> TCP_WND_UPDATE_THRESHOLD then map_option snd (tcp_output V pcb (tcp_ack_now pcb s)) else Some s)"

partial_function (option) tcp_process_refused_data :: "'w tcp_env \<Rightarrow> ptr \<Rightarrow> 'w tcp_state \<Rightarrow> (int \<times> 'w tcp_state) option" where
  "tcp_process_refused_data V pcb s =
     (case refused_data (pcbs s pcb) of
        None \<Rightarrow> Some (ERR_OK, s)
      | Some p \<Rightarrow> do {
          let fl = pb_flags (pbufs (tc_pb s) p);
          (rest, s) \<leftarrow> try_pb (pbuf_split_64k (Some p)) s;
          let s = upd_pcb pcb (\<lambda>b. b\<lparr>refused_data := rest\<rparr>) s;
          (err, s) \<leftarrow> TCP_EVENT_RECV V pcb (Some p) s;
          if err = ERR_OK then
            if fl AND PBUF_FLAG_TCP_FIN \<noteq> 0 \<and> rest = None then do {
              let s = (if rcv_wnd (pcbs s pcb) \<noteq> TCP_WND then upd_pcb pcb (\<lambda>b. b\<lparr>rcv_wnd := rcv_wnd b + 1\<rparr>) s else s);
              (err, s) \<leftarrow> TCP_EVENT_CLOSED V pcb s;
              if err = ERR_ABRT then Some (ERR_ABRT, s) else tcp_process_refused_data V pcb s
            } else tcp_process_refused_data V pcb s
          else if err = ERR_ABRT then Some (ERR_ABRT, s)
          else do {
            s \<leftarrow> (if rest \<noteq> None then run_pb (pbuf_cat (Some p) rest) s else Some s);
            Some (ERR_INPROGRESS, upd_pcb pcb (\<lambda>b. b\<lparr>refused_data := Some p\<rparr>) s)
          }
        })"

section \<open>Timers\<close>

definition pcb_remove_called_from_timer :: "'w tcp_env \<Rightarrow> ptr \<Rightarrow> bool \<Rightarrow> 'w tcp_state \<Rightarrow> 'w tcp_state option" where
  "pcb_remove_called_from_timer V pcb pcb_reset s = do {
     s \<leftarrow> tcp_pcb_purge V pcb s;
     s \<leftarrow> pcb_hlist_del pcb s;
     s \<leftarrow> (if pcb_reset then pcb_rst V (pcbs s pcb) (snd_nxt (pcbs s pcb)) (rcv_nxt (pcbs s pcb)) s else Some s);
     Some (free_pcb V pcb s)
   }"

definition idle_ticks :: "'w tcp_state \<Rightarrow> ptr \<Rightarrow> u32" where "idle_ticks s pcb = tcp_ticks (cur_fg s) - pcb_tmr (pcbs s pcb)"

text \<open>The connection has stayed too long in its state.\<close>

definition slow_stuck :: "'w tcp_state \<Rightarrow> ptr \<Rightarrow> bool" where
  "slow_stuck s pcb \<longleftrightarrow>
     (let b = pcbs s pcb; idle = unat (idle_ticks s pcb)
      in pcb_state b = FIN_WAIT_2 \<and> pcb_flags b AND TF_RXCLOSED \<noteq> 0 \<and> idle > TCP_FIN_WAIT_TIMEOUT div TCP_SLOW_INTERVAL \<or>
         pcb_state b = SYN_RCVD \<and> idle > TCP_SYN_RCVD_TIMEOUT div TCP_SLOW_INTERVAL \<or>
         pcb_state b = LAST_ACK \<and> idle > 2 * TCP_MSL div TCP_SLOW_INTERVAL)"

text \<open>A silent peer is probed, and after too many probes the connection is reset.\<close>

definition slow_keepalive :: "'w tcp_env \<Rightarrow> ptr \<Rightarrow> 'w tcp_state \<Rightarrow> (bool \<times> 'w tcp_state) option" where
  "slow_keepalive V pcb s =
     (let b = pcbs s pcb; idle = unat (idle_ticks s pcb)
      in if so_options b AND SOF_KEEPALIVE \<noteq> 0 \<and> (pcb_state b = ESTABLISHED \<or> pcb_state b = CLOSE_WAIT) then
           if idle > (unat (keep_idle b) + TCP_MAXIDLE) div TCP_SLOW_INTERVAL then Some (True, s)
           else if idle > (unat (keep_idle b) + unat (keep_cnt_sent b) * TCP_KEEPINTVL_DEFAULT) div TCP_SLOW_INTERVAL then do {
             s \<leftarrow> tcp_keepalive V pcb s;
             Some (False, upd_pcb pcb (\<lambda>b. b\<lparr>keep_cnt_sent := keep_cnt_sent b + 1\<rparr>) s)
           } else Some (False, s)
         else Some (False, s))"

definition slow_ooseq :: "'w tcp_env \<Rightarrow> ptr \<Rightarrow> 'w tcp_state \<Rightarrow> 'w tcp_state option" where
  "slow_ooseq V pcb s =
     (let b = pcbs s pcb
      in if ooseq b \<noteq> [] \<and> idle_ticks s pcb \<ge> word_of_int (rto b) * TCP_OOSEQ_TIMEOUT then do {
           s \<leftarrow> tcp_segs_free V (ooseq b) s;
           Some (upd_pcb pcb (\<lambda>b. b\<lparr>ooseq := []\<rparr>) s)
         } else Some s)"

text \<open>One connection; the result says whether the walk has to start again.\<close>

definition slowtmr_pcb :: "'w tcp_env \<Rightarrow> ptr \<Rightarrow> 'w tcp_state \<Rightarrow> (bool \<times> 'w tcp_state) option" where
  "slowtmr_pcb V pcb s =
     (let ctr = u8_of_bool (tcp_timer_ctr (cur_fg s))
      in if last_timer (pcbs s pcb) = ctr then Some (False, s)
         else do {
           let s = upd_pcb pcb (\<lambda>b. b\<lparr>last_timer := ctr\<rparr>) s;
           (pcb_reset, s) \<leftarrow> slow_keepalive V pcb s;
           s \<leftarrow> slow_ooseq V pcb s;
           if slow_stuck s pcb \<or> pcb_reset then do {
             let err_arg = callback_arg (pcbs s pcb);
             s \<leftarrow> pcb_hlist_del pcb s;
             s \<leftarrow> pcb_remove_called_from_timer V pcb pcb_reset s;
             s \<leftarrow> TCP_EVENT_ERR V err_arg ERR_ABRT (upd_fg (\<lambda>f. f\<lparr>tcp_active_pcb_changed := False\<rparr>) s);
             Some (tcp_active_pcb_changed (cur_fg s), s)
           } else do {
             let s = upd_pcb pcb (\<lambda>b. b\<lparr>polltmr := polltmr b + 1\<rparr>) s;
             if polltmr (pcbs s pcb) \<ge> pollinterval (pcbs s pcb) then do {
               let s = upd_fg (\<lambda>f. f\<lparr>tcp_active_pcb_changed := False\<rparr>) (upd_pcb pcb (\<lambda>b. b\<lparr>polltmr := 0\<rparr>) s);
               (err, s) \<leftarrow> TCP_EVENT_POLL V pcb s;
               if tcp_active_pcb_changed (cur_fg s) then Some (True, s)
               else if err = ERR_OK then do { (_, s) \<leftarrow> tcp_output V pcb s; Some (False, s) }
               else Some (False, s)
             } else Some (False, s)
           }
         })"

fun slow_pcbs :: "'w tcp_env \<Rightarrow> ptr list \<Rightarrow> 'w tcp_state \<Rightarrow> (bool \<times> 'w tcp_state) option" where
  "slow_pcbs V [] s = Some (False, s)"
| "slow_pcbs V (p # ps) s = do { (again, s) \<leftarrow> slowtmr_pcb V p s; if again then Some (True, s) else slow_pcbs V ps s }"

fun slow_tw :: "'w tcp_env \<Rightarrow> ptr list \<Rightarrow> 'w tcp_state \<Rightarrow> 'w tcp_state option" where
  "slow_tw V [] s = Some s"
| "slow_tw V (p # ps) s = do {
     s \<leftarrow> (if unat (idle_ticks s p) > 2 * TCP_MSL div TCP_SLOW_INTERVAL then do {
              s \<leftarrow> tcp_pcb_purge V p s;
              s \<leftarrow> pcb_hlist_del p s;
              Some (free_pcb V p s)
            } else Some s);
     slow_tw V ps s
   }"

text \<open>The walk over the connections in \<open>TIME_WAIT\<close> is inside the loop over the buckets.\<close>

fun slow_buckets :: "'w tcp_env \<Rightarrow> nat list \<Rightarrow> 'w tcp_state \<Rightarrow> (bool \<times> 'w tcp_state) option" where
  "slow_buckets V [] s = Some (False, s)"
| "slow_buckets V (i # bs) s = do {
     (again, s) \<leftarrow> slow_pcbs V (active_tbl (cur_fg s) i) s;
     if again then Some (True, s)
     else do { s \<leftarrow> slow_tw V (tw_pcbs (cur_fg s)) s; slow_buckets V bs s }
   }"

partial_function (option) slowtmr_start :: "'w tcp_env \<Rightarrow> 'w tcp_state \<Rightarrow> 'w tcp_state option" where
  "slowtmr_start V s = do {
     (again, s) \<leftarrow> slow_buckets V (active_buckets (cur_fg s)) s;
     if again then slowtmr_start V s else Some s
   }"

text \<open>\<open>tcp_timer\<close> and \<open>tcp_timer_ctr\<close> are of type \<open>bool\<close>: an increment makes them 1.\<close>

definition tcp_slowtmr :: "'w tcp_env \<Rightarrow> 'w tcp_state \<Rightarrow> 'w tcp_state option" where
  "tcp_slowtmr V s = slowtmr_start V (upd_fg (\<lambda>f. f\<lparr>tcp_ticks := tcp_ticks f + 1, tcp_timer_ctr := True\<rparr>) s)"

definition fasttmr_pcb :: "'w tcp_env \<Rightarrow> ptr \<Rightarrow> 'w tcp_state \<Rightarrow> (bool \<times> 'w tcp_state) option" where
  "fasttmr_pcb V pcb s =
     (let ctr = u8_of_bool (tcp_timer_ctr (cur_fg s))
      in if last_timer (pcbs s pcb) \<noteq> ctr then
           let s = upd_pcb pcb (\<lambda>b. b\<lparr>last_timer := ctr\<rparr>) s
           in if refused_data (pcbs s pcb) \<noteq> None then do {
                (_, s) \<leftarrow> tcp_process_refused_data V pcb (upd_fg (\<lambda>f. f\<lparr>tcp_active_pcb_changed := False\<rparr>) s);
                Some (tcp_active_pcb_changed (cur_fg s), s)
              } else Some (False, s)
         else Some (False, s))"

fun fast_pcbs :: "'w tcp_env \<Rightarrow> ptr list \<Rightarrow> 'w tcp_state \<Rightarrow> (bool \<times> 'w tcp_state) option" where
  "fast_pcbs V [] s = Some (False, s)"
| "fast_pcbs V (p # ps) s = do { (again, s) \<leftarrow> fasttmr_pcb V p s; if again then Some (True, s) else fast_pcbs V ps s }"

fun fast_buckets :: "'w tcp_env \<Rightarrow> nat list \<Rightarrow> 'w tcp_state \<Rightarrow> (bool \<times> 'w tcp_state) option" where
  "fast_buckets V [] s = Some (False, s)"
| "fast_buckets V (i # bs) s = do {
     (again, s) \<leftarrow> fast_pcbs V (active_tbl (cur_fg s) i) s;
     if again then Some (True, s) else fast_buckets V bs s
   }"

partial_function (option) fasttmr_start :: "'w tcp_env \<Rightarrow> 'w tcp_state \<Rightarrow> 'w tcp_state option" where
  "fasttmr_start V s = do {
     (again, s) \<leftarrow> fast_buckets V (active_buckets (cur_fg s)) s;
     if again then fasttmr_start V s else Some s
   }"

definition tcp_fasttmr :: "'w tcp_env \<Rightarrow> 'w tcp_state \<Rightarrow> 'w tcp_state option" where
  "tcp_fasttmr V s = fasttmr_start V (upd_fg (\<lambda>f. f\<lparr>tcp_timer_ctr := True\<rparr>) s)"

definition tcp_tmr :: "'w tcp_env \<Rightarrow> 'w tcp_state \<Rightarrow> 'w tcp_state option" where
  "tcp_tmr V s = do {
     s \<leftarrow> tcp_fasttmr V s;
     let s = upd_fg (\<lambda>f. f\<lparr>tcp_timer := True\<rparr>) s;
     if u8_of_bool (tcp_timer (cur_fg s)) AND 1 \<noteq> 0 then tcp_slowtmr V s else Some s
   }"

definition tcpip_tcp_timer :: "'w tcp_env \<Rightarrow> ptr \<Rightarrow> 'w tcp_state \<Rightarrow> 'w tcp_state option" where
  "tcpip_tcp_timer V t s =
     (if t \<noteq> tcpip_timer (te_fg V) then None
      else do {
        s \<leftarrow> tcp_tmr V s;
        if active_buckets (cur_fg s) \<noteq> [] \<or> tw_pcbs (cur_fg s) \<noteq> [] then tc_timer_add V t (of_nat (TCP_TMR_INTERVAL * ONE_MS)) s
        else Some s
      })"

text \<open>\<open>r\<close> is the value of \<open>rand\<close>.\<close>

definition tcp_init :: "'w tcp_env \<Rightarrow> u32 \<Rightarrow> 'w tcp_state \<Rightarrow> 'w tcp_state option" where
  "tcp_init V r s = map_option (upd_fg (\<lambda>f. f\<lparr>iss := r\<rparr>))
     (run_tm (\<lambda>t. Some (timer_init_entry (tcpip_timer (te_fg V)) TCPIP_TCP_TIMER t)) s)"

definition handle_delayed_ack :: "'w tcp_env \<Rightarrow> ptr \<Rightarrow> u64 \<Rightarrow> 'w tcp_state \<Rightarrow> 'w tcp_state option" where
  "handle_delayed_ack V pcb now s =
     (let b = pcbs s pcb
      in if timer_delayedack_expires b \<noteq> 0 \<and> timer_delayedack_expires b \<le> now then do {
           (_, s) \<leftarrow> tcp_output V pcb (tcp_ack_now pcb s);
           Some (upd_pcb pcb (\<lambda>b. b\<lparr>pcb_flags := pcb_flags b AND NOT TF_ACK_NOW, timer_delayedack_expires := 0\<rparr>) s)
         } else Some s)"

definition rexmit_exhausted :: "tcp_pcb \<Rightarrow> bool" where
  "rexmit_exhausted b \<longleftrightarrow> pcb_state b = SYN_SENT \<and> nrtx b = TCP_SYNMAXRTX \<or> nrtx b = TCP_MAXRTX"

definition rto_backoff :: "tcp_pcb \<Rightarrow> tcp_pcb option" where
  "rto_backoff b =
     (if pcb_state b = SYN_SENT then Some b
      else if unat (nrtx b) < length tcp_backoff
      then Some (b\<lparr>rto := s16 (push_bit (tcp_backoff ! unat (nrtx b)) (rtt_sa b div 8 + rtt_sv b))\<rparr>)
      else None)"

definition rto_reduce_wnd :: "tcp_pcb \<Rightarrow> tcp_pcb" where
  "rto_reduce_wnd b =
     (let th = drop_bit 1 (min (cwnd b) (snd_wnd b));
          lim = push_bit 1 (ucast (mss b))
      in b\<lparr>ssthresh := (if th < lim then lim else th), cwnd := ucast (mss b)\<rparr>)"

text \<open>
  The result says whether the connection was removed.  The table of back-offs is read at
  \<open>nrtx\<close>; a read behind its end is undefined.
\<close>

definition handle_retransmit :: "'w tcp_env \<Rightarrow> ptr \<Rightarrow> u64 \<Rightarrow> 'w tcp_state \<Rightarrow> (bool \<times> 'w tcp_state) option" where
  "handle_retransmit V pcb now s =
     (let b = pcbs s pcb
      in if timer_retransmit_expires b \<noteq> 0 \<and> timer_retransmit_expires b \<le> now then do {
           let s = upd_pcb pcb (\<lambda>b. b\<lparr>timer_retransmit_expires := 0\<rparr>) s;
           if unacked b = [] then Some (False, s)
           else if snd_wnd b = 0 then
             Some (False, upd_pcb pcb (\<lambda>b. let b = b\<lparr>rto := s16 (rtt_sa b div 8 + rtt_sv b)\<rparr>
                                            in b\<lparr>timer_retransmit_expires := now + rto_usecs b\<rparr>) s)
           else if rexmit_exhausted b then do {
             s \<leftarrow> pcb_remove_called_from_timer V pcb False s;
             Some (True, s)
           } else do {
             b \<leftarrow> rto_backoff (pcbs s pcb);
             s \<leftarrow> tcp_rexmit_rto V pcb (upd_pcb pcb (\<lambda>_. rto_reduce_wnd b) s);
             Some (False, s)
           }
         } else Some (False, s))"

definition handle_persist :: "'w tcp_env \<Rightarrow> ptr \<Rightarrow> u64 \<Rightarrow> 'w tcp_state \<Rightarrow> 'w tcp_state option" where
  "handle_persist V pcb now s =
     (let b = pcbs s pcb
      in if timer_persist_expires b > 0 \<and> timer_persist_expires b \<le> now then do {
           let k = (if unat (persist_backoff b) < length tcp_persist_backoff then persist_backoff b + 1 else persist_backoff b);
           let s = upd_pcb pcb (\<lambda>b. b\<lparr>timer_persist_expires := 0, persist_backoff := k\<rparr>) s;
           s \<leftarrow> tcp_zero_window_probe V pcb s;
           let k = unat (persist_backoff (pcbs s pcb));
           if k = 0 \<or> k > length tcp_persist_backoff then None
           else Some (upd_pcb pcb (\<lambda>b. b\<lparr>timer_persist_expires :=
                        now + word_of_int (int (tcp_persist_backoff ! (k - 1)) * RTO_UNITS)\<rparr>) s)
         } else Some s)"

definition tcp_unified_timer_handler :: "'w tcp_env \<Rightarrow> ptr \<Rightarrow> 'w tcp_state \<Rightarrow> 'w tcp_state option" where
  "tcp_unified_timer_handler V pcb s = do {
     let now = timer_now s;
     s \<leftarrow> handle_delayed_ack V pcb now s;
     (removed, s) \<leftarrow> handle_retransmit V pcb now s;
     if removed then Some s
     else do {
       s \<leftarrow> handle_persist V pcb now s;
       tcp_recompute_timers V pcb s
     }
   }"

end
