(* ===== verification/TcpIn.thy ===== *)
theory TcpIn
  imports TcpCore
begin

text \<open>
  Receiving (\<open>net/tcp_in.c\<close>): options, acknowledgements, data in and out of order, the state machine and
  the demultiplexing of segments.
\<close>

unbundle bit_operations_syntax

text \<open>
  The variables of the segment that is processed.  Its header and its entry \<open>inseg\<close> are set by
  \<open>tcp_input\<close>; the header in memory then has its numbers in the order of the host.
\<close>

record LWIP_Context =
  inseg :: tcp_seg
  cx_tcphdr :: nat
  cx_seqno :: u32
  cx_ackno :: u32
  cx_flags :: u16
  cx_tcplen :: u16
  recv_flags :: u8
  recv_data :: "ptr option"

definition cx_hdr :: "LWIP_Context \<Rightarrow> 'w tcp_state \<Rightarrow> lwip_tcp_hdr" where "cx_hdr cx s = hdr s (cx_tcphdr cx)"

definition in_hdr :: "LWIP_Context \<Rightarrow> 'w tcp_state \<Rightarrow> lwip_tcp_hdr" where "in_hdr cx s = hdr s (tcphdr (inseg cx))"

definition in_tcplen :: "LWIP_Context \<Rightarrow> 'w tcp_state \<Rightarrow> u16" where
  "in_tcplen cx s = ucast (TCP_TCPLEN (seg_len (inseg cx)) (in_hdr cx s))"

text \<open>The number of a segment on \<open>ooseq\<close>, and the end of its data.\<close>

definition oos_seqno :: "'w tcp_state \<Rightarrow> ptr \<Rightarrow> u32" where "oos_seqno s g = hdr_seqno (seg_hdr s g)"

definition oos_end :: "'w tcp_state \<Rightarrow> ptr \<Rightarrow> u32" where "oos_end s g = oos_seqno s g + ucast (seg_len (segs s g))"

definition seg_fin :: "'w tcp_state \<Rightarrow> ptr \<Rightarrow> bool" where "seg_fin s g \<longleftrightarrow> TCPH_FLAGS (seg_hdr s g) AND TCP_FIN \<noteq> 0"

section \<open>Options\<close>

text \<open>\<open>c\<close> is below 40 and grows by at most 255: the 16-bit counter does not wrap.\<close>

function parse_opts :: "(nat \<Rightarrow> u8) \<Rightarrow> nat \<Rightarrow> nat \<Rightarrow> bool \<Rightarrow> nat \<Rightarrow> tcp_pcb \<Rightarrow> tcp_pcb" where
  "parse_opts m opts max_c syn c b =
     (if \<not> c < max_c then b
      else if m (opts + c) = 0 then b
      else if m (opts + c) = 1 then parse_opts m opts max_c syn (c + 1) b
      else if m (opts + c) = 2 then
        if m (opts + (c + 1)) \<noteq> 4 \<or> c + 4 > max_c then b
        else
          let v = push_bit 8 (ucast (m (opts + (c + 2)))) OR ucast (m (opts + (c + 3)))
          in parse_opts m opts max_c syn (c + 4) (b\<lparr>mss := (if unat v > TCP_MSS \<or> v = 0 then of_nat TCP_MSS else v)\<rparr>)
      else if m (opts + c) = 3 then
        if m (opts + (c + 1)) \<noteq> 3 \<or> c + 3 > max_c then b
        else parse_opts m opts max_c syn (c + 3)
               (if syn then b\<lparr>snd_scale := min (m (opts + (c + 2))) 14, rcv_scale := TCP_RCV_SCALE, pcb_flags := pcb_flags b OR TF_WND_SCALE\<rparr> else b)
      else if m (opts + (c + 1)) = 0 then b
      else parse_opts m opts max_c syn (c + unat (m (opts + (c + 1)))) b)"
  by auto

termination
  by (relation "measure (\<lambda>(m, opts, max_c, syn, c, b). max_c - c)")
     (auto simp: unat_gt_0 intro!: diff_less_mono2)

definition tcp_parseopt :: "LWIP_Context \<Rightarrow> ptr \<Rightarrow> 'w tcp_state \<Rightarrow> 'w tcp_state" where
  "tcp_parseopt cx pcb s =
     (let n = TCPH_HDRLEN (cx_hdr cx s)
      in if n > 5 then
           upd_pcb pcb (parse_opts (pmem (tc_pb s)) (cx_tcphdr cx + TCP_HLEN) (unat (push_bit 2 (n - 5))) (cx_flags cx AND TCP_SYN \<noteq> 0) 0) s
         else s)"

section \<open>Acknowledgements\<close>

definition recv_window :: "'w tcp_env \<Rightarrow> LWIP_Context \<Rightarrow> ptr \<Rightarrow> 'w tcp_state \<Rightarrow> 'w tcp_state option" where
  "recv_window V cx pcb s =
     (let b = pcbs s pcb; w = hdr_wnd (cx_hdr cx s)
      in if TCP_SEQ_LT (snd_wl1 b) (cx_seqno cx) \<or>
            (snd_wl1 b = cx_seqno cx \<and> TCP_SEQ_LT (snd_wl2 b) (cx_ackno cx)) \<or>
            (snd_wl2 b = cx_ackno cx \<and> ucast w > snd_wnd b)
         then
           let wnd = SND_WND_SCALE b w;
               s = upd_pcb pcb (\<lambda>b. b\<lparr>snd_wnd := wnd, snd_wnd_max := (if snd_wnd_max b < wnd then wnd else snd_wnd_max b),
                                       snd_wl1 := cx_seqno cx, snd_wl2 := cx_ackno cx\<rparr>) s
           in if wnd = 0 then
                if timer_persist_expires (pcbs s pcb) > 0 then
                  tcp_recompute_timers V pcb
                    (upd_pcb pcb (\<lambda>b. b\<lparr>persist_cnt := 0, persist_backoff := 1,
                       timer_persist_expires := timer_now s + word_of_int (int (tcp_persist_backoff ! 0) * RTO_UNITS)\<rparr>) s)
                else Some s
              else
                map_option (upd_pcb pcb (\<lambda>b. b\<lparr>persist_backoff := 0\<rparr>))
                  (tcp_recompute_timers V pcb (upd_pcb pcb (\<lambda>b. b\<lparr>timer_persist_expires := 0\<rparr>) s))
         else Some s)"

text \<open>\<open>right_wnd_edge\<close> is the edge before the window was updated.\<close>

definition recv_dupack :: "LWIP_Context \<Rightarrow> u32 \<Rightarrow> ptr \<Rightarrow> 'w tcp_state \<Rightarrow> 'w tcp_state" where
  "recv_dupack cx right_wnd_edge pcb s =
     (let s = upd_pcb pcb (\<lambda>b. b\<lparr>acked := 0\<rparr>) s; b = pcbs s pcb
      in if cx_tcplen cx = 0 \<and> snd_wl2 b + snd_wnd b = right_wnd_edge \<and> timer_retransmit_expires b > 0 \<and> lastack b = cx_ackno cx
         then
           let s = upd_pcb pcb (\<lambda>b. b\<lparr>dupacks := (if dupacks b + 1 > dupacks b then dupacks b + 1 else dupacks b)\<rparr>) s
           in if dupacks (pcbs s pcb) > 3
              then upd_pcb pcb (\<lambda>b. b\<lparr>cwnd := (if cwnd b + ucast (mss b) > cwnd b then cwnd b + ucast (mss b) else cwnd b)\<rparr>) s
              else if dupacks (pcbs s pcb) = 3 then tcp_rexmit_fast pcb s
              else s
         else upd_pcb pcb (\<lambda>b. b\<lparr>dupacks := 0\<rparr>) s)"

text \<open>Slow start and congestion avoidance; a division by a window of 0 traps.\<close>

definition grow_cwnd :: "tcp_pcb \<Rightarrow> tcp_pcb option" where
  "grow_cwnd b =
     (let m = ucast (mss b)
      in if pcb_state b \<ge> ESTABLISHED then
           if cwnd b < ssthresh b then Some (b\<lparr>cwnd := (if cwnd b + m > cwnd b then cwnd b + m * 10 else cwnd b)\<rparr>)
           else if cwnd b = 0 then None
           else
             let new_cwnd = cwnd b + m * m div cwnd b
             in Some (b\<lparr>cwnd := (if new_cwnd > cwnd b then new_cwnd else cwnd b)\<rparr>)
         else Some b)"

text \<open>An acknowledged segment is released; the number of a FIN is not reported as sent data.\<close>

definition drop_acked :: "'w tcp_env \<Rightarrow> ptr \<Rightarrow> ptr \<Rightarrow> 'w tcp_state \<Rightarrow> 'w tcp_state option" where
  "drop_acked V pcb g s = do {
     let s = (if acked (pcbs s pcb) \<noteq> 0 \<and> seg_fin s g then upd_pcb pcb (\<lambda>b. b\<lparr>acked := acked b - 1\<rparr>) s else s);
     k \<leftarrow> pbuf_clen (seg_p (segs s g)) (tc_pb s);
     tcp_seg_free V g (upd_pcb pcb (\<lambda>b. b\<lparr>snd_queuelen := snd_queuelen b - ucast k\<rparr>) s)
   }"

definition seg_end :: "'w tcp_state \<Rightarrow> ptr \<Rightarrow> u32" where
  "seg_end s g = seg_seqno s g + TCP_TCPLEN (seg_len (segs s g)) (seg_hdr s g)"

fun ack_unacked :: "'w tcp_env \<Rightarrow> u32 \<Rightarrow> ptr \<Rightarrow> ptr list \<Rightarrow> 'w tcp_state \<Rightarrow> 'w tcp_state option" where
  "ack_unacked V ackno pcb [] s = Some s"
| "ack_unacked V ackno pcb (g # gs) s =
     (if TCP_SEQ_LEQ (seg_end s g) ackno
      then drop_acked V pcb g (upd_pcb pcb (\<lambda>b. b\<lparr>unacked := gs\<rparr>) s) \<bind> ack_unacked V ackno pcb gs
      else Some s)"

fun ack_unsent :: "'w tcp_env \<Rightarrow> u32 \<Rightarrow> ptr \<Rightarrow> ptr list \<Rightarrow> 'w tcp_state \<Rightarrow> 'w tcp_state option" where
  "ack_unsent V ackno pcb [] s = Some s"
| "ack_unsent V ackno pcb (g # gs) s =
     (if TCP_SEQ_BETWEEN ackno (seg_end s g) (snd_nxt (pcbs s pcb))
      then drop_acked V pcb g (upd_pcb pcb (\<lambda>b. b\<lparr>unsent := gs, unsent_oversize := (if gs = [] then 0 else unsent_oversize b)\<rparr>) s)
             \<bind> ack_unsent V ackno pcb gs
      else Some s)"

definition recv_newack :: "'w tcp_env \<Rightarrow> LWIP_Context \<Rightarrow> ptr \<Rightarrow> 'w tcp_state \<Rightarrow> 'w tcp_state option" where
  "recv_newack V cx pcb s = do {
     let s = upd_pcb pcb (\<lambda>b. if pcb_flags b AND TF_INFR \<noteq> 0 then b\<lparr>pcb_flags := pcb_flags b AND NOT TF_INFR, cwnd := ssthresh b\<rparr> else b) s;
     let s = upd_pcb pcb (\<lambda>b. let n = cx_ackno cx - lastack b
               in b\<lparr>nrtx := 0, rto := s16 (rtt_sa b div 8 + rtt_sv b), acked := n, snd_buf := snd_buf b + n, dupacks := 0, lastack := cx_ackno cx\<rparr>) s;
     b \<leftarrow> grow_cwnd (pcbs s pcb);
     let s = upd_pcb pcb (\<lambda>_. b) s;
     s \<leftarrow> ack_unacked V (cx_ackno cx) pcb (unacked (pcbs s pcb)) s;
     s \<leftarrow> tcp_recompute_timers V pcb
            (upd_pcb pcb (\<lambda>b. b\<lparr>timer_retransmit_expires := (if unacked b = [] then 0 else timer_now s + rto_usecs b)\<rparr>) s);
     Some (upd_pcb pcb (\<lambda>b. b\<lparr>polltmr := 0\<rparr>) s)
   }"

definition rtt_update :: "u32 \<Rightarrow> tcp_pcb \<Rightarrow> tcp_pcb" where
  "rtt_update ticks b =
     (let m = s16 (uint (ticks - rttest b));
          m = s16 (m - rtt_sa b div 8);
          sa = s16 (rtt_sa b + m);
          m = (if m < 0 then s16 (- m) else m);
          m = s16 (m - rtt_sv b div 4);
          sv = s16 (rtt_sv b + m)
      in b\<lparr>rtt_sa := sa, rtt_sv := sv, rto := s16 (sa div 8 + sv), rttest := 0\<rparr>)"

definition recv_ack :: "'w tcp_env \<Rightarrow> LWIP_Context \<Rightarrow> ptr \<Rightarrow> 'w tcp_state \<Rightarrow> 'w tcp_state option" where
  "recv_ack V cx pcb s = do {
     let right_wnd_edge = snd_wnd (pcbs s pcb) + snd_wl2 (pcbs s pcb);
     s \<leftarrow> recv_window V cx pcb s;
     let b = pcbs s pcb;
     s \<leftarrow> (if TCP_SEQ_LEQ (cx_ackno cx) (lastack b) then Some (recv_dupack cx right_wnd_edge pcb s)
            else if TCP_SEQ_BETWEEN (cx_ackno cx) (lastack b + 1) (snd_nxt b) then recv_newack V cx pcb s
            else Some (upd_pcb pcb (\<lambda>b. b\<lparr>acked := 0\<rparr>) s));
     s \<leftarrow> ack_unsent V (cx_ackno cx) pcb (unsent (pcbs s pcb)) s;
     Some (if rttest (pcbs s pcb) \<noteq> 0 \<and> TCP_SEQ_LT (rtseq (pcbs s pcb)) (cx_ackno cx)
           then upd_pcb pcb (rtt_update (tcp_ticks (cur_fg s))) s else s)
   }"

section \<open>Data\<close>

text \<open>The front of a segment that was received before is cut off.\<close>

partial_function (option) trim_loop :: "u16 \<Rightarrow> int \<Rightarrow> ptr option \<Rightarrow> 'w pbuf_state \<Rightarrow> (int \<times> ptr \<times> 'w pbuf_state) option" where
  "trim_loop new_tot_len off p s =
     (case p of
        None \<Rightarrow> None
      | Some q \<Rightarrow>
          let b = pbufs s q
          in if int (unat (pb_len b)) < off
             then trim_loop new_tot_len (off - int (unat (pb_len b))) (pb_next b) (upd_pbuf q (\<lambda>b. b\<lparr>tot_len := new_tot_len, pb_len := 0\<rparr>) s)
             else Some (off, q, s))"

definition recv_trim :: "LWIP_Context \<Rightarrow> ptr \<Rightarrow> 'w tcp_state \<Rightarrow> (LWIP_Context \<times> 'w tcp_state) option" where
  "recv_trim cx pcb s =
     (let nx = rcv_nxt (pcbs s pcb); off = sint (nx - cx_seqno cx)
      in if TCP_SEQ_BETWEEN nx (cx_seqno cx + 1) (cx_seqno cx + ucast (cx_tcplen cx) - 1) then do {
           p \<leftarrow> seg_p (inseg cx);
           let b = pbufs (tc_pb s) p;
           (_, s) \<leftarrow> (if int (unat (pb_len b)) < off then do {
                        (off, q, s) \<leftarrow> map_option (\<lambda>(off, q, b). (off, q, s\<lparr>tc_pb := b\<rparr>))
                                          (trim_loop (tot_len b - word_of_int off) off (Some p) (tc_pb s));
                        try_pb (pbuf_header q (s16 (- off))) s
                      } else try_pb (pbuf_header p (s16 (- off))) s);
           let cx = cx\<lparr>inseg := (inseg cx)\<lparr>seg_len := seg_len (inseg cx) - ucast (nx - cx_seqno cx)\<rparr>, cx_seqno := nx\<rparr>;
           Some (cx, upd_hdr (tcphdr (inseg cx)) (\<lambda>h. h\<lparr>hdr_seqno := nx\<rparr>) s)
         }
         else Some (cx, if TCP_SEQ_LT (cx_seqno cx) nx then tcp_ack_now pcb s else s))"

definition in_realloc :: "'w tcp_env \<Rightarrow> LWIP_Context \<Rightarrow> 'w tcp_state \<Rightarrow> (LWIP_Context \<times> 'w tcp_state) option" where
  "in_realloc V cx s = do {
     let cx = (if TCPH_FLAGS (in_hdr cx s) AND TCP_SYN \<noteq> 0 then cx\<lparr>inseg := (inseg cx)\<lparr>seg_len := seg_len (inseg cx) - 1\<rparr>\<rparr> else cx);
     p \<leftarrow> seg_p (inseg cx);
     s \<leftarrow> run_pb (pbuf_realloc (te_net V) p (seg_len (inseg cx))) s;
     Some (cx\<lparr>cx_tcplen := in_tcplen cx s\<rparr>, s)
   }"

text \<open>The end of a segment that reaches behind the window is cut off, with its FIN.\<close>

definition in_clip_wnd :: "'w tcp_env \<Rightarrow> LWIP_Context \<Rightarrow> ptr \<Rightarrow> 'w tcp_state \<Rightarrow> (LWIP_Context \<times> 'w tcp_state) option" where
  "in_clip_wnd V cx pcb s =
     (let cx = cx\<lparr>cx_tcplen := in_tcplen cx s\<rparr>; wnd = rcv_wnd (pcbs s pcb)
      in if ucast (cx_tcplen cx) > wnd then
           let fl = TCPH_FLAGS (in_hdr cx s);
               s = (if fl AND TCP_FIN \<noteq> 0 then upd_hdr (tcphdr (inseg cx)) (TCPH_FLAGS_SET (fl AND NOT TCP_FIN)) s else s)
           in in_realloc V (cx\<lparr>inseg := (inseg cx)\<lparr>seg_len := ucast wnd\<rparr>\<rparr>) s
         else Some (cx, s))"

text \<open>Queued segments that the new one covers are released; their FIN becomes its FIN.\<close>

fun in_cover :: "'w tcp_env \<Rightarrow> LWIP_Context \<Rightarrow> ptr list \<Rightarrow> 'w tcp_state \<Rightarrow> (LWIP_Context \<times> ptr list \<times> 'w tcp_state) option" where
  "in_cover V cx [] s = Some (cx, [], s)"
| "in_cover V cx (g # gs) s =
     (if TCP_SEQ_GEQ (cx_seqno cx + ucast (cx_tcplen cx)) (oos_end s g) then do {
        let (cx, s) = (if seg_fin s g \<and> TCPH_FLAGS (in_hdr cx s) AND TCP_SYN = 0
                       then let s = upd_hdr (tcphdr (inseg cx)) (TCPH_SET_FLAG TCP_FIN) s in (cx\<lparr>cx_tcplen := in_tcplen cx s\<rparr>, s)
                       else (cx, s));
        s \<leftarrow> tcp_seg_free V g s;
        in_cover V cx gs s
      } else Some (cx, g # gs, s))"

definition in_clip_ooseq :: "'w tcp_env \<Rightarrow> LWIP_Context \<Rightarrow> ptr \<Rightarrow> 'w tcp_state \<Rightarrow> (LWIP_Context \<times> 'w tcp_state) option" where
  "in_clip_ooseq V cx pcb s =
     (let q = ooseq (pcbs s pcb)
      in if q = [] then Some (cx, s)
         else if TCPH_FLAGS (in_hdr cx s) AND TCP_FIN \<noteq> 0 then do {
           s \<leftarrow> tcp_segs_free V q s;
           Some (cx, upd_pcb pcb (\<lambda>b. b\<lparr>ooseq := []\<rparr>) s)
         }
         else do {
           (cx, q, s) \<leftarrow> in_cover V cx q s;
           (cx, s) \<leftarrow> (case q of
                         [] \<Rightarrow> Some (cx, s)
                       | g # _ \<Rightarrow>
                           if TCP_SEQ_GT (cx_seqno cx + ucast (cx_tcplen cx)) (oos_seqno s g)
                           then in_realloc V (cx\<lparr>inseg := (inseg cx)\<lparr>seg_len := ucast (oos_seqno s g - cx_seqno cx)\<rparr>\<rparr>) s
                           else Some (cx, s));
           Some (cx, upd_pcb pcb (\<lambda>b. b\<lparr>ooseq := q\<rparr>) s)
         })"

definition take_wnd :: "u32 \<Rightarrow> tcp_pcb \<Rightarrow> tcp_pcb" where
  "take_wnd n b = snd (tcp_update_rcv_ann_wnd (b\<lparr>rcv_nxt := rcv_nxt b + n, rcv_wnd := rcv_wnd b - n\<rparr>))"

text \<open>Queued segments that are now in sequence are chained to the data.\<close>

fun in_deliver :: "'w tcp_env \<Rightarrow> LWIP_Context \<Rightarrow> ptr \<Rightarrow> ptr list \<Rightarrow> 'w tcp_state \<Rightarrow> (LWIP_Context \<times> 'w tcp_state) option" where
  "in_deliver V cx pcb [] s = Some (cx, s)"
| "in_deliver V cx pcb (g # gs) s =
     (if oos_seqno s g = rcv_nxt (pcbs s pcb) then do {
        let cx = cx\<lparr>cx_seqno := oos_seqno s g\<rparr>;
        let s = upd_pcb pcb (take_wnd (TCP_TCPLEN (seg_len (segs s g)) (seg_hdr s g))) s;
        p \<leftarrow> seg_p (segs s g);
        (cx, s) \<leftarrow> (if tot_len (pbufs (tc_pb s) p) > 0 then do {
                      (cx, s) \<leftarrow> (if recv_data cx \<noteq> None then do { s \<leftarrow> run_pb (pbuf_cat (recv_data cx) (Some p)) s; Some (cx, s) }
                                  else Some (cx\<lparr>recv_data := Some p\<rparr>, s));
                      Some (cx, upd_seg g (\<lambda>x. x\<lparr>seg_p := None\<rparr>) s)
                    } else Some (cx, s));
        let (cx, s) = (if seg_fin s g
                       then (cx\<lparr>recv_flags := recv_flags cx OR TF_GOT_FIN\<rparr>,
                             if pcb_state (pcbs s pcb) = ESTABLISHED then upd_pcb pcb (\<lambda>b. b\<lparr>pcb_state := CLOSE_WAIT\<rparr>) s else s)
                       else (cx, s));
        s \<leftarrow> tcp_seg_free V g (upd_pcb pcb (\<lambda>b. b\<lparr>ooseq := gs\<rparr>) s);
        in_deliver V cx pcb gs s
      } else Some (cx, s))"

definition recv_inseq :: "'w tcp_env \<Rightarrow> LWIP_Context \<Rightarrow> ptr \<Rightarrow> 'w tcp_state \<Rightarrow> (LWIP_Context \<times> 'w tcp_state) option" where
  "recv_inseq V cx pcb s = do {
     (cx, s) \<leftarrow> in_clip_wnd V cx pcb s;
     (cx, s) \<leftarrow> in_clip_ooseq V cx pcb s;
     let s = upd_pcb pcb (\<lambda>b. snd (tcp_update_rcv_ann_wnd
               (b\<lparr>rcv_nxt := cx_seqno cx + ucast (cx_tcplen cx), rcv_wnd := rcv_wnd b - ucast (cx_tcplen cx)\<rparr>))) s;
     p \<leftarrow> seg_p (inseg cx);
     let cx = (if tot_len (pbufs (tc_pb s) p) > 0 then cx\<lparr>recv_data := Some p, inseg := (inseg cx)\<lparr>seg_p := None\<rparr>\<rparr> else cx);
     let cx = (if TCPH_FLAGS (in_hdr cx s) AND TCP_FIN \<noteq> 0 then cx\<lparr>recv_flags := recv_flags cx OR TF_GOT_FIN\<rparr> else cx);
     (cx, s) \<leftarrow> in_deliver V cx pcb (ooseq (pcbs s pcb)) s;
     s \<leftarrow> tcp_ack V pcb s;
     Some (cx, s)
   }"

section \<open>The queue of segments out of order\<close>

fun oos_drop :: "'w tcp_env \<Rightarrow> u32 \<Rightarrow> ptr \<Rightarrow> ptr list \<Rightarrow> 'w tcp_state \<Rightarrow> (ptr list \<times> 'w tcp_state) option" where
  "oos_drop V sq cseg [] s = Some ([], s)"
| "oos_drop V sq cseg (g # gs) s =
     (if TCP_SEQ_GEQ (sq + ucast (seg_len (segs s cseg))) (oos_end s g) then do {
        let s = (if seg_fin s g then upd_hdr (tcphdr (segs s cseg)) (TCPH_SET_FLAG TCP_FIN) s else s);
        s \<leftarrow> tcp_seg_free V g s;
        oos_drop V sq cseg gs s
      } else Some (g # gs, s))"

definition seg_realloc :: "'w tcp_env \<Rightarrow> ptr \<Rightarrow> u16 \<Rightarrow> 'w tcp_state \<Rightarrow> 'w tcp_state option" where
  "seg_realloc V g n s = do {
     let s = upd_seg g (\<lambda>x. x\<lparr>seg_len := n\<rparr>) s;
     p \<leftarrow> seg_p (segs s g);
     run_pb (pbuf_realloc (te_net V) p n) s
   }"

text \<open>The result is the queue from the new segment on.\<close>

definition tcp_oos_insert_segment :: "'w tcp_env \<Rightarrow> u32 \<Rightarrow> ptr \<Rightarrow> ptr list \<Rightarrow> 'w tcp_state \<Rightarrow> (ptr list \<times> 'w tcp_state) option" where
  "tcp_oos_insert_segment V sq cseg gs s =
     (if seg_fin s cseg then do { s \<leftarrow> tcp_segs_free V gs s; Some ([cseg], s) }
      else do {
        (gs, s) \<leftarrow> oos_drop V sq cseg gs s;
        s \<leftarrow> (case gs of
                 [] \<Rightarrow> Some s
               | g # _ \<Rightarrow>
                   if TCP_SEQ_GT (sq + ucast (seg_len (segs s cseg))) (oos_seqno s g)
                   then seg_realloc V cseg (ucast (oos_seqno s g - sq)) s else Some s);
        Some (cseg # gs, s)
      })"

definition oos_trim :: "'w tcp_env \<Rightarrow> u32 \<Rightarrow> ptr \<Rightarrow> 'w tcp_state \<Rightarrow> 'w tcp_state option" where
  "oos_trim V sq g s = (if TCP_SEQ_GT (oos_end s g) sq then seg_realloc V g (ucast (sq - oos_seqno s g)) s else Some s)"

text \<open>A segment at the end of the queue is cut at the edge of the window.\<close>

definition oos_clip_wnd :: "'w tcp_env \<Rightarrow> LWIP_Context \<Rightarrow> ptr \<Rightarrow> ptr \<Rightarrow> 'w tcp_state \<Rightarrow> (LWIP_Context \<times> 'w tcp_state) option" where
  "oos_clip_wnd V cx pcb c s =
     (let edge = rcv_nxt (pcbs s pcb) + rcv_wnd (pcbs s pcb)
      in if TCP_SEQ_GT (ucast (cx_tcplen cx) + cx_seqno cx) edge then do {
           let fl = TCPH_FLAGS (seg_hdr s c);
           let s = (if fl AND TCP_FIN \<noteq> 0 then upd_hdr (tcphdr (segs s c)) (TCPH_FLAGS_SET (fl AND NOT TCP_FIN)) s else s);
           s \<leftarrow> seg_realloc V c (ucast (edge - cx_seqno cx)) s;
           Some (cx\<lparr>cx_tcplen := ucast (TCP_TCPLEN (seg_len (segs s c)) (seg_hdr s c))\<rparr>, s)
         } else Some (cx, s))"

text \<open>The walk along the queue; \<open>pre\<close> is the part that was passed.\<close>

fun oos_walk ::
  "'w tcp_env \<Rightarrow> LWIP_Context \<Rightarrow> ptr \<Rightarrow> ptr list \<Rightarrow> ptr list \<Rightarrow> 'w tcp_state \<Rightarrow> (LWIP_Context \<times> ptr list \<times> 'w tcp_state) option" where
  "oos_walk V cx pcb pre [] s = Some (cx, pre, s)"
| "oos_walk V cx pcb pre (g # gs) s =
     (let sq = cx_seqno cx
      in if sq = oos_seqno s g then
           if seg_len (inseg cx) > seg_len (segs s g) then
             case tcp_seg_copy V (inseg cx) s of
               (None, s) \<Rightarrow> Some (cx, pre @ g # gs, s)
             | (Some c, s) \<Rightarrow> do { (q, s) \<leftarrow> tcp_oos_insert_segment V sq c (g # gs) s; Some (cx, pre @ q, s) }
           else Some (cx, pre @ g # gs, s)
         else if pre = [] \<and> TCP_SEQ_LT sq (oos_seqno s g) then
           case tcp_seg_copy V (inseg cx) s of
             (None, s) \<Rightarrow> Some (cx, pre @ g # gs, s)
           | (Some c, s) \<Rightarrow> do { (q, s) \<leftarrow> tcp_oos_insert_segment V sq c (g # gs) s; Some (cx, pre @ q, s) }
         else if pre \<noteq> [] \<and> TCP_SEQ_BETWEEN sq (oos_seqno s (last pre) + 1) (oos_seqno s g - 1) then
           case tcp_seg_copy V (inseg cx) s of
             (None, s) \<Rightarrow> Some (cx, pre @ g # gs, s)
           | (Some c, s) \<Rightarrow> do {
               s \<leftarrow> oos_trim V sq (last pre) s;
               (q, s) \<leftarrow> tcp_oos_insert_segment V sq c (g # gs) s;
               Some (cx, pre @ q, s)
             }
         else if gs = [] \<and> TCP_SEQ_GT sq (oos_seqno s g) then
           if seg_fin s g then Some (cx, pre @ [g], s)
           else
             case tcp_seg_copy V (inseg cx) s of
               (None, s) \<Rightarrow> Some (cx, pre @ [g], s)
             | (Some c, s) \<Rightarrow> do {
                 s \<leftarrow> oos_trim V sq g s;
                 (cx, s) \<leftarrow> oos_clip_wnd V cx pcb c s;
                 Some (cx, pre @ [g, c], s)
               }
         else oos_walk V cx pcb (pre @ [g]) gs s)"

definition recv_ooseq :: "'w tcp_env \<Rightarrow> LWIP_Context \<Rightarrow> ptr \<Rightarrow> 'w tcp_state \<Rightarrow> (LWIP_Context \<times> 'w tcp_state) option" where
  "recv_ooseq V cx pcb s = do {
     (_, s) \<leftarrow> tcp_send_empty_ack V pcb s;
     (cx, q, s) \<leftarrow> (case ooseq (pcbs s pcb) of
                      [] \<Rightarrow> (case tcp_seg_copy V (inseg cx) s of (None, s) \<Rightarrow> Some (cx, [], s) | (Some c, s) \<Rightarrow> Some (cx, [c], s))
                    | _ \<Rightarrow> oos_walk V cx pcb [] (ooseq (pcbs s pcb)) s);
     Some (cx, upd_pcb pcb (\<lambda>b. b\<lparr>ooseq := q\<rparr>) s)
   }"

definition in_window :: "LWIP_Context \<Rightarrow> tcp_pcb \<Rightarrow> bool" where
  "in_window cx b \<longleftrightarrow> TCP_SEQ_BETWEEN (cx_seqno cx) (rcv_nxt b) (rcv_nxt b + rcv_wnd b - 1)"

definition recv_payload :: "'w tcp_env \<Rightarrow> LWIP_Context \<Rightarrow> ptr \<Rightarrow> 'w tcp_state \<Rightarrow> (LWIP_Context \<times> 'w tcp_state) option" where
  "recv_payload V cx pcb s = do {
     (cx, s) \<leftarrow> recv_trim cx pcb s;
     if in_window cx (pcbs s pcb) then
       if rcv_nxt (pcbs s pcb) = cx_seqno cx then recv_inseq V cx pcb s else recv_ooseq V cx pcb s
     else do { (_, s) \<leftarrow> tcp_send_empty_ack V pcb s; Some (cx, s) }
   }"

definition tcp_receive :: "'w tcp_env \<Rightarrow> LWIP_Context \<Rightarrow> ptr \<Rightarrow> 'w tcp_state \<Rightarrow> (LWIP_Context \<times> 'w tcp_state) option" where
  "tcp_receive V cx pcb s = do {
     s \<leftarrow> (if cx_flags cx AND TCP_ACK \<noteq> 0 then recv_ack V cx pcb s else Some s);
     if cx_tcplen cx > 0 \<and> pcb_state (pcbs s pcb) < CLOSE_WAIT then recv_payload V cx pcb s
     else Some (cx, if \<not> in_window cx (pcbs s pcb) then tcp_ack_now pcb s else s)
   }"

section \<open>The state machine\<close>

text \<open>\<open>src\<close> and \<open>dst\<close> are the addresses of the packet.\<close>

definition cx_rst :: "'w tcp_env \<Rightarrow> LWIP_Context \<Rightarrow> u32 \<Rightarrow> u32 \<Rightarrow> 'w tcp_state \<Rightarrow> 'w tcp_state option" where
  "cx_rst V cx src dst s =
     tcp_rst V (cx_ackno cx) (cx_seqno cx + ucast (cx_tcplen cx)) dst src (hdr_dest (cx_hdr cx s)) (hdr_src (cx_hdr cx s)) s"

definition rst_acceptable :: "LWIP_Context \<Rightarrow> tcp_pcb \<Rightarrow> bool" where
  "rst_acceptable cx b \<longleftrightarrow>
     (if pcb_state b = SYN_SENT then cx_ackno cx = snd_nxt b
      else TCP_SEQ_BETWEEN (cx_seqno cx) (rcv_nxt b) (rcv_nxt b + rcv_wnd b))"

text \<open>The number of an unset list head is read through a null pointer.\<close>

definition process_syn_sent ::
  "'w tcp_env \<Rightarrow> LWIP_Context \<Rightarrow> ptr \<Rightarrow> u32 \<Rightarrow> u32 \<Rightarrow> 'w tcp_state \<Rightarrow> (int \<times> LWIP_Context \<times> 'w tcp_state) option" where
  "process_syn_sent V cx pcb src dst s =
     (if cx_flags cx AND TCP_ACK = 0 then Some (ERR_OK, cx, s)
      else if cx_flags cx AND TCP_SYN = 0 then map_option (\<lambda>s. (ERR_OK, cx, s)) (cx_rst V cx src dst s)
      else case unacked (pcbs s pcb) of
        [] \<Rightarrow> None
      | g # gs \<Rightarrow>
          if cx_ackno cx \<noteq> seg_seqno s g + 1 then map_option (\<lambda>s. (ERR_OK, cx, s)) (cx_rst V cx src dst s)
          else do {
            let wnd = SND_WND_SCALE (pcbs s pcb) (hdr_wnd (cx_hdr cx s));
            let m = tcp_eff_send_mss V (mss (pcbs s pcb));
            let s = upd_pcb pcb (\<lambda>b. b\<lparr>snd_buf := snd_buf b + 1, rcv_nxt := cx_seqno cx + 1, rcv_ann_right_edge := cx_seqno cx + 1,
                      lastack := cx_ackno cx, snd_wnd := wnd, snd_wnd_max := wnd, snd_wl1 := cx_seqno cx - 1, pcb_state := ESTABLISHED,
                      mss := m, ssthresh := ucast m * 100, cwnd := (if cwnd b = 1 then ucast m * 10 else ucast m),
                      snd_queuelen := snd_queuelen b - 1, unacked := gs\<rparr>) s;
            s \<leftarrow> tcp_seg_free V g s;
            s \<leftarrow> tcp_recompute_timers V pcb
                   (upd_pcb pcb (\<lambda>b. if unacked b = [] then b\<lparr>timer_retransmit_expires := 0\<rparr>
                                      else b\<lparr>timer_retransmit_expires := timer_now s + rto_usecs b, nrtx := 0\<rparr>) s);
            (err, s) \<leftarrow> TCP_EVENT_CONNECTED V pcb ERR_OK s;
            Some (if err = ERR_ABRT then (ERR_ABRT, cx, s) else (ERR_OK, cx, tcp_ack_now pcb s))
          })"

text \<open>A FIN that was received is acknowledged at once.\<close>

definition got_fin :: "LWIP_Context \<Rightarrow> bool" where "got_fin cx \<longleftrightarrow> recv_flags cx AND TF_GOT_FIN \<noteq> 0"

definition set_state :: "ptr \<Rightarrow> tcp_conn \<Rightarrow> 'w tcp_state \<Rightarrow> 'w tcp_state" where
  "set_state pcb st s = upd_pcb pcb (\<lambda>b. b\<lparr>pcb_state := st\<rparr>) s"

definition all_acked :: "LWIP_Context \<Rightarrow> tcp_pcb \<Rightarrow> bool" where
  "all_acked cx b \<longleftrightarrow> cx_flags cx AND TCP_ACK \<noteq> 0 \<and> cx_ackno cx = snd_nxt b"

definition enter_time_wait :: "'w tcp_env \<Rightarrow> ptr \<Rightarrow> 'w tcp_state \<Rightarrow> 'w tcp_state option" where
  "enter_time_wait V pcb s = do {
     s \<leftarrow> tcp_pcb_purge V pcb s;
     s \<leftarrow> TCP_RMV_ACTIVE pcb s;
     TCP_REG V (\<lambda>p f. f\<lparr>tw_pcbs := p # tw_pcbs f\<rparr>) pcb (set_state pcb TIME_WAIT s)
   }"

definition process_syn_rcvd ::
  "'w tcp_env \<Rightarrow> LWIP_Context \<Rightarrow> ptr \<Rightarrow> u32 \<Rightarrow> u32 \<Rightarrow> 'w tcp_state \<Rightarrow> (int \<times> LWIP_Context \<times> 'w tcp_state) option" where
  "process_syn_rcvd V cx pcb src dst s =
     (let b = pcbs s pcb
      in if cx_flags cx AND TCP_ACK \<noteq> 0 then
           if TCP_SEQ_BETWEEN (cx_ackno cx) (lastack b + 1) (snd_nxt b) then do {
             (err, s) \<leftarrow> TCP_EVENT_ACCEPT V pcb ERR_OK (set_state pcb ESTABLISHED s);
             if err \<noteq> ERR_OK then do {
               s \<leftarrow> (if err \<noteq> ERR_ABRT then tcp_abort V pcb s else Some s);
               Some (ERR_ABRT, cx, s)
             } else do {
               let old_cwnd = cwnd (pcbs s pcb);
               (cx, s) \<leftarrow> tcp_receive V cx pcb s;
               let s = upd_pcb pcb (\<lambda>b. b\<lparr>acked := (if acked b \<noteq> 0 then acked b - 1 else acked b),
                         cwnd := (if old_cwnd = 1 then ucast (mss b) * 10 else ucast (mss b))\<rparr>) s;
               Some (ERR_OK, cx, if got_fin cx then set_state pcb CLOSE_WAIT (tcp_ack_now pcb s) else s)
             }
           } else map_option (\<lambda>s. (ERR_OK, cx, s)) (cx_rst V cx src dst s)
         else Some (ERR_OK, cx, if cx_flags cx AND TCP_SYN \<noteq> 0 \<and> cx_seqno cx = rcv_nxt b - 1 then tcp_rexmit pcb s else s))"

definition process_established :: "'w tcp_env \<Rightarrow> LWIP_Context \<Rightarrow> ptr \<Rightarrow> 'w tcp_state \<Rightarrow> (int \<times> LWIP_Context \<times> 'w tcp_state) option" where
  "process_established V cx pcb s = do {
     (cx, s) \<leftarrow> tcp_receive V cx pcb s;
     Some (ERR_OK, cx, if got_fin cx then set_state pcb CLOSE_WAIT (tcp_ack_now pcb s) else s)
   }"

definition process_fin_wait_1 :: "'w tcp_env \<Rightarrow> LWIP_Context \<Rightarrow> ptr \<Rightarrow> 'w tcp_state \<Rightarrow> (int \<times> LWIP_Context \<times> 'w tcp_state) option" where
  "process_fin_wait_1 V cx pcb s = do {
     (cx, s) \<leftarrow> tcp_receive V cx pcb s;
     if got_fin cx then
       if all_acked cx (pcbs s pcb) then map_option (\<lambda>s. (ERR_OK, cx, s)) (enter_time_wait V pcb (tcp_ack_now pcb s))
       else Some (ERR_OK, cx, set_state pcb CLOSING (tcp_ack_now pcb s))
     else Some (ERR_OK, cx, if all_acked cx (pcbs s pcb) then set_state pcb FIN_WAIT_2 s else s)
   }"

definition process_fin_wait_2 :: "'w tcp_env \<Rightarrow> LWIP_Context \<Rightarrow> ptr \<Rightarrow> 'w tcp_state \<Rightarrow> (int \<times> LWIP_Context \<times> 'w tcp_state) option" where
  "process_fin_wait_2 V cx pcb s = do {
     (cx, s) \<leftarrow> tcp_receive V cx pcb s;
     if got_fin cx then map_option (\<lambda>s. (ERR_OK, cx, s)) (enter_time_wait V pcb (tcp_ack_now pcb s))
     else Some (ERR_OK, cx, s)
   }"

definition process_closing :: "'w tcp_env \<Rightarrow> LWIP_Context \<Rightarrow> ptr \<Rightarrow> 'w tcp_state \<Rightarrow> (int \<times> LWIP_Context \<times> 'w tcp_state) option" where
  "process_closing V cx pcb s = do {
     (cx, s) \<leftarrow> tcp_receive V cx pcb s;
     if all_acked cx (pcbs s pcb) then map_option (\<lambda>s. (ERR_OK, cx, s)) (enter_time_wait V pcb s)
     else Some (ERR_OK, cx, s)
   }"

definition process_last_ack :: "'w tcp_env \<Rightarrow> LWIP_Context \<Rightarrow> ptr \<Rightarrow> 'w tcp_state \<Rightarrow> (int \<times> LWIP_Context \<times> 'w tcp_state) option" where
  "process_last_ack V cx pcb s = do {
     (cx, s) \<leftarrow> tcp_receive V cx pcb s;
     Some (ERR_OK, if all_acked cx (pcbs s pcb) then cx\<lparr>recv_flags := recv_flags cx OR TF_CLOSED\<rparr> else cx, s)
   }"

definition tcp_process ::
  "'w tcp_env \<Rightarrow> LWIP_Context \<Rightarrow> ptr \<Rightarrow> u32 \<Rightarrow> u32 \<Rightarrow> 'w tcp_state \<Rightarrow> (int \<times> LWIP_Context \<times> 'w tcp_state) option" where
  "tcp_process V cx pcb src dst s =
     (let b = pcbs s pcb
      in if cx_flags cx AND TCP_RST \<noteq> 0 then
           if rst_acceptable cx b
           then Some (ERR_RST, cx\<lparr>recv_flags := recv_flags cx OR TF_RESET\<rparr>, upd_pcb pcb (\<lambda>b. b\<lparr>timer_delayedack_expires := 0\<rparr>) s)
           else Some (ERR_OK, cx, s)
         else if cx_flags cx AND TCP_SYN \<noteq> 0 \<and> pcb_state b \<noteq> SYN_SENT \<and> pcb_state b \<noteq> SYN_RCVD
         then Some (ERR_OK, cx, tcp_ack_now pcb s)
         else
           let s = upd_pcb pcb (\<lambda>b. b\<lparr>pcb_tmr := (if pcb_flags b AND TF_RXCLOSED = 0 then tcp_ticks (cur_fg s) else pcb_tmr b), keep_cnt_sent := 0\<rparr>) s;
               s = tcp_parseopt cx pcb s
           in case pcb_state (pcbs s pcb) of
                SYN_SENT \<Rightarrow> process_syn_sent V cx pcb src dst s
              | SYN_RCVD \<Rightarrow> process_syn_rcvd V cx pcb src dst s
              | CLOSE_WAIT \<Rightarrow> process_established V cx pcb s
              | ESTABLISHED \<Rightarrow> process_established V cx pcb s
              | FIN_WAIT_1 \<Rightarrow> process_fin_wait_1 V cx pcb s
              | FIN_WAIT_2 \<Rightarrow> process_fin_wait_2 V cx pcb s
              | CLOSING \<Rightarrow> process_closing V cx pcb s
              | LAST_ACK \<Rightarrow> process_last_ack V cx pcb s
              | _ \<Rightarrow> Some (ERR_OK, cx, s))"

section \<open>Segments for no connection\<close>

definition tcp_timewait_input :: "'w tcp_env \<Rightarrow> LWIP_Context \<Rightarrow> ptr \<Rightarrow> u32 \<Rightarrow> u32 \<Rightarrow> 'w tcp_state \<Rightarrow> 'w tcp_state option" where
  "tcp_timewait_input V cx pcb src dst s =
     (let b = pcbs s pcb
      in if cx_flags cx AND TCP_RST \<noteq> 0 then Some s
         else if cx_flags cx AND TCP_SYN \<noteq> 0 \<and> TCP_SEQ_BETWEEN (cx_seqno cx) (rcv_nxt b) (rcv_nxt b + rcv_wnd b)
         then cx_rst V cx src dst s
         else
           let s = (if cx_flags cx AND TCP_SYN = 0 \<and> cx_flags cx AND TCP_FIN \<noteq> 0
                    then upd_pcb pcb (\<lambda>b. b\<lparr>pcb_tmr := tcp_ticks (cur_fg s)\<rparr>) s else s)
           in if cx_tcplen cx > 0 then map_option snd (tcp_output V pcb (tcp_ack_now pcb s)) else Some s)"

definition tcp_listen_input :: "'w tcp_env \<Rightarrow> LWIP_Context \<Rightarrow> ptr \<Rightarrow> nat \<Rightarrow> u32 \<Rightarrow> u32 \<Rightarrow> 'w tcp_state \<Rightarrow> 'w tcp_state option" where
  "tcp_listen_input V cx lpcb idx src dst s =
     (if cx_flags cx AND TCP_RST \<noteq> 0 then Some s
      else if cx_flags cx AND TCP_ACK \<noteq> 0 then cx_rst V cx src dst s
      else if cx_flags cx AND TCP_SYN \<noteq> 0 then do {
        let l = lpcbs s lpcb;
        (pcb, s) \<leftarrow> tcp_alloc V (l_prio l) s;
        let rport = hdr_src (cx_hdr cx s);
        let s = upd_pcb pcb (\<lambda>b. b\<lparr>local_ip := dst, remote_ip := src, local_port := l_local_port l, remote_port := rport,
                  pcb_state := SYN_RCVD, rcv_nxt := cx_seqno cx + 1, rcv_ann_right_edge := cx_seqno cx + 1, snd_wl1 := cx_seqno cx - 1,
                  callback_arg := l_callback_arg l, so_options := l_so_options l AND SOF_INHERITED\<rparr>) s;
        s \<leftarrow> TCP_REG_ACTIVE V pcb idx s;
        let s = tcp_parseopt cx pcb s;
        let wnd = SND_WND_SCALE (pcbs s pcb) (hdr_wnd (cx_hdr cx s));
        let s = upd_pcb pcb (\<lambda>b. b\<lparr>snd_wnd := wnd, snd_wnd_max := wnd, ssthresh := wnd, mss := tcp_eff_send_mss V (mss b)\<rparr>) s;
        (rc, s) \<leftarrow> tcp_enqueue_flags V pcb (TCP_SYN OR TCP_ACK) s;
        if rc \<noteq> ERR_OK then tcp_abandon V pcb False s
        else map_option snd (tcp_output V pcb s)
      } else Some s)"

section \<open>Input\<close>

definition tcp_input_find_list :: "'w tcp_state \<Rightarrow> lwip_tcp_hdr \<Rightarrow> u32 \<Rightarrow> u32 \<Rightarrow> ptr list \<Rightarrow> ptr option" where
  "tcp_input_find_list s h src dst ps =
     find (\<lambda>p. let b = pcbs s p in remote_port b = hdr_src h \<and> local_port b = hdr_dest h \<and> remote_ip b = src \<and> local_ip b = dst) ps"

text \<open>The walk over the listeners leaves the last one in \<open>lpcb\<close> when none of them matches.\<close>

definition find_listener :: "'w tcp_state \<Rightarrow> lwip_tcp_hdr \<Rightarrow> u32 \<Rightarrow> ptr option" where
  "find_listener s h dst =
     (case find (\<lambda>l. l_local_port (lpcbs s l) = hdr_dest h \<and> (l_local_ip (lpcbs s l) = dst \<or> l_local_ip (lpcbs s l) = IPADDR_ANY)) (listen_pcbs s) of
        Some l \<Rightarrow> Some l
      | None \<Rightarrow> if listen_pcbs s = [] then None else Some (last (listen_pcbs s)))"

text \<open>Sent data is reported in pieces of at most 65535 bytes.  The results of the three steps below say whether the connection was aborted.\<close>

function input_sent :: "'w tcp_env \<Rightarrow> ptr \<Rightarrow> u32 \<Rightarrow> 'w tcp_state \<Rightarrow> (bool \<times> 'w tcp_state) option" where
  "input_sent V pcb n s =
     (if n > 0 then
        let k = min n 0xffff
        in case TCP_EVENT_SENT V pcb k s of
             None \<Rightarrow> None
           | Some (err, s) \<Rightarrow> if err = ERR_ABRT then Some (True, s) else input_sent V pcb (n - k) s
      else Some (False, s))"
  by auto

termination
  by (relation "measure (\<lambda>(V, pcb, n, s). unat n)")
     (auto simp: min_def unat_sub word_le_nat_alt word_less_nat_alt)

partial_function (option) input_recv :: "'w tcp_env \<Rightarrow> ptr \<Rightarrow> ptr option \<Rightarrow> 'w tcp_state \<Rightarrow> (bool \<times> 'w tcp_state) option" where
  "input_recv V pcb rd s =
     (case rd of
        None \<Rightarrow> Some (False, s)
      | Some p \<Rightarrow> do {
          (rest, s) \<leftarrow> try_pb (pbuf_split_64k (Some p)) s;
          if pcb_flags (pcbs s pcb) AND TF_RXCLOSED \<noteq> 0 then do {
            (_, s) \<leftarrow> try_pb (pbuf_free (te_net V) (Some p)) s;
            (_, s) \<leftarrow> try_pb (pbuf_free (te_net V) rest) s;
            s \<leftarrow> tcp_abort V pcb s;
            Some (True, s)
          } else do {
            (err, s) \<leftarrow> TCP_EVENT_RECV V pcb (Some p) s;
            if err = ERR_ABRT then do { (_, s) \<leftarrow> try_pb (pbuf_free (te_net V) rest) s; Some (True, s) }
            else if err \<noteq> ERR_OK then do {
              s \<leftarrow> (if rest \<noteq> None then run_pb (pbuf_cat (Some p) rest) s else Some s);
              Some (False, upd_pcb pcb (\<lambda>b. b\<lparr>refused_data := Some p\<rparr>) s)
            } else input_recv V pcb rest s
          }
        })"

definition input_fin :: "'w tcp_env \<Rightarrow> LWIP_Context \<Rightarrow> ptr \<Rightarrow> 'w tcp_state \<Rightarrow> (bool \<times> 'w tcp_state) option" where
  "input_fin V cx pcb s =
     (if got_fin cx then
        case refused_data (pcbs s pcb) of
          Some p \<Rightarrow> Some (False, on_pb (upd_pbuf p (\<lambda>b. b\<lparr>pb_flags := pb_flags b OR PBUF_FLAG_TCP_FIN\<rparr>)) s)
        | None \<Rightarrow> do {
            let s = (if rcv_wnd (pcbs s pcb) \<noteq> TCP_WND then upd_pcb pcb (\<lambda>b. b\<lparr>rcv_wnd := rcv_wnd b + 1\<rparr>) s else s);
            (err, s) \<leftarrow> TCP_EVENT_CLOSED V pcb s;
            Some (err = ERR_ABRT, s)
          }
      else Some (False, s))"

definition remove_pcb :: "'w tcp_env \<Rightarrow> ptr \<Rightarrow> 'w tcp_state \<Rightarrow> 'w tcp_state option" where
  "remove_pcb V pcb s = map_option (free_pcb V pcb) (tcp_pcb_remove V pcb s)"

text \<open>What follows \<open>tcp_process\<close>: the events for the application, and output.\<close>

definition input_events :: "'w tcp_env \<Rightarrow> LWIP_Context \<Rightarrow> ptr \<Rightarrow> 'w tcp_state \<Rightarrow> 'w tcp_state option" where
  "input_events V cx pcb s =
     (if recv_flags cx AND TF_RESET \<noteq> 0 then do {
        s \<leftarrow> TCP_EVENT_ERR V (callback_arg (pcbs s pcb)) ERR_RST s;
        remove_pcb V pcb s
      }
      else if recv_flags cx AND TF_CLOSED \<noteq> 0 then do {
        s \<leftarrow> (if pcb_flags (pcbs s pcb) AND TF_RXCLOSED = 0 then TCP_EVENT_ERR V (callback_arg (pcbs s pcb)) ERR_CLSD s else Some s);
        remove_pcb V pcb s
      }
      else do {
        (ab, s) \<leftarrow> input_sent V pcb (acked (pcbs s pcb)) s;
        if ab then Some s
        else do {
          (ab, s) \<leftarrow> input_recv V pcb (recv_data cx) s;
          if ab then Some s
          else do {
            (ab, s) \<leftarrow> input_fin V cx pcb s;
            if ab then Some s else map_option snd (tcp_output V pcb (s\<lparr>tcp_input_pcb := None\<rparr>))
          }
        }
      })"

definition input_conn :: "'w tcp_env \<Rightarrow> LWIP_Context \<Rightarrow> ptr \<Rightarrow> ptr \<Rightarrow> u32 \<Rightarrow> u32 \<Rightarrow> 'w tcp_state \<Rightarrow> 'w tcp_state option" where
  "input_conn V cx pcb p src dst s = do {
     let cx = cx\<lparr>inseg := (inseg cx)\<lparr>seg_len := tot_len (pbufs (tc_pb s) p), seg_p := Some p, tcphdr := cx_tcphdr cx\<rparr>, recv_data := None, recv_flags := 0\<rparr>;
     let s = (if cx_flags cx AND TCP_PSH \<noteq> 0 then on_pb (upd_pbuf p (\<lambda>b. b\<lparr>pb_flags := pb_flags b OR PBUF_FLAG_PUSH\<rparr>)) s else s);
     (ab, s) \<leftarrow> (if refused_data (pcbs s pcb) \<noteq> None then do {
                   (err, s) \<leftarrow> tcp_process_refused_data V pcb s;
                   Some (err = ERR_ABRT \<or> (refused_data (pcbs s pcb) \<noteq> None \<and> cx_tcplen cx > 0), s)
                 } else Some (False, s));
     (cx, s) \<leftarrow> (if ab then Some (cx, s)
                 else do {
                   (err, cx, s) \<leftarrow> tcp_process V cx pcb src dst (s\<lparr>tcp_input_pcb := Some pcb\<rparr>);
                   s \<leftarrow> (if err \<noteq> ERR_ABRT then input_events V cx pcb s else Some s);
                   Some (cx, s)
                 });
     map_option snd (try_pb (pbuf_free (te_net V) (seg_p (inseg cx))) (s\<lparr>tcp_input_pcb := None\<rparr>))
   }"

text \<open>The fields of \<open>inseg\<close> that are not set are not read.\<close>

definition input_context :: "nat \<Rightarrow> ptr \<Rightarrow> 'w tcp_state \<Rightarrow> LWIP_Context" where
  "input_context a p s =
     (let h = hdr s a
      in \<lparr>inseg = \<lparr>seg_p = None, seg_len = 0, oversize_left = 0, seg_flags = 0, tcphdr = 0\<rparr>, cx_tcphdr = a,
          cx_seqno = hdr_seqno h, cx_ackno = hdr_ackno h, cx_flags = TCPH_FLAGS h,
          cx_tcplen = tot_len (pbufs (tc_pb s) p) + (if TCPH_FLAGS h AND (TCP_FIN OR TCP_SYN) \<noteq> 0 then 1 else 0),
          recv_flags = 0, recv_data = None\<rparr>)"

definition hdr_to_host :: "lwip_tcp_hdr \<Rightarrow> lwip_tcp_hdr" where
  "hdr_to_host h = h\<lparr>hdr_src := ntoh16 (hdr_src h), hdr_dest := ntoh16 (hdr_dest h), hdr_seqno := ntoh32 (hdr_seqno h),
     hdr_ackno := ntoh32 (hdr_ackno h), hdr_wnd := ntoh16 (hdr_wnd h)\<rparr>"

text \<open>Where the segment goes.\<close>

definition input_demux :: "'w tcp_env \<Rightarrow> LWIP_Context \<Rightarrow> ptr \<Rightarrow> u32 \<Rightarrow> u32 \<Rightarrow> 'w tcp_state \<Rightarrow> 'w tcp_state option" where
  "input_demux V cx p src dst s =
     (let h = cx_hdr cx s;
          idx = tcp_to_idx dst src (hdr_dest h) (hdr_src h);
          release = \<lambda>s. map_option snd (try_pb (pbuf_free (te_net V) (Some p)) s)
      in case tcp_input_find_list s h src dst (active_tbl (cur_fg s) idx) of
           Some pcb \<Rightarrow> input_conn V cx pcb p src dst s
         | None \<Rightarrow>
             (case tcp_input_find_list s h src dst (tw_pcbs (cur_fg s)) of
                Some pcb \<Rightarrow> tcp_timewait_input V cx pcb src dst s \<bind> release
              | None \<Rightarrow>
                  (case find_listener s h dst of
                     Some l \<Rightarrow> tcp_listen_input V cx l idx src dst s \<bind> release
                   | None \<Rightarrow> (if TCPH_FLAGS h AND TCP_RST = 0 then cx_rst V cx src dst s else Some s) \<bind> release)))"

definition tcp_input :: "'w tcp_env \<Rightarrow> ptr \<Rightarrow> u32 \<Rightarrow> u32 \<Rightarrow> 'w tcp_state \<Rightarrow> 'w tcp_state option" where
  "tcp_input V p src dst s =
     (let a = payload (pbufs (tc_pb s) p);
          drop_p = \<lambda>s. map_option snd (try_pb (pbuf_free (te_net V) (Some p)) s)
      in if unat (pb_len (pbufs (tc_pb s) p)) < TCP_HLEN then drop_p s
         else do {
           (r, s) \<leftarrow> try_pb (pbuf_header p (- int (unat (TCPH_HDRLEN (hdr s a)) * 4))) s;
           if r \<noteq> 0 then drop_p s
           else do {
             let s = upd_hdr a hdr_to_host s;
             input_demux V (input_context a p s) p src dst s
           }
         })"

end
