(* ===== verification/TcpApi.thy ===== *)
theory TcpApi
  imports TcpIn
begin

text \<open>
  The system calls of TCP and the start of its interface to the application (\<open>net/tcp_api.c\<close>).
\<close>

unbundle bit_operations_syntax

section \<open>System calls of TCP\<close>

definition ETH_MAX_TOTAL_FG :: nat where "ETH_MAX_TOTAL_FG = 128 * 16"
definition NCPU :: nat where "NCPU = 128"
definition PORTS_PER_CPU :: u32 where "PORTS_PER_CPU = 65536 div 32"
definition MAX_SG_ENTRIES :: nat where "MAX_SG_ENTRIES = 30"
definition DEFAULT_PORT :: u16 where "DEFAULT_PORT = 8000"
definition TCPAPI_PCB_SIZE :: u64 where "TCPAPI_PCB_SIZE = 64"

text \<open>
  The cookie of the connection is read before a caller can test for \<open>NULL\<close>: a handle that names a free
  position follows a null pointer.  The flow group that the handle names is the one of the state.
\<close>

definition handle_to_tcpapi :: "int \<Rightarrow> 'w tcp_state \<Rightarrow> (ptr option \<times> 'w tcp_state) option" where
  "handle_to_tcpapi handle s =
     (let h = (word_of_int handle :: u64); fg = unat (drop_bit 48 h); idx = unat (h AND 0xffffffffffff)
      in if fg \<ge> ETH_MAX_TOTAL_FG + NCPU then Some (None, s)
         else if idx \<ge> MAX_PCBS then Some (None, s)
         else case handle2pcb_array s idx of
           None \<Rightarrow> None
         | Some a \<Rightarrow> Some (Some a, s\<lparr>syscall_cookie := api_cookie (apis s a)\<rparr>))"

partial_function (option) accept_loop :: "ptr \<Rightarrow> ptr option \<Rightarrow> 'w tcp_state \<Rightarrow> 'w tcp_state option" where
  "accept_loop a tmp s =
     (case tmp of
        None \<Rightarrow> Some s
      | Some p \<Rightarrow> do { s \<leftarrow> recv_a_pbuf a p s; accept_loop a (tcp_api_next (pbufs (tc_pb s) p)) s })"

definition bsys_tcp_accept :: "'w tcp_env \<Rightarrow> int \<Rightarrow> u64 \<Rightarrow> 'w tcp_state \<Rightarrow> (int \<times> 'w tcp_state) option" where
  "bsys_tcp_accept V handle cookie s = do {
     (api, s) \<leftarrow> handle_to_tcpapi handle s;
     case api of
       None \<Rightarrow> Some (- RET_BADH, s)
     | Some a \<Rightarrow> do {
         let s = (case api_id (apis s a) of
                    None \<Rightarrow> s
                  | Some i \<Rightarrow> upd_api a (\<lambda>x. x\<lparr>api_id := None\<rparr>) (on_pb (pool_free (te_net V) (id_mempool s) i) s));
         let s = upd_api a (\<lambda>x. x\<lparr>api_cookie := cookie, accepted := True\<rparr>) s;
         s \<leftarrow> accept_loop a (recvd (apis s a)) s;
         Some (RET_OK, s)
       }
   }"

definition bsys_tcp_reject :: "int \<Rightarrow> 'w tcp_state \<Rightarrow> int \<times> 'w tcp_state" where
  "bsys_tcp_reject handle s = (- RET_NOTSUP, s)"

definition bsys_tcp_send :: "int \<Rightarrow> nat \<Rightarrow> u64 \<Rightarrow> 'w tcp_state \<Rightarrow> int \<times> 'w tcp_state" where
  "bsys_tcp_send handle addr n s = (- RET_NOTSUP, s)"

text \<open>An entry is an address and a length; the result is the number of bytes that were queued.\<close>

fun sendv_loop :: "'w tcp_env \<Rightarrow> ptr \<Rightarrow> (nat \<times> u64) list \<Rightarrow> 'w tcp_state \<Rightarrow> (nat \<times> 'w tcp_state) option" where
  "sendv_loop V pcb [] s = Some (0, s)"
| "sendv_loop V pcb ((base, n) # es) s =
     (let room = ucast (min (snd_buf (pcbs s pcb)) 0xFFFF);
          buf_full = n > room;
          k = (if buf_full then room else n)
      in if k = 0 then Some (0, s)
         else do {
           (err, s) \<leftarrow> tcp_write V pcb base (ucast k) 0 s;
           if err \<noteq> ERR_OK then Some (0, s)
           else if buf_full then Some (unat k, s)
           else do { (m, s) \<leftarrow> sendv_loop V pcb es s; Some (unat k + m, s) }
         })"

definition bsys_tcp_sendv :: "'w tcp_env \<Rightarrow> int \<Rightarrow> (nat \<times> u64) list \<Rightarrow> 'w tcp_state \<Rightarrow> (int \<times> 'w tcp_state) option" where
  "bsys_tcp_sendv V handle ents s = do {
     (api, s) \<leftarrow> handle_to_tcpapi handle s;
     case api of
       None \<Rightarrow> Some (- RET_BADH, s)
     | Some a \<Rightarrow>
         if \<not> alive (apis s a) then Some (- RET_CLOSED, s)
         else if ents = [] then Some (0, s)
         else do {
           pcb \<leftarrow> api_pcb (apis s a);
           (n, s) \<leftarrow> sendv_loop V pcb (take MAX_SG_ENTRIES ents) s;
           s \<leftarrow> (if n \<noteq> 0 then map_option snd (tcp_output V pcb s) else Some s);
           Some (int n, s)
         }
   }"

text \<open>A received buffer is released once the application is done with all of it.\<close>

partial_function (option) recv_done_loop :: "'w tcp_env \<Rightarrow> u64 \<Rightarrow> ptr option \<Rightarrow> 'w tcp_state \<Rightarrow> (ptr option \<times> 'w tcp_state) option" where
  "recv_done_loop V n rd s =
     (case rd of
        None \<Rightarrow> Some (None, s)
      | Some p \<Rightarrow>
          let b = pbufs (tc_pb s) p
          in if n < ucast (pb_len b) then Some (Some p, s)
             else do {
               (_, s) \<leftarrow> try_pb (pbuf_free (te_net V) (Some p)) s;
               recv_done_loop V (n - ucast (pb_len b)) (tcp_api_next b) s
             })"

definition bsys_tcp_recv_done :: "'w tcp_env \<Rightarrow> int \<Rightarrow> u64 \<Rightarrow> 'w tcp_state \<Rightarrow> (int \<times> 'w tcp_state) option" where
  "bsys_tcp_recv_done V handle n s = do {
     (api, s) \<leftarrow> handle_to_tcpapi handle s;
     case api of
       None \<Rightarrow> Some (- RET_BADH, s)
     | Some a \<Rightarrow> do {
         let rd = recvd (apis s a);
         s \<leftarrow> (case api_pcb (apis s a) of None \<Rightarrow> Some s | Some pcb \<Rightarrow> tcp_recved V pcb (ucast n) s);
         (rd, s) \<leftarrow> recv_done_loop V n rd s;
         Some (RET_OK, upd_api a (\<lambda>x. x\<lparr>recvd := rd\<rparr>) s)
       }
   }"

partial_function (option) close_loop :: "'w tcp_env \<Rightarrow> ptr option \<Rightarrow> 'w tcp_state \<Rightarrow> 'w tcp_state option" where
  "close_loop V rd s =
     (case rd of
        None \<Rightarrow> Some s
      | Some p \<Rightarrow> do {
          let q = tcp_api_next (pbufs (tc_pb s) p);
          (_, s) \<leftarrow> try_pb (pbuf_free (te_net V) (Some p)) s;
          close_loop V q s
        })"

definition bsys_tcp_close :: "'w tcp_env \<Rightarrow> int \<Rightarrow> 'w tcp_state \<Rightarrow> (int \<times> 'w tcp_state) option" where
  "bsys_tcp_close V handle s = do {
     (api, s) \<leftarrow> handle_to_tcpapi handle s;
     case api of
       None \<Rightarrow> Some (- RET_BADH, s)
     | Some a \<Rightarrow> do {
         s \<leftarrow> (case api_pcb (apis s a) of None \<Rightarrow> Some s | Some pcb \<Rightarrow> tcp_close_with_reset V pcb s);
         s \<leftarrow> close_loop V (recvd (apis s a)) s;
         let s = (case api_id (apis s a) of
                    None \<Rightarrow> s
                  | Some i \<Rightarrow> on_pb (pool_free (te_net V) (id_mempool s) i) (remove_fdir_filter V i s));
         i \<leftarrow> find (\<lambda>i. handle2pcb_array s i = Some a) [0..<MAX_PCBS];
         let s = s\<lparr>handle2pcb_array := (handle2pcb_array s)(i := None)\<rparr>;
         Some (RET_OK, on_pb (pool_free (te_net V) (pcb_mempool s) a) s)
       }
   }"

text \<open>
  A failure to add the filter is returned in place of a pointer to a flow group, and followed by the
  caller.  Without a flow director the flow group of the CPU is taken.
\<close>

definition get_port_with_fdir :: "'w tcp_env \<Rightarrow> ip_tuple \<Rightarrow> 'w tcp_state \<Rightarrow> 'w tcp_state option" where
  "get_port_with_fdir V t s =
     (if fdir_supported V (net_world (tc_net s)) < 0 then Some s
      else case set_fdir V True t s of (r, s) \<Rightarrow> if r < 0 then None else Some s)"

definition get_local_port_and_set_queue :: "'w tcp_env \<Rightarrow> ip_tuple \<Rightarrow> 'w tcp_state \<Rightarrow> (ip_tuple \<times> 'w tcp_state) option" where
  "get_local_port_and_set_queue V t s = do {
     let lp = (if tcp_local_port s = 0 then ucast (cpu_id (tc_net s) * PORTS_PER_CPU) else tcp_local_port s) + 1;
     let t = t\<lparr>src_port := lp\<rparr>;
     s \<leftarrow> get_port_with_fdir V t (s\<lparr>tcp_local_port := lp\<rparr>);
     Some (t, s)
   }"

definition connect_fail :: "'w tcp_env \<Rightarrow> ptr \<Rightarrow> 'w tcp_state \<Rightarrow> (int \<times> 'w tcp_state) option" where
  "connect_fail V pcb s = map_option (\<lambda>s. (- RET_NOMEM, s)) (tcp_abort V pcb s)"

definition bsys_tcp_connect :: "'w tcp_env \<Rightarrow> ip_tuple \<Rightarrow> u64 \<Rightarrow> 'w tcp_state \<Rightarrow> (int \<times> 'w tcp_state) option" where
  "bsys_tcp_connect V t cookie s = do {
     (t, s) \<leftarrow> get_local_port_and_set_queue V (t\<lparr>src_ip := cfg_host_addr (te_cfg V)\<rparr>) (s\<lparr>syscall_cookie := cookie\<rparr>);
     (pcb, s) \<leftarrow> tcp_new V s;
     let s = tcp_nagle_disable pcb s;
     case ret_pb (pool_alloc (te_net V) (pcb_mempool s)) s of
       (None, s) \<Rightarrow> connect_fail V pcb s
     | (Some a, s) \<Rightarrow> do {
         let s = upd_api a (\<lambda>x. x\<lparr>api_pcb := Some pcb, alive := True, api_cookie := cookie, recvd := None, recvd_tail := None, accepted := True\<rparr>) s;
         (h, s) \<leftarrow> tcpapi_to_handle a (tcp_arg pcb (Some a) s);
         let s = upd_api a (\<lambda>x. x\<lparr>api_handle := h\<rparr>) s;
         (err, s) \<leftarrow> tcp_bind V pcb (hton32 (src_ip t)) (src_port t) s;
         if err \<noteq> ERR_OK then connect_fail V pcb s
         else do {
           (err, s) \<leftarrow> tcp_connect V pcb (Some (hton32 (dst_ip t))) (dst_port t) s;
           if err \<noteq> ERR_OK then connect_fail V pcb s else Some (api_handle (apis s a), s)
         }
       }
   }"

section \<open>Start\<close>

record api_stores =
  pcb_datastore :: ptr
  id_datastore :: ptr

text \<open>\<open>struct tcpapi_pcb\<close> takes 64 bytes, \<open>struct ip_tuple\<close> 12.\<close>

definition tcp_api_init :: "'w tcp_env \<Rightarrow> api_stores \<Rightarrow> 'w tcp_state \<Rightarrow> (int \<times> 'w tcp_state) option" where
  "tcp_api_init V D s = do {
     (r, s) \<leftarrow> try_pb (init_mempool (te_net V) (pcb_datastore D) (int MAX_PCBS) 64 ''pcb'') s;
     if r \<noteq> 0 then Some (r, s)
     else if ds_elem_len (dss (net_mp (tc_net s)) (pcb_datastore D)) \<noteq> TCPAPI_PCB_SIZE then None
     else try_pb (init_mempool (te_net V) (id_datastore D) (int MAX_PCBS) 12 ''ip'') s
   }"

fun listen_on :: "ptr list \<Rightarrow> u16 list \<Rightarrow> 'w tcp_state \<Rightarrow> int \<times> 'w tcp_state" where
  "listen_on (l # ls) (port # ports) s =
     (case tcp_listen_with_backlog (Some l) 255 IPADDR_ANY port s of
        (r, s) \<Rightarrow> if r \<noteq> 0 then (r, s) else listen_on ls ports s)"
| "listen_on _ _ s = (0, s)"

text \<open>\<open>ls\<close> are the addresses of the \<open>listen_ports\<close>, \<open>ports\<close> the ports of the configuration.\<close>

definition tcp_api_init_cpu :: "api_stores \<Rightarrow> ptr list \<Rightarrow> u16 list \<Rightarrow> 'w tcp_state \<Rightarrow> (int \<times> 'w tcp_state) option" where
  "tcp_api_init_cpu D ls ports s = do {
     let cpu = sint (cpu_id (tc_net s));
     (r, m) \<leftarrow> mempool_create (pcb_mempool s) (pcb_datastore D) MEMPOOL_SANITY_PERCPU cpu (net_mp (tc_net s));
     let s = s\<lparr>pcb_mempool := m\<rparr>;
     if r \<noteq> 0 then Some (r, s)
     else do {
       let s = s\<lparr>handle2pcb_array := (\<lambda>i. if i < MAX_PCBS then None else handle2pcb_array s i)\<rparr>;
       (r, m) \<leftarrow> mempool_create (id_mempool s) (id_datastore D) MEMPOOL_SANITY_PERCPU cpu (net_mp (tc_net s));
       let s = s\<lparr>id_mempool := m\<rparr>;
       Some (if r \<noteq> 0 then (r, s) else listen_on ls (if ports = [] then [DEFAULT_PORT] else ports) s)
     }
   }"

end
