(* ===== verification/Spec2Isabelle.thy ===== *)
theory Spec2Isabelle
  imports Prelude CDouble Bitmap IxList SwQueue Atomic Usys Mempool MempoolAlign NvmeState NvmeFlow
    NvmeAdmission NvmeTenants NvmeIo NvmeSched NvmeServe NvmeRounds NvmeRequests TimerWheel TimerProps ByteOrder Checksum NetState Arp IpStack NetProps
    Ip4Addr Pbuf PbufProps TcpState TcpOut TcpEvents TcpCore TcpIn TcpApi
begin

text \<open>
  A verification development for ReFlex, a server that gives remote clients access to NVMe flash
  over a user-level TCP/IP data plane and schedules their requests against service level
  objectives.  Paths are relative to \<open>src/\<close>.

  \<^bold>\<open>The program.\<close>  Each core polls a network queue, runs the timers that are due, and hands events to
  the application by arrays of descriptors; the application answers with arrays of system calls.
  Packets go through \<open>net/ip.c\<close>, which gives ARP packets to \<open>net/arp.c\<close>, echo requests to
  \<open>net/icmp.c\<close> and segments to lwIP's TCP, whose packets live in the buffers of \<open>lwip/pbuf.c\<close>.  System
  calls of the flash device end in \<open>nvme/nvmedev.c\<close>: a tenant registers a flow with a latency
  and throughput objective, its requests wait in a software queue (\<open>nvme/nvme_sw_queue.c\<close>), and a
  scheduler on every core submits them to the device against tokens.  Everything takes its memory
  from the pools of \<open>core/mempool.c\<close>, and its time from the wheel of \<open>core/timer.c\<close>.

  \<^bold>\<open>How C appears in the model.\<close>  Unsigned integers are words of their width, so additions wrap as in
  C; signed integers are \<open>int\<close>; pointers are \<open>nat\<close>, and \<open>NULL\<close> is \<open>None\<close> where the code tests
  for it.  A \<open>double\<close> is a rational that is rounded to 53 bits after every operation (\<open>CDouble\<close>).
  Functions pass a record of the state they touch.  \<open>None\<close> as the result of a stateful function means that the
  process stops: a panic, an assertion that is compiled in, a null pointer that is followed, a
  lock that is taken twice, a loop that does not end.  So a theorem that concludes
  \<open>f x s = Some s'\<close> also says that none of these happens.  \<open>LWIP_ASSERT\<close> is compiled out, while
  \<open>LWIP_ERROR\<close> stops the process.
  DPDK, SPDK and libconfig are not part of the repository: their functions are
  fields of the environments \<open>dpdk\<close>, \<open>dpdk_pool\<close>, \<open>nvme_env\<close> and \<open>net_env\<close>, the state behind them is a type
  variable, and what the code relies on is stated by the predicates \<open>rte_mempool_ok\<close>,
  \<open>align_ceil_ok\<close>, \<open>dpdk_pool_ok\<close>, \<open>spdk_ok\<close>, \<open>spdk_cpl_ok\<close>, \<open>eth_ok\<close> and \<open>clock_ok\<close>, each of which an example
  environment satisfies.

  \<^bold>\<open>Foundations.\<close>
  \<^item> \<open>Prelude\<close>: word types, error codes, generic lemmas on lists and words.
  \<^item> \<open>CDouble\<close>: rounding, its monotonicity, and the integers it leaves exact.
  \<^item> \<open>Bitmap\<close>, \<open>inc/ix/bitmap.h\<close>: the interface \<open>bitset\<close>, with the arrays of \<open>unsigned long\<close> as its instance.
  \<^item> \<open>IxList\<close>, \<open>inc/ix/list.h\<close>: pointer structures in an explicit heap.  The interface
    \<open>intrusive_list\<close> (add, delete, representation by a HOL list, separation) has the cyclic list and
    the hash list as instances; appending, moving and traversing are proved against it.
  \<^item> \<open>Atomic\<close>, \<open>inc/ix/atomic.h\<close>: the three counters at their widths.
  \<^item> \<open>Usys\<close>, \<open>inc/ix/syscall.h\<close>: descriptors and their arrays, call numbers, events.
  \<^item> \<open>Mempool\<close> and \<open>MempoolAlign\<close>, \<open>core/mempool.c\<close>: an object is never handed out twice; the pages
    of an aligned pool are disjoint, aligned, and inside the zone they are cut from.
  \<^item> \<open>ByteOrder\<close>, \<open>inc/ix/byteorder.h\<close>: swaps, and loads and stores at offsets of a packet.

  \<^bold>\<open>Flash.\<close>
  \<^item> \<open>SwQueue\<close>, \<open>nvme/nvme_sw_queue.c\<close>: the interface \<open>bounded_fifo\<close>; the ring with wrapping indices is an
    instance, and its token demand is the sum of the costs queued.
  \<^item> \<open>NvmeState\<close>, \<open>NvmeFlow\<close>, \<open>NvmeIo\<close>, \<open>NvmeSched\<close>: the state and the functions of
    \<open>nvme/nvmedev.c\<close>, in its order.
  \<^item> \<open>NvmeAdmission\<close>: the token rate is monotone in the latency, and a flow is
    admitted only if the reservations fit the rate of the strictest objective.
  \<^item> \<open>NvmeTenants\<close>: flow table, bitmap, tenant list and counters stay consistent over
    registration and unregistration.
  \<^item> \<open>NvmeServe\<close>, \<open>NvmeRounds\<close>: the loops of the scheduler against abstract rules on the
    lists of requests; a round returns and submits a prefix of every queue in order, debts are
    bounded, and tokens are conserved.
  \<^item> \<open>NvmeRequests\<close>: what a vectored request queues, the pages its scatter list enumerates, and that
    every completion reaches the application once, in order.

  \<^bold>\<open>Time.\<close>
  \<^item> \<open>TimerWheel\<close>, \<open>core/timer.c\<close>, \<open>core/utimer.c\<close>: the hierarchical wheel on the heap of \<open>IxList\<close>.
  \<^item> \<open>TimerProps\<close>: the slot of a timer against a reference, insertion and cascading keep
    every timer, and \<open>timer_run\<close> runs exactly those that are due.

  \<^bold>\<open>Network.\<close>
  \<^item> \<open>Checksum\<close>, \<open>inc/arch/chksum.h\<close>, \<open>lwip/inet_chksum.c\<close>: the portable and the assembler routine
    and lwIP's three algorithms compute one function, also over chains and with a pseudo header.
  \<^item> \<open>NetState\<close>, \<open>Arp\<close>, \<open>IpStack\<close>: \<open>core/mbuf.c\<close>, \<open>inc/ix/hash.h\<close>, the run lists of \<open>core/cpu.c\<close>,
    \<open>net/arp.c\<close>, \<open>net/ip.c\<close>, \<open>net/icmp.c\<close>.
  \<^item> \<open>NetProps\<close>: every packet is answered or freed, exactly once; two hosts resolve each
    other; packets that wait for an address are sent in order; echo replies.
  \<^item> \<open>Ip4Addr\<close>, \<open>lwip/ip4_addr.c\<close>: addresses as text, masks, broadcast addresses.
  \<^item> \<open>Pbuf\<close>, \<open>lwip/pbuf.c\<close>, \<open>inc/lwip/memp.h\<close>, \<open>lwip/misc.c\<close>: chains of buffers with reference counts, payloads in
    a byte memory.
  \<^item> \<open>PbufProps\<close>: the invariant of the lengths, what each operation does to the bytes of a packet,
    which buffers \<open>pbuf_free\<close> gives back.

  \<^bold>\<open>Loops and bounds.\<close>  Loops over an index or a list are structural recursions on it, loops on a
  number that shrinks are \<open>function\<close>s with a measure.  Loops that may run forever on a state that
  is not well formed have fuel, and running out of it is \<open>None\<close>: the traversals of
  \<open>IxList\<close> (the length of the list suffices), the loops that serve a queue (the number of queued requests), the search for the next
  tenant (the number of tenants), the population of an aligned pool (the number of its objects), the loops of the
  timing wheel (the number of timers of a bucket and of slots to run).  The loops over the \<open>next\<close> pointers of
  \<open>pbuf.c\<close> are \<open>partial_function\<close>s.  In each case the theorems state that the loop returns.

  \<^bold>\<open>Not modelled.\<close>  The calls that only set up DPDK, SPDK, PCI devices and threads; the parsers of
  \<open>core/cfg.c\<close> over libconfig, whose results are fields of the model's configurations; statistics, logging and
  printing; the shared memory of the control plane; UDP, which is not compiled; the applications,
  which are clients of the descriptor arrays.  Concurrency enters where cores share data: the token bucket is
  updated by atomic operations that other cores may interleave, and functions are sent to other
  cores by run lists; the remaining state is local to a core.
\<close>

end
